(* ===== verification/Prelude.thy ===== *)
theory Prelude
  imports Complex_Main "HOL-Library.Log_Nat"
begin

section \<open>Prelude: results, shared lemmas and rule collections\<close>

text \<open>
  What every component theory shares: the result type of a TypeScript function that may throw
  (\<open>'e + 'a\<close>, the thrown error on the left), its sequencing \<open>rbind\<close>, the traversal
  \<open>rmap\<close> of a list by a function that may throw, and generic lemmas about lists and sums.
\<close>

named_theorems result_simps
named_theorems result_splits

type_synonym ('e, 'a) result = "'e + 'a"

subsection \<open>Sequencing computations that may throw\<close>

fun rbind :: "'e + 'a \<Rightarrow> ('a \<Rightarrow> 'e + 'b) \<Rightarrow> 'e + 'b" where
  "rbind (Inl e) f = Inl e"
| "rbind (Inr x) f = f x"

lemma rbind_Inr_iff [result_simps]: "rbind m f = Inr y \<longleftrightarrow> (\<exists>x. m = Inr x \<and> f x = Inr y)"
  by (cases m) auto

lemma rbind_Inl_iff [result_simps]:
  "rbind m f = Inl e \<longleftrightarrow> m = Inl e \<or> (\<exists>x. m = Inr x \<and> f x = Inl e)"
  by (cases m) auto

lemma map_sum_Inr_iff [result_simps]: "map_sum f g m = Inr y \<longleftrightarrow> (\<exists>x. m = Inr x \<and> y = g x)"
  by (cases m) auto

lemma map_sum_Inl_iff [result_simps]: "map_sum f g m = Inl e \<longleftrightarrow> (\<exists>x. m = Inl x \<and> e = f x)"
  by (cases m) auto

lemma rbind_assoc [simp]: "rbind (rbind m f) g = rbind m (\<lambda>x. rbind (f x) g)"
  by (cases m) auto

text \<open>A list mapped left to right by a function that may throw: the first error ends it.\<close>

fun rmap :: "('a \<Rightarrow> 'e + 'b) \<Rightarrow> 'a list \<Rightarrow> 'e + 'b list" where
  "rmap f [] = Inr []"
| "rmap f (x # xs) = rbind (f x) (\<lambda>y. rbind (rmap f xs) (\<lambda>ys. Inr (y # ys)))"

lemma rmap_cong_Inr: "(\<And>x. x \<in> set xs \<Longrightarrow> f x = Inr (g x)) \<Longrightarrow> rmap f xs = Inr (map g xs)"
  by (induction xs) auto

lemma rmap_Inr_length: "rmap f xs = Inr ys \<Longrightarrow> length ys = length xs"
  by (induction xs arbitrary: ys) (auto simp: result_simps)

lemma rmap_Inr_map: "rmap f xs = Inr ys \<Longrightarrow> map Inr ys = map f xs"
  by (induction xs arbitrary: ys) (auto simp: result_simps)

lemma rmap_append:
  "rmap f (xs @ ys) = rbind (rmap f xs) (\<lambda>us. rbind (rmap f ys) (\<lambda>vs. Inr (us @ vs)))"
proof (induction xs)
  case Nil
  show ?case by (cases "rmap f ys") auto
next
  case (Cons x xs)
  show ?case
    by (cases "f x"; cases "rmap f xs"; cases "rmap f ys") (auto simp: Cons.IH)
qed

subsection \<open>Sums over lists\<close>

lemma sum_list_filter_split:
  fixes f :: "'a \<Rightarrow> int"
  shows "sum_list (map f xs) =
    sum_list (map f (filter P xs)) + sum_list (map f (filter (\<lambda>x. \<not> P x) xs))"
  by (induction xs) auto

lemma abs_sum_list_le:
  fixes xs :: "int list"
  assumes "\<And>x. x \<in> set xs \<Longrightarrow> \<bar>x\<bar> \<le> b"
  shows "\<bar>sum_list xs\<bar> \<le> int (length xs) * b"
  using assms
proof (induction xs)
  case Nil
  then show ?case by simp
next
  case (Cons x xs)
  then have "\<bar>x\<bar> \<le> b" and "\<bar>sum_list xs\<bar> \<le> int (length xs) * b" by auto
  then show ?case by (simp add: algebra_simps)
qed

lemma sum_list_update_add:
  fixes xs :: "int list"
  assumes "i < length xs"
  shows "sum_list (xs[i := xs ! i + d]) = sum_list xs + d"
  using assms
proof (induction xs arbitrary: i)
  case (Cons x xs)
  then show ?case by (cases i) auto
qed simp

subsection \<open>Absent values\<close>

lemma option_all_set: "(\<forall>x. o' = Some x \<longrightarrow> P x) \<longleftrightarrow> (case o' of None \<Rightarrow> True | Some x \<Rightarrow> P x)"
  by (cases o') auto

subsection \<open>Columns and rows of the database\<close>

text \<open>An \<open>INTEGER\<close> column holds 32 bits; a wider value is refused, never wrapped.\<close>

definition int4 :: "int \<Rightarrow> bool" where
  "int4 n \<longleftrightarrow> - (2 ^ 31) \<le> n \<and> n < 2 ^ 31"

text \<open>\<open>btrim\<close> of the database strips spaces only.\<close>

definition btrim :: "string \<Rightarrow> string" where
  "btrim s = rev (dropWhile ((=) CHR '' '') (rev (dropWhile ((=) CHR '' '') s)))"

lemma find_distinct:
  assumes "distinct (map f xs)" "x \<in> set xs" "f x = k"
  shows "find (\<lambda>y. f y = k) xs = Some x"
  using assms by (induction xs) auto

lemma distinct_map_unique: "distinct (map f xs) \<Longrightarrow> x \<in> set xs \<Longrightarrow> y \<in> set xs \<Longrightarrow> f x = f y \<Longrightarrow> x = y"
  by (auto simp: distinct_map dest: inj_onD)

lemma find_Some_mem: "find P xs = Some x \<Longrightarrow> x \<in> set xs \<and> P x"
  by (induction xs) (auto split: if_splits)

lemma find_None_all: "find P xs = None \<longleftrightarrow> (\<forall>x \<in> set xs. \<not> P x)"
  by (induction xs) auto

lemma find_None_notin: "find (\<lambda>y. f y = k) xs = None \<longleftrightarrow> k \<notin> f ` set xs"
  by (auto simp: find_None_all)

lemma find_map_key: "(\<And>x. k (g x) = k x) \<Longrightarrow> find (\<lambda>x. k x = j) (map g xs) = map_option g (find (\<lambda>x. k x = j) xs)"
  by (induction xs) auto

lemma find_append: "find P (xs @ ys) = (case find P xs of None \<Rightarrow> find P ys | Some x \<Rightarrow> Some x)"
  by (induction xs) auto

lemma find_filter_key: "find (\<lambda>y. k y = j) (filter (\<lambda>y. k y \<noteq> i) xs) = (if j = i then None else find (\<lambda>y. k y = j) xs)"
  by (induction xs) auto

lemma find_append_key: "find (\<lambda>y. k y = j) (xs @ [x]) = (case find (\<lambda>y. k y = j) xs of None \<Rightarrow> if k x = j then Some x else None | Some y \<Rightarrow> Some y)"
  by (induction xs) auto

lemma find_new:
  "i \<notin> f ` set xs \<Longrightarrow> f x = i \<Longrightarrow> P x \<Longrightarrow> find (\<lambda>y. f y = i \<and> P y) (xs @ [x]) = Some x"
  by (induction xs) auto

subsection \<open>Stateful computations that may throw\<close>

text \<open>
  An \<open>async\<close> method over the database: what it has written stays written when a later step throws,
  so the state is returned beside the outcome and not inside it.
\<close>

type_synonym ('s, 'e, 'a) action = "'s \<Rightarrow> ('e + 'a) \<times> 's"

definition done_with :: "'a \<Rightarrow> ('s, 'e, 'a) action" where
  "done_with x s = (Inr x, s)"

definition throw :: "'e \<Rightarrow> ('s, 'e, 'a) action" where
  "throw e s = (Inl e, s)"

definition await :: "('s, 'e, 'a) action \<Rightarrow> ('a \<Rightarrow> ('s, 'e, 'b) action) \<Rightarrow> ('s, 'e, 'b) action" where
  "await m f s = (case m s of (Inl e, s') \<Rightarrow> (Inl e, s') | (Inr x, s') \<Rightarrow> f x s')"

definition pure_step :: "'e + 'a \<Rightarrow> ('s, 'e, 'a) action" where
  "pure_step r s = (r, s)"

definition reading :: "('s \<Rightarrow> 'a) \<Rightarrow> ('s, 'e, 'a) action" where
  "reading f s = (Inr (f s), s)"

text \<open>One transaction: an error rolls it back.\<close>

definition atomically :: "('s \<Rightarrow> 'e + 's \<times> 'a) \<Rightarrow> ('s, 'e, 'a) action" where
  "atomically f s = (case f s of Inl e \<Rightarrow> (Inl e, s) | Inr (s', x) \<Rightarrow> (Inr x, s'))"

lemmas action_defs = done_with_def throw_def pure_step_def reading_def

lemma await_Inr_iff:
  "await m f s = (Inr y, s'') \<longleftrightarrow> (\<exists>x s'. m s = (Inr x, s') \<and> f x s' = (Inr y, s''))"
  by (auto simp: await_def split: prod.splits sum.splits)

lemma option_run:
  "(case x of None \<Rightarrow> a | Some y \<Rightarrow> b y) s = res \<longleftrightarrow> x = None \<and> a s = res \<or> (\<exists>y. x = Some y \<and> b y s = res)"
  by (cases x) auto

lemma if_run: "(if c then m else n) s = res \<longleftrightarrow> c \<and> m s = res \<or> \<not> c \<and> n s = res"
  by simp

text \<open>What every run of an action preserves, whether it ends in a value or in an error.\<close>

definition stable :: "('s \<Rightarrow> 's \<Rightarrow> bool) \<Rightarrow> ('s, 'e, 'a) action \<Rightarrow> bool" where
  "stable R m \<longleftrightarrow> (\<forall>s. R s (snd (m s)))"

lemma stableD: "stable R m \<Longrightarrow> R s (snd (m s))"
  by (simp add: stable_def)

lemma stable_run: "stable R m \<Longrightarrow> m s = (r, s') \<Longrightarrow> R s s'"
  by (auto simp: stable_def dest: spec [of _ s])

lemma stable_simple:
  assumes "reflp R"
  shows "stable R (done_with x)" "stable R (throw e)" "stable R (pure_step r)" "stable R (reading g)"
  using assms by (simp_all add: stable_def action_defs reflp_def)

lemma stable_await:
  assumes "transp R" "stable R m" "\<And>x. stable R (f x)"
  shows "stable R (await m f)"
  unfolding stable_def
proof
  fix s
  obtain r s' where m: "m s = (r, s')" by (cases "m s")
  then have "R s s'" using assms(2) by (auto simp: stable_def dest: spec [of _ s])
  moreover have "R s' (snd (f x s'))" for x using assms(3) by (simp add: stable_def)
  ultimately show "R s (snd (await m f s))"
    using assms(1) m by (cases r) (auto simp: await_def elim: transpE)
qed

lemma stable_if: "(b \<Longrightarrow> stable R m) \<Longrightarrow> (\<not> b \<Longrightarrow> stable R n) \<Longrightarrow> stable R (if b then m else n)"
  by simp

lemma stable_option:
  "stable R a \<Longrightarrow> (\<And>y. stable R (b y)) \<Longrightarrow> stable R (case x of None \<Rightarrow> a | Some y \<Rightarrow> b y)"
  by (cases x) auto

lemma stable_prod: "(\<And>x y. stable R (f x y)) \<Longrightarrow> stable R (case p of (x, y) \<Rightarrow> f x y)"
  by (cases p) auto

lemma stable_atomically:
  assumes "reflp R" "\<And>s s' x. f s = Inr (s', x) \<Longrightarrow> R s s'"
  shows "stable R (atomically f)"
  using assms by (auto simp: stable_def atomically_def reflp_def split: sum.splits prod.splits)

end
