(* ===== verification/Booking_State.thy ===== *)
theory Booking_State
  imports Prelude
begin

section \<open>The booking state machine\<close>

text \<open>
  The central transition table (\<^verbatim>\<open>apps/api/src/booking/booking-state-machine.ts\<close>) over the
  vocabulary of \<^verbatim>\<open>packages/contracts/src/booking.ts\<close>: twenty-three states, the table as data, the
  nine states that occupy a listing's calendar, and the check every writer performs before it moves
  a booking. \<open>moves\<close> is the step relation the table generates; its reflexive transitive closure is
  what a booking may ever become.
\<close>

subsection \<open>Vocabulary\<close>

datatype BookingState = DRAFT | ABANDONED | REQUESTED | ACCEPTED | AWAITING_PAYMENT | PAYMENT_FAILED
  | RESERVED | READY_FOR_COLLECTION | SECURITY_FAILED | NO_SHOW | COLLECTED | RETURN_DUE | LATE
  | RETURNED_PENDING_CONFIRMATION | COMPLETED | REVIEW_WINDOW | DISPUTED | REFUNDED
  | PARTIALLY_REFUNDED | DECLINED | EXPIRED | CANCELLED | CLOSED

definition BOOKING_STATES :: "BookingState list" where
  "BOOKING_STATES = [DRAFT, ABANDONED, REQUESTED, ACCEPTED, AWAITING_PAYMENT, PAYMENT_FAILED,
     RESERVED, READY_FOR_COLLECTION, SECURITY_FAILED, NO_SHOW, COLLECTED, RETURN_DUE, LATE,
     RETURNED_PENDING_CONFIRMATION, COMPLETED, REVIEW_WINDOW, DISPUTED, REFUNDED,
     PARTIALLY_REFUNDED, DECLINED, EXPIRED, CANCELLED, CLOSED]"

definition INITIAL_BOOKING_STATE :: BookingState where
  "INITIAL_BOOKING_STATE = DRAFT"

subsection \<open>The table\<close>

fun TRANSITIONS :: "BookingState \<Rightarrow> BookingState list" where
  "TRANSITIONS DRAFT = [REQUESTED, ABANDONED]"
| "TRANSITIONS ABANDONED = []"
| "TRANSITIONS REQUESTED = [ACCEPTED, DECLINED, EXPIRED, CANCELLED]"
| "TRANSITIONS ACCEPTED = [AWAITING_PAYMENT, RESERVED]"
| "TRANSITIONS AWAITING_PAYMENT = [RESERVED, PAYMENT_FAILED, EXPIRED]"
| "TRANSITIONS PAYMENT_FAILED = [AWAITING_PAYMENT, EXPIRED, CANCELLED]"
| "TRANSITIONS RESERVED = [READY_FOR_COLLECTION, CANCELLED, DISPUTED]"
| "TRANSITIONS READY_FOR_COLLECTION = [COLLECTED, NO_SHOW, CANCELLED, SECURITY_FAILED]"
| "TRANSITIONS SECURITY_FAILED = [READY_FOR_COLLECTION, CANCELLED, DISPUTED]"
| "TRANSITIONS NO_SHOW = [CANCELLED, DISPUTED, CLOSED]"
| "TRANSITIONS COLLECTED = [RETURN_DUE, RETURNED_PENDING_CONFIRMATION, DISPUTED]"
| "TRANSITIONS RETURN_DUE = [RETURNED_PENDING_CONFIRMATION, LATE]"
| "TRANSITIONS LATE = [RETURNED_PENDING_CONFIRMATION, DISPUTED]"
| "TRANSITIONS RETURNED_PENDING_CONFIRMATION = [COMPLETED, DISPUTED]"
| "TRANSITIONS COMPLETED = [REVIEW_WINDOW]"
| "TRANSITIONS REVIEW_WINDOW = [CLOSED]"
| "TRANSITIONS DISPUTED = [COMPLETED, REFUNDED, PARTIALLY_REFUNDED, CLOSED]"
| "TRANSITIONS REFUNDED = [CLOSED]"
| "TRANSITIONS PARTIALLY_REFUNDED = [CLOSED]"
| "TRANSITIONS DECLINED = [CLOSED]"
| "TRANSITIONS EXPIRED = [CLOSED]"
| "TRANSITIONS CANCELLED = [CLOSED]"
| "TRANSITIONS CLOSED = []"

definition CALENDAR_OCCUPYING_STATES :: "BookingState list" where
  "CALENDAR_OCCUPYING_STATES = [ACCEPTED, AWAITING_PAYMENT, PAYMENT_FAILED, RESERVED,
     READY_FOR_COLLECTION, SECURITY_FAILED, COLLECTED, RETURN_DUE, LATE]"

definition occupiesCalendar :: "BookingState \<Rightarrow> bool" where
  "occupiesCalendar state \<longleftrightarrow> state \<in> set CALENDAR_OCCUPYING_STATES"

definition TERMINAL_STATES :: "BookingState list" where
  "TERMINAL_STATES = filter (\<lambda>state. length (TRANSITIONS state) = 0) BOOKING_STATES"

definition isTerminal :: "BookingState \<Rightarrow> bool" where
  "isTerminal state \<longleftrightarrow> length (TRANSITIONS state) = 0"

definition canTransition :: "BookingState \<Rightarrow> BookingState \<Rightarrow> bool" where
  "canTransition from to \<longleftrightarrow> to \<in> set (TRANSITIONS from)"

datatype InvalidBookingTransitionError = InvalidBookingTransition BookingState BookingState

definition assertTransition :: "BookingState \<Rightarrow> BookingState \<Rightarrow> InvalidBookingTransitionError + BookingState" where
  "assertTransition from to =
    (if \<not> canTransition from to then Inl (InvalidBookingTransition from to) else Inr to)"

subsection \<open>The step relation\<close>

inductive moves :: "BookingState \<Rightarrow> BookingState \<Rightarrow> bool" where
  move: "canTransition s t \<Longrightarrow> moves s t"

inductive_simps moves_iff: "moves s t"

lemma assertTransition_iff [simp]: "assertTransition s t = Inr u \<longleftrightarrow> canTransition s t \<and> u = t"
  by (auto simp: assertTransition_def)

lemma BOOKING_STATES_all: "s \<in> set BOOKING_STATES"
  by (cases s) (simp_all add: BOOKING_STATES_def)

lemma all_states: "(\<forall>s. P s) \<longleftrightarrow> list_all P BOOKING_STATES"
  using BOOKING_STATES_all by (auto simp: list_all_iff)

text \<open>A set of states closed under the table contains everything reachable from its members.\<close>

definition closed_under :: "BookingState list \<Rightarrow> bool" where
  "closed_under S = list_all (\<lambda>s. list_all (\<lambda>t. t \<in> set S) (TRANSITIONS s)) S"

lemma closed_under_moves:
  assumes "moves\<^sup>*\<^sup>* s t" "closed_under S" "s \<in> set S"
  shows "t \<in> set S"
  using assms by (induction rule: rtranclp_induct)
    (auto simp: closed_under_def list_all_iff canTransition_def moves_iff)

text \<open>The states from the hand-over of the item onwards.\<close>

definition after_collection :: "BookingState list" where
  "after_collection = [COLLECTED, RETURN_DUE, LATE, RETURNED_PENDING_CONFIRMATION, COMPLETED,
     REVIEW_WINDOW, DISPUTED, REFUNDED, PARTIALLY_REFUNDED, CLOSED]"

definition off_calendar :: "BookingState list" where
  "off_calendar = [ABANDONED, NO_SHOW, RETURNED_PENDING_CONFIRMATION, COMPLETED, REVIEW_WINDOW, DISPUTED,
     REFUNDED, PARTIALLY_REFUNDED, DECLINED, EXPIRED, CANCELLED, CLOSED]"

text \<open>A path to an end for every state: the route the normal outcome takes.\<close>

fun towards_end :: "BookingState \<Rightarrow> BookingState" where
  "towards_end DRAFT = ABANDONED"
| "towards_end REQUESTED = DECLINED"
| "towards_end ACCEPTED = RESERVED"
| "towards_end AWAITING_PAYMENT = EXPIRED"
| "towards_end PAYMENT_FAILED = CANCELLED"
| "towards_end RESERVED = CANCELLED"
| "towards_end READY_FOR_COLLECTION = CANCELLED"
| "towards_end SECURITY_FAILED = CANCELLED"
| "towards_end COLLECTED = DISPUTED"
| "towards_end RETURN_DUE = LATE"
| "towards_end LATE = DISPUTED"
| "towards_end RETURNED_PENDING_CONFIRMATION = DISPUTED"
| "towards_end COMPLETED = REVIEW_WINDOW"
| "towards_end s = CLOSED"

lemma towards_end_moves: "isTerminal s \<or> moves s (towards_end s)"
  by (cases s) (simp_all add: canTransition_def isTerminal_def moves_iff)

fun run_to_end :: "nat \<Rightarrow> BookingState \<Rightarrow> BookingState" where
  "run_to_end 0 s = s"
| "run_to_end (Suc n) s = (if isTerminal s then s else run_to_end n (towards_end s))"

lemma run_to_end_moves: "moves\<^sup>*\<^sup>* s (run_to_end n s)"
proof (induction n arbitrary: s)
  case (Suc n)
  then show ?case
    using towards_end_moves [of s] converse_rtranclp_into_rtranclp [of moves s] by (cases "isTerminal s") auto
qed simp

lemma run_to_end_terminal: "isTerminal (run_to_end 4 s)"
  by (cases s) (simp_all add: numeral_eq_Suc isTerminal_def)

lemma calendar_entry:
  "canTransition s t \<Longrightarrow> occupiesCalendar t \<Longrightarrow> occupiesCalendar s \<or> s = REQUESTED \<and> t = ACCEPTED"
  by (cases s) (auto simp: canTransition_def occupiesCalendar_def CALENDAR_OCCUPYING_STATES_def)

subsection \<open>Properties\<close>

text \<open>
The table has no dead ends and no unreachable rows: every state can be reached from the initial
  one, from every state a terminal state can be reached, and the terminal states are exactly ABANDONED
  and CLOSED.\<close>

theorem lifecycle_complete:
  "moves\<^sup>*\<^sup>* INITIAL_BOOKING_STATE s \<and> (\<exists>t. moves\<^sup>*\<^sup>* s t \<and> isTerminal t) \<and>
   (isTerminal s \<longleftrightarrow> s = ABANDONED \<or> s = CLOSED)"
proof (intro conjI)
  have step: "moves\<^sup>*\<^sup>* DRAFT t" if "moves\<^sup>*\<^sup>* DRAFT s" "canTransition s t" for s t
    using that moves.move rtranclp.rtrancl_into_rtrancl by metis
  have r: "moves\<^sup>*\<^sup>* DRAFT REQUESTED" by (rule step [of DRAFT]) (simp_all add: canTransition_def)
  have a: "moves\<^sup>*\<^sup>* DRAFT ACCEPTED" by (rule step [OF r]) (simp add: canTransition_def)
  have v: "moves\<^sup>*\<^sup>* DRAFT RESERVED" by (rule step [OF a]) (simp add: canTransition_def)
  have w: "moves\<^sup>*\<^sup>* DRAFT AWAITING_PAYMENT" by (rule step [OF a]) (simp add: canTransition_def)
  have y: "moves\<^sup>*\<^sup>* DRAFT READY_FOR_COLLECTION" by (rule step [OF v]) (simp add: canTransition_def)
  have c: "moves\<^sup>*\<^sup>* DRAFT COLLECTED" by (rule step [OF y]) (simp add: canTransition_def)
  have u: "moves\<^sup>*\<^sup>* DRAFT RETURN_DUE" by (rule step [OF c]) (simp add: canTransition_def)
  have p: "moves\<^sup>*\<^sup>* DRAFT RETURNED_PENDING_CONFIRMATION" by (rule step [OF c]) (simp add: canTransition_def)
  have m: "moves\<^sup>*\<^sup>* DRAFT COMPLETED" by (rule step [OF p]) (simp add: canTransition_def)
  have x: "moves\<^sup>*\<^sup>* DRAFT REVIEW_WINDOW" by (rule step [OF m]) (simp add: canTransition_def)
  have d: "moves\<^sup>*\<^sup>* DRAFT DISPUTED" by (rule step [OF p]) (simp add: canTransition_def)
  show "moves\<^sup>*\<^sup>* INITIAL_BOOKING_STATE s"
    unfolding INITIAL_BOOKING_STATE_def
    by (cases s) (simp_all add: r a v w y c u p m x d step [of DRAFT ABANDONED] step [OF r]
        step [OF w] step [OF y] step [OF u] step [OF d] step [OF x] canTransition_def)
  show "\<exists>t. moves\<^sup>*\<^sup>* s t \<and> isTerminal t"
    using run_to_end_moves run_to_end_terminal by blast
  show "isTerminal s \<longleftrightarrow> s = ABANDONED \<or> s = CLOSED"
    by (cases s) (simp_all add: isTerminal_def)
qed

text \<open>
Once the item has been handed over a booking can no longer be cancelled, declined or expired,
  however many further transitions are made, and it can never return to a state before the hand-over.\<close>

theorem no_cancellation_after_collection:
  assumes "moves\<^sup>*\<^sup>* COLLECTED s"
  shows "s \<in> set after_collection \<and> s \<noteq> CANCELLED \<and> s \<noteq> DECLINED \<and> s \<noteq> EXPIRED \<and> s \<noteq> RESERVED"
proof -
  have "closed_under after_collection" by code_simp
  with assms have "s \<in> set after_collection"
    by (rule closed_under_moves) (simp add: after_collection_def)
  then show ?thesis by (auto simp: after_collection_def)
qed

theorem no_cancellation_after_collection_witness:
  "CLOSED \<noteq> CANCELLED \<and> CLOSED \<in> set after_collection"
proof -
  have "moves COLLECTED DISPUTED" "moves DISPUTED CLOSED" by (simp_all add: canTransition_def moves_iff)
  then have "moves\<^sup>*\<^sup>* COLLECTED CLOSED" by (meson converse_rtranclp_into_rtranclp r_into_rtranclp)
  from no_cancellation_after_collection [OF this] show ?thesis by simp
qed

text \<open>
A booking takes dates on the calendar at one transition only, the acceptance of a request, and
  dates once given up are never taken again by the same booking.\<close>

theorem calendar_entered_once:
  "(canTransition s t \<and> \<not> occupiesCalendar s \<and> occupiesCalendar t \<longleftrightarrow> s = REQUESTED \<and> t = ACCEPTED) \<and>
   (occupiesCalendar s \<and> moves\<^sup>+\<^sup>+ s t \<and> \<not> occupiesCalendar t \<and> moves\<^sup>*\<^sup>* t u \<longrightarrow> \<not> occupiesCalendar u)"
proof (intro conjI impI)
  show "canTransition s t \<and> \<not> occupiesCalendar s \<and> occupiesCalendar t \<longleftrightarrow> s = REQUESTED \<and> t = ACCEPTED"
    by (cases s) (auto simp: canTransition_def occupiesCalendar_def CALENDAR_OCCUPYING_STATES_def)
next
  assume h: "occupiesCalendar s \<and> moves\<^sup>+\<^sup>+ s t \<and> \<not> occupiesCalendar t \<and> moves\<^sup>*\<^sup>* t u"
  have "closed_under (CALENDAR_OCCUPYING_STATES @ off_calendar)" by code_simp
  moreover have "moves\<^sup>*\<^sup>* s t" using h by (blast intro: tranclp_into_rtranclp)
  from this calculation have "t \<in> set (CALENDAR_OCCUPYING_STATES @ off_calendar)"
    by (rule closed_under_moves) (use h in \<open>auto simp: occupiesCalendar_def\<close>)
  with h have "t \<in> set off_calendar" by (simp add: occupiesCalendar_def)
  moreover have "closed_under off_calendar" by code_simp
  ultimately have "u \<in> set off_calendar" using h closed_under_moves [of t u] by blast
  then show "\<not> occupiesCalendar u"
    by (auto simp: off_calendar_def occupiesCalendar_def CALENDAR_OCCUPYING_STATES_def)
qed

theorem calendar_entered_once_witness:
  "\<not> occupiesCalendar CLOSED \<and> canTransition REQUESTED ACCEPTED"
proof -
  have "occupiesCalendar RESERVED" "moves\<^sup>+\<^sup>+ RESERVED CANCELLED" "\<not> occupiesCalendar CANCELLED" "moves\<^sup>*\<^sup>* CANCELLED CLOSED"
    by (auto simp: occupiesCalendar_def CALENDAR_OCCUPYING_STATES_def canTransition_def moves_iff
        intro!: tranclp.r_into_trancl)
  with calendar_entered_once [of RESERVED CANCELLED CLOSED] calendar_entered_once [of REQUESTED ACCEPTED CLOSED]
  show ?thesis by simp
qed

end
