(* ===== verification/Js_Number.thy ===== *)
theory Js_Number
  imports Prelude
begin

section \<open>JavaScript numbers: IEEE 754 binary64\<close>

text \<open>
  TypeScript's \<open>number\<close> is an IEEE 754 binary64 value. A finite one is modelled by the rational
  it denotes (both zeros are the rational 0), the others by \<open>Infinite\<close> (with its sign) and
  \<open>NaN\<close>. Every arithmetic operation of the language returns the exact result rounded to the
  nearest representable number, ties to even: \<open>fl\<close> below, with the subnormal range and
  \<open>to_number\<close> with the overflow to infinity.

  The lemmas give what the money code relies on: whole numbers up to \<open>2 ^ 53\<close> are exact
  (\<open>fl_int\<close>), nothing outside the safe range is rounded into it (\<open>fl_large\<close>), and the
  relative error of one operation is at most \<open>2 ^ -53\<close> (\<open>fl_rel\<close>). The locale
  \<open>safe_rounding\<close> states the first two as the interface that integer arithmetic guarded by
  \<open>Number.isSafeInteger\<close> needs; binary64 is its interpretation.
\<close>

datatype number = Finite rat | Infinite bool | NaN

definition ilog2 :: "rat \<Rightarrow> int" where
  "ilog2 x = (case quotient_of x of (p, q) \<Rightarrow>
     let k = bitlen p - bitlen q in if x < 2 powi k then k - 1 else k)"

definition round_even :: "rat \<Rightarrow> int" where
  "round_even x = (let f = \<lfloor>x\<rfloor>; d = x - of_int f in
     if d < 1 / 2 then f else if 1 / 2 < d then f + 1 else if even f then f else f + 1)"

definition ulp_exp :: "rat \<Rightarrow> int" where
  "ulp_exp x = max (ilog2 \<bar>x\<bar> - 52) (- 1074)"

definition fl :: "rat \<Rightarrow> rat" where
  "fl x = (if x = 0 then 0
     else of_int (round_even (x / 2 powi ulp_exp x)) * 2 powi ulp_exp x)"

definition binary64_limit :: rat where
  "binary64_limit = 2 ^ 1024"

definition to_number :: "rat \<Rightarrow> number" where
  "to_number x = (if \<bar>fl x\<bar> < binary64_limit then Finite (fl x) else Infinite (x < 0))"

definition safe_int :: "int \<Rightarrow> bool" where
  "safe_int n \<longleftrightarrow> \<bar>n\<bar> < 2 ^ 53"

subsection \<open>Rounding to an integer\<close>

lemma round_even_error: "\<bar>of_int (round_even x) - x\<bar> \<le> 1 / 2"
proof -
  have "of_int \<lfloor>x\<rfloor> \<le> x" and "x < of_int \<lfloor>x\<rfloor> + 1" by linarith+
  then show ?thesis unfolding round_even_def Let_def by (auto simp: abs_le_iff)
qed

lemma round_even_of_int [simp]: "round_even (of_int n) = n"
  by (simp add: round_even_def)

lemma round_even_ge: "of_int n \<le> x \<Longrightarrow> n \<le> round_even x"
proof -
  assume "of_int n \<le> x"
  then have "n \<le> \<lfloor>x\<rfloor>" by (simp add: le_floor_iff)
  then show ?thesis unfolding round_even_def Let_def by auto
qed

lemma round_even_le: "x \<le> of_int n \<Longrightarrow> round_even x \<le> n"
proof (cases "x = of_int n")
  case False
  assume "x \<le> of_int n"
  with False have "\<lfloor>x\<rfloor> < n" by (simp add: floor_less_iff)
  then show ?thesis unfolding round_even_def Let_def by auto
qed simp

subsection \<open>The binary exponent\<close>

lemma bitlen_pos_bounds:
  assumes "0 < (p :: int)"
  shows "2 powi (bitlen p - 1) \<le> (of_int p :: rat)" and "(of_int p :: rat) < 2 powi bitlen p"
proof -
  have b: "2 ^ nat (bitlen p - 1) \<le> p" "p < 2 ^ nat (bitlen p)"
    using bitlen_bounds [OF assms] by auto
  have pos: "0 < bitlen p"
  proof (rule ccontr)
    assume "\<not> 0 < bitlen p"
    with b(2) assms show False by simp
  qed
  from b(1) have "(of_int (2 ^ nat (bitlen p - 1)) :: rat) \<le> of_int p" by (simp only: of_int_le_iff)
  with pos show "2 powi (bitlen p - 1) \<le> (of_int p :: rat)" by (simp add: power_int_def)
  from b(2) have "(of_int p :: rat) < of_int (2 ^ nat (bitlen p))" by (simp only: of_int_less_iff)
  with pos show "(of_int p :: rat) < 2 powi bitlen p" by (simp add: power_int_def)
qed

lemma ilog2_bounds:
  assumes "0 < x"
  shows "2 powi ilog2 x \<le> x" and "x < 2 powi (ilog2 x + 1)"
proof -
  obtain p q where pq: "quotient_of x = (p, q)" by (cases "quotient_of x")
  have q: "0 < q" using quotient_of_denom_pos [OF pq] .
  have x: "x = of_int p / of_int q" using quotient_of_div [OF pq] .
  have p: "0 < p" using assms q unfolding x by (simp add: zero_less_divide_iff)
  define k where "k = bitlen p - bitlen q"
  have hi: "x < 2 powi (k + 1)"
  proof -
    have "x < 2 powi bitlen p / of_int q"
      unfolding x using q bitlen_pos_bounds(2) [OF p] by (simp add: divide_strict_right_mono)
    also have "\<dots> \<le> 2 powi bitlen p / 2 powi (bitlen q - 1)"
      using bitlen_pos_bounds(1) [OF q] by (intro divide_left_mono) (auto simp: q)
    also have "\<dots> = 2 powi (k + 1)"
      unfolding k_def by (subst power_int_diff [symmetric]) (auto simp: algebra_simps)
    finally show ?thesis .
  qed
  have lo: "2 powi (k - 1) \<le> x"
  proof -
    have "2 powi (k - 1) = 2 powi (bitlen p - 1) / (2 powi bitlen q :: rat)"
      unfolding k_def by (subst power_int_diff [symmetric]) (auto simp: algebra_simps)
    also have "\<dots> \<le> of_int p / 2 powi bitlen q"
      using bitlen_pos_bounds(1) [OF p] by (intro divide_right_mono) auto
    also have "\<dots> \<le> x"
      unfolding x using bitlen_pos_bounds(2) [OF q] p q by (intro divide_left_mono) auto
    finally show ?thesis .
  qed
  have "ilog2 x = (if x < 2 powi k then k - 1 else k)"
    by (simp add: ilog2_def pq k_def Let_def)
  with hi lo show "2 powi ilog2 x \<le> x" and "x < 2 powi (ilog2 x + 1)" by auto
qed

lemma ilog2_ge: "0 < x \<Longrightarrow> 2 powi k \<le> x \<Longrightarrow> k \<le> ilog2 x"
proof (rule ccontr)
  assume "0 < x" "2 powi k \<le> x" "\<not> k \<le> ilog2 x"
  then have "2 powi (ilog2 x + 1) \<le> (2 powi k :: rat)" by (intro power_int_increasing) auto
  with ilog2_bounds(2) [OF \<open>0 < x\<close>] \<open>2 powi k \<le> x\<close> show False by linarith
qed

lemma ilog2_less: "0 < x \<Longrightarrow> x < 2 powi k \<Longrightarrow> ilog2 x < k"
proof (rule ccontr)
  assume "0 < x" "x < 2 powi k" "\<not> ilog2 x < k"
  then have "2 powi k \<le> (2 powi ilog2 x :: rat)" by (intro power_int_increasing) auto
  with ilog2_bounds(1) [OF \<open>0 < x\<close>] \<open>x < 2 powi k\<close> show False by linarith
qed

subsection \<open>Rounding to binary64\<close>

lemma round_even_minus: "round_even (- x) = - round_even x"
proof (cases "of_int \<lfloor>x\<rfloor> = x")
  case True
  have "round_even (- x) = round_even (of_int (- \<lfloor>x\<rfloor>))" by (simp add: True)
  also have "\<dots> = - \<lfloor>x\<rfloor>" by (rule round_even_of_int)
  also have "\<lfloor>x\<rfloor> = round_even x" by (subst True [symmetric]) (simp only: round_even_of_int)
  finally show ?thesis .
next
  case False
  have "of_int \<lfloor>x\<rfloor> \<le> x" by simp
  with False have "of_int \<lfloor>x\<rfloor> < x" by linarith
  moreover have "x < of_int \<lfloor>x\<rfloor> + 1" by linarith
  ultimately have "\<lfloor>- x\<rfloor> = - \<lfloor>x\<rfloor> - 1" by (subst floor_eq_iff) auto
  then show ?thesis unfolding round_even_def Let_def by auto
qed

lemma ulp_exp_minus [simp]: "ulp_exp (- x) = ulp_exp x"
  by (simp add: ulp_exp_def)

lemma fl_minus [simp]: "fl (- x) = - fl x"
  by (simp add: fl_def round_even_minus)

lemma fl_0 [simp]: "fl 0 = 0"
  by (simp add: fl_def)

lemma fl_error: "\<bar>fl x - x\<bar> \<le> 2 powi ulp_exp x / 2"
proof (cases "x = 0")
  case False
  define u :: rat where "u = 2 powi ulp_exp x"
  have u: "0 < u" by (simp add: u_def)
  have "fl x - x = (of_int (round_even (x / u)) - x / u) * u"
    using False u by (simp add: fl_def u_def [symmetric] algebra_simps)
  then have "\<bar>fl x - x\<bar> = \<bar>of_int (round_even (x / u)) - x / u\<bar> * u"
    using u by (simp add: abs_mult)
  also have "\<dots> \<le> 1 / 2 * u" using round_even_error u by (intro mult_right_mono) auto
  finally show ?thesis by (simp add: u_def)
qed (simp add: fl_def)

lemma fl_abs_le: "\<bar>fl x\<bar> \<le> 2 * \<bar>x\<bar> + 1"
proof (cases "x = 0")
  case False
  then have x: "0 < \<bar>x\<bar>" by simp
  have "(2 :: rat) powi ulp_exp x \<le> \<bar>x\<bar> + 1"
  proof (cases "ulp_exp x = - 1074")
    case True
    have "(2 :: rat) powi (- 1074) \<le> 2 powi 0" by (rule power_int_increasing) auto
    with True show ?thesis by simp
  next
    case False
    then have "ulp_exp x \<le> ilog2 \<bar>x\<bar>" by (auto simp: ulp_exp_def max_def split: if_splits)
    then have "(2 :: rat) powi ulp_exp x \<le> 2 powi ilog2 \<bar>x\<bar>" by (intro power_int_increasing) auto
    with ilog2_bounds(1) [OF x] show ?thesis by linarith
  qed
  with fl_error [of x] show ?thesis by linarith
qed simp

lemma to_number_moderate: "\<bar>x\<bar> \<le> 2 ^ 64 \<Longrightarrow> to_number x = Finite (fl x)"
proof -
  assume "\<bar>x\<bar> \<le> 2 ^ 64"
  with fl_abs_le [of x] have "\<bar>fl x\<bar> \<le> 2 * 2 ^ 64 + 1" by linarith
  also have "\<dots> \<le> 2 ^ 128" by simp
  also have "\<dots> < binary64_limit" unfolding binary64_limit_def by (rule power_strict_increasing) auto
  finally show ?thesis by (simp add: to_number_def)
qed

lemma fl_exact:
  assumes "x = of_int m * 2 powi e" and "ulp_exp x \<le> e"
  shows "fl x = x"
proof (cases "x = 0")
  case False
  define u where "u = ulp_exp x"
  have "x / 2 powi u = of_int m * 2 powi (e - u)"
    by (subst assms(1)) (simp add: power_int_diff)
  also have "\<dots> = of_int (m * 2 ^ nat (e - u))"
    using assms(2) by (simp add: u_def power_int_def)
  finally have "round_even (x / 2 powi u) = m * 2 ^ nat (e - u)"
    by (simp only: round_even_of_int)
  then have "fl x = of_int m * 2 powi (e - u) * 2 powi u"
    using False assms(2) by (simp add: fl_def u_def power_int_def)
  then show ?thesis by (subst (2) assms(1)) (simp add: power_int_diff)
qed simp

lemma fl_int: "\<bar>n\<bar> \<le> 2 ^ 53 \<Longrightarrow> fl (of_int n) = of_int n"
proof (cases "n = 0 \<or> \<bar>n\<bar> = 2 ^ 53")
  case True
  then consider "n = 0" | "n = 1 * 2 ^ 53" | "n = - 1 * 2 ^ 53" by linarith
  then show ?thesis
  proof cases
    case 2
    have "ulp_exp (of_int n) \<le> 53"
    proof -
      have "ilog2 \<bar>of_int n\<bar> < 54" by (rule ilog2_less) (auto simp: 2 power_int_def)
      then show ?thesis by (simp add: ulp_exp_def)
    qed
    then show ?thesis by (intro fl_exact [where m = 1 and e = 53]) (auto simp: 2 power_int_def)
  next
    case 3
    have "ulp_exp (of_int n) \<le> 53"
    proof -
      have "ilog2 \<bar>of_int n\<bar> < 54" by (rule ilog2_less) (auto simp: 3 power_int_def)
      then show ?thesis by (simp add: ulp_exp_def)
    qed
    then show ?thesis by (intro fl_exact [where m = "-1" and e = 53]) (auto simp: 3 power_int_def)
  qed simp
next
  case False
  assume "\<bar>n\<bar> \<le> 2 ^ 53"
  with False have "\<bar>n\<bar> < 2 ^ 53" and "n \<noteq> 0" by auto
  then have "of_int \<bar>n\<bar> < (of_int (2 ^ 53) :: rat)" by (simp only: of_int_less_iff)
  with \<open>n \<noteq> 0\<close> have "ilog2 \<bar>of_int n\<bar> < 53" by (intro ilog2_less) (auto simp: power_int_def)
  then have "ulp_exp (of_int n) \<le> 0" by (simp add: ulp_exp_def)
  then show ?thesis by (intro fl_exact [where m = n and e = 0]) auto
qed

lemma fl_large_pos:
  assumes "2 ^ 53 \<le> x"
  shows "2 ^ 53 \<le> fl x"
proof -
  have x: "0 < x" using assms by (rule less_le_trans [rotated]) simp
  have l: "53 \<le> ilog2 x" using assms x by (intro ilog2_ge) (auto simp: power_int_def)
  then have u: "ulp_exp x = ilog2 x - 52" using x by (simp add: ulp_exp_def)
  have "of_int (2 ^ 52) = 2 powi ilog2 x / (2 powi ulp_exp x :: rat)"
    by (subst power_int_diff [symmetric]) (auto simp: u power_int_def)
  also have "\<dots> \<le> x / 2 powi ulp_exp x" using ilog2_bounds(1) [OF x] by (intro divide_right_mono) auto
  finally have "2 ^ 52 \<le> round_even (x / 2 powi ulp_exp x)" by (rule round_even_ge)
  then have "of_int (2 ^ 52) \<le> (of_int (round_even (x / 2 powi ulp_exp x)) :: rat)"
    by (simp only: of_int_le_iff)
  then have "2 ^ 52 * 2 powi ulp_exp x \<le> fl x"
    using x by (simp add: fl_def mult_right_mono)
  moreover have "(2 :: rat) powi 1 \<le> 2 powi ulp_exp x"
    using l u by (intro power_int_increasing) auto
  ultimately show ?thesis by simp
qed

lemma fl_large: "2 ^ 53 \<le> \<bar>x\<bar> \<Longrightarrow> 2 ^ 53 \<le> \<bar>fl x\<bar>"
  using fl_large_pos [of x] fl_large_pos [of "- x"] by (cases "0 \<le> x") auto

lemma fl_rel:
  assumes "2 powi (- 1022) \<le> \<bar>x\<bar>"
  shows "\<bar>fl x - x\<bar> \<le> \<bar>x\<bar> * 2 powi (- 53)"
proof -
  have x: "0 < \<bar>x\<bar>" by (rule less_le_trans [OF _ assms]) simp
  have "- 1022 \<le> ilog2 \<bar>x\<bar>" using assms x by (intro ilog2_ge)
  then have u: "ulp_exp x = ilog2 \<bar>x\<bar> - 52" by (simp add: ulp_exp_def)
  have "\<bar>fl x - x\<bar> \<le> 2 powi ulp_exp x / 2" by (rule fl_error)
  also have "\<dots> = 2 powi ilog2 \<bar>x\<bar> * 2 powi (- 53)"
    unfolding u by (simp add: power_int_diff power_int_minus)
  also have "\<dots> \<le> \<bar>x\<bar> * 2 powi (- 53)"
    using ilog2_bounds(1) [OF x] by (intro mult_right_mono) auto
  finally show ?thesis .
qed

lemma fl_factor:
  assumes "2 powi (- 1022) \<le> \<bar>x\<bar>"
  obtains d where "\<bar>d\<bar> \<le> 2 powi (- 53)" and "fl x = x * (1 + d)"
proof -
  have x: "0 < \<bar>x\<bar>" by (rule less_le_trans [OF _ assms]) simp
  define d where "d = (fl x - x) / x"
  have "\<bar>d\<bar> = \<bar>fl x - x\<bar> / \<bar>x\<bar>" by (simp add: d_def abs_divide)
  also have "\<dots> \<le> 2 powi (- 53)" using fl_rel [OF assms] x by (simp add: divide_le_eq mult.commute)
  finally have "\<bar>d\<bar> \<le> 2 powi (- 53)" .
  moreover have "fl x = x * (1 + d)" using x by (simp add: d_def field_simps)
  ultimately show ?thesis by (rule that)
qed

lemma normal_range: "1 / 2 ^ 64 \<le> \<bar>x :: rat\<bar> \<Longrightarrow> 2 powi (- 1022) \<le> \<bar>x\<bar>"
proof -
  assume x: "1 / 2 ^ 64 \<le> \<bar>x\<bar>"
  have "(2 :: rat) powi (- 1022) \<le> 2 powi (- 64)" by (rule power_int_increasing) auto
  also have "\<dots> = 1 / 2 ^ 64" by (simp add: power_int_def power_divide)
  finally show ?thesis using x by linarith
qed

lemma abs_leD: "\<bar>x :: rat\<bar> \<le> e \<Longrightarrow> x \<le> e \<and> - x \<le> e"
  by linarith

text \<open>Three successive roundings stay within \<open>2 ^ -51\<close> of the exact value.\<close>

lemma three_factors:
  fixes d1 d2 d3 :: rat
  assumes "\<bar>d1\<bar> \<le> 2 powi (- 53)" "\<bar>d2\<bar> \<le> 2 powi (- 53)" "\<bar>d3\<bar> \<le> 2 powi (- 53)"
  shows "\<bar>(1 + d1) * (1 + d2) * (1 + d3) - 1\<bar> \<le> 1 / 2 ^ 51"
proof -
  define e :: rat where "e = 1 / 2 ^ 53"
  have e: "2 powi (- 53) = e" by (simp add: e_def power_int_def power_divide)
  have b: "\<bar>d1\<bar> \<le> e" "\<bar>d2\<bar> \<le> e" "\<bar>d3\<bar> \<le> e" using assms unfolding e by auto
  have e0: "0 \<le> e" by (simp add: e_def)
  have m2: "\<bar>x * y\<bar> \<le> e * e" if "\<bar>x\<bar> \<le> e" "\<bar>y\<bar> \<le> e" for x y
    using that e0 by (simp add: abs_mult mult_mono)
  have m3: "\<bar>d1 * d2 * d3\<bar> \<le> e * e * e"
    using m2 [OF b(1,2)] b(3) e0 by (simp add: abs_mult mult_mono)
  have "(1 + d1) * (1 + d2) * (1 + d3) - 1 = d1 + d2 + d3 + d1 * d2 + d1 * d3 + d2 * d3 + d1 * d2 * d3"
    by (simp add: algebra_simps)
  then have "\<bar>(1 + d1) * (1 + d2) * (1 + d3) - 1\<bar> \<le> 3 * e + 3 * (e * e) + e * e * e"
    using b [THEN abs_leD] m2 [OF b(1,2), THEN abs_leD] m2 [OF b(1,3), THEN abs_leD]
      m2 [OF b(2,3), THEN abs_leD] m3 [THEN abs_leD]
    by (intro abs_leI) linarith+
  also have "\<dots> \<le> 1 / 2 ^ 51" by (simp add: e_def)
  finally show ?thesis .
qed

subsection \<open>Integer arithmetic guarded by a safe-integer check\<close>

text \<open>
  What a guarded integer operation needs of the rounding: whole numbers up to \<open>2 ^ 53\<close>
  are kept, and a result outside the safe range is not rounded into it.
\<close>

locale safe_rounding =
  fixes rnd :: "rat \<Rightarrow> rat"
  assumes rnd_int: "\<bar>n\<bar> \<le> 2 ^ 53 \<Longrightarrow> rnd (of_int n) = of_int n"
    and rnd_large: "2 ^ 53 \<le> \<bar>x\<bar> \<Longrightarrow> 2 ^ 53 \<le> \<bar>rnd x\<bar>"
begin

lemma guarded_exact:
  "rnd (of_int n) = of_int k \<and> safe_int k \<longleftrightarrow> k = n \<and> safe_int n"
proof (cases "safe_int n")
  case True
  then have "rnd (of_int n) = of_int n" by (intro rnd_int) (simp add: safe_int_def)
  with True show ?thesis by auto
next
  case False
  then have "(of_int (2 ^ 53) :: rat) \<le> of_int \<bar>n\<bar>" by (simp only: of_int_le_iff safe_int_def not_less)
  then have "2 ^ 53 \<le> \<bar>rnd (of_int n)\<bar>" by (intro rnd_large) simp
  moreover have "\<bar>of_int k :: rat\<bar> < 2 ^ 53" if "safe_int k"
  proof -
    from that have "(of_int \<bar>k\<bar> :: rat) < of_int (2 ^ 53)" by (simp only: of_int_less_iff safe_int_def)
    then show ?thesis by simp
  qed
  ultimately show ?thesis using False by force
qed

end

interpretation binary64: safe_rounding fl
  by unfold_locales (rule fl_int, assumption, rule fl_large, assumption)

subsection \<open>Rounding is monotone\<close>

lemma round_even_mono: "x \<le> y \<Longrightarrow> round_even x \<le> round_even y"
proof -
  assume xy: "x \<le> y"
  show ?thesis
  proof (cases "\<lfloor>x\<rfloor> = \<lfloor>y\<rfloor>")
    case True
    then have "x - of_int \<lfloor>x\<rfloor> \<le> y - of_int \<lfloor>y\<rfloor>" using xy by simp
    then show ?thesis using True unfolding round_even_def Let_def by (auto split: if_splits)
  next
    case False
    then have "\<lfloor>x\<rfloor> + 1 \<le> \<lfloor>y\<rfloor>" using floor_mono [OF xy] by simp
    moreover have "round_even x \<le> \<lfloor>x\<rfloor> + 1" by (simp add: round_even_def Let_def)
    moreover have "\<lfloor>y\<rfloor> \<le> round_even y" by (simp add: round_even_def Let_def)
    ultimately show ?thesis by linarith
  qed
qed

lemma ilog2_mono: "0 < x \<Longrightarrow> x \<le> y \<Longrightarrow> ilog2 x \<le> ilog2 y"
  using ilog2_bounds(1) [of x] by (intro ilog2_ge) auto

lemma fl_pos_mono:
  assumes "0 < x" "x \<le> y"
  shows "fl x \<le> fl y"
proof (cases "ulp_exp x = ulp_exp y")
  case True
  have "x / 2 powi ulp_exp y \<le> y / 2 powi ulp_exp y" using assms by (intro divide_right_mono) auto
  then have "(of_int (round_even (x / 2 powi ulp_exp y)) :: rat) \<le> of_int (round_even (y / 2 powi ulp_exp y))"
    using round_even_mono by simp
  then show ?thesis using assms True by (simp add: fl_def mult_right_mono)
next
  case False
  define k where "k = ilog2 y"
  have le: "ilog2 x \<le> k" using ilog2_mono [OF assms] by (simp add: k_def)
  then have lt: "ilog2 x < k" and ey: "ulp_exp y = k - 52" and ex: "ulp_exp x < k"
    using False assms by (auto simp: ulp_exp_def k_def max_def split: if_splits)
  have "x < 2 powi (ilog2 x + 1)" using ilog2_bounds [OF assms(1)] by simp
  also have "(2 :: rat) powi (ilog2 x + 1) \<le> 2 powi k" using lt by (intro power_int_increasing) auto
  finally have xk: "x \<le> 2 powi k" by simp
  have yk: "2 powi k \<le> y" unfolding k_def using assms by (intro ilog2_bounds) auto
  have whole: "(2 :: rat) powi (k - e) = of_int (2 ^ nat (k - e))" if "e \<le> k" for e
    using that by (simp add: power_int_def)
  have scale: "(2 :: rat) powi k / 2 powi e = 2 powi (k - e)" for e by (simp add: power_int_diff)
  have "x / 2 powi ulp_exp x \<le> of_int (2 ^ nat (k - ulp_exp x))"
    using divide_right_mono [OF xk, of "2 powi ulp_exp x"] ex unfolding scale by (simp add: whole)
  then have "(of_int (round_even (x / 2 powi ulp_exp x)) :: rat) \<le> 2 powi (k - ulp_exp x)"
    using ex by (simp only: whole less_imp_le of_int_le_iff round_even_le)
  then have "fl x \<le> 2 powi (k - ulp_exp x) * 2 powi ulp_exp x"
    using assms by (simp add: fl_def mult_right_mono)
  also have "\<dots> = 2 powi k" by (simp add: power_int_add [symmetric])
  also have "\<dots> = 2 powi (k - ulp_exp y) * 2 powi ulp_exp y" by (simp add: power_int_add [symmetric])
  also have "of_int (2 ^ nat (k - ulp_exp y)) \<le> y / 2 powi ulp_exp y"
    using divide_right_mono [OF yk, of "2 powi ulp_exp y"] ey unfolding scale by (simp add: whole)
  then have "(2 :: rat) powi (k - ulp_exp y) \<le> of_int (round_even (y / 2 powi ulp_exp y))"
    using ey by (subst whole) (auto simp del: of_int_power intro: round_even_ge)
  then have "2 powi (k - ulp_exp y) * 2 powi ulp_exp y \<le> fl y"
    using assms by (simp add: fl_def mult_right_mono)
  finally show ?thesis .
qed

lemma fl_nonneg: "0 \<le> x \<Longrightarrow> 0 \<le> fl x"
  using round_even_ge [of 0 "x / 2 powi ulp_exp x"] by (cases "x = 0") (auto simp: fl_def)

lemma fl_mono: "x \<le> y \<Longrightarrow> fl x \<le> fl y"
proof -
  assume xy: "x \<le> y"
  consider "0 < x" | "x \<le> 0" "0 \<le> y" | "y < 0" by linarith
  then show ?thesis
  proof cases
    case 1
    then show ?thesis using xy by (rule fl_pos_mono)
  next
    case 2
    then show ?thesis using fl_nonneg [of y] fl_nonneg [of "- x"] by simp
  next
    case 3
    then show ?thesis using xy fl_pos_mono [of "- y" "- x"] by simp
  qed
qed


end
