(* ===== verification/Js_Text.thy ===== *)
theory Js_Text
  imports Prelude
begin

section \<open>Strings: trimming, padding and decimal numerals\<close>

text \<open>
  The string operations of the language that the primitives use. A string is a list of code
  units below 256; \<open>is_space\<close> is JavaScript's white space within that range (tab to carriage
  return, space and the non-breaking space U+00A0). \<open>show_nat\<close> is \<open>String(n)\<close> of a
  non-negative integer, \<open>digits_value\<close> the integer a digit string denotes, and
  \<open>decimal_match\<close> the regular expression \<^verbatim>\<open>/^(-?)(\d+)(?:\.(\d+))?$/\<close> that both
  \<open>Money.fromMajor\<close> and \<open>Scaled.fromDecimalString\<close> apply.
\<close>

definition is_space :: "char \<Rightarrow> bool" where
  "is_space c \<longleftrightarrow> (let n = of_char c :: nat in 9 \<le> n \<and> n \<le> 13 \<or> n = 32 \<or> n = 160)"

definition trim :: "string \<Rightarrow> string" where
  "trim s = rev (dropWhile is_space (rev (dropWhile is_space s)))"

definition is_digit :: "char \<Rightarrow> bool" where
  "is_digit c \<longleftrightarrow> (let n = of_char c :: nat in 48 \<le> n \<and> n \<le> 57)"

definition digit_value :: "char \<Rightarrow> nat" where
  "digit_value c = of_char c - 48"

definition digit_char :: "nat \<Rightarrow> char" where
  "digit_char d = char_of (48 + d)"

fun digits_acc :: "nat \<Rightarrow> string \<Rightarrow> nat" where
  "digits_acc n [] = n"
| "digits_acc n (c # cs) = digits_acc (10 * n + digit_value c) cs"

definition digits_value :: "string \<Rightarrow> nat" where
  "digits_value = digits_acc 0"

fun show_nat :: "nat \<Rightarrow> string" where
  "show_nat n = (if n < 10 then [digit_char n] else show_nat (n div 10) @ [digit_char (n mod 10)])"

declare show_nat.simps [simp del]

definition padStart :: "nat \<Rightarrow> char \<Rightarrow> string \<Rightarrow> string" where
  "padStart n c s = replicate (n - length s) c @ s"

definition padEnd :: "nat \<Rightarrow> char \<Rightarrow> string \<Rightarrow> string" where
  "padEnd n c s = s @ replicate (n - length s) c"

definition decimal_match :: "string \<Rightarrow> (bool \<times> string \<times> string option) option" where
  "decimal_match s =
    (let (neg, r) = (case s of c # t \<Rightarrow> if c = CHR ''-'' then (True, t) else (False, s)
                             | [] \<Rightarrow> (False, s));
         w = takeWhile is_digit r
     in if w = [] then None
        else case dropWhile is_digit r of
               [] \<Rightarrow> Some (neg, w, None)
             | c # f \<Rightarrow> if c = CHR ''.'' \<and> f \<noteq> [] \<and> list_all is_digit f
                        then Some (neg, w, Some f) else None)"

subsection \<open>Digits\<close>

lemma digit_char_digit [simp]: "d < 10 \<Longrightarrow> is_digit (digit_char d)"
  by (simp add: is_digit_def digit_char_def Let_def)

lemma digit_value_char [simp]: "d < 10 \<Longrightarrow> digit_value (digit_char d) = d"
  by (simp add: digit_value_def digit_char_def)

lemma digit_value_less: "is_digit c \<Longrightarrow> digit_value c < 10"
  by (auto simp: is_digit_def digit_value_def Let_def)

lemma is_digit_not_space: "is_digit c \<Longrightarrow> \<not> is_space c"
  by (auto simp: is_digit_def is_space_def Let_def)

lemma digit_char_0: "digit_char 0 = CHR ''0''"
  by code_simp

lemma is_digit_0 [simp]: "is_digit CHR ''0''" and digit_value_0 [simp]: "digit_value CHR ''0'' = 0"
  using digit_char_digit [of 0] digit_value_char [of 0] by (simp_all add: digit_char_0)

lemma punctuation_not_digit [simp]: "\<not> is_digit CHR ''-''" "\<not> is_digit CHR ''.''"
  by (simp_all add: is_digit_def)

lemma punctuation_not_space [simp]: "\<not> is_space CHR ''-''" "\<not> is_space CHR ''.''"
  by (simp_all add: is_space_def)

lemma digits_acc_append: "digits_acc n (xs @ ys) = digits_acc (digits_acc n xs) ys"
  by (induction xs arbitrary: n) auto

lemma digits_acc_eq: "digits_acc n s = n * 10 ^ length s + digits_value s"
proof (induction s arbitrary: n rule: rev_induct)
  case Nil
  show ?case by (simp add: digits_value_def)
next
  case (snoc c s)
  have "digits_acc n (s @ [c]) = 10 * (n * 10 ^ length s + digits_value s) + digit_value c"
    by (simp add: digits_acc_append snoc.IH)
  also have "\<dots> = n * 10 ^ length (s @ [c]) + digits_value (s @ [c])"
    by (simp add: digits_value_def digits_acc_append algebra_simps)
  finally show ?case .
qed

lemma digits_value_append: "digits_value (xs @ ys) = digits_value xs * 10 ^ length ys + digits_value ys"
  using digits_acc_eq [of "digits_value xs" ys] by (simp add: digits_value_def digits_acc_append)

lemma digits_value_replicate_0 [simp]: "digits_value (replicate n CHR ''0'') = 0"
  by (induction n) (simp_all add: digits_value_def)

lemma digits_value_less: "list_all is_digit s \<Longrightarrow> digits_value s < 10 ^ length s"
proof (induction s rule: rev_induct)
  case Nil
  show ?case by (simp add: digits_value_def)
next
  case (snoc c s)
  then have "digits_value s + 1 \<le> 10 ^ length s" and "digit_value c < 10"
    by (auto intro: digit_value_less)
  then have "10 * digits_value s + digit_value c < 10 * 10 ^ length s" by linarith
  then show ?case by (simp add: digits_value_append) (simp add: digits_value_def)
qed

subsection \<open>Numerals printed and read back\<close>

lemma show_nat_digits: "list_all is_digit (show_nat n)"
proof (induction n rule: show_nat.induct)
  case (1 n)
  then show ?case by (subst show_nat.simps) auto
qed

lemma show_nat_nonempty [simp]: "show_nat n \<noteq> []"
  by (subst show_nat.simps) simp

lemma digits_value_show_nat [simp]: "digits_value (show_nat n) = n"
proof (induction n rule: show_nat.induct)
  case (1 n)
  show ?case
  proof (cases "n < 10")
    case True
    then show ?thesis by (subst show_nat.simps) (simp add: digits_value_def)
  next
    case False
    then have "digits_value (show_nat n) = digits_value (show_nat (n div 10)) * 10 + n mod 10"
      by (subst show_nat.simps) (simp add: digits_value_append, simp add: digits_value_def)
    with 1 False show ?thesis by simp
  qed
qed

lemma show_nat_inj: "show_nat m = show_nat n \<longleftrightarrow> m = n"
  by (metis digits_value_show_nat)

lemma length_show_nat: "n < 10 ^ k \<Longrightarrow> 0 < k \<Longrightarrow> length (show_nat n) \<le> k"
proof (induction n arbitrary: k rule: show_nat.induct)
  case (1 n)
  show ?case
  proof (cases "n < 10")
    case True
    with 1 show ?thesis by (subst show_nat.simps) simp
  next
    case False
    with 1 have "k \<noteq> 1" by auto
    with 1 obtain j where k: "k = Suc j" "0 < j" by (cases k) auto
    with 1 False have "length (show_nat (n div 10)) \<le> j" by (intro 1) auto
    with False k show ?thesis by (subst show_nat.simps) simp
  qed
qed

lemma padStart_digits: "list_all is_digit s \<Longrightarrow> list_all is_digit (padStart n CHR ''0'' s)"
  by (auto simp: padStart_def list_all_iff)

lemma padEnd_digits: "list_all is_digit s \<Longrightarrow> list_all is_digit (padEnd n CHR ''0'' s)"
  by (auto simp: padEnd_def list_all_iff)

lemma digits_value_padStart [simp]: "digits_value (padStart n CHR ''0'' s) = digits_value s"
  by (simp add: padStart_def digits_value_append)

lemma length_padStart [simp]: "length (padStart n c s) = max n (length s)"
  by (simp add: padStart_def)

lemma length_padEnd [simp]: "length (padEnd n c s) = max n (length s)"
  by (simp add: padEnd_def)

lemma padEnd_id: "n \<le> length s \<Longrightarrow> padEnd n c s = s"
  by (simp add: padEnd_def)

lemma digits_value_padEnd: "length s \<le> n \<Longrightarrow>
    digits_value (padEnd n CHR ''0'' s) = digits_value s * 10 ^ (n - length s)"
  by (simp add: padEnd_def digits_value_append)

subsection \<open>Trimming and matching what the printers produce\<close>

lemma dropWhile_hd: "s = [] \<or> \<not> P (hd s) \<Longrightarrow> dropWhile P s = s"
  by (cases s) auto

lemma trim_id: "s \<noteq> [] \<Longrightarrow> \<not> is_space (hd s) \<Longrightarrow> \<not> is_space (last s) \<Longrightarrow> trim s = s"
  by (simp add: trim_def dropWhile_hd hd_rev)

lemma trim_idem [simp]: "trim (trim s) = trim s"
proof -
  define d where "d = dropWhile is_space s"
  define e where "e = dropWhile is_space (rev d)"
  have "rev e = [] \<or> \<not> is_space (hd (rev e))"
  proof (cases "e = []")
    case False
    obtain u where "rev d = u @ e" unfolding e_def by (metis takeWhile_dropWhile_id)
    then have "d = rev e @ rev u" by (metis rev_append rev_rev_ident)
    with False have "hd d = hd (rev e)" and "d \<noteq> []" by auto
    then show ?thesis unfolding d_def by (metis hd_dropWhile)
  qed simp
  then have "dropWhile is_space (rev e) = rev e" by (rule dropWhile_hd)
  moreover have "dropWhile is_space e = e" by (simp add: e_def)
  ultimately show ?thesis by (simp add: trim_def d_def [symmetric] e_def [symmetric])
qed

lemma takeWhile_digits_append:
  "list_all is_digit w \<Longrightarrow> takeWhile is_digit (w @ CHR ''.'' # f) = w"
  "list_all is_digit w \<Longrightarrow> dropWhile is_digit (w @ CHR ''.'' # f) = CHR ''.'' # f"
  by (simp_all add: list_all_iff takeWhile_append2 dropWhile_append2)

lemma takeWhile_digits_all:
  "list_all is_digit w \<Longrightarrow> takeWhile is_digit w = w"
  "list_all is_digit w \<Longrightarrow> dropWhile is_digit w = []"
  by (simp_all add: list_all_iff takeWhile_eq_all_conv dropWhile_eq_Nil_conv)

lemma decimal_match_point:
  assumes "list_all is_digit w" "w \<noteq> []" "list_all is_digit f" "f \<noteq> []"
  shows "decimal_match ((if neg then ''-'' else '''') @ w @ CHR ''.'' # f) = Some (neg, w, Some f)"
proof -
  obtain c t where w: "w = c # t" using assms(2) by (cases w) auto
  with assms(1) have "c \<noteq> CHR ''-''" by auto
  moreover have "takeWhile is_digit (w @ CHR ''.'' # f) = w"
    and "dropWhile is_digit (w @ CHR ''.'' # f) = CHR ''.'' # f"
    using takeWhile_digits_append [OF assms(1)] by auto
  ultimately show ?thesis
    using assms w by (cases neg) (simp_all add: decimal_match_def Let_def)
qed

lemma decimal_match_whole:
  assumes "list_all is_digit w" "w \<noteq> []"
  shows "decimal_match ((if neg then ''-'' else '''') @ w) = Some (neg, w, None)"
proof -
  obtain c t where w: "w = c # t" using assms(2) by (cases w) auto
  with assms(1) have "c \<noteq> CHR ''-''" by auto
  with assms w show ?thesis
    by (cases neg) (simp_all add: decimal_match_def Let_def takeWhile_digits_all)
qed

lemma decimal_match_sound:
  assumes "decimal_match s = Some (neg, w, f)"
  shows "list_all is_digit w" and "w \<noteq> []"
    and "f = Some g \<Longrightarrow> g \<noteq> [] \<and> list_all is_digit g"
  using assms
  by (auto simp: decimal_match_def Let_def list_all_iff split: list.splits if_splits prod.splits
      dest: set_takeWhileD)

subsection \<open>Integers, joining and searching\<close>

definition show_int :: "int \<Rightarrow> string" where
  "show_int n = (if n < 0 then CHR ''-'' # show_nat (nat (- n)) else show_nat (nat n))"

text \<open>\<open>xs.join(sep)\<close> with a one-character separator.\<close>

fun join :: "char \<Rightarrow> string list \<Rightarrow> string" where
  "join c [] = []"
| "join c [x] = x"
| "join c (x # y # xs) = x @ c # join c (y # xs)"

definition str_includes :: "string \<Rightarrow> string \<Rightarrow> bool" where
  "str_includes s t \<longleftrightarrow> list_ex (\<lambda>i. take (length t) (drop i s) = t) [0..<Suc (length s)]"

definition str_startsWith :: "string \<Rightarrow> string \<Rightarrow> bool" where
  "str_startsWith s t \<longleftrightarrow> take (length t) s = t"

lemma show_nat_no_minus: "show_nat n \<noteq> CHR ''-'' # s"
  using show_nat_digits [of n] by auto

lemma show_int_inj: "show_int m = show_int n \<longleftrightarrow> m = n"
  using show_nat_no_minus by (auto simp: show_int_def show_nat_inj) (metis show_nat_no_minus)+

lemma show_int_chars: "c \<in> set (show_int n) \<Longrightarrow> is_digit c \<or> c = CHR ''-''"
  using show_nat_digits by (auto simp: show_int_def list_all_iff split: if_splits)

text \<open>Cutting at a separator that the first part does not contain is unambiguous.\<close>

lemma separator_split:
  assumes "c \<notin> set a" "c \<notin> set a'" "a @ c # b = a' @ c # b'"
  shows "a = a' \<and> b = b'"
proof -
  have "takeWhile (\<lambda>x. x \<noteq> c) (a @ c # b) = a" "takeWhile (\<lambda>x. x \<noteq> c) (a' @ c # b') = a'"
    using assms(1,2) by (auto simp: takeWhile_append takeWhile_eq_all_conv)
  with assms(3) have "a = a'" by metis
  with assms(3) show ?thesis by simp
qed

lemma join_eq_Nil: "join c xs = [] \<Longrightarrow> [] \<notin> set xs \<Longrightarrow> xs = []"
  by (cases "(c, xs)" rule: join.cases) auto

lemma join_inj:
  assumes "\<forall>x \<in> set xs. c \<notin> set x \<and> x \<noteq> []" "\<forall>y \<in> set ys. c \<notin> set y \<and> y \<noteq> []" "join c xs = join c ys"
  shows "xs = ys"
  using assms
proof (induction c xs arbitrary: ys rule: join.induct)
  case (1 c)
  then show ?case using join_eq_Nil [of c ys] by auto
next
  case (2 c x)
  then show ?case
    by (cases "(c, ys)" rule: join.cases) auto
next
  case (3 c x y xs)
  note prems = 3(2-) and IH = 3(1)
  show ?case
  proof (cases "(c, ys)" rule: join.cases)
    case (1 c')
    then show ?thesis using prems by auto
  next
    case (2 c' x')
    then show ?thesis using prems by auto
  next
    case (3 c' x' y' ys')
    then have e: "x @ c # join c (y # xs) = x' @ c # join c (y' # ys')" using prems(3) by simp
    have c: "c \<notin> set x" "c \<notin> set x'" using prems(1,2) 3 by simp_all
    have "x = x' \<and> join c (y # xs) = join c (y' # ys')" by (rule separator_split [OF c e])
    moreover have "\<forall>z \<in> set (y # xs). c \<notin> set z \<and> z \<noteq> []" "\<forall>z \<in> set (y' # ys'). c \<notin> set z \<and> z \<noteq> []"
      using prems(1,2) 3 by simp_all
    ultimately have "x = x' \<and> y # xs = y' # ys'" using IH by blast
    then show ?thesis using 3 by simp
  qed
qed

end
