(* ===== verification/Money.thy ===== *)
theory Money
  imports Js_Number Js_Text
begin

section \<open>The money primitive\<close>

text \<open>
  \<^verbatim>\<open>packages/core/src/money.ts\<close>: amounts are whole minor units with a currency code. Every
  operation of the source computes with binary64 numbers and ends in \<open>money\<close>, which refuses
  anything that is not a safe integer; the definitions keep that (\<open>to_number\<close> is the rounding
  of one floating-point operation), and the lemmas show that the guarded operations are exact
  integer arithmetic or an error, never a silently rounded amount.
\<close>

datatype CurrencyCode = GBP

fun MINOR_UNITS_PER_MAJOR :: "CurrencyCode \<Rightarrow> int" where
  "MINOR_UNITS_PER_MAJOR GBP = 100"

record Money =
  amount :: int
  currency :: CurrencyCode

datatype MoneyError = NotWholeMinorUnits | UnsafeAmount | UnparseableAmount | TooManyDecimals
  | CurrencyMismatch | NonFiniteMultiplier | NoRatios | BadRatios | RatiosSumToZero

datatype RoundingMode = HalfUp | Floor | Ceil

fun applyRounding :: "number \<Rightarrow> RoundingMode \<Rightarrow> number" where
  "applyRounding (Finite v) HalfUp = Finite (sgn v * of_int \<lfloor>\<bar>v\<bar> + 1 / 2\<rfloor>)"
| "applyRounding (Finite v) Floor = Finite (of_int \<lfloor>v\<rfloor>)"
| "applyRounding (Finite v) Ceil = Finite (of_int \<lceil>v\<rceil>)"
| "applyRounding v _ = v"

fun money :: "number \<Rightarrow> CurrencyCode \<Rightarrow> MoneyError + Money" where
  "money (Finite x) c =
     (if x \<noteq> of_int \<lfloor>x\<rfloor> then Inl NotWholeMinorUnits
      else if \<not> safe_int \<lfloor>x\<rfloor> then Inl UnsafeAmount
      else Inr \<lparr>amount = \<lfloor>x\<rfloor>, currency = c\<rparr>)"
| "money _ c = Inl NotWholeMinorUnits"

definition zero_money :: "CurrencyCode \<Rightarrow> Money" where
  "zero_money c = \<lparr>amount = 0, currency = c\<rparr>"

subsection \<open>Text\<close>

definition Number_digits :: "string \<Rightarrow> rat" where
  "Number_digits s = fl (of_nat (digits_value s))"

definition decimals_of :: "CurrencyCode \<Rightarrow> nat" where
  "decimals_of c = length (show_nat (nat (MINOR_UNITS_PER_MAJOR c))) - 1"

definition fromMajor :: "string \<Rightarrow> CurrencyCode \<Rightarrow> MoneyError + Money" where
  "fromMajor value c =
    (case decimal_match (trim value) of
       None \<Rightarrow> Inl UnparseableAmount
     | Some (neg, whole, rest) \<Rightarrow>
         let fraction = (case rest of None \<Rightarrow> '''' | Some f \<Rightarrow> f);
             scale = MINOR_UNITS_PER_MAJOR c;
             decimals = decimals_of c
         in if decimals < length fraction then Inl TooManyDecimals
            else let padded = padEnd decimals CHR ''0'' fraction;
                     minor = fl (fl (Number_digits whole * of_int scale)
                                 + Number_digits (if padded = '''' then ''0'' else padded))
                 in money (to_number (if neg then - minor else minor)) c)"

definition toMajorString :: "Money \<Rightarrow> string" where
  "toMajorString m =
    (let scale = MINOR_UNITS_PER_MAJOR (currency m);
         decimals = decimals_of (currency m);
         sign = (if amount m < 0 then ''-'' else '''');
         a = \<bar>amount m\<bar>;
         whole = \<lfloor>fl (of_int a / of_int scale)\<rfloor>;
         fraction = padStart decimals CHR ''0'' (show_nat (nat (a mod scale)))
     in sign @ show_nat (nat whole) @ CHR ''.'' # fraction)"

subsection \<open>Arithmetic\<close>

definition assertSameCurrency :: "Money \<Rightarrow> Money \<Rightarrow> MoneyError + unit" where
  "assertSameCurrency a b = (if currency a \<noteq> currency b then Inl CurrencyMismatch else Inr ())"

definition add :: "Money \<Rightarrow> Money \<Rightarrow> MoneyError + Money" where
  "add a b = rbind (assertSameCurrency a b) (\<lambda>_.
     money (to_number (of_int (amount a) + of_int (amount b))) (currency a))"

definition subtract :: "Money \<Rightarrow> Money \<Rightarrow> MoneyError + Money" where
  "subtract a b = rbind (assertSameCurrency a b) (\<lambda>_.
     money (to_number (of_int (amount a) - of_int (amount b))) (currency a))"

fun sum_onto :: "Money \<Rightarrow> Money list \<Rightarrow> MoneyError + Money" where
  "sum_onto acc [] = Inr acc"
| "sum_onto acc (v # vs) = rbind (add acc v) (\<lambda>acc'. sum_onto acc' vs)"

definition sum_money :: "Money list \<Rightarrow> CurrencyCode \<Rightarrow> MoneyError + Money" where
  "sum_money vs c = sum_onto (zero_money c) vs"

definition negate :: "Money \<Rightarrow> MoneyError + Money" where
  "negate m = money (Finite (- of_int (amount m))) (currency m)"

definition absolute :: "Money \<Rightarrow> MoneyError + Money" where
  "absolute m = money (Finite \<bar>of_int (amount m)\<bar>) (currency m)"

fun multiply :: "Money \<Rightarrow> number \<Rightarrow> RoundingMode \<Rightarrow> MoneyError + Money" where
  "multiply m (Finite f) mode =
     money (applyRounding (to_number (of_int (amount m) * f)) mode) (currency m)"
| "multiply m _ mode = Inl NonFiniteMultiplier"

fun number_div100 :: "number \<Rightarrow> number" where
  "number_div100 (Finite p) = to_number (p / 100)"
| "number_div100 v = v"

definition percentageOf :: "Money \<Rightarrow> number \<Rightarrow> RoundingMode \<Rightarrow> MoneyError + Money" where
  "percentageOf m percent mode = multiply m (number_div100 percent) mode"

subsection \<open>Comparison\<close>

definition compare_money :: "Money \<Rightarrow> Money \<Rightarrow> MoneyError + int" where
  "compare_money a b = rbind (assertSameCurrency a b) (\<lambda>_.
     Inr (if amount a < amount b then - 1 else if amount b < amount a then 1 else 0))"

definition equals :: "Money \<Rightarrow> Money \<Rightarrow> bool" where
  "equals a b \<longleftrightarrow> currency a = currency b \<and> amount a = amount b"

definition greaterThan :: "Money \<Rightarrow> Money \<Rightarrow> MoneyError + bool" where
  "greaterThan a b = rbind (compare_money a b) (\<lambda>c. Inr (c = 1))"

definition lessThan :: "Money \<Rightarrow> Money \<Rightarrow> MoneyError + bool" where
  "lessThan a b = rbind (compare_money a b) (\<lambda>c. Inr (c = - 1))"

definition isZero :: "Money \<Rightarrow> bool" where
  "isZero m \<longleftrightarrow> amount m = 0"

definition isNegative :: "Money \<Rightarrow> bool" where
  "isNegative m \<longleftrightarrow> amount m < 0"

definition isPositive :: "Money \<Rightarrow> bool" where
  "isPositive m \<longleftrightarrow> 0 < amount m"

definition maxOf :: "Money \<Rightarrow> Money \<Rightarrow> MoneyError + Money" where
  "maxOf a b = rbind (greaterThan a b) (\<lambda>g. Inr (if g then a else b))"

definition minOf :: "Money \<Rightarrow> Money \<Rightarrow> MoneyError + Money" where
  "minOf a b = rbind (lessThan a b) (\<lambda>l. Inr (if l then a else b))"

subsection \<open>Well-formed amounts\<close>

text \<open>What \<open>money\<close> guarantees of every value it constructs.\<close>

definition wf_money :: "Money \<Rightarrow> bool" where
  "wf_money m \<longleftrightarrow> safe_int (amount m)"

abbreviation pence :: "int \<Rightarrow> Money" where
  "pence n \<equiv> \<lparr>amount = n, currency = GBP\<rparr>"

lemma currency_GBP [simp]: "currency m = GBP"
  by (cases "currency m") auto

lemma Money_eq_iff: "(a :: Money) = b \<longleftrightarrow> amount a = amount b"
  by (cases a; cases b) (metis CurrencyCode.exhaust Money.select_convs(1))

lemma assertSameCurrency_ok [simp]: "assertSameCurrency a b = Inr ()"
  by (simp add: assertSameCurrency_def)

lemma money_wf: "money x c = Inr m \<Longrightarrow> wf_money m"
  by (cases x) (auto simp: wf_money_def split: if_splits)

lemma money_int: "money (Finite (of_int n)) c =
    (if safe_int n then Inr \<lparr>amount = n, currency = c\<rparr> else Inl UnsafeAmount)"
  by simp

lemma fl_unsafe_int: "2 ^ 53 \<le> \<bar>x\<bar> \<Longrightarrow> \<exists>n. fl x = of_int n \<and> \<not> safe_int n"
proof -
  assume x: "2 ^ 53 \<le> \<bar>x\<bar>"
  have pos: "0 < \<bar>x\<bar>" using x by (rule less_le_trans [rotated]) simp
  have "53 \<le> ilog2 \<bar>x\<bar>" using x pos by (intro ilog2_ge) (auto simp: power_int_def)
  then have u: "0 \<le> ulp_exp x" by (simp add: ulp_exp_def)
  define n where "n = round_even (x / 2 powi ulp_exp x) * 2 ^ nat (ulp_exp x)"
  have n: "fl x = of_int n" using pos u by (simp add: fl_def n_def power_int_def)
  have "(of_int (2 ^ 53) :: rat) \<le> of_int \<bar>n\<bar>" using fl_large [OF x] n by simp
  then have "\<not> safe_int n" by (simp only: of_int_le_iff safe_int_def not_less)
  with n show ?thesis by blast
qed

text \<open>One guarded floating-point operation on whole operands is the exact integer operation.\<close>

lemma money_to_number_int:
  "money (to_number (of_int n)) c =
    (if safe_int n then Inr \<lparr>amount = n, currency = c\<rparr>
     else if \<bar>fl (of_int n)\<bar> < binary64_limit then Inl UnsafeAmount else Inl NotWholeMinorUnits)"
proof (cases "safe_int n")
  case True
  then have fl: "fl (of_int n) = of_int n" by (intro fl_int) (simp add: safe_int_def)
  from True have "(of_int \<bar>n\<bar> :: rat) < of_int (2 ^ 53)" by (simp only: of_int_less_iff safe_int_def)
  also have "\<dots> < binary64_limit"
    unfolding binary64_limit_def of_int_power of_int_numeral by (rule power_strict_increasing) auto
  finally have "\<bar>fl (of_int n)\<bar> < binary64_limit" by (simp add: fl)
  with True show ?thesis by (simp add: to_number_def fl)
next
  case False
  then have "(of_int (2 ^ 53) :: rat) \<le> of_int \<bar>n\<bar>" by (simp only: of_int_le_iff safe_int_def not_less)
  then obtain k where "fl (of_int n) = of_int k" "\<not> safe_int k"
    using fl_unsafe_int [of "of_int n"] by auto
  with False show ?thesis by (simp add: to_number_def)
qed

subsection \<open>The guarded operations are exact\<close>

lemma add_eq: "add a b = money (to_number (of_int (amount a + amount b))) GBP"
  by (simp add: add_def)

lemma subtract_eq: "subtract a b = money (to_number (of_int (amount a - amount b))) GBP"
  by (simp add: subtract_def)

lemma add_exact: "safe_int (amount a + amount b) \<Longrightarrow> add a b = Inr (pence (amount a + amount b))"
  unfolding add_eq money_to_number_int by simp

lemma add_Inr_iff: "add a b = Inr m \<longleftrightarrow> safe_int (amount a + amount b) \<and> m = pence (amount a + amount b)"
  unfolding add_eq money_to_number_int by auto

lemma subtract_exact:
  "safe_int (amount a - amount b) \<Longrightarrow> subtract a b = Inr (pence (amount a - amount b))"
  unfolding subtract_eq money_to_number_int by simp

lemma subtract_Inr_iff:
  "subtract a b = Inr m \<longleftrightarrow> safe_int (amount a - amount b) \<and> m = pence (amount a - amount b)"
  unfolding subtract_eq money_to_number_int by auto

lemma sum_onto_amount: "sum_onto acc vs = Inr m \<Longrightarrow> amount m = amount acc + sum_list (map amount vs)"
  by (induction vs arbitrary: acc) (auto simp: result_simps add_Inr_iff)

lemma sum_money_amount: "sum_money vs c = Inr m \<Longrightarrow> amount m = sum_list (map amount vs)"
  using sum_onto_amount [of "zero_money c" vs m] by (simp add: sum_money_def zero_money_def)

lemma sum_onto_exact:
  "safe_int (\<bar>amount acc\<bar> + sum_list (map (\<lambda>v. \<bar>amount v\<bar>) vs)) \<Longrightarrow>
   sum_onto acc vs = Inr (pence (amount acc + sum_list (map amount vs)))"
proof (induction vs arbitrary: acc)
  case Nil
  then show ?case by (simp add: Money_eq_iff)
next
  case (Cons v vs)
  have nonneg: "0 \<le> sum_list (map (\<lambda>v. \<bar>amount v\<bar>) vs)" by (rule sum_list_nonneg) auto
  with Cons.prems have "safe_int (amount acc + amount v)"
    and rest: "safe_int (\<bar>amount (pence (amount acc + amount v))\<bar> + sum_list (map (\<lambda>v. \<bar>amount v\<bar>) vs))"
    by (auto simp: safe_int_def)
  then show ?case using Cons.IH [OF rest] by (simp add: add_exact algebra_simps)
qed

lemma sum_money_exact:
  "safe_int (sum_list (map (\<lambda>v. \<bar>amount v\<bar>) vs)) \<Longrightarrow>
   sum_money vs c = Inr (pence (sum_list (map amount vs)))"
  using sum_onto_exact [of "zero_money c" vs] by (simp add: sum_money_def zero_money_def)

lemma money_amount: "wf_money m \<Longrightarrow> money (Finite (of_int (amount m))) c = Inr m"
  by (simp add: wf_money_def Money_eq_iff)

lemma applyRounding_int: "applyRounding (Finite (of_int n)) mode = Finite (of_int n)"
proof (cases mode)
  case HalfUp
  have "\<lfloor>\<bar>of_int n\<bar> + 1 / 2 :: rat\<rfloor> = \<bar>n\<bar>" by (subst floor_eq_iff) simp
  then show ?thesis by (simp add: HalfUp sgn_if)
qed auto

lemma multiply_int:
  "multiply m (Finite (of_int k)) mode =
    (if safe_int (amount m * k) then Inr (pence (amount m * k))
     else if \<bar>fl (of_int (amount m * k))\<bar> < binary64_limit then Inl UnsafeAmount else Inl NotWholeMinorUnits)"
proof -
  have "applyRounding (to_number (of_int n)) mode = to_number (of_int n)" for n
  proof (cases "safe_int n")
    case True
    then have "fl (of_int n) = of_int n" by (intro fl_int) (simp add: safe_int_def)
    then show ?thesis by (simp add: to_number_def applyRounding_int)
  next
    case False
    then have "(of_int (2 ^ 53) :: rat) \<le> of_int \<bar>n\<bar>" by (simp only: of_int_le_iff safe_int_def not_less)
    then obtain k where "fl (of_int n) = of_int k" using fl_unsafe_int [of "of_int n"] by auto
    then show ?thesis by (simp add: to_number_def applyRounding_int)
  qed
  then show ?thesis by (simp only: multiply.simps of_int_mult [symmetric] money_to_number_int currency_GBP)
qed

lemma lessThan_eq [simp]: "lessThan a b = Inr (amount a < amount b)"
  by (simp add: lessThan_def compare_money_def)

lemma greaterThan_eq [simp]: "greaterThan a b = Inr (amount b < amount a)"
  by (simp add: greaterThan_def compare_money_def)

lemma maxOf_eq [simp]: "maxOf a b = Inr (pence (max (amount a) (amount b)))"
  by (auto simp: maxOf_def Money_eq_iff)

lemma minOf_eq [simp]: "minOf a b = Inr (pence (min (amount a) (amount b)))"
  by (auto simp: minOf_def Money_eq_iff)

lemmas money_exact = add_exact subtract_exact sum_money_exact multiply_int money_amount

subsection \<open>A percentage in basis points\<close>

definition half_up :: "rat \<Rightarrow> rat" where
  "half_up p = sgn p * of_int \<lfloor>\<bar>p\<bar> + 1 / 2\<rfloor>"

lemma half_up_int: "\<exists>r. half_up p = of_int r"
  by (cases p "0 :: rat" rule: linorder_cases)
    (auto simp: half_up_def intro: exI [of _ "\<lfloor>\<bar>p\<bar> + 1 / 2\<rfloor>"] exI [of _ "- \<lfloor>\<bar>p\<bar> + 1 / 2\<rfloor>"])

lemma half_up_error: "\<bar>half_up p - p\<bar> \<le> 1 / 2"
proof -
  define f where "f = \<lfloor>\<bar>p\<bar> + 1 / 2\<rfloor>"
  have f: "of_int f \<le> \<bar>p\<bar> + 1 / 2" "\<bar>p\<bar> + 1 / 2 < of_int f + 1" unfolding f_def by linarith+
  have h: "half_up p = sgn p * of_int f" by (simp only: half_up_def f_def)
  show ?thesis
  proof (cases p "0 :: rat" rule: linorder_cases)
    case less
    then have "half_up p = - of_int f" and "\<bar>p\<bar> = - p" by (simp_all add: h)
    with f show ?thesis by linarith
  next
    case greater
    then have "half_up p = of_int f" and "\<bar>p\<bar> = p" by (simp_all add: h)
    with f show ?thesis by linarith
  qed (simp add: half_up_def)
qed

lemma percentage_float_error:
  fixes a bp :: int
  assumes "0 \<le> bp"
  shows "\<bar>fl (of_int a * fl (fl (of_int bp / 100) / 100)) - of_int (a * bp) / 10000\<bar>
    \<le> \<bar>of_int (a * bp) / 10000\<bar> / 2 ^ 51"
proof (cases "bp = 0 \<or> a = 0")
  case False
  then have bp: "(1 :: rat) \<le> of_int bp" and a: "(1 :: rat) \<le> \<bar>of_int a\<bar>" using assms by auto
  have n1: "1 / 2 ^ 64 \<le> \<bar>of_int bp / 100 :: rat\<bar>" using bp by simp
  obtain d1 where d1: "\<bar>d1\<bar> \<le> 2 powi (- 53)" "fl (of_int bp / 100) = of_int bp / 100 * (1 + d1)"
    using fl_factor [OF normal_range [OF n1]] by blast
  have small: "(2 :: rat) powi (- 53) \<le> 1 / 2" by (simp add: power_int_def power_divide)
  have half: "1 / 2 \<le> 1 + d" if "\<bar>d\<bar> \<le> 2 powi (- 53)" for d :: rat using that small by linarith
  have f1: "1 / 200 \<le> fl (of_int bp / 100)"
    unfolding d1(2) using mult_mono [of "1 / 100" "of_int bp / 100" "1 / 2" "1 + d1"] half [OF d1(1)] bp by simp
  then have n2: "1 / 2 ^ 64 \<le> \<bar>fl (of_int bp / 100) / 100\<bar>" by simp
  obtain d2 where d2: "\<bar>d2\<bar> \<le> 2 powi (- 53)"
      "fl (fl (of_int bp / 100) / 100) = fl (of_int bp / 100) / 100 * (1 + d2)"
    using fl_factor [OF normal_range [OF n2]] by blast
  have f2: "1 / 40000 \<le> fl (fl (of_int bp / 100) / 100)"
    unfolding d2(2) using mult_mono [of "1 / 20000" "fl (of_int bp / 100) / 100" "1 / 2" "1 + d2"]
      half [OF d2(1)] f1 by simp
  then have n3: "1 / 2 ^ 64 \<le> \<bar>of_int a * fl (fl (of_int bp / 100) / 100)\<bar>"
    using mult_mono [of 1 "\<bar>of_int a\<bar>" "1 / 40000" "fl (fl (of_int bp / 100) / 100)"] a by (simp add: abs_mult)
  obtain d3 where d3: "\<bar>d3\<bar> \<le> 2 powi (- 53)"
      "fl (of_int a * fl (fl (of_int bp / 100) / 100)) = of_int a * fl (fl (of_int bp / 100) / 100) * (1 + d3)"
    using fl_factor [OF normal_range [OF n3]] by blast
  define q :: rat where "q = of_int (a * bp) / 10000"
  have "fl (of_int a * fl (fl (of_int bp / 100) / 100)) - q = q * ((1 + d1) * (1 + d2) * (1 + d3) - 1)"
    unfolding q_def by (subst d3(2), subst d2(2), subst d1(2)) (simp add: field_simps)
  then have "\<bar>fl (of_int a * fl (fl (of_int bp / 100) / 100)) - q\<bar>
      = \<bar>q\<bar> * \<bar>(1 + d1) * (1 + d2) * (1 + d3) - 1\<bar>" by (simp only: abs_mult)
  also have "\<dots> \<le> \<bar>q\<bar> * (1 / 2 ^ 51)"
    using three_factors [OF d1(1) d2(1) d3(1)] by (intro mult_left_mono) auto
  finally show ?thesis by (simp add: q_def)
qed auto

text \<open>
  A percentage given in basis points is a whole number of pence within half a penny of the
  exact percentage, for every amount up to \<open>2 ^ 37\<close> pence: the three roundings of
  \<open>amount * ((bp / 100) / 100)\<close> can move the result only where the exact value is a tie.
\<close>

lemma percentageOf_nearest:
  assumes bp: "0 \<le> bp" "bp \<le> 10000" and a: "\<bar>amount m\<bar> \<le> 2 ^ 37"
  shows "\<exists>r. percentageOf m (to_number (of_int bp / 100)) HalfUp = Inr (pence r) \<and>
    2 * \<bar>10000 * r - amount m * bp\<bar> \<le> 10000"
proof -
  define a where "a = amount m"
  define p where "p = fl (of_int a * fl (fl (of_int bp / 100) / 100))"
  define q :: rat where "q = of_int (a * bp) / 10000"
  have abp: "\<bar>a * bp\<bar> \<le> 2 ^ 37 * 10000"
    using assms mult_mono [of "\<bar>a\<bar>" "2 ^ 37" bp 10000] by (simp add: abs_mult a_def)
  then have "\<bar>of_int (a * bp) :: rat\<bar> \<le> of_int (2 ^ 37 * 10000)" by (simp only: of_int_abs [symmetric] of_int_le_iff)
  then have q: "\<bar>q\<bar> \<le> 2 ^ 37" by (simp add: q_def)
  have err: "\<bar>p - q\<bar> \<le> 1 / 2 ^ 14"
  proof -
    have "\<bar>p - q\<bar> \<le> \<bar>q\<bar> / 2 ^ 51" unfolding p_def q_def using percentage_float_error [OF bp(1)] .
    also have "\<dots> \<le> 2 ^ 37 / 2 ^ 51" using q by (intro divide_right_mono) auto
    also have "\<dots> = 1 / 2 ^ 14" by simp
    finally show ?thesis .
  qed
  obtain r where r: "half_up p = of_int r" using half_up_int by blast
  have "\<bar>of_int r - q\<bar> \<le> 1 / 2 + 1 / 2 ^ 14" using half_up_error [of p] err unfolding r by linarith
  then have "10000 * \<bar>of_int r - q\<bar> \<le> 5000 + 10000 / 2 ^ 14" by simp
  moreover have "(of_int (10000 * r - a * bp) :: rat) = 10000 * (of_int r - q)" by (simp add: q_def)
  ultimately have "\<bar>of_int (10000 * r - a * bp) :: rat\<bar> \<le> 5000 + 10000 / 2 ^ 14"
    by (simp only: abs_mult abs_numeral)
  also have "\<dots> < of_int 5001" by simp
  finally have "of_int \<bar>10000 * r - a * bp\<bar> < (of_int 5001 :: rat)" by (simp only: of_int_abs)
  then have near: "\<bar>10000 * r - a * bp\<bar> \<le> 5000" by (simp only: of_int_less_iff)
  have n1: "to_number (of_int bp / 100) = Finite (fl (of_int bp / 100))"
    using bp by (intro to_number_moderate) simp
  have f1: "\<bar>fl (of_int bp / 100) / 100 :: rat\<bar> \<le> 3"
    using fl_abs_le [of "of_int bp / 100"] bp by simp
  then have n2: "to_number (fl (of_int bp / 100) / 100) = Finite (fl (fl (of_int bp / 100) / 100))"
    by (intro to_number_moderate) simp
  have f2: "\<bar>fl (fl (of_int bp / 100) / 100)\<bar> \<le> 7"
    using fl_abs_le [of "fl (of_int bp / 100) / 100"] f1 by linarith
  have "\<bar>of_int a :: rat\<bar> \<le> of_int (2 ^ 37)" using assms(3) by (simp only: a_def of_int_abs [symmetric] of_int_le_iff)
  with f2 have "\<bar>of_int a * fl (fl (of_int bp / 100) / 100)\<bar> \<le> 2 ^ 37 * 7"
    unfolding abs_mult by (intro mult_mono) auto
  then have n3: "to_number (of_int a * fl (fl (of_int bp / 100) / 100)) = Finite p"
    unfolding p_def by (intro to_number_moderate) simp
  have "safe_int r" using near abp by (simp add: safe_int_def)
  moreover have "percentageOf m (to_number (of_int bp / 100)) HalfUp = money (Finite (half_up p)) GBP"
    by (simp add: percentageOf_def n1 n2 a_def [symmetric] n3 half_up_def)
  ultimately have "percentageOf m (to_number (of_int bp / 100)) HalfUp = Inr (pence r)"
    by (simp add: r)
  with near show ?thesis by (auto simp: a_def)
qed

lemma half_up_mono: "p \<le> q \<Longrightarrow> half_up p \<le> half_up q"
proof -
  assume pq: "p \<le> q"
  have sign: "0 \<le> x \<Longrightarrow> 0 \<le> half_up x" "x \<le> 0 \<Longrightarrow> half_up x \<le> 0" for x :: rat
    by (auto simp: half_up_def sgn_if)
  consider "0 < p" | "p \<le> 0" "0 \<le> q" | "q < 0" by linarith
  then show ?thesis
  proof cases
    case 1
    then show ?thesis using pq by (simp add: half_up_def floor_mono)
  next
    case 2
    then show ?thesis using sign(1) [of q] sign(2) [of p] by linarith
  next
    case 3
    then show ?thesis using pq by (simp add: half_up_def floor_mono)
  qed
qed

lemma multiply_Inr:
  "multiply m (Finite f) HalfUp = Inr r \<Longrightarrow> of_int (amount r) = half_up (fl (of_int (amount m) * f))"
  by (auto simp: to_number_def half_up_def split: if_splits)

lemma multiply_mono:
  assumes "0 \<le> amount m" "f \<le> g" "multiply m (Finite f) HalfUp = Inr a" "multiply m (Finite g) HalfUp = Inr b"
  shows "amount a \<le> amount b"
proof -
  have "of_int (amount m) * f \<le> of_int (amount m) * g" using assms(1,2) by (intro mult_left_mono) auto
  then have "(of_int (amount a) :: rat) \<le> of_int (amount b)"
    unfolding multiply_Inr [OF assms(3)] multiply_Inr [OF assms(4)] by (intro half_up_mono fl_mono)
  then show ?thesis by simp
qed

lemma multiply_bounded:
  assumes "\<bar>amount m\<bar> \<le> 2 ^ 42" "\<bar>f\<bar> \<le> 4"
  shows "\<exists>r. multiply m (Finite f) HalfUp = Inr (pence r) \<and> \<bar>r\<bar> \<le> 8 * \<bar>amount m\<bar> + 2"
proof -
  define x where "x = of_int (amount m) * f"
  have m: "\<bar>of_int (amount m)\<bar> \<le> (2 ^ 42 :: rat)"
    using assms(1) by (metis of_int_abs of_int_le_iff of_int_numeral of_int_power)
  have x: "\<bar>x\<bar> \<le> \<bar>of_int (amount m)\<bar> * 4" unfolding x_def abs_mult using assms(2) by (intro mult_left_mono) auto
  then have "\<bar>x\<bar> \<le> 2 ^ 64" using m by simp
  then have n: "to_number x = Finite (fl x)" by (rule to_number_moderate)
  obtain r where r: "half_up (fl x) = of_int r" using half_up_int by blast
  have "\<bar>of_int r :: rat\<bar> \<le> \<bar>fl x\<bar> + 1 / 2" using half_up_error [of "fl x"] unfolding r by linarith
  also have "\<dots> \<le> 8 * \<bar>of_int (amount m)\<bar> + 3 / 2" using fl_abs_le [of x] x by linarith
  also have "\<dots> < of_int (8 * \<bar>amount m\<bar> + 2)" by simp
  finally have "of_int \<bar>r\<bar> < (of_int (8 * \<bar>amount m\<bar> + 2) :: rat)" by (simp only: of_int_abs)
  then have rb: "\<bar>r\<bar> \<le> 8 * \<bar>amount m\<bar> + 2" by (simp only: of_int_less_iff)
  moreover have "safe_int r" using rb assms(1) by (simp add: safe_int_def)
  moreover have "multiply m (Finite f) HalfUp = money (Finite (half_up (fl x))) GBP"
    by (simp add: x_def [symmetric] n half_up_def)
  ultimately show ?thesis by (intro exI [of _ r]) (simp add: r)
qed

subsection \<open>Printing and reading an amount\<close>

lemma decimals_of_GBP [simp]: "decimals_of GBP = 2"
  by (simp add: decimals_of_def show_nat.simps)

text \<open>
  The division by 100 is inexact, but for a safe amount it never rounds up to the next pound:
  the quotient is at least a hundredth below it and the error is below \<open>2 ^ -7\<close>.
\<close>

lemma floor_fl_div_100:
  assumes "0 \<le> a" "safe_int a"
  shows "\<lfloor>fl (of_int a / 100)\<rfloor> = a div 100"
proof (cases "a = 0")
  case False
  define k j where "k = a div 100" and "j = a mod 100"
  have a: "a = 100 * k + j" and j: "0 \<le> j" "j < 100" by (simp_all add: k_def j_def)
  define x :: rat where "x = of_int a / 100"
  have x: "x = of_int k + of_int j / 100" by (simp add: x_def a)
  have pos: "0 < \<bar>x\<bar>" using False by (simp add: x_def)
  have "(of_int a :: rat) < of_int (2 ^ 53)" using assms by (simp only: of_int_less_iff safe_int_def abs_of_nonneg)
  then have "\<bar>x\<bar> < 2 powi 47" using assms(1) by (simp add: x_def power_int_def)
  with pos have "ilog2 \<bar>x\<bar> < 47" by (rule ilog2_less)
  then have "(2 :: rat) powi ulp_exp x \<le> 2 powi (- 6)"
    by (intro power_int_increasing) (auto simp: ulp_exp_def)
  also have "\<dots> = 1 / 2 ^ 6" by (simp add: power_int_def power_divide)
  finally have err: "\<bar>fl x - x\<bar> \<le> 1 / 128" using fl_error [of x] by simp
  have "of_int k \<le> fl x"
  proof (cases "j = 0")
    case True
    with a assms have "\<bar>k\<bar> \<le> 2 ^ 53" by (simp add: safe_int_def)
    with True x show ?thesis by (simp add: fl_int)
  next
    case False
    with j have "(1 :: rat) \<le> of_int j" by simp
    with err x show ?thesis by linarith
  qed
  moreover have "fl x < of_int k + 1"
  proof -
    have "(of_int j :: rat) \<le> 99" using j by simp
    with err x show ?thesis by linarith
  qed
  ultimately have "\<lfloor>fl x\<rfloor> = k" by (simp add: floor_eq_iff)
  then show ?thesis by (simp add: x_def k_def)
qed simp

lemma toMajorString_eq:
  assumes "wf_money m"
  shows "toMajorString m = (if amount m < 0 then ''-'' else '''') @ show_nat (nat (\<bar>amount m\<bar> div 100))
    @ CHR ''.'' # padStart 2 CHR ''0'' (show_nat (nat (\<bar>amount m\<bar> mod 100)))"
proof -
  have "safe_int \<bar>amount m\<bar>" using assms by (simp add: wf_money_def safe_int_def)
  then have "\<lfloor>fl (of_int \<bar>amount m\<bar> / 100)\<rfloor> = \<bar>amount m\<bar> div 100" by (intro floor_fl_div_100) auto
  then show ?thesis by (simp add: toMajorString_def Let_def)
qed

lemma Number_digits_small: "digits_value s \<le> 2 ^ 53 \<Longrightarrow> Number_digits s = of_nat (digits_value s)"
  using fl_int [of "int (digits_value s)"] by (simp add: Number_digits_def)

lemma fromMajor_toMajorString_aux:
  assumes wf: "wf_money m"
  shows "fromMajor (toMajorString m) GBP = Inr m"
proof -
  define a where "a = nat \<bar>amount m\<bar>"
  define w f where "w = show_nat (a div 100)" and "f = padStart 2 CHR ''0'' (show_nat (a mod 100))"
  define neg where "neg \<longleftrightarrow> amount m < 0"
  have str: "toMajorString m = (if neg then ''-'' else '''') @ w @ CHR ''.'' # f"
    using wf by (simp add: toMajorString_eq w_def f_def neg_def a_def nat_div_distrib nat_mod_distrib)
  have digits: "list_all is_digit w" "w \<noteq> []" "list_all is_digit f" "length f = 2"
    using length_show_nat [of "a mod 100" 2]
    by (auto simp: w_def f_def show_nat_digits padStart_digits)
  then have f: "f \<noteq> []" by auto
  have "trim (toMajorString m) = toMajorString m"
  proof (rule trim_id)
    have "is_digit (hd w)" and "is_digit (last f)" using digits f by (auto simp: list_all_iff)
    then show "\<not> is_space (hd (toMajorString m))" and "\<not> is_space (last (toMajorString m))"
      using digits f by (auto simp: str is_digit_not_space)
  qed (simp add: str)
  then have match: "decimal_match (trim (toMajorString m)) = Some (neg, w, Some f)"
    unfolding str using decimal_match_point [OF digits(1,2,3) f] by simp
  have "a < 2 ^ 53" using wf by (simp add: a_def wf_money_def safe_int_def nat_less_iff)
  then have small: "a div 100 \<le> 2 ^ 53" "a mod 100 \<le> 2 ^ 53" "int (a div 100) * 100 \<le> 2 ^ 53" by auto
  have "Number_digits w = of_nat (a div 100)" and "Number_digits f = of_nat (a mod 100)"
    using small by (simp_all add: Number_digits_small w_def f_def)
  moreover have "fl (of_nat (a div 100) * 100) = of_int (int (a div 100) * 100)"
    using fl_int [of "int (a div 100) * 100"] small by simp
  moreover have "fl (of_int (int (a div 100) * 100) + of_nat (a mod 100)) = of_int (int a)"
  proof -
    have "int (a div 100) * 100 + int (a mod 100) = int a"
      by (metis div_mult_mod_eq of_nat_add of_nat_mult of_nat_numeral)
    then have "of_int (int (a div 100) * 100) + of_nat (a mod 100) = (of_int (int a) :: rat)"
      by (metis of_int_add of_int_of_nat_eq)
    then show ?thesis using fl_int [of "int a"] \<open>a < 2 ^ 53\<close> by simp
  qed
  moreover have "padEnd 2 CHR ''0'' f = f" using digits by (simp add: padEnd_id)
  ultimately have "fromMajor (toMajorString m) GBP =
      money (to_number (if neg then - of_int (int a) else of_int (int a))) GBP"
    using digits f by (simp add: fromMajor_def match Let_def)
  also have "\<dots> = money (to_number (of_int (amount m))) GBP"
    by (auto simp: neg_def a_def)
  also have "\<dots> = Inr m" using wf by (simp add: money_to_number_int wf_money_def Money_eq_iff)
  finally show ?thesis .
qed

subsection \<open>Properties\<close>

text \<open>C35: Printing an amount in major units and parsing it back gives the same amount, for every amount
  the constructor admits, negative ones and whole pounds included; the division by the scale is a
  floating-point one and still never disturbs a digit.\<close>

theorem fromMajor_toMajorString:
  assumes "wf_money m"
  shows "fromMajor (toMajorString m) GBP = Inr m"
  using assms by (rule fromMajor_toMajorString_aux)

theorem fromMajor_toMajorString_witness:
  "fromMajor (toMajorString (pence (- 1234567))) GBP = Inr (pence (- 1234567))"
  by (rule fromMajor_toMajorString) (simp add: wf_money_def safe_int_def)

end
