(* ===== verification/Pricing.thy ===== *)
theory Pricing
  imports Money
begin

section \<open>Pricing: fees, quotes, periods and the damage excess\<close>

text \<open>
  The pure pricing module (\<^verbatim>\<open>apps/api/src/pricing/\<close>) over the pricing contracts
  (\<^verbatim>\<open>packages/contracts/src/pricing.ts\<close>, \<^verbatim>\<open>quotes.ts\<close>): the renter's fee with its floor, the
  indicative daily price, the search for the cheapest combination of the owner's rates, the
  price of a hire, the minimum booking total, the bound on a hire's length and the applied
  damage excess. Everything is computed through \<open>Money\<close>, so every operation may end in a
  \<open>MoneyError\<close>; the lemmas show it does not within the bounds the contracts enforce.

  The abstract specification of the quote is \<open>covers\<close>: the set of unit combinations that
  cover at least the days of the hire. The search refines the minimum over that set.
\<close>

subsection \<open>The contracts\<close>

definition BASIS_POINTS_PER_UNIT :: int where "BASIS_POINTS_PER_UNIT = 10000"
definition MAX_FEE_BASIS_POINTS :: int where "MAX_FEE_BASIS_POINTS = 5000"
definition MAX_PRICING_FLOOR_MINOR_UNITS :: int where "MAX_PRICING_FLOOR_MINOR_UNITS = 1000000"
definition MAX_EXCESS_PERCENTAGE_BASIS_POINTS :: int where "MAX_EXCESS_PERCENTAGE_BASIS_POINTS = 10000"
definition MAX_DAMAGE_SECURITY_MINOR_UNITS :: int where "MAX_DAMAGE_SECURITY_MINOR_UNITS = 1000000"
definition MIN_RENTAL_RATE_MINOR_UNITS :: int where "MIN_RENTAL_RATE_MINOR_UNITS = 100"
definition MAX_RENTAL_RATE_MINOR_UNITS :: int where "MAX_RENTAL_RATE_MINOR_UNITS = 1000000"
definition MAX_MAXIMUM_RENTAL_DAYS :: int where "MAX_MAXIMUM_RENTAL_DAYS = 88"

definition basisPointsToPercent :: "int \<Rightarrow> number" where
  "basisPointsToPercent basisPoints = to_number (of_int basisPoints / 100)"

record CategoryFeePolicy =
  ownerCommissionBasisPoints :: int
  renterFeeBasisPoints :: int
  minimumBookingTotal :: Money
  minimumPlatformFee :: Money

definition feeBasisPointsSchema :: "int \<Rightarrow> bool" where
  "feeBasisPointsSchema bp \<longleftrightarrow> 0 \<le> bp \<and> bp \<le> MAX_FEE_BASIS_POINTS"

definition pricingFloorSchema :: "Money \<Rightarrow> bool" where
  "pricingFloorSchema m \<longleftrightarrow> \<not> amount m < 0 \<and> \<not> MAX_PRICING_FLOOR_MINOR_UNITS < amount m"

definition checkFloorsAgree :: "CategoryFeePolicy \<Rightarrow> bool" where
  "checkFloorsAgree policy \<longleftrightarrow>
     currency (minimumBookingTotal policy) = currency (minimumPlatformFee policy) \<and>
     \<not> amount (minimumBookingTotal policy) < amount (minimumPlatformFee policy)"

definition categoryFeePolicySchema :: "CategoryFeePolicy \<Rightarrow> bool" where
  "categoryFeePolicySchema policy \<longleftrightarrow>
     feeBasisPointsSchema (ownerCommissionBasisPoints policy) \<and>
     feeBasisPointsSchema (renterFeeBasisPoints policy) \<and>
     pricingFloorSchema (minimumBookingTotal policy) \<and>
     pricingFloorSchema (minimumPlatformFee policy) \<and>
     checkFloorsAgree policy"

definition UNCONFIGURED_FEE_POLICY :: CategoryFeePolicy where
  "UNCONFIGURED_FEE_POLICY = \<lparr>ownerCommissionBasisPoints = 0, renterFeeBasisPoints = 0,
     minimumBookingTotal = pence 0, minimumPlatformFee = pence 0\<rparr>"

definition isFeePolicyConfigured :: "CategoryFeePolicy \<Rightarrow> bool" where
  "isFeePolicyConfigured policy \<longleftrightarrow>
     0 < ownerCommissionBasisPoints policy \<or> 0 < renterFeeBasisPoints policy"

record DamageSecurityPolicy =
  excessFloor :: Money
  excessPercentageBasisPoints :: int
  recoveryCeiling :: Money

definition boundedMoneySchema :: "int \<Rightarrow> int \<Rightarrow> Money \<Rightarrow> bool" where
  "boundedMoneySchema minimum maximum value \<longleftrightarrow>
     \<not> amount value < minimum \<and> \<not> maximum < amount value"

definition checkExcessBandAgrees :: "DamageSecurityPolicy \<Rightarrow> bool" where
  "checkExcessBandAgrees policy \<longleftrightarrow>
     currency (excessFloor policy) = currency (recoveryCeiling policy) \<and>
     \<not> amount (recoveryCeiling policy) < amount (excessFloor policy)"

definition damageSecurityPolicySchema :: "DamageSecurityPolicy \<Rightarrow> bool" where
  "damageSecurityPolicySchema policy \<longleftrightarrow>
     boundedMoneySchema 0 MAX_DAMAGE_SECURITY_MINOR_UNITS (excessFloor policy) \<and>
     0 \<le> excessPercentageBasisPoints policy \<and>
     excessPercentageBasisPoints policy \<le> MAX_EXCESS_PERCENTAGE_BASIS_POINTS \<and>
     boundedMoneySchema 1 MAX_DAMAGE_SECURITY_MINOR_UNITS (recoveryCeiling policy) \<and>
     checkExcessBandAgrees policy"

datatype ExcessBound = FloorBound | PercentageBound | CeilingBound

record AppliedExcess =
  excessAmount :: Money
  boundBy :: ExcessBound

record ListingRateCard =
  daily :: "Money option"
  weekend :: "Money option"
  weekly :: "Money option"

definition rentalRateSchema :: "Money \<Rightarrow> bool" where
  "rentalRateSchema value \<longleftrightarrow> \<not> amount value < MIN_RENTAL_RATE_MINOR_UNITS \<and>
     \<not> MAX_RENTAL_RATE_MINOR_UNITS < amount value"

definition listingRateCardSchema :: "ListingRateCard \<Rightarrow> bool" where
  "listingRateCardSchema rates \<longleftrightarrow>
     pred_option rentalRateSchema (daily rates) \<and>
     pred_option rentalRateSchema (weekend rates) \<and>
     pred_option rentalRateSchema (weekly rates) \<and>
     \<not> (daily rates = None \<and> (weekend rates \<noteq> None \<or> weekly rates \<noteq> None))"

definition UNPRICED_RATE_CARD :: ListingRateCard where
  "UNPRICED_RATE_CARD = \<lparr>daily = None, weekend = None, weekly = None\<rparr>"

subsection \<open>Errors\<close>

datatype RentalUnit = Day | Weekend | Week

datatype PriceFault = Arith MoneyError | NoRateSet RentalUnit | NoDailyRate | NoCombination

abbreviation arith :: "MoneyError + 'a \<Rightarrow> PriceFault + 'a" where
  "arith m \<equiv> map_sum Arith id m"

text \<open>\<open>Money.money(m.amount, m.currency)\<close>: an amount read from configuration, checked again.\<close>

definition remoney :: "Money \<Rightarrow> MoneyError + Money" where
  "remoney m = money (Finite (of_int (amount m))) (currency m)"

subsection \<open>The renter's fee\<close>

record RenterFee =
  fee :: Money
  minimumFeeApplied :: bool

definition renterFeeOn :: "Money \<Rightarrow> CategoryFeePolicy \<Rightarrow> MoneyError + RenterFee" where
  "renterFeeOn charge policy =
    rbind (percentageOf charge (basisPointsToPercent (renterFeeBasisPoints policy)) HalfUp) (\<lambda>percentageFee.
    rbind (remoney (minimumPlatformFee policy)) (\<lambda>floor'.
    rbind (lessThan percentageFee floor') (\<lambda>applied.
      Inr \<lparr>fee = (if applied then floor' else percentageFee), minimumFeeApplied = applied\<rparr>)))"

subsection \<open>The indicative daily price\<close>

record InclusiveDailyPrice =
  rate :: Money
  dailyRenterFee :: Money
  dailyTotal :: Money
  dailyMinimumFeeApplied :: bool

definition inclusiveDailyPrice ::
  "ListingRateCard \<Rightarrow> CategoryFeePolicy \<Rightarrow> MoneyError + InclusiveDailyPrice option" where
  "inclusiveDailyPrice rates policy =
    (case daily rates of
       None \<Rightarrow> Inr None
     | Some d \<Rightarrow>
         rbind (remoney d) (\<lambda>r.
         rbind (renterFeeOn r policy) (\<lambda>f.
         rbind (add r (fee f)) (\<lambda>t.
           Inr (Some \<lparr>rate = r, dailyRenterFee = fee f, dailyTotal = t,
                      dailyMinimumFeeApplied = minimumFeeApplied f\<rparr>)))))"

subsection \<open>The cheapest combination of the owner's rates\<close>

fun RENTAL_UNIT_DAYS :: "RentalUnit \<Rightarrow> int" where
  "RENTAL_UNIT_DAYS Day = 1"
| "RENTAL_UNIT_DAYS Weekend = 3"
| "RENTAL_UNIT_DAYS Week = 7"

definition WEEKEND_START_WEEKDAY :: int where "WEEKEND_START_WEEKDAY = 5"

definition UNITS_LARGEST_FIRST :: "RentalUnit list" where
  "UNITS_LARGEST_FIRST = [Week, Weekend, Day]"

record Counts =
  days_n :: int
  weekends_n :: int
  weeks_n :: int

fun count_of :: "Counts \<Rightarrow> RentalUnit \<Rightarrow> int" where
  "count_of c Day = days_n c"
| "count_of c Weekend = weekends_n c"
| "count_of c Week = weeks_n c"

record Combination =
  counts :: Counts
  cost :: Money

record AvailableRates =
  day_rate :: Money
  weekend_rate :: "Money option"
  week_rate :: "Money option"

record QuoteLineItem =
  unit :: RentalUnit
  item_count :: int
  unitPrice :: Money
  subtotal :: Money

record RentalUnits =
  lineItems :: "QuoteLineItem list"
  itemCharge :: Money

definition toAvailableRates :: "ListingRateCard \<Rightarrow> int \<Rightarrow> PriceFault + AvailableRates" where
  "toAvailableRates rates startsOnWeekday =
    (case daily rates of
       None \<Rightarrow> Inl NoDailyRate
     | Some d \<Rightarrow>
         rbind (arith (remoney d)) (\<lambda>day.
         rbind (case weekend rates of
                  Some w \<Rightarrow> if startsOnWeekday = WEEKEND_START_WEEKDAY
                            then arith (map_sum id Some (remoney w)) else Inr None
                | None \<Rightarrow> Inr None) (\<lambda>wend.
         rbind (case weekly rates of
                  None \<Rightarrow> Inr None
                | Some w \<Rightarrow> arith (map_sum id Some (remoney w))) (\<lambda>week.
           Inr \<lparr>day_rate = day, weekend_rate = wend, week_rate = week\<rparr>))))"

fun rateFor :: "RentalUnit \<Rightarrow> AvailableRates \<Rightarrow> PriceFault + Money" where
  "rateFor Day rates = Inr (day_rate rates)"
| "rateFor Week rates = (case week_rate rates of None \<Rightarrow> Inl (NoRateSet Week) | Some r \<Rightarrow> Inr r)"
| "rateFor Weekend rates = (case weekend_rate rates of None \<Rightarrow> Inl (NoRateSet Weekend) | Some r \<Rightarrow> Inr r)"

definition costOf :: "Counts \<Rightarrow> AvailableRates \<Rightarrow> PriceFault + Money" where
  "costOf cs rates =
    rbind (rmap (\<lambda>u. rbind (rateFor u rates) (\<lambda>r.
                       arith (multiply r (Finite (of_int (count_of cs u))) HalfUp)))
             (filter (\<lambda>u. 0 < count_of cs u) UNITS_LARGEST_FIRST)) (\<lambda>parts.
      arith (sum_money parts (currency (day_rate rates))))"

text \<open>
  The two nested counting-down loops, as the list of counts in the order the loops visit them,
  and the running best. The comparison is strict, so an earlier candidate wins a tie.
\<close>

definition ceil_div :: "int \<Rightarrow> int \<Rightarrow> int" where
  "ceil_div a b = - ((- a) div b)"

fun down_from :: "nat \<Rightarrow> int list" where
  "down_from 0 = [0]"
| "down_from (Suc n) = int (Suc n) # down_from n"

definition candidates :: "int \<Rightarrow> AvailableRates \<Rightarrow> Counts list" where
  "candidates n rates =
    concat (map (\<lambda>weekends.
        let afterWeekends = max 0 (n - weekends * RENTAL_UNIT_DAYS Weekend);
            weekLimit = (case week_rate rates of None \<Rightarrow> 0
                         | Some _ \<Rightarrow> ceil_div afterWeekends (RENTAL_UNIT_DAYS Week))
        in map (\<lambda>weeks. \<lparr>days_n = max 0 (afterWeekends - weeks * RENTAL_UNIT_DAYS Week),
                         weekends_n = weekends, weeks_n = weeks\<rparr>)
             (down_from (nat weekLimit)))
      (down_from (case weekend_rate rates of None \<Rightarrow> 0 | Some _ \<Rightarrow> 1)))"

fun cheapest_from ::
  "AvailableRates \<Rightarrow> Combination option \<Rightarrow> Counts list \<Rightarrow> PriceFault + Combination option" where
  "cheapest_from rates best [] = Inr best"
| "cheapest_from rates best (c # cs) =
    rbind (costOf c rates) (\<lambda>k.
    rbind (case best of None \<Rightarrow> Inr True | Some b \<Rightarrow> arith (lessThan k (cost b))) (\<lambda>better.
      cheapest_from rates (if better then Some \<lparr>counts = c, cost = k\<rparr> else best) cs))"

definition cheapestCombination :: "int \<Rightarrow> AvailableRates \<Rightarrow> PriceFault + Combination" where
  "cheapestCombination n rates =
    rbind (cheapest_from rates None (candidates n rates)) (\<lambda>best.
      case best of None \<Rightarrow> Inl NoCombination | Some b \<Rightarrow> Inr b)"

definition toLineItems :: "Combination \<Rightarrow> AvailableRates \<Rightarrow> PriceFault + QuoteLineItem list" where
  "toLineItems best rates =
    rmap (\<lambda>u. rbind (rateFor u rates) (\<lambda>r.
              rbind (arith (multiply r (Finite (of_int (count_of (counts best) u))) HalfUp)) (\<lambda>s.
                Inr \<lparr>unit = u, item_count = count_of (counts best) u, unitPrice = r, subtotal = s\<rparr>)))
      (filter (\<lambda>u. 0 < count_of (counts best) u) UNITS_LARGEST_FIRST)"

definition chooseCheapestUnits ::
  "rat \<Rightarrow> int \<Rightarrow> ListingRateCard \<Rightarrow> PriceFault + RentalUnits option" where
  "chooseCheapestUnits days startsOnWeekday rates =
    (if daily rates = None then Inr None
     else if days \<noteq> of_int \<lfloor>days\<rfloor> \<or> days < 1 then Inr None
     else rbind (toAvailableRates rates startsOnWeekday) (\<lambda>available.
          rbind (cheapestCombination \<lfloor>days\<rfloor> available) (\<lambda>best.
          rbind (toLineItems best available) (\<lambda>ls.
            Inr (Some \<lparr>lineItems = ls, itemCharge = cost best\<rparr>)))))"

subsection \<open>The price of a hire\<close>

record PricedRental =
  pricedLineItems :: "QuoteLineItem list"
  pricedItemCharge :: Money
  pricedRenterFee :: Money
  pricedMinimumFeeApplied :: bool
  pricedTotal :: Money

definition priceRental ::
  "rat \<Rightarrow> int \<Rightarrow> ListingRateCard \<Rightarrow> CategoryFeePolicy \<Rightarrow> PriceFault + PricedRental option" where
  "priceRental days startsOnWeekday rates policy =
    rbind (chooseCheapestUnits days startsOnWeekday rates) (\<lambda>units.
      case units of
        None \<Rightarrow> Inr None
      | Some u \<Rightarrow>
          rbind (arith (renterFeeOn (itemCharge u) policy)) (\<lambda>f.
          rbind (arith (add (itemCharge u) (fee f))) (\<lambda>t.
            Inr (Some \<lparr>pricedLineItems = lineItems u, pricedItemCharge = itemCharge u,
                       pricedRenterFee = fee f, pricedMinimumFeeApplied = minimumFeeApplied f,
                       pricedTotal = t\<rparr>))))"

record BelowMinimumBooking =
  belowTotal :: Money
  belowMinimum :: Money

definition refuseBelowMinimumBooking ::
  "Money \<Rightarrow> CategoryFeePolicy \<Rightarrow> MoneyError + BelowMinimumBooking option" where
  "refuseBelowMinimumBooking t policy =
    rbind (remoney (minimumBookingTotal policy)) (\<lambda>m.
    rbind (lessThan t m) (\<lambda>below.
      Inr (if \<not> below then None else Some \<lparr>belowTotal = t, belowMinimum = m\<rparr>)))"

subsection \<open>How long a hire may be\<close>

datatype PeriodRefusal = Inverted | OverMaximum int int

text \<open>
  \<open>rentalDayCount\<close> is computed by the calendar library from the two instants and the zone; it
  is the parameter \<open>dayCount\<close>.
\<close>

definition refusePeriod ::
  "(int \<Rightarrow> int \<Rightarrow> 'tz \<Rightarrow> int) \<Rightarrow> int \<Rightarrow> int \<Rightarrow> 'tz \<Rightarrow> int \<Rightarrow> PeriodRefusal option" where
  "refusePeriod dayCount startAt endAt timeZone maximumDays =
    (if endAt \<le> startAt then Some Inverted
     else let days = dayCount startAt endAt timeZone;
              permitted = min maximumDays MAX_MAXIMUM_RENTAL_DAYS
          in if permitted < days then Some (OverMaximum days permitted) else None)"

subsection \<open>The applied damage excess\<close>

definition appliedExcessFor :: "DamageSecurityPolicy \<Rightarrow> Money \<Rightarrow> MoneyError + AppliedExcess" where
  "appliedExcessFor policy replacementValue =
    rbind (remoney (excessFloor policy)) (\<lambda>floor'.
    rbind (remoney (recoveryCeiling policy)) (\<lambda>ceiling.
    rbind (percentageOf replacementValue (basisPointsToPercent (excessPercentageBasisPoints policy)) HalfUp) (\<lambda>percentage.
    rbind (maxOf floor' percentage) (\<lambda>greaterOfTheTwo.
    rbind (greaterThan greaterOfTheTwo ceiling) (\<lambda>over.
      if over then Inr \<lparr>excessAmount = ceiling, boundBy = CeilingBound\<rparr>
      else rbind (greaterThan percentage floor') (\<lambda>p.
        Inr \<lparr>excessAmount = greaterOfTheTwo, boundBy = (if p then PercentageBound else FloorBound)\<rparr>))))))"

definition appliedExcessOrNone ::
  "DamageSecurityPolicy option \<Rightarrow> Money \<Rightarrow> MoneyError + AppliedExcess option" where
  "appliedExcessOrNone policy replacementValue =
    (case policy of None \<Rightarrow> Inr None
     | Some p \<Rightarrow> rbind (appliedExcessFor p replacementValue) (\<lambda>e. Inr (Some e)))"

subsection \<open>Amounts within the contracts are never refused\<close>

lemma remoney_wf: "wf_money m \<Longrightarrow> remoney m = Inr m"
  by (simp add: remoney_def money_amount del: money.simps)

lemma pricingFloorSchema_wf: "pricingFloorSchema m \<Longrightarrow> wf_money m"
  by (auto simp: pricingFloorSchema_def MAX_PRICING_FLOOR_MINOR_UNITS_def wf_money_def safe_int_def)

lemma rentalRateSchema_wf: "rentalRateSchema m \<Longrightarrow> wf_money m \<and> 100 \<le> amount m \<and> amount m \<le> 1000000"
  by (auto simp: rentalRateSchema_def MIN_RENTAL_RATE_MINOR_UNITS_def MAX_RENTAL_RATE_MINOR_UNITS_def
      wf_money_def safe_int_def)

lemma boundedMoneySchema_wf:
  "boundedMoneySchema lo hi m \<Longrightarrow> 0 \<le> lo \<Longrightarrow> hi \<le> 1000000 \<Longrightarrow> wf_money m \<and> lo \<le> amount m \<and> amount m \<le> hi"
  by (auto simp: boundedMoneySchema_def wf_money_def safe_int_def)

lemmas schema_defs = categoryFeePolicySchema_def feeBasisPointsSchema_def checkFloorsAgree_def
  MAX_FEE_BASIS_POINTS_def damageSecurityPolicySchema_def checkExcessBandAgrees_def
  MAX_EXCESS_PERCENTAGE_BASIS_POINTS_def MAX_DAMAGE_SECURITY_MINOR_UNITS_def

subsection \<open>The fee\<close>

lemma renterFeeOn_ok:
  assumes policy: "categoryFeePolicySchema policy" and charge: "\<bar>amount charge\<bar> \<le> 2 ^ 37"
  shows "\<exists>r. renterFeeOn charge policy =
      Inr \<lparr>fee = pence (max r (amount (minimumPlatformFee policy))),
           minimumFeeApplied = (r < amount (minimumPlatformFee policy))\<rparr> \<and>
    2 * \<bar>10000 * r - amount charge * renterFeeBasisPoints policy\<bar> \<le> 10000"
proof -
  have bp: "0 \<le> renterFeeBasisPoints policy" "renterFeeBasisPoints policy \<le> 10000"
    and wf: "wf_money (minimumPlatformFee policy)"
    using policy by (auto simp: schema_defs pricingFloorSchema_wf)
  obtain r where r: "percentageOf charge (basisPointsToPercent (renterFeeBasisPoints policy)) HalfUp = Inr (pence r)"
    "2 * \<bar>10000 * r - amount charge * renterFeeBasisPoints policy\<bar> \<le> 10000"
    using percentageOf_nearest [OF bp charge] unfolding basisPointsToPercent_def by blast
  have "renterFeeOn charge policy =
      Inr \<lparr>fee = pence (max r (amount (minimumPlatformFee policy))),
           minimumFeeApplied = (r < amount (minimumPlatformFee policy))\<rparr>"
    by (auto simp: renterFeeOn_def r(1) remoney_wf [OF wf] Money_eq_iff max_def)
  with r(2) show ?thesis by blast
qed

subsection \<open>The cost of a combination\<close>

definition rate_amount :: "Money option \<Rightarrow> int" where
  "rate_amount r = (case r of None \<Rightarrow> 0 | Some m \<Rightarrow> amount m)"

definition unit_cost :: "AvailableRates \<Rightarrow> Counts \<Rightarrow> int" where
  "unit_cost rates c = amount (day_rate rates) * days_n c
     + rate_amount (weekend_rate rates) * weekends_n c + rate_amount (week_rate rates) * weeks_n c"

definition wf_rates :: "AvailableRates \<Rightarrow> bool" where
  "wf_rates rates \<longleftrightarrow> rentalRateSchema (day_rate rates) \<and> pred_option rentalRateSchema (weekend_rate rates)
     \<and> pred_option rentalRateSchema (week_rate rates)"

definition usable :: "AvailableRates \<Rightarrow> Counts \<Rightarrow> bool" where
  "usable rates c \<longleftrightarrow> 0 \<le> days_n c \<and> 0 \<le> weekends_n c \<and> 0 \<le> weeks_n c
     \<and> (weekend_rate rates = None \<longrightarrow> weekends_n c = 0) \<and> (week_rate rates = None \<longrightarrow> weeks_n c = 0)"

definition moderate_counts :: "Counts \<Rightarrow> bool" where
  "moderate_counts c \<longleftrightarrow> days_n c \<le> 1000000 \<and> weekends_n c \<le> 1000000 \<and> weeks_n c \<le> 1000000"

lemma rentalRate_product:
  assumes "rentalRateSchema m" "0 \<le> k" "k \<le> 1000000"
  shows "0 \<le> amount m * k" and "amount m * k \<le> 1000000000000"
  using assms rentalRateSchema_wf [OF assms(1)] mult_mono [of "amount m" 1000000 k 1000000] by auto

lemma multiply_rate:
  assumes "rentalRateSchema m" "0 \<le> k" "k \<le> 1000000"
  shows "multiply m (Finite (of_int k)) HalfUp = Inr (pence (amount m * k))"
  using rentalRate_product [OF assms] by (simp add: multiply_int safe_int_def del: multiply.simps)

lemma costOf_exact:
  assumes wf: "wf_rates rates" and us: "usable rates c" and mo: "moderate_counts c"
  shows "costOf c rates = Inr (pence (unit_cost rates c))"
proof -
  define part where "part u = pence ((case u of Day \<Rightarrow> amount (day_rate rates) * days_n c
      | Weekend \<Rightarrow> rate_amount (weekend_rate rates) * weekends_n c
      | Week \<Rightarrow> rate_amount (week_rate rates) * weeks_n c))" for u
  define used where "used = filter (\<lambda>u. 0 < count_of c u) UNITS_LARGEST_FIRST"
  have p: "rbind (rateFor u rates) (\<lambda>r. arith (multiply r (Finite (of_int (count_of c u))) HalfUp)) = Inr (part u)
      \<and> 0 \<le> amount (part u) \<and> amount (part u) \<le> 1000000000000" if "u \<in> set used" for u
  proof -
    have k: "0 \<le> count_of c u" "count_of c u \<le> 1000000"
      using us mo by (cases u; simp add: usable_def moderate_counts_def)+
    have pos: "0 < count_of c u" using that by (simp add: used_def)
    have "\<exists>r. rateFor u rates = Inr r \<and> rentalRateSchema r \<and> amount (part u) = amount r * count_of c u"
    proof (cases u)
      case Day
      then show ?thesis using wf by (simp add: part_def wf_rates_def)
    next
      case Weekend
      with pos us obtain r where "weekend_rate rates = Some r" by (auto simp: usable_def)
      with Weekend wf show ?thesis by (simp add: part_def wf_rates_def rate_amount_def)
    next
      case Week
      with pos us obtain r where "week_rate rates = Some r" by (auto simp: usable_def)
      with Week wf show ?thesis by (simp add: part_def wf_rates_def rate_amount_def)
    qed
    then obtain r where r: "rateFor u rates = Inr r" "rentalRateSchema r"
      "amount (part u) = amount r * count_of c u" by blast
    with rentalRate_product [OF r(2) k] multiply_rate [OF r(2) k] show ?thesis
      by (simp add: Money_eq_iff del: multiply.simps)
  qed
  have len: "length used \<le> 3" by (simp add: used_def UNITS_LARGEST_FIRST_def)
  have "rmap (\<lambda>u. rbind (rateFor u rates) (\<lambda>r. arith (multiply r (Finite (of_int (count_of c u))) HalfUp))) used
      = Inr (map part used)"
    using p by (intro rmap_cong_Inr) blast
  moreover have "sum_money (map part used) GBP = Inr (pence (sum_list (map (amount \<circ> part) used)))"
  proof -
    have "\<bar>sum_list (map (\<lambda>v. \<bar>amount v\<bar>) (map part used))\<bar> \<le> int (length (map (\<lambda>v. \<bar>amount v\<bar>) (map part used))) * 1000000000000"
      by (rule abs_sum_list_le) (use p in auto)
    also have "\<dots> \<le> 3 * 1000000000000" using len by simp
    finally have "safe_int (sum_list (map (\<lambda>v. \<bar>amount v\<bar>) (map part used)))" by (simp add: safe_int_def)
    then show ?thesis by (simp add: sum_money_exact)
  qed
  moreover have "sum_list (map (amount \<circ> part) used) = unit_cost rates c"
    using us by (auto simp: used_def UNITS_LARGEST_FIRST_def part_def unit_cost_def usable_def)
  ultimately show ?thesis by (simp add: costOf_def used_def [symmetric])
qed

subsection \<open>The search finds the minimum over its candidates\<close>

lemma cheapest_from_min:
  assumes "\<And>c. c \<in> set cs \<Longrightarrow> costOf c rates = Inr (pence (k c))"
  shows "\<exists>b'. cheapest_from rates (Some b) cs = Inr (Some b') \<and> amount (cost b') \<le> amount (cost b) \<and>
    (\<forall>c \<in> set cs. amount (cost b') \<le> k c) \<and>
    (b' = b \<or> counts b' \<in> set cs \<and> cost b' = pence (k (counts b')))"
  using assms
proof (induction cs arbitrary: b)
  case Nil
  then show ?case by simp
next
  case (Cons c cs)
  define b1 where "b1 = (if k c < amount (cost b) then \<lparr>counts = c, cost = pence (k c)\<rparr> else b)"
  have step: "cheapest_from rates (Some b) (c # cs) = cheapest_from rates (Some b1) cs"
    using Cons.prems [of c] by (simp add: b1_def)
  obtain b' where b': "cheapest_from rates (Some b1) cs = Inr (Some b')" "amount (cost b') \<le> amount (cost b1)"
    "\<forall>c \<in> set cs. amount (cost b') \<le> k c" "b' = b1 \<or> counts b' \<in> set cs \<and> cost b' = pence (k (counts b'))"
    using Cons.IH [of b1] Cons.prems by auto
  have "amount (cost b1) \<le> amount (cost b)" "amount (cost b1) \<le> k c"
    "b1 = b \<or> counts b1 = c \<and> cost b1 = pence (k c)" by (auto simp: b1_def)
  with b' step show ?case by (intro exI [of _ b']) (auto split: if_splits)
qed

lemma cheapest_from_None:
  assumes "cs \<noteq> []" and "\<And>c. c \<in> set cs \<Longrightarrow> costOf c rates = Inr (pence (k c))"
  shows "\<exists>b. cheapest_from rates None cs = Inr (Some b) \<and> counts b \<in> set cs \<and>
    cost b = pence (k (counts b)) \<and> (\<forall>c \<in> set cs. amount (cost b) \<le> k c)"
proof -
  obtain c cs' where cs: "cs = c # cs'" using assms(1) by (cases cs) auto
  have "cheapest_from rates None cs = cheapest_from rates (Some \<lparr>counts = c, cost = pence (k c)\<rparr>) cs'"
    using assms(2) [of c] by (simp add: cs)
  with cheapest_from_min [of cs' rates k "\<lparr>counts = c, cost = pence (k c)\<rparr>"] assms(2)
  show ?thesis unfolding cs by fastforce
qed

subsection \<open>The candidates suffice\<close>

definition weekend_limit :: "AvailableRates \<Rightarrow> int" where
  "weekend_limit rates = (if weekend_rate rates = None then 0 else 1)"

definition covers :: "AvailableRates \<Rightarrow> int \<Rightarrow> Counts \<Rightarrow> bool" where
  "covers rates n c \<longleftrightarrow> usable rates c \<and> weekends_n c \<le> weekend_limit rates \<and>
     n \<le> days_n c + 3 * weekends_n c + 7 * weeks_n c"

lemma set_down_from: "set (down_from n) = {0..int n}"
  by (induction n) auto

lemma ceil_div_bounds: "0 < b \<Longrightarrow> a \<le> b * ceil_div a b \<and> b * ceil_div a b < a + b"
proof -
  assume b: "0 < b"
  have "b * ((- a) div b) = - a - (- a) mod b" by (rule minus_mod_eq_mult_div [symmetric])
  moreover have "0 \<le> (- a) mod b" "(- a) mod b < b" using b by simp_all
  ultimately show ?thesis by (simp add: ceil_div_def)
qed

definition week_limit :: "AvailableRates \<Rightarrow> int \<Rightarrow> int" where
  "week_limit rates after = (if week_rate rates = None then 0 else ceil_div after 7)"

lemma in_candidates:
  assumes "0 \<le> e" "e \<le> weekend_limit rates" "0 \<le> w" "w \<le> week_limit rates (max 0 (n - e * 3))"
  shows "\<lparr>days_n = max 0 (max 0 (n - e * 3) - w * 7), weekends_n = e, weeks_n = w\<rparr> \<in> set (candidates n rates)"
proof -
  have "e \<in> set (down_from (case weekend_rate rates of None \<Rightarrow> 0 | Some _ \<Rightarrow> 1))"
    using assms(1,2) by (auto simp: set_down_from weekend_limit_def split: option.splits)
  moreover have "w \<in> set (down_from (nat (case week_rate rates of None \<Rightarrow> 0
      | Some _ \<Rightarrow> ceil_div (max 0 (n - e * 3)) 7)))"
    using assms(3,4) by (auto simp: set_down_from week_limit_def split: option.splits if_splits)
  ultimately show ?thesis
    unfolding candidates_def by (auto simp: Let_def intro!: bexI [of _ e] image_eqI [of _ _ w] split: option.splits)
qed

lemma candidates_cover:
  assumes "c \<in> set (candidates n rates)" "1 \<le> n" "n \<le> 1000000"
  shows "covers rates n c \<and> moderate_counts c"
proof -
  obtain e w where e: "0 \<le> e" "e \<le> weekend_limit rates" and w: "0 \<le> w"
    and wl: "w \<le> week_limit rates (max 0 (n - e * 3)) \<or> w = 0"
    and c: "c = \<lparr>days_n = max 0 (max 0 (n - e * 3) - w * 7), weekends_n = e, weeks_n = w\<rparr>"
    using assms(1)
    by (auto simp: candidates_def Let_def set_down_from weekend_limit_def week_limit_def split: option.splits if_splits)
  have "7 * ceil_div (max 0 (n - e * 3)) 7 < max 0 (n - e * 3) + 7"
    using ceil_div_bounds [of 7 "max 0 (n - e * 3)"] by simp
  then have "weeks_n c \<le> 1000000" "week_rate rates = None \<longrightarrow> w = 0"
    using assms(2,3) wl e(1) w by (auto simp: c week_limit_def split: if_splits)
  with e w assms(2,3) show ?thesis
    by (auto simp: covers_def usable_def moderate_counts_def c weekend_limit_def split: if_splits)
qed

lemma candidates_dominate:
  assumes cov: "covers rates n c" and wf: "wf_rates rates"
  shows "\<exists>c' \<in> set (candidates n rates). unit_cost rates c' \<le> unit_cost rates c"
proof -
  define e w after where "e = weekends_n c" and "w = weeks_n c" and "after = max 0 (n - e * 3)"
  have us: "usable rates c" and e: "0 \<le> e" "e \<le> weekend_limit rates" and w: "0 \<le> w"
    and n: "n \<le> days_n c + 3 * e + 7 * w" and d: "0 \<le> days_n c"
    using cov by (auto simp: covers_def usable_def e_def w_def)
  have rates: "0 \<le> amount (day_rate rates)" "0 \<le> rate_amount (week_rate rates)"
    using wf rentalRateSchema_wf by (auto simp: wf_rates_def rate_amount_def split: option.splits dest!: rentalRateSchema_wf)
  define w' where "w' = min w (week_limit rates after)"
  have lim: "0 \<le> week_limit rates after" "week_rate rates \<noteq> None \<longrightarrow> after \<le> 7 * week_limit rates after"
    using ceil_div_bounds [of 7 after] by (auto simp: week_limit_def after_def split: if_splits)
  have w': "0 \<le> w'" "w' \<le> w" "w' \<le> week_limit rates after" using w lim by (auto simp: w'_def)
  define c' where "c' = \<lparr>days_n = max 0 (after - w' * 7), weekends_n = e, weeks_n = w'\<rparr>"
  have mem: "c' \<in> set (candidates n rates)"
    unfolding c'_def after_def by (rule in_candidates) (use e w' in \<open>auto simp: after_def\<close>)
  have "days_n c' \<le> days_n c"
  proof (cases "w \<le> week_limit rates after")
    case True
    then show ?thesis using n d w by (auto simp: c'_def w'_def after_def)
  next
    case False
    moreover have "week_rate rates \<noteq> None"
      using False us lim(1) by (auto simp: usable_def w_def)
    ultimately show ?thesis using lim d by (auto simp: c'_def w'_def)
  qed
  then have "amount (day_rate rates) * days_n c' \<le> amount (day_rate rates) * days_n c"
    using rates(1) by (intro mult_left_mono) auto
  moreover have "rate_amount (week_rate rates) * w' \<le> rate_amount (week_rate rates) * w"
    using rates(2) w' by (intro mult_left_mono) auto
  ultimately have "unit_cost rates c' \<le> unit_cost rates c"
    by (simp add: unit_cost_def c'_def e_def w_def)
  with mem show ?thesis by blast
qed

lemma candidates_nonempty: "candidates n rates \<noteq> []"
proof -
  have "down_from m \<noteq> []" for m by (cases m) auto
  then show ?thesis by (auto simp: candidates_def Let_def concat_eq_Nil_conv split: option.splits)
qed

lemma cheapestCombination_min:
  assumes "wf_rates rates" "1 \<le> n" "n \<le> 1000000"
  shows "\<exists>b. cheapestCombination n rates = Inr b \<and> covers rates n (counts b) \<and> moderate_counts (counts b) \<and>
    cost b = pence (unit_cost rates (counts b)) \<and>
    (\<forall>c. covers rates n c \<longrightarrow> amount (cost b) \<le> unit_cost rates c)"
proof -
  have k: "costOf c rates = Inr (pence (unit_cost rates c))" if "c \<in> set (candidates n rates)" for c
    using candidates_cover [OF that assms(2,3)] costOf_exact [OF assms(1)] by (simp add: covers_def)
  obtain b where b: "cheapest_from rates None (candidates n rates) = Inr (Some b)"
    "counts b \<in> set (candidates n rates)" "cost b = pence (unit_cost rates (counts b))"
    "\<forall>c \<in> set (candidates n rates). amount (cost b) \<le> unit_cost rates c"
    using cheapest_from_None [OF candidates_nonempty k] by blast
  have "amount (cost b) \<le> unit_cost rates c" if "covers rates n c" for c
    using candidates_dominate [OF that assms(1)] b(4) by force
  with b candidates_cover [OF b(2) assms(2,3)] show ?thesis by (auto simp: cheapestCombination_def)
qed

subsection \<open>The quote for a listing\<close>

text \<open>The rates that apply to a hire: the weekend rate only when it starts on a Friday.\<close>

definition applicable_rates :: "ListingRateCard \<Rightarrow> int \<Rightarrow> AvailableRates" where
  "applicable_rates rates wd = \<lparr>day_rate = the (daily rates),
     weekend_rate = (if wd = WEEKEND_START_WEEKDAY then weekend rates else None),
     week_rate = weekly rates\<rparr>"

definition priceable :: "ListingRateCard \<Rightarrow> bool" where
  "priceable rates \<longleftrightarrow> listingRateCardSchema rates \<and> daily rates \<noteq> None"

lemma toAvailableRates_ok:
  assumes "priceable rates"
  shows "toAvailableRates rates wd = Inr (applicable_rates rates wd)" and "wf_rates (applicable_rates rates wd)"
proof -
  obtain d where d: "daily rates = Some d" using assms by (auto simp: priceable_def)
  have r: "rentalRateSchema m \<Longrightarrow> remoney m = Inr m" for m
    using rentalRateSchema_wf remoney_wf by blast
  show "toAvailableRates rates wd = Inr (applicable_rates rates wd)"
    using assms d by (cases "weekend rates"; cases "weekly rates")
      (auto simp: toAvailableRates_def applicable_rates_def priceable_def listingRateCardSchema_def r)
  show "wf_rates (applicable_rates rates wd)"
    using assms d by (auto simp: wf_rates_def applicable_rates_def priceable_def listingRateCardSchema_def)
qed

definition item_total :: "QuoteLineItem list \<Rightarrow> int" where
  "item_total ls = sum_list (map (\<lambda>l. amount (subtotal l)) ls)"

definition item_days :: "QuoteLineItem list \<Rightarrow> int" where
  "item_days ls = sum_list (map (\<lambda>l. item_count l * RENTAL_UNIT_DAYS (unit l)) ls)"

definition wf_item :: "QuoteLineItem \<Rightarrow> bool" where
  "wf_item l \<longleftrightarrow> 0 < item_count l \<and> amount (subtotal l) = amount (unitPrice l) * item_count l"

lemma toLineItems_ok:
  assumes wf: "wf_rates rates" and us: "usable rates (counts b)" and mo: "moderate_counts (counts b)"
  shows "\<exists>ls. toLineItems b rates = Inr ls \<and> item_total ls = unit_cost rates (counts b) \<and>
    item_days ls = days_n (counts b) + 3 * weekends_n (counts b) + 7 * weeks_n (counts b) \<and> list_all wf_item ls"
proof -
  define c where "c = counts b"
  define price where "price u = (case u of Day \<Rightarrow> day_rate rates | Weekend \<Rightarrow> the (weekend_rate rates)
    | Week \<Rightarrow> the (week_rate rates))" for u
  define item where "item u = \<lparr>unit = u, item_count = count_of c u, unitPrice = price u,
    subtotal = pence (amount (price u) * count_of c u)\<rparr>" for u
  define used where "used = filter (\<lambda>u. 0 < count_of c u) UNITS_LARGEST_FIRST"
  have "rbind (rateFor u rates) (\<lambda>r. rbind (arith (multiply r (Finite (of_int (count_of c u))) HalfUp)) (\<lambda>s.
      Inr \<lparr>unit = u, item_count = count_of c u, unitPrice = r, subtotal = s\<rparr>)) = Inr (item u)"
    if u: "u \<in> set used" for u
  proof -
    have k: "0 \<le> count_of c u" "count_of c u \<le> 1000000"
      using us mo by (cases u; simp add: usable_def moderate_counts_def c_def)+
    have "rateFor u rates = Inr (price u) \<and> rentalRateSchema (price u)"
      using u us wf by - (cases u; cases "weekend_rate rates"; cases "week_rate rates";
        auto simp: used_def price_def usable_def wf_rates_def c_def)
    with multiply_rate [OF _ k] show ?thesis by (simp add: item_def del: multiply.simps)
  qed
  then have "toLineItems b rates = Inr (map item used)"
    unfolding toLineItems_def c_def [symmetric] used_def [symmetric] by (intro rmap_cong_Inr) blast
  moreover have "item_total (map item used) = unit_cost rates c"
    using us by (cases "weekend_rate rates"; cases "week_rate rates")
      (auto simp: item_total_def used_def UNITS_LARGEST_FIRST_def item_def price_def unit_cost_def
        usable_def rate_amount_def c_def)
  moreover have "item_days (map item used) = days_n c + 3 * weekends_n c + 7 * weeks_n c"
    using us by (auto simp: item_days_def used_def UNITS_LARGEST_FIRST_def item_def usable_def c_def)
  moreover have "list_all wf_item (map item used)"
    by (auto simp: list_all_iff wf_item_def item_def used_def)
  ultimately show ?thesis by (auto simp: c_def)
qed

lemma chooseCheapestUnits_ok:
  assumes "priceable rates" "1 \<le> n" "n \<le> 1000000"
  shows "\<exists>u c. chooseCheapestUnits (of_int n) wd rates = Inr (Some u) \<and>
    covers (applicable_rates rates wd) n c \<and> moderate_counts c \<and>
    itemCharge u = pence (unit_cost (applicable_rates rates wd) c) \<and>
    item_total (lineItems u) = amount (itemCharge u) \<and> list_all wf_item (lineItems u) \<and>
    n \<le> item_days (lineItems u) \<and>
    (\<forall>c'. covers (applicable_rates rates wd) n c' \<longrightarrow> amount (itemCharge u) \<le> unit_cost (applicable_rates rates wd) c')"
proof -
  define av where "av = applicable_rates rates wd"
  note av = toAvailableRates_ok [OF assms(1), of wd, folded av_def]
  obtain b where b: "cheapestCombination n av = Inr b" "covers av n (counts b)" "moderate_counts (counts b)"
    "cost b = pence (unit_cost av (counts b))" "\<forall>c. covers av n c \<longrightarrow> amount (cost b) \<le> unit_cost av c"
    using cheapestCombination_min [OF av(2) assms(2,3)] by blast
  have us: "usable av (counts b)" using b(2) by (simp add: covers_def)
  obtain ls where ls: "toLineItems b av = Inr ls" "item_total ls = unit_cost av (counts b)"
    "item_days ls = days_n (counts b) + 3 * weekends_n (counts b) + 7 * weeks_n (counts b)" "list_all wf_item ls"
    using toLineItems_ok [OF av(2) us b(3)] by blast
  have "daily rates \<noteq> None" using assms(1) by (simp add: priceable_def)
  then have "chooseCheapestUnits (of_int n) wd rates = Inr (Some \<lparr>lineItems = ls, itemCharge = cost b\<rparr>)"
    using assms(2) by (simp add: chooseCheapestUnits_def av(1) b(1) ls(1))
  moreover have "n \<le> item_days ls" using b(2) by (simp add: ls(3) covers_def)
  ultimately show ?thesis
    using b ls unfolding av_def [symmetric]
    by (intro exI [of _ "\<lparr>lineItems = ls, itemCharge = cost b\<rparr>"] exI [of _ "counts b"]) auto
qed

subsection \<open>The contract of a covering price\<close>

text \<open>
  What the search promises to whoever displays prices: a price that some covering combination
  attains and none undercuts. Monotonicity in the days and the bound by the plain daily total
  follow from the contract alone.
\<close>

locale covering_price =
  fixes valid :: "'r \<Rightarrow> bool"
    and cov :: "'r \<Rightarrow> int \<Rightarrow> 'c \<Rightarrow> bool"
    and cst :: "'r \<Rightarrow> 'c \<Rightarrow> int"
    and price :: "'r \<Rightarrow> int \<Rightarrow> int option"
    and plain :: "'r \<Rightarrow> int \<Rightarrow> 'c"
    and lim :: int
  assumes attained: "valid r \<Longrightarrow> 1 \<le> n \<Longrightarrow> n \<le> lim \<Longrightarrow> \<exists>c. cov r n c \<and> price r n = Some (cst r c)"
    and minimal: "valid r \<Longrightarrow> 1 \<le> n \<Longrightarrow> n \<le> lim \<Longrightarrow> price r n = Some k \<Longrightarrow> cov r n c \<Longrightarrow> k \<le> cst r c"
    and shorter: "cov r n c \<Longrightarrow> m \<le> n \<Longrightarrow> cov r m c"
    and plain_covers: "valid r \<Longrightarrow> 1 \<le> n \<Longrightarrow> cov r n (plain r n)"
begin

lemma price_exists: "valid r \<Longrightarrow> 1 \<le> n \<Longrightarrow> n \<le> lim \<Longrightarrow> \<exists>k. price r n = Some k"
  using attained by blast

lemma price_le_plain:
  "valid r \<Longrightarrow> 1 \<le> n \<Longrightarrow> n \<le> lim \<Longrightarrow> \<exists>k. price r n = Some k \<and> k \<le> cst r (plain r n)"
  using attained minimal plain_covers by metis

lemma price_mono:
  assumes "valid r" "1 \<le> m" "m \<le> n" "n \<le> lim"
  shows "\<exists>j k. price r m = Some j \<and> price r n = Some k \<and> j \<le> k"
proof -
  obtain c where c: "cov r n c" "price r n = Some (cst r c)" using attained [of r n] assms by auto
  obtain j where j: "price r m = Some j" using price_exists [of r m] assms by auto
  have "j \<le> cst r c" using minimal [OF assms(1,2) _ j shorter [OF c(1) assms(3)]] assms by simp
  with c j show ?thesis by blast
qed

end

definition item_price :: "ListingRateCard \<times> int \<Rightarrow> int \<Rightarrow> int option" where
  "item_price r n = (case chooseCheapestUnits (of_int n) (snd r) (fst r) of
     Inr (Some u) \<Rightarrow> Some (amount (itemCharge u)) | _ \<Rightarrow> None)"

interpretation quote: covering_price "\<lambda>r. priceable (fst r)" "\<lambda>r. covers (applicable_rates (fst r) (snd r))"
    "\<lambda>r. unit_cost (applicable_rates (fst r) (snd r))" item_price
    "\<lambda>r n. \<lparr>days_n = n, weekends_n = 0, weeks_n = 0\<rparr>" 1000000
proof unfold_locales
  fix r :: "ListingRateCard \<times> int" and n :: int
  assume r: "priceable (fst r)" "1 \<le> n" "n \<le> 1000000"
  note ok = chooseCheapestUnits_ok [OF r, of "snd r"]
  show "\<exists>c. covers (applicable_rates (fst r) (snd r)) n c \<and>
      item_price r n = Some (unit_cost (applicable_rates (fst r) (snd r)) c)"
    using ok by (auto simp: item_price_def)
  fix k c
  assume "item_price r n = Some k" "covers (applicable_rates (fst r) (snd r)) n c"
  with ok show "k \<le> unit_cost (applicable_rates (fst r) (snd r)) c"
    by (auto simp: item_price_def)
next
  fix r :: "ListingRateCard \<times> int" and m n c
  assume "covers (applicable_rates (fst r) (snd r)) n c" "m \<le> n"
  then show "covers (applicable_rates (fst r) (snd r)) m c" by (simp add: covers_def)
next
  fix r :: "ListingRateCard \<times> int" and n :: int
  assume "1 \<le> n"
  then show "covers (applicable_rates (fst r) (snd r)) n \<lparr>days_n = n, weekends_n = 0, weeks_n = 0\<rparr>"
    by (simp add: covers_def usable_def weekend_limit_def)
qed

subsection \<open>The damage excess\<close>

lemma appliedExcessFor_ok:
  assumes policy: "damageSecurityPolicySchema policy" and val: "\<bar>amount value'\<bar> \<le> 2 ^ 37"
  shows "\<exists>p. 2 * \<bar>10000 * p - amount value' * excessPercentageBasisPoints policy\<bar> \<le> 10000 \<and>
    appliedExcessFor policy value' = Inr
      \<lparr>excessAmount = pence (min (amount (recoveryCeiling policy)) (max (amount (excessFloor policy)) p)),
       boundBy = (if amount (recoveryCeiling policy) < max (amount (excessFloor policy)) p then CeilingBound
                  else if amount (excessFloor policy) < p then PercentageBound else FloorBound)\<rparr>"
proof -
  have bp: "0 \<le> excessPercentageBasisPoints policy" "excessPercentageBasisPoints policy \<le> 10000"
    and wf: "wf_money (excessFloor policy)" "wf_money (recoveryCeiling policy)"
    using policy boundedMoneySchema_wf by (auto simp: schema_defs)
  obtain p where p: "percentageOf value' (basisPointsToPercent (excessPercentageBasisPoints policy)) HalfUp = Inr (pence p)"
    "2 * \<bar>10000 * p - amount value' * excessPercentageBasisPoints policy\<bar> \<le> 10000"
    using percentageOf_nearest [OF bp val] unfolding basisPointsToPercent_def by blast
  show ?thesis
    by (intro exI [of _ p] conjI p(2))
      (auto simp: appliedExcessFor_def p(1) remoney_wf wf Money_eq_iff min_def max_def)
qed

subsection \<open>The price of a hire is complete\<close>

lemma item_charge_bounds:
  assumes "priceable rates" "1 \<le> n" "n \<le> 88"
    "chooseCheapestUnits (of_int n) wd rates = Inr (Some u)"
  shows "0 \<le> amount (itemCharge u)" and "amount (itemCharge u) \<le> 88000000"
proof -
  define av where "av = applicable_rates rates wd"
  have wf: "wf_rates av" using toAvailableRates_ok(2) [OF assms(1)] by (simp add: av_def)
  obtain c where c: "covers av n c" "itemCharge u = pence (unit_cost av c)"
    "\<forall>c'. covers av n c' \<longrightarrow> amount (itemCharge u) \<le> unit_cost av c'"
    using chooseCheapestUnits_ok [OF assms(1,2), of wd] assms(3,4) by (auto simp: av_def)
  have rates: "0 \<le> amount (day_rate av)" "amount (day_rate av) \<le> 1000000"
    "0 \<le> rate_amount (weekend_rate av)" "0 \<le> rate_amount (week_rate av)"
    using wf by (auto simp: wf_rates_def rate_amount_def split: option.splits dest!: rentalRateSchema_wf)
  show "0 \<le> amount (itemCharge u)"
    using rates c(1) by (simp add: c(2) unit_cost_def covers_def usable_def)
  have "covers av n \<lparr>days_n = n, weekends_n = 0, weeks_n = 0\<rparr>"
    using assms(2) by (simp add: covers_def usable_def weekend_limit_def)
  with c(3) have "amount (itemCharge u) \<le> amount (day_rate av) * n"
    by (auto simp: unit_cost_def dest: spec [of _ "\<lparr>days_n = n, weekends_n = 0, weeks_n = 0\<rparr>"])
  also have "\<dots> \<le> 1000000 * 88" using rates assms by (intro mult_mono) auto
  finally show "amount (itemCharge u) \<le> 88000000" by simp
qed

lemma fee_bound:
  assumes "2 * \<bar>10000 * r - a * bp\<bar> \<le> 10000" "0 \<le> a" "a \<le> 88000000" "0 \<le> bp" "bp \<le> 5000"
  shows "0 \<le> (r :: int)" and "r \<le> 44000001"
proof -
  have "0 \<le> a * bp" using assms by simp
  moreover have "a * bp \<le> 88000000 * 5000" using assms by (intro mult_mono) auto
  moreover have "- 5000 \<le> 10000 * r - a * bp" "10000 * r - a * bp \<le> 5000" using assms(1) by auto
  ultimately have "- 1 < r" "r < 44000002" by linarith+
  then show "0 \<le> r" "r \<le> 44000001" by simp_all
qed

lemma priceRental_ok:
  assumes "priceable rates" "categoryFeePolicySchema policy" "1 \<le> n" "n \<le> 88"
  shows "\<exists>u q r. chooseCheapestUnits (of_int n) wd rates = Inr (Some u) \<and>
    priceRental (of_int n) wd rates policy = Inr (Some q) \<and>
    pricedLineItems q = lineItems u \<and> pricedItemCharge q = itemCharge u \<and>
    2 * \<bar>10000 * r - amount (itemCharge u) * renterFeeBasisPoints policy\<bar> \<le> 10000 \<and>
    pricedRenterFee q = pence (max r (amount (minimumPlatformFee policy))) \<and>
    pricedMinimumFeeApplied q = (r < amount (minimumPlatformFee policy)) \<and>
    pricedTotal q = pence (amount (itemCharge u) + amount (pricedRenterFee q)) \<and>
    0 \<le> amount (pricedRenterFee q) \<and> amount (pricedTotal q) \<le> 132000001"
proof -
  obtain u where u: "chooseCheapestUnits (of_int n) wd rates = Inr (Some u)"
    using chooseCheapestUnits_ok [OF assms(1,3), of wd] assms(4) by auto
  note b = item_charge_bounds [OF assms(1,3,4) u]
  obtain r where r: "renterFeeOn (itemCharge u) policy =
      Inr \<lparr>fee = pence (max r (amount (minimumPlatformFee policy))),
           minimumFeeApplied = (r < amount (minimumPlatformFee policy))\<rparr>"
    "2 * \<bar>10000 * r - amount (itemCharge u) * renterFeeBasisPoints policy\<bar> \<le> 10000"
    using renterFeeOn_ok [OF assms(2), of "itemCharge u"] b by auto
  define f where "f = max r (amount (minimumPlatformFee policy))"
  have fl: "0 \<le> amount (minimumPlatformFee policy)" "amount (minimumPlatformFee policy) \<le> 1000000"
    using assms(2) by (auto simp: schema_defs pricingFloorSchema_def MAX_PRICING_FLOOR_MINOR_UNITS_def)
  have f: "0 \<le> f" "f \<le> 44000001"
    using fee_bound [OF r(2) b] fl assms(2) by (auto simp: f_def schema_defs)
  have add: "add (itemCharge u) (pence f) = Inr (pence (amount (itemCharge u) + f))"
    using b f by (simp add: add_exact safe_int_def)
  show ?thesis
    by (intro exI [of _ u] exI [of _ "\<lparr>pricedLineItems = lineItems u, pricedItemCharge = itemCharge u,
        pricedRenterFee = pence f, pricedMinimumFeeApplied = (r < amount (minimumPlatformFee policy)),
        pricedTotal = pence (amount (itemCharge u) + f)\<rparr>"] exI [of _ r])
      (use u r b f add in \<open>auto simp: priceRental_def f_def\<close>)
qed

subsection \<open>Properties\<close>


text \<open>A card with a daily, a weekend and a weekly rate, for the witnesses below.\<close>

definition example_card :: ListingRateCard where
  "example_card = \<lparr>daily = Some (pence 2500), weekend = Some (pence 6000), weekly = Some (pence 9000)\<rparr>"

definition example_policy :: CategoryFeePolicy where
  "example_policy = \<lparr>ownerCommissionBasisPoints = 1500, renterFeeBasisPoints = 725,
     minimumBookingTotal = pence 1000, minimumPlatformFee = pence 100\<rparr>"

lemmas example_simps = example_card_def example_policy_def priceable_def listingRateCardSchema_def
  rentalRateSchema_def MIN_RENTAL_RATE_MINOR_UNITS_def MAX_RENTAL_RATE_MINOR_UNITS_def schema_defs
  pricingFloorSchema_def MAX_PRICING_FLOOR_MINOR_UNITS_def MAX_MAXIMUM_RENTAL_DAYS_def


text \<open>C34: For a hire within the bounds of the contracts, pricing never fails, and the total is the item
  charge plus a fee which is at least the minimum platform fee and otherwise within half a penny of the
  exact percentage; the flag says which of the two was charged.\<close>

theorem priceRental_total:
  assumes "priceable rates" "categoryFeePolicySchema policy" "1 \<le> n" "n \<le> MAX_MAXIMUM_RENTAL_DAYS"
  shows "\<exists>q. priceRental (of_int n) wd rates policy = Inr (Some q) \<and>
    item_total (pricedLineItems q) = amount (pricedItemCharge q) \<and>
    amount (pricedTotal q) = amount (pricedItemCharge q) + amount (pricedRenterFee q) \<and>
    amount (minimumPlatformFee policy) \<le> amount (pricedRenterFee q) \<and>
    (if pricedMinimumFeeApplied q
     then pricedRenterFee q = minimumPlatformFee policy \<and>
       amount (pricedItemCharge q) * renterFeeBasisPoints policy < 10000 * amount (minimumPlatformFee policy)
     else 2 * \<bar>10000 * amount (pricedRenterFee q) - amount (pricedItemCharge q) * renterFeeBasisPoints policy\<bar> \<le> 10000)"
proof -
  have n: "n \<le> 88" using assms(4) by (simp add: MAX_MAXIMUM_RENTAL_DAYS_def)
  obtain u q r where h: "chooseCheapestUnits (of_int n) wd rates = Inr (Some u)"
    "priceRental (of_int n) wd rates policy = Inr (Some q)"
    "pricedLineItems q = lineItems u" "pricedItemCharge q = itemCharge u"
    "2 * \<bar>10000 * r - amount (itemCharge u) * renterFeeBasisPoints policy\<bar> \<le> 10000"
    "pricedRenterFee q = pence (max r (amount (minimumPlatformFee policy)))"
    "pricedMinimumFeeApplied q = (r < amount (minimumPlatformFee policy))"
    "pricedTotal q = pence (amount (itemCharge u) + amount (pricedRenterFee q))"
    using priceRental_ok [OF assms(1-3) n, of wd] by blast
  have "item_total (lineItems u) = amount (itemCharge u)"
    using chooseCheapestUnits_ok [OF assms(1,3), of wd] n h(1) by auto
  with h show ?thesis by (intro exI [of _ q]) (auto simp: Money_eq_iff max_def)
qed

theorem priceRental_total_witness:
  "\<exists>q. priceRental (of_int 3) 5 example_card example_policy = Inr (Some q) \<and>
     amount (pricedTotal q) = amount (pricedItemCharge q) + amount (pricedRenterFee q)"
proof -
  have "priceable example_card" "categoryFeePolicySchema example_policy" "(1::int) \<le> 3" "3 \<le> MAX_MAXIMUM_RENTAL_DAYS"
    by (simp_all add: example_simps)
  from priceRental_total [OF this, of 5] show ?thesis by blast
qed

text \<open>
A period the length rule accepts is always priced, whatever maximum a listing asks for: the
  platform's 88-day cap cannot be widened, so the day count stays inside the range on which pricing is
  total. The day count is the calendar library's; it is at least one for a period that ends after it
  starts.\<close>

theorem accepted_period_is_priced:
  assumes "\<And>s e. s < e \<Longrightarrow> 1 \<le> dayCount s e tz"
    and "refusePeriod dayCount startAt endAt tz maximumDays = None"
    and "priceable rates" "categoryFeePolicySchema policy"
  shows "startAt < endAt \<and> dayCount startAt endAt tz \<le> maximumDays \<and> dayCount startAt endAt tz \<le> 88 \<and>
    (\<exists>q. priceRental (of_int (dayCount startAt endAt tz)) wd rates policy = Inr (Some q))"
proof -
  have h: "startAt < endAt" "dayCount startAt endAt tz \<le> maximumDays" "dayCount startAt endAt tz \<le> 88"
    using assms(2) by (auto simp: refusePeriod_def Let_def MAX_MAXIMUM_RENTAL_DAYS_def split: if_splits)
  with priceRental_ok [OF assms(3,4) assms(1) [OF h(1)] h(3), of wd] show ?thesis by blast
qed

theorem accepted_period_is_priced_witness:
  "\<exists>q. priceRental (of_int (((\<lambda>s e tz. (e - s + 86399999) div 86400000) :: int \<Rightarrow> int \<Rightarrow> unit \<Rightarrow> int) 0 172800000 ())) 1
     example_card example_policy = Inr (Some q)"
proof -
  have "1 \<le> (e - s + 86399999) div 86400000" if "s < e" for s e :: int
    using zdiv_mono1 [of 86400000 "e - s + 86399999" 86400000] that by simp
  from accepted_period_is_priced [where dayCount = "\<lambda>s e tz. (e - s + 86399999) div 86400000" and tz = "()"
      and startAt = 0 and endAt = 172800000 and maximumDays = 365 and wd = 1
      and rates = example_card and policy = example_policy] this
  show ?thesis by (simp add: refusePeriod_def example_simps Let_def)
qed

text \<open>
The applied excess is the greater of the floor and the percentage of the replacement value,
  never above the recovery ceiling; the percentage is within half a penny of exact, and the reported
  bound names the term that decided.\<close>

theorem appliedExcess_band:
  assumes "damageSecurityPolicySchema policy" "0 \<le> amount v" "amount v \<le> 2 ^ 37"
  shows "\<exists>p e. appliedExcessFor policy v = Inr e \<and>
    2 * \<bar>10000 * p - amount v * excessPercentageBasisPoints policy\<bar> \<le> 10000 \<and>
    amount (excessAmount e) = min (amount (recoveryCeiling policy)) (max (amount (excessFloor policy)) p) \<and>
    amount (excessFloor policy) \<le> amount (excessAmount e) \<and> amount (excessAmount e) \<le> amount (recoveryCeiling policy) \<and>
    (boundBy e = CeilingBound \<longrightarrow> excessAmount e = recoveryCeiling policy) \<and>
    (boundBy e = PercentageBound \<longrightarrow> amount (excessAmount e) = p) \<and>
    (boundBy e = FloorBound \<longrightarrow> excessAmount e = excessFloor policy)"
proof -
  have "\<bar>amount v\<bar> \<le> 2 ^ 37" using assms(2,3) by simp
  from appliedExcessFor_ok [OF assms(1) this] obtain p where
    p: "2 * \<bar>10000 * p - amount v * excessPercentageBasisPoints policy\<bar> \<le> 10000"
    and e: "appliedExcessFor policy v = Inr
      \<lparr>excessAmount = pence (min (amount (recoveryCeiling policy)) (max (amount (excessFloor policy)) p)),
       boundBy = (if amount (recoveryCeiling policy) < max (amount (excessFloor policy)) p then CeilingBound
                  else if amount (excessFloor policy) < p then PercentageBound else FloorBound)\<rparr>" by blast
  have "amount (excessFloor policy) \<le> amount (recoveryCeiling policy)" using assms(1) by (simp add: schema_defs)
  then show ?thesis unfolding e using p by (intro exI [of _ p] exI conjI refl) (auto simp: Money_eq_iff split: if_splits)
qed

theorem appliedExcess_band_witness:
  "\<exists>e. appliedExcessFor \<lparr>excessFloor = pence 5000, excessPercentageBasisPoints = 1000, recoveryCeiling = pence 50000\<rparr> (pence 120000) = Inr e
     \<and> 5000 \<le> amount (excessAmount e) \<and> amount (excessAmount e) \<le> 50000"
proof -
  have "damageSecurityPolicySchema \<lparr>excessFloor = pence 5000, excessPercentageBasisPoints = 1000, recoveryCeiling = pence 50000\<rparr>"
    by (simp add: schema_defs boundedMoneySchema_def)
  from appliedExcess_band [OF this, of "pence 120000"] show ?thesis by auto
qed

lemma binary64_725:
  "fl (29 / 4) = 29 / 4" "fl (29 / 400) = 5224175567749775 / 72057594037927936"
  "fl (200 * (5224175567749775 / 72057594037927936)) = 8162774324609023 / 562949953421312"
  by (code_simp, code_simp, code_simp)

text \<open>
The percentage is computed in binary floating point before it is rounded, so an exact half
  penny may round down: with a fee of 7.25 percent, which the contract accepts, a charge of 200 pence
  carries a fee of 14 pence although the exact fee is 14.5 pence and half-up is 15.\<close>

theorem fee_tie_rounds_down:
  "categoryFeePolicySchema (example_policy\<lparr>minimumPlatformFee := pence 0\<rparr>) \<and>
   renterFeeOn (pence 200) (example_policy\<lparr>minimumPlatformFee := pence 0\<rparr>) =
     Inr \<lparr>fee = pence 14, minimumFeeApplied = False\<rparr> \<and>
   half_up (200 * 725 / 10000) = 15"
proof (intro conjI)
  show "categoryFeePolicySchema (example_policy\<lparr>minimumPlatformFee := pence 0\<rparr>)"
    by (simp add: example_simps)
  show "half_up (200 * 725 / 10000) = 15" by code_simp
  have "percentageOf (pence 200) (basisPointsToPercent 725) HalfUp = Inr (pence 14)"
  proof -
    have "basisPointsToPercent 725 = Finite (29 / 4)"
      by (simp add: basisPointsToPercent_def to_number_moderate binary64_725(1))
    moreover have "number_div100 (Finite (29 / 4)) = Finite (5224175567749775 / 72057594037927936)"
      by (simp add: to_number_moderate binary64_725(2))
    moreover have "to_number (200 * (5224175567749775 / 72057594037927936)) = Finite (8162774324609023 / 562949953421312)"
      by (subst to_number_moderate) (simp, simp only: binary64_725(3))
    moreover have "\<lfloor>8444249301319679 / 562949953421312 :: rat\<rfloor> = 14" by (subst floor_eq_iff) simp
    ultimately show ?thesis by (simp only: percentageOf_def multiply.simps) (simp add: sgn_if safe_int_def)
  qed
  then show "renterFeeOn (pence 200) (example_policy\<lparr>minimumPlatformFee := pence 0\<rparr>) =
     Inr \<lparr>fee = pence 14, minimumFeeApplied = False\<rparr>"
    by (simp add: renterFeeOn_def example_policy_def remoney_wf wf_money_def safe_int_def)
qed

end
