(* ===== verification/Scaled.thy ===== *)
theory Scaled
  imports Money
begin

section \<open>Fixed-scale decimals and bounded reads\<close>

text \<open>
  \<^verbatim>\<open>packages/core/src/scaled.ts\<close> (an attribute value as an integer at a declared scale, and its
  decimal text) and \<^verbatim>\<open>packages/core/src/paging.ts\<close> (the clamp on a requested page size, the
  one-row probe and the cut back to the page).
\<close>

datatype ScaledError = BadDecimalPlaces | UnreadableNumber | TooManyPlaces | TooLargeToStore
  | NotAScaledInteger

definition MAX_DECIMAL_PLACES :: int where
  "MAX_DECIMAL_PLACES = 9"

fun assertScale :: "number \<Rightarrow> ScaledError + nat" where
  "assertScale (Finite d) =
     (if d \<noteq> of_int \<lfloor>d\<rfloor> \<or> d < 0 \<or> d > of_int MAX_DECIMAL_PLACES then Inl BadDecimalPlaces
      else Inr (nat \<lfloor>d\<rfloor>))"
| "assertScale _ = Inl BadDecimalPlaces"

definition fromDecimalString :: "string \<Rightarrow> number \<Rightarrow> ScaledError + int" where
  "fromDecimalString value decimalPlaces =
    rbind (assertScale decimalPlaces) (\<lambda>places.
      case decimal_match (trim value) of
        None \<Rightarrow> Inl UnreadableNumber
      | Some (neg, whole, rest) \<Rightarrow>
          let fraction = (case rest of None \<Rightarrow> '''' | Some f \<Rightarrow> f)
          in if places < length fraction then Inl TooManyPlaces
             else let scaled = Number_digits (whole @ padEnd places CHR ''0'' fraction)
                  in if \<not> (scaled = of_int \<lfloor>scaled\<rfloor> \<and> safe_int \<lfloor>scaled\<rfloor>) then Inl TooLargeToStore
                     else Inr (if neg \<and> scaled \<noteq> 0 then - \<lfloor>scaled\<rfloor> else \<lfloor>scaled\<rfloor>))"

fun toDecimalString :: "number \<Rightarrow> number \<Rightarrow> ScaledError + string" where
  "toDecimalString (Finite v) decimalPlaces =
    rbind (assertScale decimalPlaces) (\<lambda>places.
      if \<not> (v = of_int \<lfloor>v\<rfloor> \<and> safe_int \<lfloor>v\<rfloor>) then Inl NotAScaledInteger
      else let sign = (if v < 0 then ''-'' else '''');
               digits = padStart (places + 1) CHR ''0'' (show_nat (nat \<bar>\<lfloor>v\<rfloor>\<bar>))
           in if places = 0 then Inr (sign @ digits)
              else Inr (sign @ take (length digits - places) digits @ CHR ''.''
                        # drop (length digits - places) digits))"
| "toDecimalString _ decimalPlaces = rbind (assertScale decimalPlaces) (\<lambda>_. Inl NotAScaledInteger)"

definition format_scaled :: "number \<Rightarrow> number \<Rightarrow> string \<Rightarrow> ScaledError + string" where
  "format_scaled v decimalPlaces unit =
    rbind (toDecimalString v decimalPlaces) (\<lambda>s. Inr (trim (s @ '' '' @ unit)))"

lemma assertScale_nat: "places \<le> 9 \<Longrightarrow> assertScale (Finite (of_nat places)) = Inr places"
  by (simp add: MAX_DECIMAL_PLACES_def)

text \<open>What is displayed reads back as exactly what is stored.\<close>

lemma fromDecimalString_printed:
  assumes "places \<le> 9" and safe: "safe_int v"
    and digits: "list_all is_digit w" "w \<noteq> []" "list_all is_digit f" "length f = places"
    and val: "digits_value (w @ f) = nat \<bar>v\<bar>"
    and strg: "s = (if v < 0 then ''-'' else '''') @ w @ (if f = [] then [] else CHR ''.'' # f)"
  shows "fromDecimalString s (Finite (of_nat places)) = Inr v"
proof -
  have "trim s = s"
  proof (rule trim_id)
    have "is_digit (hd w)" "is_digit (last w)" "f \<noteq> [] \<Longrightarrow> is_digit (last f)"
      using digits by (auto simp: list_all_iff)
    then show "\<not> is_space (hd s)" and "\<not> is_space (last s)"
      using digits by (auto simp: strg is_digit_not_space)
  qed (use digits in \<open>auto simp: strg\<close>)
  moreover have "decimal_match s = Some (v < 0, w, if f = [] then None else Some f)"
    unfolding strg using decimal_match_point [OF digits(1-3), where neg = "v < 0"]
      decimal_match_whole [OF digits(1,2), where neg = "v < 0"] by (cases "f = []") simp_all
  moreover have "Number_digits (w @ f) = of_int \<bar>v\<bar>"
    using safe fl_int [of "\<bar>v\<bar>"] by (simp add: Number_digits_def val safe_int_def)
  moreover have "safe_int \<bar>v\<bar>" using safe by (simp add: safe_int_def)
  ultimately show ?thesis
    using digits assms(1) by (auto simp: fromDecimalString_def assertScale_nat Let_def padEnd_id simp del: assertScale.simps)
qed

lemma scaled_roundtrip_aux:
  assumes "places \<le> 9" "safe_int v"
  shows "\<exists>s. toDecimalString (Finite (of_int v)) (Finite (of_nat places)) = Inr s \<and>
    fromDecimalString s (Finite (of_nat places)) = Inr v"
proof -
  define digits where "digits = padStart (places + 1) CHR ''0'' (show_nat (nat \<bar>v\<bar>))"
  define w f where "w = take (length digits - places) digits" and "f = drop (length digits - places) digits"
  have len: "places < length digits" by (simp add: digits_def)
  have all: "list_all is_digit digits" by (simp add: digits_def padStart_digits show_nat_digits)
  have parts: "list_all is_digit w" "w \<noteq> []" "list_all is_digit f" "length f = places"
    using all len by (auto simp: w_def f_def list_all_iff dest: in_set_takeD in_set_dropD)
  have val: "digits_value (w @ f) = nat \<bar>v\<bar>" by (simp add: w_def f_def digits_def)
  define s where "s = (if v < 0 then ''-'' else '''') @ w @ (if f = [] then [] else CHR ''.'' # f)"
  have as: "assertScale (Finite (of_nat places)) = Inr places" using assms(1) by (rule assertScale_nat)
  have "toDecimalString (Finite (of_int v)) (Finite (of_nat places)) =
      (if places = 0 then Inr ((if v < 0 then ''-'' else '''') @ digits)
       else Inr ((if v < 0 then ''-'' else '''') @ w @ CHR ''.'' # f))"
    using assms by (simp only: toDecimalString.simps as rbind.simps) (simp add: digits_def w_def f_def Let_def)
  moreover have "places = 0 \<longleftrightarrow> f = []" using parts by auto
  moreover have "w = digits" if "places = 0" using that by (simp add: w_def)
  ultimately have "toDecimalString (Finite (of_int v)) (Finite (of_nat places)) = Inr s"
    by (auto simp: s_def)
  moreover have "fromDecimalString s (Finite (of_nat places)) = Inr v"
    using fromDecimalString_printed [OF assms parts val s_def] .
  ultimately show ?thesis by blast
qed

subsection \<open>Bounded reads\<close>

record LimitBounds =
  fallback :: int
  max_limit :: int

definition trunc :: "rat \<Rightarrow> int" where
  "trunc x = (if 0 \<le> x then \<lfloor>x\<rfloor> else \<lceil>x\<rceil>)"

fun boundedLimit :: "number \<Rightarrow> LimitBounds \<Rightarrow> int" where
  "boundedLimit (Finite requested) bounds = min (max (trunc requested) 1) (max_limit bounds)"
| "boundedLimit _ bounds = fallback bounds"

definition probe :: "nat \<Rightarrow> nat" where
  "probe limit = limit + 1"

record 'a Page =
  items :: "'a list"
  truncated :: bool

definition fitTo :: "'a list \<Rightarrow> nat \<Rightarrow> 'a Page" where
  "fitTo rows limit = \<lparr>items = take limit rows, truncated = (limit < length rows)\<rparr>"

text \<open>Fetching with the probe and cutting back serves the page and reports exactly what was left.\<close>

lemma fitTo_probe: "fitTo (take (probe limit) rows) limit =
    \<lparr>items = take limit rows, truncated = (limit < length rows)\<rparr>"
  by (auto simp: fitTo_def probe_def min_def)

lemma boundedLimit_bounds:
  assumes "1 \<le> fallback b" "fallback b \<le> max_limit b"
  shows "1 \<le> boundedLimit n b \<and> boundedLimit n b \<le> max_limit b"
  using assms by (cases n) auto

subsection \<open>Properties\<close>

text \<open>
A scaled integer printed as a decimal string at any supported number of places reads back as the
  same integer.\<close>

theorem scaled_roundtrip:
  assumes "places \<le> 9" "safe_int v"
  shows "\<exists>s. toDecimalString (Finite (of_int v)) (Finite (of_nat places)) = Inr s \<and>
    fromDecimalString s (Finite (of_nat places)) = Inr v"
  using assms by (rule scaled_roundtrip_aux)

theorem scaled_roundtrip_witness:
  "\<exists>s. toDecimalString (Finite (of_int (- 5))) (Finite (of_nat 3)) = Inr s \<and>
    fromDecimalString s (Finite (of_nat 3)) = Inr (- 5)"
  by (rule scaled_roundtrip) (simp_all add: safe_int_def)

text \<open>
A page read with one probe row beyond the limit returns exactly the first rows up to the
  limit, and reports truncation exactly when the store held more; the limit a caller asked for, even
  one that is not a number, is clamped into the configured bounds.\<close>

theorem page_reports_truncation:
  assumes "1 \<le> fallback b" "fallback b \<le> max_limit b"
  shows "1 \<le> boundedLimit n b \<and> boundedLimit n b \<le> max_limit b \<and>
    fitTo (take (probe (nat (boundedLimit n b))) rows) (nat (boundedLimit n b)) =
      \<lparr>items = take (nat (boundedLimit n b)) rows, truncated = (nat (boundedLimit n b) < length rows)\<rparr>"
  using boundedLimit_bounds [OF assms, of n] fitTo_probe by blast

theorem page_reports_truncation_witness:
  "truncated (fitTo (take (probe (nat (boundedLimit NaN \<lparr>fallback = 2, max_limit = 5\<rparr>))) [1::int, 2, 3])
     (nat (boundedLimit NaN \<lparr>fallback = 2, max_limit = 5\<rparr>)))"
proof -
  let ?b = "\<lparr>fallback = 2, max_limit = 5\<rparr> :: LimitBounds"
  have "1 \<le> fallback ?b" "fallback ?b \<le> max_limit ?b" by simp_all
  from page_reports_truncation [OF this, of NaN "[1::int, 2, 3]"] show ?thesis
    by simp
qed

end
