(* ===== verification/Booking_Store.thy ===== *)
theory Booking_Store
  imports Booking_State Pricing Scaled "HOL-Library.List_Lexorder" "HOL-Library.Char_ord"
begin

section \<open>Bookings, quotes and blocks in the database\<close>

text \<open>
  The stores of the booking module (\<^verbatim>\<open>apps/api/src/booking/prisma-booking-store.ts\<close>,
  \<^verbatim>\<open>prisma-availability-store.ts\<close>, \<^verbatim>\<open>prisma-quote-store.ts\<close>, \<^verbatim>\<open>damage-excess-columns.ts\<close>) over the tables
  of their migrations. A statement either satisfies the constraints of the schema or fails with a
  \<open>DbFailure\<close>; \<open>describe\<close> gives the part of a failure's text the adapters search, the name of the
  constraint or the code. Failures that are not the schema's, a deadlock among them, are an answer of
  the environment. Instants are milliseconds; the rows of a table are kept in order of insertion.
\<close>

subsection \<open>Failures of the database\<close>

datatype DbFailure = ExclusionViolation string | UniqueViolation string | CheckViolation string
  | ForeignKeyViolation string | NumberOutOfRange | DeadlockDetected | OtherFailure string

fun describe :: "DbFailure \<Rightarrow> string" where
  "describe (ExclusionViolation n) = ''23P01 '' @ n"
| "describe (UniqueViolation n) = ''P2002 '' @ n"
| "describe (CheckViolation n) = ''23514 '' @ n"
| "describe (ForeignKeyViolation n) = ''P2003 '' @ n"
| "describe NumberOutOfRange = ''22003''"
| "describe DeadlockDetected = ''40P01''"
| "describe (OtherFailure s) = s"

definition OVERLAP_CONSTRAINT :: string where "OVERLAP_CONSTRAINT = ''booking_periods_do_not_overlap''"
definition QUOTE_UNIQUE_INDEX :: string where "QUOTE_UNIQUE_INDEX = ''bookings_quoteId_key''"

definition isOverlapViolation :: "DbFailure \<Rightarrow> bool" where
  "isOverlapViolation e = str_includes (describe e) OVERLAP_CONSTRAINT"

definition isDeadlock :: "DbFailure \<Rightarrow> bool" where
  "isDeadlock e = str_includes (describe e) ''40P01''"

definition isDuplicateQuote :: "DbFailure \<Rightarrow> bool" where
  "isDuplicateQuote e \<longleftrightarrow> (let described = describe e in
     str_includes described QUOTE_UNIQUE_INDEX \<or>
     str_includes described ''P2002'' \<and> str_includes described ''quoteId'')"

subsection \<open>Rows and records\<close>

record BookingRow =
  bk_id :: string
  bk_listingId :: string
  bk_renterId :: string
  bk_state :: BookingState
  bk_startAt :: int
  bk_endAt :: int
  bk_timeZone :: string
  bk_quoteId :: string
  bk_categoryVersionId :: string
  bk_itemChargeAmount :: int
  bk_renterFeeAmount :: int
  bk_totalAmount :: int
  bk_currency :: CurrencyCode
  bk_itemTitle :: string
  bk_categoryName :: string
  bk_damageExcessAmount :: "int option"
  bk_damageExcessBoundBy :: "string option"
  bk_requestExpiresAt :: int
  bk_createdAt :: int
  bk_updatedAt :: int

record NewBooking =
  listingId :: string
  renterId :: string
  bookingState :: BookingState
  startAt :: int
  endAt :: int
  timeZone :: string
  quoteId :: string
  categoryVersionId :: string
  bookedItemCharge :: Money
  bookedRenterFee :: Money
  bookedTotal :: Money
  itemTitle :: string
  categoryName :: string
  appliedExcess :: "AppliedExcess option"
  requestExpiresAt :: int

record BookingRecord = NewBooking +
  bookingId :: string
  createdAt :: int
  updatedAt :: int

datatype BookingEventType = Requested | StateChanged | AutoDeclined

record BookingEventRow =
  ev_id :: string
  ev_bookingId :: string
  ev_type :: BookingEventType
  ev_fromState :: "BookingState option"
  ev_toState :: "BookingState option"
  ev_actorId :: "string option"
  ev_metadata :: "(string \<times> string) list"
  ev_createdAt :: int

record NewBookingEvent =
  eventType :: BookingEventType
  fromState :: "BookingState option"
  toState :: "BookingState option"
  actorId :: "string option"
  metadata :: "(string \<times> string) list"

record QuoteRow =
  qt_id :: string
  qt_listingId :: string
  qt_renterId :: string
  qt_startAt :: int
  qt_endAt :: int
  qt_timeZone :: string
  qt_renterPostcode :: string
  qt_itemChargeAmount :: int
  qt_renterFeeAmount :: int
  qt_totalAmount :: int
  qt_currency :: CurrencyCode
  qt_minimumFeeApplied :: bool
  qt_lineItems :: "QuoteLineItem list"
  qt_damageExcessAmount :: "int option"
  qt_damageExcessBoundBy :: "string option"
  qt_categoryVersionId :: string
  qt_expiresAt :: int
  qt_createdAt :: int

record BlockRow =
  bl_id :: string
  bl_listingId :: string
  bl_startAt :: int
  bl_endAt :: int
  bl_reason :: "string option"

record BookingDb =
  booking_rows :: "BookingRow list"
  event_rows :: "BookingEventRow list"
  quote_rows :: "QuoteRow list"
  block_rows :: "BlockRow list"
  listing_owner :: "string \<Rightarrow> string option"

datatype StoreError = OverlappingBooking string | DuplicateQuoteBooking string
  | BookingStateChanged string BookingState | IncompleteExcess string | UnknownBound string
  | StoreArithmetic MoneyError | EmptyLineItems string | DbError DbFailure

text \<open>The clock, the identifiers of new rows and the failures of the environment during one call.\<close>

record StoreEnv =
  dbNow :: int
  newRowId :: string
  newEventId :: "string \<Rightarrow> string"
  faults :: "nat \<Rightarrow> DbFailure option"

subsection \<open>The damage excess in two columns\<close>

fun bound_text :: "ExcessBound \<Rightarrow> string" where
  "bound_text FloorBound = ''floor''"
| "bound_text PercentageBound = ''percentage''"
| "bound_text CeilingBound = ''ceiling''"

definition asBound :: "string \<Rightarrow> StoreError + ExcessBound" where
  "asBound v = (if v = ''floor'' then Inr FloorBound else if v = ''percentage'' then Inr PercentageBound
     else if v = ''ceiling'' then Inr CeilingBound else Inl (UnknownBound v))"

definition toAppliedExcess ::
  "int option \<Rightarrow> string option \<Rightarrow> CurrencyCode \<Rightarrow> string \<Rightarrow> StoreError + AppliedExcess option" where
  "toAppliedExcess excessAmt bound cur what =
    (case excessAmt of
       None \<Rightarrow> Inr None
     | Some a \<Rightarrow>
         (case bound of
            None \<Rightarrow> Inl (IncompleteExcess what)
          | Some b \<Rightarrow>
              rbind (map_sum StoreArithmetic id (money (Finite (of_int a)) cur)) (\<lambda>m.
              rbind (asBound b) (\<lambda>by'. Inr (Some \<lparr>excessAmount = m, boundBy = by'\<rparr>)))))"

definition damageExcessColumns :: "AppliedExcess option \<Rightarrow> int option \<times> string option" where
  "damageExcessColumns excess =
    (map_option (\<lambda>e. amount (excessAmount e)) excess, map_option (\<lambda>e. bound_text (boundBy e)) excess)"

definition toMoney :: "int \<Rightarrow> CurrencyCode \<Rightarrow> StoreError + Money" where
  "toMoney a cur = map_sum StoreArithmetic id (money (Finite (of_int a)) cur)"

definition toRecord :: "BookingRow \<Rightarrow> StoreError + BookingRecord" where
  "toRecord row =
    rbind (toMoney (bk_itemChargeAmount row) (bk_currency row)) (\<lambda>item.
    rbind (toMoney (bk_renterFeeAmount row) (bk_currency row)) (\<lambda>fee'.
    rbind (toMoney (bk_totalAmount row) (bk_currency row)) (\<lambda>total.
    rbind (toAppliedExcess (bk_damageExcessAmount row) (bk_damageExcessBoundBy row) (bk_currency row) (bk_id row)) (\<lambda>excess.
      Inr \<lparr>listingId = bk_listingId row, renterId = bk_renterId row, bookingState = bk_state row,
           startAt = bk_startAt row, endAt = bk_endAt row, timeZone = bk_timeZone row,
           quoteId = bk_quoteId row, categoryVersionId = bk_categoryVersionId row,
           bookedItemCharge = item, bookedRenterFee = fee', bookedTotal = total,
           itemTitle = bk_itemTitle row, categoryName = bk_categoryName row, appliedExcess = excess,
           requestExpiresAt = bk_requestExpiresAt row, bookingId = bk_id row,
           createdAt = bk_createdAt row, updatedAt = bk_updatedAt row\<rparr>))))"

subsection \<open>The schema\<close>

text \<open>Half-open periods: the filter \<open>overlaps\<close> of the adapters and \<open>&&\<close> on \<^verbatim>\<open>[)\<close> ranges.\<close>

definition overlaps :: "int \<Rightarrow> int \<Rightarrow> int \<Rightarrow> int \<Rightarrow> bool" where
  "overlaps startAt' endAt' otherStart otherEnd \<longleftrightarrow> otherStart < endAt' \<and> startAt' < otherEnd"

definition clash :: "BookingRow \<Rightarrow> BookingRow \<Rightarrow> bool" where
  "clash a b \<longleftrightarrow> occupiesCalendar (bk_state a) \<and> occupiesCalendar (bk_state b) \<and>
     bk_listingId a = bk_listingId b \<and> overlaps (bk_startAt a) (bk_endAt a) (bk_startAt b) (bk_endAt b)"

definition excess_columns_ok :: "int option \<Rightarrow> string option \<Rightarrow> bool" where
  "excess_columns_ok a b \<longleftrightarrow>
    (case (a, b) of (None, None) \<Rightarrow> True
     | (Some n, Some t) \<Rightarrow> 0 \<le> n \<and> t \<in> set [''floor'', ''percentage'', ''ceiling'']
     | _ \<Rightarrow> False)"

definition row_failure :: "BookingDb \<Rightarrow> BookingRow \<Rightarrow> DbFailure option" where
  "row_failure db r =
    (if \<not> (int4 (bk_itemChargeAmount r) \<and> int4 (bk_renterFeeAmount r) \<and> int4 (bk_totalAmount r) \<and>
           pred_option int4 (bk_damageExcessAmount r)) then Some NumberOutOfRange
     else if \<not> bk_startAt r < bk_endAt r then Some (CheckViolation ''booking_ends_after_it_starts'')
     else if \<not> (0 \<le> bk_itemChargeAmount r \<and> 0 \<le> bk_renterFeeAmount r \<and>
                bk_totalAmount r = bk_itemChargeAmount r + bk_renterFeeAmount r)
       then Some (CheckViolation ''booking_money_is_not_negative'')
     else if \<not> excess_columns_ok (bk_damageExcessAmount r) (bk_damageExcessBoundBy r)
       then Some (CheckViolation ''booking_damage_excess_is_complete'')
     else if bk_id r \<in> bk_id ` set (booking_rows db) then Some (UniqueViolation ''bookings_pkey'')
     else if bk_quoteId r \<in> bk_quoteId ` set (booking_rows db) then Some (UniqueViolation QUOTE_UNIQUE_INDEX)
     else if list_ex (clash r) (booking_rows db) then Some (ExclusionViolation OVERLAP_CONSTRAINT)
     else if listing_owner db (bk_listingId r) = None then Some (ForeignKeyViolation ''bookings_listingId_fkey'')
     else if bk_quoteId r \<notin> qt_id ` set (quote_rows db) then Some (ForeignKeyViolation ''bookings_quoteId_fkey'')
     else None)"

definition insert_booking :: "BookingRow \<Rightarrow> BookingDb \<Rightarrow> DbFailure + BookingDb" where
  "insert_booking r db = (case row_failure db r of Some f \<Rightarrow> Inl f
     | None \<Rightarrow> Inr (db\<lparr>booking_rows := booking_rows db @ [r]\<rparr>))"

definition move_row :: "int \<Rightarrow> BookingState \<Rightarrow> BookingRow \<Rightarrow> BookingRow" where
  "move_row now s r = r\<lparr>bk_state := s, bk_updatedAt := now\<rparr>"

definition set_state :: "int \<Rightarrow> string \<Rightarrow> BookingState \<Rightarrow> BookingDb \<Rightarrow> DbFailure + BookingDb" where
  "set_state now i s db =
    (if list_ex (\<lambda>r. bk_id r = i \<and> list_ex (\<lambda>o'. bk_id o' \<noteq> i \<and> clash (move_row now s r) o') (booking_rows db)) (booking_rows db)
     then Inl (ExclusionViolation OVERLAP_CONSTRAINT)
     else Inr (db\<lparr>booking_rows := map (\<lambda>r. if bk_id r = i then move_row now s r else r) (booking_rows db)\<rparr>))"

fun set_states :: "int \<Rightarrow> string list \<Rightarrow> BookingState \<Rightarrow> BookingDb \<Rightarrow> DbFailure + BookingDb" where
  "set_states now [] s db = Inr db"
| "set_states now (i # is) s db = rbind (set_state now i s db) (set_states now is s)"

definition event_row :: "StoreEnv \<Rightarrow> string \<Rightarrow> NewBookingEvent \<Rightarrow> BookingEventRow" where
  "event_row env i e = \<lparr>ev_id = newEventId env i, ev_bookingId = i, ev_type = eventType e, ev_fromState = fromState e,
     ev_toState = toState e, ev_actorId = actorId e, ev_metadata = metadata e, ev_createdAt = dbNow env\<rparr>"

definition add_events :: "BookingEventRow list \<Rightarrow> BookingDb \<Rightarrow> BookingDb" where
  "add_events es db = db\<lparr>event_rows := event_rows db @ es\<rparr>"

subsection \<open>Writing a booking\<close>

datatype TxError = App StoreError | Db DbFailure

definition DEADLOCK_ATTEMPTS :: nat where "DEADLOCK_ATTEMPTS = 2"

text \<open>
  The loop of \<open>write\<close> and of \<open>accept\<close>: run the transaction; a failure is translated, retried once if it
  is a deadlock, and otherwise thrown as it is. \<open>faults\<close> says what the environment makes of an attempt.
\<close>

function retrying ::
  "(DbFailure \<Rightarrow> StoreError option) \<Rightarrow> StoreEnv \<Rightarrow> (BookingDb \<Rightarrow> TxError + 'a) \<Rightarrow> BookingDb \<Rightarrow> nat \<Rightarrow> StoreError + 'a" where
  "retrying translate env run db attempt =
    (case (case faults env attempt of Some f \<Rightarrow> Inl (Db f) | None \<Rightarrow> run db) of
       Inr x \<Rightarrow> Inr x
     | Inl (App e) \<Rightarrow> Inl e
     | Inl (Db f) \<Rightarrow>
         (case translate f of
            Some e \<Rightarrow> Inl e
          | None \<Rightarrow> if isDeadlock f \<and> attempt < DEADLOCK_ATTEMPTS
                    then retrying translate env run db (attempt + 1) else Inl (DbError f)))"
  by auto

termination by (relation "measure (\<lambda>(t, e, r, d, attempt). DEADLOCK_ATTEMPTS - attempt)") auto

declare retrying.simps [simp del]

definition new_row :: "StoreEnv \<Rightarrow> NewBooking \<Rightarrow> BookingRow" where
  "new_row env b = (let (excess, bound) = damageExcessColumns (appliedExcess b) in
    \<lparr>bk_id = newRowId env, bk_listingId = listingId b, bk_renterId = renterId b, bk_state = bookingState b,
     bk_startAt = startAt b, bk_endAt = endAt b, bk_timeZone = timeZone b, bk_quoteId = quoteId b,
     bk_categoryVersionId = categoryVersionId b, bk_itemChargeAmount = amount (bookedItemCharge b),
     bk_renterFeeAmount = amount (bookedRenterFee b), bk_totalAmount = amount (bookedTotal b),
     bk_currency = currency (bookedTotal b), bk_itemTitle = itemTitle b, bk_categoryName = categoryName b,
     bk_damageExcessAmount = excess, bk_damageExcessBoundBy = bound,
     bk_requestExpiresAt = requestExpiresAt b, bk_createdAt = dbNow env, bk_updatedAt = dbNow env\<rparr>)"

definition write_tx :: "StoreEnv \<Rightarrow> NewBooking \<Rightarrow> NewBookingEvent option \<Rightarrow> BookingDb \<Rightarrow> TxError + BookingDb \<times> BookingRow" where
  "write_tx env booking event db =
    rbind (map_sum Db id (insert_booking (new_row env booking) db)) (\<lambda>db'.
      Inr (case event of None \<Rightarrow> db' | Some e \<Rightarrow> add_events [event_row env (newRowId env) e] db', new_row env booking))"

definition translate_write :: "NewBooking \<Rightarrow> DbFailure \<Rightarrow> StoreError option" where
  "translate_write booking f =
    (if isOverlapViolation f then Some (OverlappingBooking (listingId booking))
     else if isDuplicateQuote f then Some (DuplicateQuoteBooking (quoteId booking)) else None)"

definition write_booking ::
  "StoreEnv \<Rightarrow> NewBooking \<Rightarrow> NewBookingEvent option \<Rightarrow> (BookingDb, StoreError, BookingRecord) action" where
  "write_booking env booking event =
    await (atomically (\<lambda>db. retrying (translate_write booking) env (write_tx env booking event) db 1)) (\<lambda>row.
      pure_step (toRecord row))"

definition createWithEvent :: "StoreEnv \<Rightarrow> NewBooking \<Rightarrow> NewBookingEvent \<Rightarrow> (BookingDb, StoreError, BookingRecord) action" where
  "createWithEvent env booking event = write_booking env booking (Some event)"

definition create :: "StoreEnv \<Rightarrow> NewBooking \<Rightarrow> (BookingDb, StoreError, BookingRecord) action" where
  "create env booking = write_booking env booking None"

subsection \<open>Moving a booking\<close>

definition owned_booking :: "string \<Rightarrow> string \<Rightarrow> BookingDb \<Rightarrow> BookingRow option" where
  "owned_booking i owner db =
    find (\<lambda>r. bk_id r = i \<and> listing_owner db (bk_listingId r) = Some owner) (booking_rows db)"

record AcceptanceResult =
  acceptedBooking :: BookingRecord
  autoDeclinedIds :: "string list"

definition state_change :: "BookingState \<Rightarrow> BookingState \<Rightarrow> string option \<Rightarrow> NewBookingEvent" where
  "state_change from to actor = \<lparr>eventType = StateChanged, fromState = Some from, toState = Some to,
     actorId = actor, metadata = []\<rparr>"

definition auto_decline :: "string \<Rightarrow> NewBookingEvent" where
  "auto_decline winner = \<lparr>eventType = AutoDeclined, fromState = Some REQUESTED, toState = Some DECLINED,
     actorId = None, metadata = [(''reason'', ''AUTO_DECLINED_CONFLICT''), (''conflictingBookingId'', winner)]\<rparr>"

definition conflicting_requests :: "BookingRow \<Rightarrow> BookingDb \<Rightarrow> string list" where
  "conflicting_requests b db = map bk_id (filter (\<lambda>r. bk_id r \<noteq> bk_id b \<and> bk_listingId r = bk_listingId b \<and>
     bk_state r = REQUESTED \<and> overlaps (bk_startAt b) (bk_endAt b) (bk_startAt r) (bk_endAt r)) (booking_rows db))"

definition accept_tx :: "StoreEnv \<Rightarrow> string \<Rightarrow> string \<Rightarrow> int \<Rightarrow> BookingDb \<Rightarrow> TxError + BookingDb \<times> AcceptanceResult option" where
  "accept_tx env i owner now db =
    (case owned_booking i owner db of
       None \<Rightarrow> Inr (db, None)
     | Some b \<Rightarrow>
         if bk_state b \<noteq> REQUESTED then Inl (App (BookingStateChanged i (bk_state b)))
         else if bk_requestExpiresAt b \<le> now then Inl (App (BookingStateChanged i (bk_state b)))
         else
           rbind (map_sum Db id (set_state (dbNow env) i ACCEPTED db)) (\<lambda>db1.
           let db2 = add_events [event_row env i (state_change REQUESTED ACCEPTED (Some owner))] db1;
               losers = conflicting_requests b db2 in
           rbind (map_sum Db id (set_states (dbNow env) losers DECLINED db2)) (\<lambda>db3.
           let db4 = add_events (map (\<lambda>j. event_row env j (auto_decline i)) losers) db3 in
           rbind (map_sum App id (toRecord (move_row (dbNow env) ACCEPTED b))) (\<lambda>rec.
             Inr (db4, Some \<lparr>acceptedBooking = rec, autoDeclinedIds = losers\<rparr>)))))"

definition accept :: "StoreEnv \<Rightarrow> string \<Rightarrow> string \<Rightarrow> int \<Rightarrow> (BookingDb, StoreError, AcceptanceResult option) action" where
  "accept env i owner now = atomically (\<lambda>db.
     retrying (\<lambda>f. if isOverlapViolation f then Some (OverlappingBooking i) else None) env (accept_tx env i owner now) db 1)"

definition decline :: "StoreEnv \<Rightarrow> string \<Rightarrow> string \<Rightarrow> int \<Rightarrow> (BookingDb, StoreError, BookingRecord option) action" where
  "decline env i owner now = atomically (\<lambda>db.
    (case owned_booking i owner db of
       None \<Rightarrow> Inr (db, None)
     | Some b \<Rightarrow>
         if bk_state b \<noteq> REQUESTED then Inl (BookingStateChanged i (bk_state b))
         else
           rbind (map_sum DbError id (set_state (dbNow env) i DECLINED db)) (\<lambda>db1.
           rbind (toRecord (move_row (dbNow env) DECLINED b)) (\<lambda>rec.
             Inr (add_events [event_row env i (state_change REQUESTED DECLINED (Some owner))] db1, Some rec)))))"

definition advance ::
  "StoreEnv \<Rightarrow> string \<Rightarrow> BookingState \<Rightarrow> BookingState \<Rightarrow> string option \<Rightarrow> (BookingDb, StoreError, BookingRecord option) action" where
  "advance env i from to actor = atomically (\<lambda>db.
    (case find (\<lambda>r. bk_id r = i \<and> bk_state r = from) (booking_rows db) of
       None \<Rightarrow> Inr (db, None)
     | Some b \<Rightarrow>
         rbind (map_sum DbError id (set_state (dbNow env) i to db)) (\<lambda>db1.
         rbind (toRecord (move_row (dbNow env) to b)) (\<lambda>rec.
           Inr (add_events [event_row env i (state_change from to actor)] db1, Some rec)))))"

record ExpirySweepResult =
  expired :: "(string \<times> string \<times> string) list"
  sweepReachedLimit :: bool

definition overdue :: "int \<Rightarrow> BookingRow \<Rightarrow> bool" where
  "overdue now r \<longleftrightarrow> bk_state r = REQUESTED \<and> bk_requestExpiresAt r \<le> now"

text \<open>\<open>race\<close> is what other transactions commit between the select and the update.\<close>

definition expireRequests ::
  "(BookingDb \<Rightarrow> BookingDb) \<Rightarrow> StoreEnv \<Rightarrow> int \<Rightarrow> nat \<Rightarrow> (BookingDb, StoreError, ExpirySweepResult) action" where
  "expireRequests race env now limit = atomically (\<lambda>db.
    let candidates = map bk_id (take limit (sort_key bk_requestExpiresAt (sort_key bk_id
          (filter (overdue now) (booking_rows db))))) in
    if candidates = [] then Inr (db, \<lparr>expired = [], sweepReachedLimit = False\<rparr>)
    else
      let db1 = race db;
          hit = filter (\<lambda>r. bk_id r \<in> set candidates \<and> overdue now r) (booking_rows db1) in
      rbind (map_sum DbError id (set_states (dbNow env) (map bk_id hit) EXPIRED db1)) (\<lambda>db2.
        Inr (add_events (map (\<lambda>r. event_row env (bk_id r) (state_change REQUESTED EXPIRED None)) hit) db2,
             \<lparr>expired = map (\<lambda>r. (bk_id r, bk_renterId r, bk_listingId r)) hit,
              sweepReachedLimit = (length candidates = limit)\<rparr>)))"

subsection \<open>Reading bookings\<close>

record PendingRequest =
  pendingBooking :: BookingRecord
  conflictCount :: nat

definition findPendingRequests :: "string \<Rightarrow> string \<Rightarrow> int \<Rightarrow> BookingDb \<Rightarrow> StoreError + PendingRequest list" where
  "findPendingRequests listing owner now db =
    (let rows = sort_key bk_startAt (sort_key bk_id (filter (\<lambda>r. bk_listingId r = listing \<and>
           listing_owner db listing = Some owner \<and> bk_state r = REQUESTED \<and> now < bk_requestExpiresAt r) (booking_rows db)))
     in rmap (\<lambda>row. rbind (toRecord row) (\<lambda>rec. Inr \<lparr>pendingBooking = rec,
          conflictCount = length (filter (\<lambda>other. bk_id other \<noteq> bk_id row \<and> bk_startAt other < bk_endAt row \<and>
            bk_startAt row < bk_endAt other) rows)\<rparr>)) rows)"

definition findBookedListings :: "string list \<Rightarrow> BookingDb \<Rightarrow> string list" where
  "findBookedListings ids db =
    (if ids = [] then []
     else remdups (map bk_listingId (filter (\<lambda>r. bk_listingId r \<in> set ids) (booking_rows db))))"

definition newestFirst :: "BookingRow list \<Rightarrow> BookingRow list" where
  "newestFirst rows = sort_key (\<lambda>r. - bk_createdAt r) (rev (sort_key bk_id rows))"

definition findForRenter_booking :: "string \<Rightarrow> nat \<Rightarrow> BookingDb \<Rightarrow> StoreError + BookingRecord list" where
  "findForRenter_booking renter limit db =
    rmap toRecord (take limit (newestFirst (filter (\<lambda>r. bk_renterId r = renter) (booking_rows db))))"

definition findForOwner :: "string \<Rightarrow> nat \<Rightarrow> BookingDb \<Rightarrow> StoreError + BookingRecord list" where
  "findForOwner owner limit db =
    rmap toRecord (take limit (newestFirst (filter (\<lambda>r. listing_owner db (bk_listingId r) = Some owner) (booking_rows db))))"

record BookingWithEvents =
  foundBooking :: BookingRecord
  foundLineItems :: "QuoteLineItem list"
  foundEvents :: "BookingEventRow list"

definition quoteLineItemSchema :: "QuoteLineItem \<Rightarrow> bool" where
  "quoteLineItemSchema l \<longleftrightarrow> 0 < item_count l"

definition parseQuoteLineItems :: "QuoteLineItem list \<Rightarrow> string \<Rightarrow> StoreError + QuoteLineItem list" where
  "parseQuoteLineItems raw subject =
    (if raw \<noteq> [] \<and> list_all quoteLineItemSchema raw then Inr raw else Inl (EmptyLineItems subject))"

definition events_of :: "string \<Rightarrow> BookingDb \<Rightarrow> BookingEventRow list" where
  "events_of i db = filter (\<lambda>e. ev_bookingId e = i) (event_rows db)"

definition party_booking :: "string \<Rightarrow> string \<Rightarrow> BookingDb \<Rightarrow> BookingRow option" where
  "party_booking i user db = find (\<lambda>r. bk_id r = i \<and>
     (bk_renterId r = user \<or> listing_owner db (bk_listingId r) = Some user)) (booking_rows db)"

definition findForParty :: "string \<Rightarrow> string \<Rightarrow> BookingDb \<Rightarrow> StoreError + BookingWithEvents option" where
  "findForParty i user db =
    (case party_booking i user db of
       None \<Rightarrow> Inr None
     | Some row \<Rightarrow>
         rbind (toRecord row) (\<lambda>rec.
         rbind (parseQuoteLineItems
                  (case find (\<lambda>q. qt_id q = bk_quoteId row) (quote_rows db) of None \<Rightarrow> [] | Some q \<Rightarrow> qt_lineItems q) (bk_id row)) (\<lambda>items'.
           Inr (Some \<lparr>foundBooking = rec, foundLineItems = items',
                foundEvents = sort_key ev_createdAt (sort_key ev_id (events_of i db))\<rparr>))))"

subsection \<open>Availability\<close>

datatype UnavailableReason = Blocked | Booked

definition block :: "string \<Rightarrow> string \<Rightarrow> int \<Rightarrow> int \<Rightarrow> string option \<Rightarrow> (BookingDb, StoreError, BlockRow) action" where
  "block newId listing startAt' endAt' reason = atomically (\<lambda>db.
    (let row = \<lparr>bl_id = newId, bl_listingId = listing, bl_startAt = startAt', bl_endAt = endAt', bl_reason = reason\<rparr> in
     if \<not> startAt' < endAt' then Inl (DbError (CheckViolation ''block_ends_after_it_starts''))
     else if listing_owner db listing = None then Inl (DbError (ForeignKeyViolation ''availability_blocks_listingId_fkey''))
     else if newId \<in> bl_id ` set (block_rows db) then Inl (DbError (UniqueViolation ''availability_blocks_pkey''))
     else Inr (db\<lparr>block_rows := block_rows db @ [row]\<rparr>, row)))"

definition unblock :: "string \<Rightarrow> string \<Rightarrow> (BookingDb, StoreError, bool) action" where
  "unblock i listing = atomically (\<lambda>db.
    (let hit = (\<lambda>r. bl_id r = i \<and> bl_listingId r = listing) in
     Inr (db\<lparr>block_rows := filter (\<lambda>r. \<not> hit r) (block_rows db)\<rparr>, 0 < length (filter hit (block_rows db)))))"

definition listBlocks :: "string \<Rightarrow> int \<Rightarrow> int \<Rightarrow> BookingDb \<Rightarrow> BlockRow list" where
  "listBlocks listing from to db = sort_key bl_startAt (sort_key bl_id (filter (\<lambda>r. bl_listingId r = listing \<and>
     overlaps from to (bl_startAt r) (bl_endAt r)) (block_rows db)))"

definition listBookedPeriods :: "string \<Rightarrow> int \<Rightarrow> int \<Rightarrow> BookingDb \<Rightarrow> (string \<times> int \<times> int) list" where
  "listBookedPeriods listing from to db = map (\<lambda>r. (bk_id r, bk_startAt r, bk_endAt r))
     (sort_key bk_startAt (sort_key bk_id (filter (\<lambda>r. bk_listingId r = listing \<and>
        bk_state r \<in> set CALENDAR_OCCUPYING_STATES \<and> overlaps from to (bk_startAt r) (bk_endAt r)) (booking_rows db))))"

definition reasonUnavailable :: "string \<Rightarrow> int \<Rightarrow> int \<Rightarrow> BookingDb \<Rightarrow> UnavailableReason option" where
  "reasonUnavailable listing startAt' endAt' db =
    (if find (\<lambda>r. bl_listingId r = listing \<and> overlaps startAt' endAt' (bl_startAt r) (bl_endAt r)) (block_rows db) \<noteq> None
     then Some Blocked
     else if find (\<lambda>r. bk_listingId r = listing \<and> bk_state r \<in> set CALENDAR_OCCUPYING_STATES \<and>
                 overlaps startAt' endAt' (bk_startAt r) (bk_endAt r)) (booking_rows db) = None
     then None else Some Booked)"

subsection \<open>Quotes\<close>

record NewQuote =
  quoteListingId :: string
  quoteRenterId :: string
  quoteStartAt :: int
  quoteEndAt :: int
  quoteTimeZone :: string
  renterPostcode :: string
  quotedItemCharge :: Money
  quotedRenterFee :: Money
  quotedTotal :: Money
  quoteMinimumFeeApplied :: bool
  quoteLineItems :: "QuoteLineItem list"
  quoteAppliedExcess :: "AppliedExcess option"
  quoteVersionId :: string
  quoteExpiresAt :: int

record QuoteRecord = NewQuote +
  quoteRecordId :: string
  quoteCreatedAt :: int

definition toQuoteRecord :: "QuoteRow \<Rightarrow> StoreError + QuoteRecord" where
  "toQuoteRecord row =
    rbind (toMoney (qt_itemChargeAmount row) (qt_currency row)) (\<lambda>item.
    rbind (toMoney (qt_renterFeeAmount row) (qt_currency row)) (\<lambda>fee'.
    rbind (toMoney (qt_totalAmount row) (qt_currency row)) (\<lambda>total.
    rbind (parseQuoteLineItems (qt_lineItems row) (qt_id row)) (\<lambda>items'.
    rbind (toAppliedExcess (qt_damageExcessAmount row) (qt_damageExcessBoundBy row) (qt_currency row) (qt_id row)) (\<lambda>excess.
      Inr \<lparr>quoteListingId = qt_listingId row, quoteRenterId = qt_renterId row, quoteStartAt = qt_startAt row,
           quoteEndAt = qt_endAt row, quoteTimeZone = qt_timeZone row, renterPostcode = qt_renterPostcode row,
           quotedItemCharge = item, quotedRenterFee = fee', quotedTotal = total,
           quoteMinimumFeeApplied = qt_minimumFeeApplied row, quoteLineItems = items', quoteAppliedExcess = excess,
           quoteVersionId = qt_categoryVersionId row, quoteExpiresAt = qt_expiresAt row,
           quoteRecordId = qt_id row, quoteCreatedAt = qt_createdAt row\<rparr>)))))"

definition new_quote_row :: "string \<Rightarrow> int \<Rightarrow> NewQuote \<Rightarrow> QuoteRow" where
  "new_quote_row newId now q = (let (excess, bound) = damageExcessColumns (quoteAppliedExcess q) in
    \<lparr>qt_id = newId, qt_listingId = quoteListingId q, qt_renterId = quoteRenterId q, qt_startAt = quoteStartAt q,
     qt_endAt = quoteEndAt q, qt_timeZone = quoteTimeZone q, qt_renterPostcode = renterPostcode q,
     qt_itemChargeAmount = amount (quotedItemCharge q), qt_renterFeeAmount = amount (quotedRenterFee q),
     qt_totalAmount = amount (quotedTotal q), qt_currency = currency (quotedTotal q),
     qt_minimumFeeApplied = quoteMinimumFeeApplied q, qt_lineItems = quoteLineItems q,
     qt_damageExcessAmount = excess, qt_damageExcessBoundBy = bound, qt_categoryVersionId = quoteVersionId q,
     qt_expiresAt = quoteExpiresAt q, qt_createdAt = now\<rparr>)"

definition quote_row_failure :: "BookingDb \<Rightarrow> QuoteRow \<Rightarrow> DbFailure option" where
  "quote_row_failure db r =
    (if \<not> (int4 (qt_itemChargeAmount r) \<and> int4 (qt_renterFeeAmount r) \<and> int4 (qt_totalAmount r) \<and>
           pred_option int4 (qt_damageExcessAmount r)) then Some NumberOutOfRange
     else if \<not> qt_startAt r < qt_endAt r then Some (CheckViolation ''quote_period_is_a_hire'')
     else if \<not> (0 \<le> qt_itemChargeAmount r \<and> 0 \<le> qt_renterFeeAmount r \<and>
                qt_totalAmount r = qt_itemChargeAmount r + qt_renterFeeAmount r)
       then Some (CheckViolation ''quote_money_is_not_negative'')
     else if qt_lineItems r = [] then Some (CheckViolation ''quote_has_line_items'')
     else if \<not> excess_columns_ok (qt_damageExcessAmount r) (qt_damageExcessBoundBy r)
       then Some (CheckViolation ''quote_damage_excess_is_complete'')
     else if qt_id r \<in> qt_id ` set (quote_rows db) then Some (UniqueViolation ''quotes_pkey'')
     else if listing_owner db (qt_listingId r) = None then Some (ForeignKeyViolation ''quotes_listingId_fkey'')
     else None)"

definition create_quote :: "string \<Rightarrow> int \<Rightarrow> NewQuote \<Rightarrow> (BookingDb, StoreError, QuoteRecord) action" where
  "create_quote newId now q =
    await (atomically (\<lambda>db. let row = new_quote_row newId now q in
      (case quote_row_failure db row of
         Some f \<Rightarrow> Inl (DbError f)
       | None \<Rightarrow> Inr (db\<lparr>quote_rows := quote_rows db @ [row]\<rparr>, row)))) (\<lambda>row.
      pure_step (toQuoteRecord row))"

definition findForRenter_quote :: "string \<Rightarrow> string \<Rightarrow> BookingDb \<Rightarrow> StoreError + QuoteRecord option" where
  "findForRenter_quote i renter db =
    (case find (\<lambda>q. qt_id q = i \<and> qt_renterId q = renter) (quote_rows db) of
       None \<Rightarrow> Inr None | Some row \<Rightarrow> rbind (toQuoteRecord row) (\<lambda>q. Inr (Some q)))"

definition unbooked :: "BookingDb \<Rightarrow> QuoteRow \<Rightarrow> bool" where
  "unbooked db q \<longleftrightarrow> qt_id q \<notin> bk_quoteId ` set (booking_rows db)"

definition listUnbookedForRenter :: "string \<Rightarrow> nat \<Rightarrow> BookingDb \<Rightarrow> QuoteRow list" where
  "listUnbookedForRenter renter limit db =
    take limit (sort_key (\<lambda>q. - qt_createdAt q) (rev (sort_key qt_id
      (filter (\<lambda>q. qt_renterId q = renter \<and> unbooked db q) (quote_rows db)))))"

definition postcodesFor :: "string list \<Rightarrow> string \<Rightarrow> BookingDb \<Rightarrow> (string \<times> string) list" where
  "postcodesFor ids renter db =
    (if ids = [] then []
     else map (\<lambda>q. (qt_id q, qt_renterPostcode q))
       (filter (\<lambda>q. qt_id q \<in> set ids \<and> qt_renterId q = renter) (quote_rows db)))"

definition deleteUnbookedForRenter :: "string \<Rightarrow> (BookingDb, StoreError, nat) action" where
  "deleteUnbookedForRenter renter = atomically (\<lambda>db.
    (let doomed = (\<lambda>q. qt_renterId q = renter \<and> unbooked db q) in
     Inr (db\<lparr>quote_rows := filter (\<lambda>q. \<not> doomed q) (quote_rows db)\<rparr>, length (filter doomed (quote_rows db)))))"

end
