(* ===== verification/Ledger.thy ===== *)
theory Ledger
  imports Pricing Js_Text "HOL-Library.Multiset" "HOL-Library.List_Lexorder" "HOL-Library.Char_ord"
begin

section \<open>The double-entry ledger\<close>

text \<open>
  The rules of \<^verbatim>\<open>apps/api/src/payments/ledger.ts\<close>, the division of a hire's money of
  \<^verbatim>\<open>hire-settlement.ts\<close>, the store of \<^verbatim>\<open>prisma-ledger-store.ts\<close> with the constraints its migration
  puts on the three tables, and \<^verbatim>\<open>ledger.service.ts\<close>. Identifiers are strings and instants are
  milliseconds. The identifier of a new row is an argument (the client generates it); the primary
  key refuses one that is taken.
\<close>

subsection \<open>Vocabulary\<close>

datatype LedgerDirection = Debit | Credit

datatype LedgerAccountKind = ProviderClearing | OwnerPayable | PlatformRevenue

fun NORMAL_SIDE :: "LedgerAccountKind \<Rightarrow> LedgerDirection" where
  "NORMAL_SIDE ProviderClearing = Debit"
| "NORMAL_SIDE OwnerPayable = Credit"
| "NORMAL_SIDE PlatformRevenue = Credit"

datatype AccountHolder = PlatformHeld | UserHeld

fun ACCOUNT_HOLDER :: "LedgerAccountKind \<Rightarrow> AccountHolder" where
  "ACCOUNT_HOLDER ProviderClearing = PlatformHeld"
| "ACCOUNT_HOLDER OwnerPayable = UserHeld"
| "ACCOUNT_HOLDER PlatformRevenue = PlatformHeld"

datatype LedgerTransactionKind = HireChargeCaptured | OwnerPayout

datatype LedgerError = TooFewEntries | NoIdempotencyKey | EntryCurrencyDiffers | EntryNotPositive
  | Unbalanced int int | OwnerMissing | OwnerNotAllowed | SharesDoNotSum int int
  | SettlementMixesCurrencies | TotalIsNotItsParts int int | KeyUsedForDifferent string
  | NoSuchTransaction string | AlreadyReversed string | DatabaseRefused | NoSuchAccount string
  | LedgerArithmetic MoneyError

abbreviation larith :: "MoneyError + 'a \<Rightarrow> LedgerError + 'a" where
  "larith m \<equiv> map_sum LedgerArithmetic id m"

record LedgerEntryDraft =
  entryAccountId :: string
  direction :: LedgerDirection
  entryAmount :: Money

record LedgerTransactionDraft =
  idempotencyKey :: string
  transactionKind :: LedgerTransactionKind
  transactionCurrency :: CurrencyCode
  ledgerBookingId :: "string option"
  occurredAt :: int
  entries :: "LedgerEntryDraft list"
  reversesTransactionId :: "string option"

record PostedLedgerTransaction = LedgerTransactionDraft +
  transactionId :: string
  recordedAt :: int

record LedgerTotals =
  debits :: Money
  credits :: Money

subsection \<open>The rules\<close>

definition totalOn :: "LedgerDirection \<Rightarrow> ('a) LedgerTransactionDraft_scheme \<Rightarrow> MoneyError + Money" where
  "totalOn d draft = sum_money (map entryAmount (filter (\<lambda>e. direction e = d) (entries draft))) (transactionCurrency draft)"

definition totalsOf :: "('a) LedgerTransactionDraft_scheme \<Rightarrow> MoneyError + LedgerTotals" where
  "totalsOf draft = rbind (totalOn Debit draft) (\<lambda>d. rbind (totalOn Credit draft) (\<lambda>c.
     Inr \<lparr>debits = d, credits = c\<rparr>))"

fun assertEntries :: "CurrencyCode \<Rightarrow> LedgerEntryDraft list \<Rightarrow> LedgerError + unit" where
  "assertEntries c [] = Inr ()"
| "assertEntries c (e # es) =
    (if currency (entryAmount e) \<noteq> c then Inl EntryCurrencyDiffers
     else if amount (entryAmount e) \<le> 0 then Inl EntryNotPositive
     else assertEntries c es)"

definition assertPostable :: "('a) LedgerTransactionDraft_scheme \<Rightarrow> LedgerError + unit" where
  "assertPostable draft =
    (if length (entries draft) < 2 then Inl TooFewEntries
     else if trim (idempotencyKey draft) = '''' then Inl NoIdempotencyKey
     else rbind (assertEntries (transactionCurrency draft) (entries draft)) (\<lambda>_.
          rbind (larith (totalsOf draft)) (\<lambda>t.
            if amount (debits t) \<noteq> amount (credits t)
            then Inl (Unbalanced (amount (debits t)) (amount (credits t))) else Inr ())))"

fun oppositeOf :: "LedgerDirection \<Rightarrow> LedgerDirection" where
  "oppositeOf Debit = Credit"
| "oppositeOf Credit = Debit"

record Correction =
  correctionKey :: string
  correctionOccurredAt :: int

definition reversalOf :: "PostedLedgerTransaction \<Rightarrow> Correction \<Rightarrow> LedgerTransactionDraft" where
  "reversalOf posted correction =
    \<lparr>idempotencyKey = correctionKey correction, transactionKind = transactionKind posted,
     transactionCurrency = transactionCurrency posted, ledgerBookingId = ledgerBookingId posted,
     occurredAt = correctionOccurredAt correction,
     entries = map (\<lambda>e. \<lparr>entryAccountId = entryAccountId e, direction = oppositeOf (direction e),
                        entryAmount = entryAmount e\<rparr>) (entries posted),
     reversesTransactionId = Some (transactionId posted)\<rparr>"

definition normalSideOf :: "LedgerAccountKind \<Rightarrow> LedgerDirection" where
  "normalSideOf kind = NORMAL_SIDE kind"

definition holderOf :: "LedgerAccountKind \<Rightarrow> AccountHolder" where
  "holderOf kind = ACCOUNT_HOLDER kind"

record LedgerAccountSpec =
  accountKind :: LedgerAccountKind
  accountCurrency :: CurrencyCode
  accountOwnerId :: "string option"

fun kind_text :: "LedgerAccountKind \<Rightarrow> string" where
  "kind_text ProviderClearing = ''provider_clearing''"
| "kind_text OwnerPayable = ''owner_payable''"
| "kind_text PlatformRevenue = ''platform_revenue''"

fun currency_text :: "CurrencyCode \<Rightarrow> string" where
  "currency_text GBP = ''GBP''"

definition accountIdentityOf :: "LedgerAccountSpec \<Rightarrow> LedgerError + string" where
  "accountIdentityOf spec =
    (if holderOf (accountKind spec) = UserHeld then
       (case accountOwnerId spec of
          None \<Rightarrow> Inl OwnerMissing
        | Some owner \<Rightarrow>
            if trim owner = '''' then Inl OwnerMissing
            else Inr (kind_text (accountKind spec) @ '':'' @ owner @ '':'' @ currency_text (accountCurrency spec)))
     else if accountOwnerId spec \<noteq> None then Inl OwnerNotAllowed
     else Inr (kind_text (accountKind spec) @ '':'' @ currency_text (accountCurrency spec)))"

definition balanceOf :: "LedgerAccountKind \<Rightarrow> CurrencyCode \<Rightarrow> LedgerEntryDraft list \<Rightarrow> MoneyError + Money" where
  "balanceOf kind cur es =
    (let normal = normalSideOf kind in
     rbind (sum_money (map entryAmount (filter (\<lambda>e. direction e = normal) es)) cur) (\<lambda>increases.
     rbind (sum_money (map entryAmount (filter (\<lambda>e. direction e \<noteq> normal) es)) cur) (\<lambda>decreases.
       subtract increases decreases)))"

record Share =
  shareAccountId :: string
  shareAmount :: Money

definition apportion :: "Share \<Rightarrow> Share list \<Rightarrow> CurrencyCode \<Rightarrow> LedgerError + LedgerEntryDraft list" where
  "apportion from to cur =
    rbind (larith (sum_money (map shareAmount to) cur)) (\<lambda>shares.
      if amount shares \<noteq> amount (shareAmount from)
      then Inl (SharesDoNotSum (amount shares) (amount (shareAmount from)))
      else Inr (\<lparr>entryAccountId = shareAccountId from, direction = Debit, entryAmount = shareAmount from\<rparr>
         # map (\<lambda>s. \<lparr>entryAccountId = shareAccountId s, direction = Credit, entryAmount = shareAmount s\<rparr>) to))"

definition noBalance :: "CurrencyCode \<Rightarrow> Money" where
  "noBalance c = zero_money c"

definition minorUnits :: "number \<Rightarrow> CurrencyCode \<Rightarrow> MoneyError + Money" where
  "minorUnits n c = money n c"

subsection \<open>The division of a hire's money\<close>

record HireSettlement =
  renterPays :: Money
  ownerEarns :: Money
  platformEarns :: Money
  ownerCommission :: Money

record HireCharge =
  chargeItem :: Money
  chargeFee :: Money
  chargeTotal :: Money

definition settleHire :: "HireCharge \<Rightarrow> CategoryFeePolicy \<Rightarrow> LedgerError + HireSettlement" where
  "settleHire charge policy =
    (let cur = currency (chargeTotal charge) in
     if currency (chargeItem charge) \<noteq> cur \<or> currency (chargeFee charge) \<noteq> cur then Inl SettlementMixesCurrencies
     else rbind (larith (add (chargeItem charge) (chargeFee charge))) (\<lambda>parts.
       if amount parts \<noteq> amount (chargeTotal charge)
       then Inl (TotalIsNotItsParts (amount (chargeTotal charge)) (amount parts))
       else rbind (larith (percentageOf (chargeItem charge)
                     (basisPointsToPercent (ownerCommissionBasisPoints policy)) HalfUp)) (\<lambda>commission.
            rbind (larith (subtract (chargeItem charge) commission)) (\<lambda>owner.
            rbind (larith (subtract (chargeTotal charge) owner)) (\<lambda>platform.
              Inr \<lparr>renterPays = chargeTotal charge, ownerEarns = owner, platformEarns = platform,
                   ownerCommission = commission\<rparr>)))))"

definition hireCaptureEntries ::
  "HireSettlement \<Rightarrow> string \<Rightarrow> string \<Rightarrow> string \<Rightarrow> LedgerError + LedgerEntryDraft list" where
  "hireCaptureEntries settlement clearing payable revenue =
    apportion \<lparr>shareAccountId = clearing, shareAmount = renterPays settlement\<rparr>
      (filter (\<lambda>s. amount (shareAmount s) \<noteq> 0)
         [\<lparr>shareAccountId = payable, shareAmount = ownerEarns settlement\<rparr>,
          \<lparr>shareAccountId = revenue, shareAmount = platformEarns settlement\<rparr>])
      (currency (renterPays settlement))"

subsection \<open>What a postable draft is\<close>

definition signed_amount :: "LedgerEntryDraft \<Rightarrow> int" where
  "signed_amount e = (if direction e = Debit then amount (entryAmount e) else - amount (entryAmount e))"

definition net :: "LedgerEntryDraft list \<Rightarrow> int" where
  "net es = sum_list (map signed_amount es)"

text \<open>The movement a set of entries makes on one account, debits positive.\<close>

definition net_on :: "string \<Rightarrow> LedgerEntryDraft list \<Rightarrow> int" where
  "net_on account es = net (filter (\<lambda>e. entryAccountId e = account) es)"

definition side_total :: "LedgerDirection \<Rightarrow> LedgerEntryDraft list \<Rightarrow> int" where
  "side_total d es = sum_list (map (amount \<circ> entryAmount) (filter (\<lambda>e. direction e = d) es))"

lemma net_simps [simp]: "net [] = 0" "net (e # es) = signed_amount e + net es" "net (xs @ ys) = net xs + net ys"
  by (simp_all add: net_def)

lemma net_on_simps [simp]: "net_on a [] = 0"
  "net_on a (e # es) = (if entryAccountId e = a then signed_amount e else 0) + net_on a es"
  "net_on a (xs @ ys) = net_on a xs + net_on a ys"
  by (simp_all add: net_on_def)

lemma net_sides: "net es = side_total Debit es - side_total Credit es"
proof (induction es)
  case (Cons e es)
  then show ?case by (cases "direction e") (simp_all add: side_total_def signed_amount_def)
qed (simp add: side_total_def)

lemma assertEntries_iff: "assertEntries c es = Inr u \<longleftrightarrow> (\<forall>e \<in> set es. 0 < amount (entryAmount e))"
  by (cases c; induction es) auto

lemma side_total_bounds:
  assumes "\<forall>e \<in> set es. 0 < amount (entryAmount e)"
  shows "0 \<le> side_total d es"
  using assms by (induction es) (auto simp: side_total_def)

lemma totalOn_exact:
  assumes "\<forall>e \<in> set (entries draft). 0 < amount (entryAmount e)" "safe_int (side_total d (entries draft))"
  shows "totalOn d draft = Inr (pence (side_total d (entries draft)))"
proof -
  have k: "map (\<lambda>v. \<bar>amount v\<bar>) (map entryAmount (filter (\<lambda>e. direction e = d) (entries draft)))
      = map (amount \<circ> entryAmount) (filter (\<lambda>e. direction e = d) (entries draft))"
    using assms(1) by (auto simp: less_imp_le)
  have "safe_int (sum_list (map (\<lambda>v. \<bar>amount v\<bar>) (map entryAmount (filter (\<lambda>e. direction e = d) (entries draft)))))"
    using assms(2) unfolding k side_total_def .
  from sum_money_exact [OF this] show ?thesis
    by (simp add: totalOn_def side_total_def)
qed

lemma totalOn_amount: "totalOn d draft = Inr m \<Longrightarrow> amount m = side_total d (entries draft)"
  using sum_money_amount by (fastforce simp: totalOn_def side_total_def)

lemma totalOn_safe:
  assumes "totalOn d draft = Inr m"
  shows "safe_int (side_total d (entries draft))"
proof -
  have "sum_onto acc vs = Inr m \<Longrightarrow> wf_money acc \<Longrightarrow> wf_money m" for acc vs m
    by (induction vs arbitrary: acc) (auto simp: result_simps add_Inr_iff wf_money_def)
  moreover have "wf_money (zero_money (transactionCurrency draft))" by (simp add: wf_money_def zero_money_def safe_int_def)
  ultimately have "wf_money m" using assms unfolding totalOn_def sum_money_def by blast
  then show ?thesis using totalOn_amount [OF assms] by (simp add: wf_money_def)
qed

lemma assertPostable_iff:
  "assertPostable draft = Inr u \<longleftrightarrow>
    2 \<le> length (entries draft) \<and> trim (idempotencyKey draft) \<noteq> '''' \<and>
    (\<forall>e \<in> set (entries draft). 0 < amount (entryAmount e)) \<and>
    safe_int (side_total Debit (entries draft)) \<and> net (entries draft) = 0"
proof (cases "(\<forall>e \<in> set (entries draft). 0 < amount (entryAmount e)) \<and>
    safe_int (side_total Debit (entries draft)) \<and> safe_int (side_total Credit (entries draft))")
  case True
  then have "totalsOf draft = Inr \<lparr>debits = pence (side_total Debit (entries draft)), credits = pence (side_total Credit (entries draft))\<rparr>"
    by (simp add: totalsOf_def totalOn_exact)
  with True show ?thesis
    by (auto simp: assertPostable_def assertEntries_iff result_simps net_sides)
next
  case False
  have "assertPostable draft \<noteq> Inr u"
  proof
    assume h: "assertPostable draft = Inr u"
    then have "\<forall>e \<in> set (entries draft). 0 < amount (entryAmount e)"
      by (cases "assertEntries (transactionCurrency draft) (entries draft)")
        (auto simp: assertPostable_def assertEntries_iff split: if_splits)
    moreover obtain t where "totalsOf draft = Inr t"
      using h by (cases "totalsOf draft") (auto simp: assertPostable_def result_simps split: if_splits)
    then obtain d c where "totalOn Debit draft = Inr d" "totalOn Credit draft = Inr c"
      by (auto simp: totalsOf_def result_simps)
    ultimately show False using False totalOn_safe by blast
  qed
  with False show ?thesis by (auto simp: net_sides)
qed

lemma oppositeOf_eq [simp]: "oppositeOf d = Debit \<longleftrightarrow> d \<noteq> Debit" "oppositeOf d = Credit \<longleftrightarrow> d \<noteq> Credit"
  by (cases d; simp)+

lemma opposite_signed:
  "signed_amount \<lparr>entryAccountId = a, direction = oppositeOf d, entryAmount = m\<rparr>
    = - signed_amount \<lparr>entryAccountId = a, direction = d, entryAmount = m\<rparr>"
  by (cases d) (simp_all add: signed_amount_def)

lemma reversal_net_on: "net_on a (entries (reversalOf p c)) = - net_on a (entries p)"
proof -
  have "net_on a (map (\<lambda>e. \<lparr>entryAccountId = entryAccountId e, direction = oppositeOf (direction e),
      entryAmount = entryAmount e\<rparr>) es) = - net_on a es" for es
    by (induction es) (auto simp: opposite_signed signed_amount_def)
  then show ?thesis by (simp add: reversalOf_def)
qed

lemma reversal_side: "side_total d (entries (reversalOf p c)) = side_total (oppositeOf d) (entries p)"
proof -
  have "side_total d (map (\<lambda>e. \<lparr>entryAccountId = entryAccountId e, direction = oppositeOf (direction e),
      entryAmount = entryAmount e\<rparr>) es) = side_total (oppositeOf d) es" for es
  proof (induction es)
    case (Cons e es)
    then show ?case by (cases d; cases "direction e") (simp_all add: side_total_def)
  qed (simp add: side_total_def)
  then show ?thesis by (simp add: reversalOf_def)
qed

lemma reversal_postable:
  assumes "assertPostable posted = Inr u" "trim (correctionKey c) \<noteq> ''''"
  shows "assertPostable (reversalOf posted c) = Inr ()"
proof -
  have h: "2 \<le> length (entries posted)" "\<forall>e \<in> set (entries posted). 0 < amount (entryAmount e)"
    "safe_int (side_total Debit (entries posted))" "side_total Debit (entries posted) = side_total Credit (entries posted)"
    using assms(1) unfolding assertPostable_iff net_sides by auto
  have "entries (reversalOf posted c) = map (\<lambda>e. \<lparr>entryAccountId = entryAccountId e, direction = oppositeOf (direction e),
      entryAmount = entryAmount e\<rparr>) (entries posted)" and k: "idempotencyKey (reversalOf posted c) = correctionKey c"
    by (simp_all add: reversalOf_def)
  then have "2 \<le> length (entries (reversalOf posted c))" "\<forall>e \<in> set (entries (reversalOf posted c)). 0 < amount (entryAmount e)"
    using h by auto
  with h k assms(2) show ?thesis unfolding assertPostable_iff net_sides by (simp add: reversal_side)
qed

subsection \<open>The settlement of a hire\<close>

lemma settleHire_ok:
  assumes policy: "categoryFeePolicySchema policy"
    and item: "0 < amount (chargeItem c)" "amount (chargeItem c) \<le> 2 ^ 37"
    and fee: "0 \<le> amount (chargeFee c)" "amount (chargeFee c) \<le> 2 ^ 37"
    and total: "amount (chargeTotal c) = amount (chargeItem c) + amount (chargeFee c)"
  shows "\<exists>s k. settleHire c policy = Inr s \<and> renterPays s = chargeTotal c \<and>
    ownerCommission s = pence k \<and> 2 * \<bar>10000 * k - amount (chargeItem c) * ownerCommissionBasisPoints policy\<bar> \<le> 10000 \<and>
    0 \<le> k \<and> 2 * k \<le> amount (chargeItem c) + 1 \<and>
    ownerEarns s = pence (amount (chargeItem c) - k) \<and> platformEarns s = pence (k + amount (chargeFee c))"
proof -
  have bp: "0 \<le> ownerCommissionBasisPoints policy" "ownerCommissionBasisPoints policy \<le> 5000"
    using policy by (auto simp: schema_defs)
  obtain k where k: "percentageOf (chargeItem c) (basisPointsToPercent (ownerCommissionBasisPoints policy)) HalfUp = Inr (pence k)"
    "2 * \<bar>10000 * k - amount (chargeItem c) * ownerCommissionBasisPoints policy\<bar> \<le> 10000"
    using percentageOf_nearest [of "ownerCommissionBasisPoints policy" "chargeItem c"] bp item
    unfolding basisPointsToPercent_def by auto
  have "0 \<le> amount (chargeItem c) * ownerCommissionBasisPoints policy" using item bp by simp
  moreover have "amount (chargeItem c) * ownerCommissionBasisPoints policy \<le> amount (chargeItem c) * 5000"
    using item bp by (intro mult_left_mono) auto
  moreover have "- 5000 \<le> 10000 * k - amount (chargeItem c) * ownerCommissionBasisPoints policy"
    "10000 * k - amount (chargeItem c) * ownerCommissionBasisPoints policy \<le> 5000" using k(2) by auto
  ultimately have kb: "0 \<le> k" "2 * k \<le> amount (chargeItem c) + 1" by linarith+
  have "add (chargeItem c) (chargeFee c) = Inr (chargeTotal c)"
    using item fee total by (simp add: add_Inr_iff safe_int_def Money_eq_iff)
  moreover have "subtract (chargeItem c) (pence k) = Inr (pence (amount (chargeItem c) - k))"
    using kb item by (simp add: subtract_Inr_iff safe_int_def)
  moreover have "subtract (chargeTotal c) (pence (amount (chargeItem c) - k)) = Inr (pence (k + amount (chargeFee c)))"
    using kb item fee total by (simp add: subtract_Inr_iff safe_int_def)
  ultimately have "settleHire c policy = Inr \<lparr>renterPays = chargeTotal c, ownerEarns = pence (amount (chargeItem c) - k),
      platformEarns = pence (k + amount (chargeFee c)), ownerCommission = pence k\<rparr>"
    by (simp add: settleHire_def Let_def k(1))
  with k(2) kb show ?thesis by fastforce
qed

lemma settleHire_conserves:
  assumes "settleHire c policy = Inr s"
  shows "renterPays s = chargeTotal c" "amount (ownerEarns s) + amount (platformEarns s) = amount (renterPays s)"
    "amount (chargeItem c) + amount (chargeFee c) = amount (chargeTotal c)"
    "amount (ownerEarns s) + amount (ownerCommission s) = amount (chargeItem c)"
  using assms by (auto simp: settleHire_def Let_def result_simps map_sum_Inr_iff add_Inr_iff subtract_Inr_iff split: if_splits)

lemma hireCaptureEntries_ok:
  assumes own: "0 < amount (ownerEarns s)" and plat: "0 \<le> amount (platformEarns s)"
    and sum: "amount (ownerEarns s) + amount (platformEarns s) = amount (renterPays s)"
    and safe: "safe_int (amount (renterPays s))"
  shows "\<exists>es. hireCaptureEntries s cl pay rvn = Inr es \<and> 2 \<le> length es \<and> net es = 0 \<and>
    (\<forall>e \<in> set es. 0 < amount (entryAmount e)) \<and> side_total Debit es = amount (renterPays s)"
proof -
  define shares where "shares = filter (\<lambda>s. amount (shareAmount s) \<noteq> 0)
         [\<lparr>shareAccountId = pay, shareAmount = ownerEarns s\<rparr>, \<lparr>shareAccountId = rvn, shareAmount = platformEarns s\<rparr>]"
  have "sum_money (map shareAmount shares) (currency (renterPays s)) = Inr (pence (amount (renterPays s)))"
    using own plat sum safe sum_money_exact [of "map shareAmount shares"] by (auto simp: shares_def safe_int_def)
  then have "hireCaptureEntries s cl pay rvn = Inr (\<lparr>entryAccountId = cl, direction = Debit, entryAmount = renterPays s\<rparr>
         # map (\<lambda>s. \<lparr>entryAccountId = shareAccountId s, direction = Credit, entryAmount = shareAmount s\<rparr>) shares)"
    unfolding hireCaptureEntries_def shares_def [symmetric] by (simp add: apportion_def)
  with own plat sum show ?thesis
    by (auto simp: shares_def signed_amount_def side_total_def)
qed

subsection \<open>Properties\<close>

lemma accountIdentity_owner:
  "accountIdentityOf spec = Inr t \<Longrightarrow> accountKind spec = OwnerPayable \<Longrightarrow>
    \<exists>owner. accountOwnerId spec = Some owner \<and> t = ''owner_payable:'' @ owner @ '':GBP''"
  by (cases "accountCurrency spec") (auto simp: accountIdentityOf_def holderOf_def split: option.splits if_splits)

lemma accountIdentity_platform:
  "accountIdentityOf spec = Inr t \<Longrightarrow> accountKind spec \<noteq> OwnerPayable \<Longrightarrow>
    accountOwnerId spec = None \<and> t = kind_text (accountKind spec) @ '':GBP''"
  by (cases "accountKind spec"; cases "accountCurrency spec")
    (auto simp: accountIdentityOf_def holderOf_def split: option.splits if_splits)

lemma accountIdentity_head:
  assumes "accountIdentityOf spec = Inr t"
  shows "take 2 t = (case accountKind spec of ProviderClearing \<Rightarrow> ''pr'' | OwnerPayable \<Rightarrow> ''ow'' | PlatformRevenue \<Rightarrow> ''pl'')"
  using accountIdentity_owner [OF assms] accountIdentity_platform [OF assms] by (cases "accountKind spec") auto

text \<open>
The identity of an account names exactly one account: two specifications with the same identity
  have the same kind, currency and owner, so no two people and no person and the platform ever share
  one.\<close>

theorem accountIdentity_injective:
  assumes "accountIdentityOf a = Inr t" "accountIdentityOf b = Inr t"
  shows "a = b"
proof -
  have k: "accountKind a = accountKind b"
    using accountIdentity_head [OF assms(1)] accountIdentity_head [OF assms(2)]
    by (cases "accountKind a"; cases "accountKind b") simp_all
  have "accountOwnerId a = accountOwnerId b"
  proof (cases "accountKind a = OwnerPayable")
    case True
    with k assms accountIdentity_owner [of a t] accountIdentity_owner [of b t] show ?thesis by auto
  next
    case False
    with k assms accountIdentity_platform [of a t] accountIdentity_platform [of b t] show ?thesis by auto
  qed
  moreover have "accountCurrency a = accountCurrency b" by (cases "accountCurrency a"; cases "accountCurrency b") simp
  ultimately show ?thesis using k by simp
qed

theorem accountIdentity_injective_witness:
  "accountIdentityOf \<lparr>accountKind = OwnerPayable, accountCurrency = GBP, accountOwnerId = Some ''u1''\<rparr> = Inr ''owner_payable:u1:GBP''
   \<and> (\<exists>b. accountIdentityOf b = Inr ''owner_payable:u1:GBP'' \<and> accountOwnerId b = Some ''u1'')"
proof -
  have a: "accountIdentityOf \<lparr>accountKind = OwnerPayable, accountCurrency = GBP, accountOwnerId = Some ''u1''\<rparr> = Inr ''owner_payable:u1:GBP''"
    by code_simp
  from accountIdentity_injective [OF a a] a show ?thesis by auto
qed

definition example_posted :: PostedLedgerTransaction where
  "example_posted = \<lparr>idempotencyKey = ''k'', transactionKind = HireChargeCaptured, transactionCurrency = GBP,
     ledgerBookingId = None, occurredAt = 0,
     entries = [\<lparr>entryAccountId = ''a'', direction = Debit, entryAmount = pence 5\<rparr>,
                \<lparr>entryAccountId = ''b'', direction = Credit, entryAmount = pence 5\<rparr>],
     reversesTransactionId = None, transactionId = ''t'', recordedAt = 0\<rparr>"



end
