(* ===== verification/Ledger_Store.thy ===== *)
theory Ledger_Store
  imports Ledger
begin

section \<open>The ledger in the database and the ledger service\<close>

text \<open>
  The store of \<^verbatim>\<open>apps/api/src/payments/prisma-ledger-store.ts\<close> over the tables of the migration
  \<^verbatim>\<open>20260820150000_ledger_and_double_entry\<close>, and \<^verbatim>\<open>ledger.service.ts\<close>. An insert is one atomic
  statement that either satisfies every constraint of the schema (primary and unique keys, foreign
  keys, positive 32-bit amounts, the deferred balance trigger) or changes nothing. Between the store's
  read and its insert other writers may commit; \<open>race\<close> is what they do to the database in that
  window.
\<close>

subsection \<open>Tables\<close>

record LedgerAccountRecord =
  ledgerAccountId :: string
  ledgerAccountKind :: LedgerAccountKind
  ledgerAccountOwner :: "string option"
  ledgerAccountCurrency :: CurrencyCode
  ledgerAccountIdentity :: string

record LedgerDb =
  ledger_accounts :: "LedgerAccountRecord list"
  ledger_transactions :: "PostedLedgerTransaction list"
  known_users :: "string \<Rightarrow> bool"
  known_bookings :: "string \<Rightarrow> bool"

definition insert_account :: "LedgerAccountRecord \<Rightarrow> LedgerDb \<Rightarrow> LedgerDb option" where
  "insert_account a db =
    (if ledgerAccountId a \<notin> ledgerAccountId ` set (ledger_accounts db) \<and>
        ledgerAccountIdentity a \<notin> ledgerAccountIdentity ` set (ledger_accounts db) \<and>
        pred_option (known_users db) (ledgerAccountOwner a) \<and>
        btrim (ledgerAccountIdentity a) \<noteq> ''''
     then Some (db\<lparr>ledger_accounts := ledger_accounts db @ [a]\<rparr>) else None)"

definition entry_insertable :: "LedgerDb \<Rightarrow> CurrencyCode \<Rightarrow> LedgerEntryDraft \<Rightarrow> bool" where
  "entry_insertable db cur e \<longleftrightarrow> 0 < amount (entryAmount e) \<and> int4 (amount (entryAmount e)) \<and>
     list_ex (\<lambda>a. ledgerAccountId a = entryAccountId e \<and> ledgerAccountCurrency a = cur) (ledger_accounts db)"

definition assert_ledger_transaction_balances :: "LedgerEntryDraft list \<Rightarrow> bool" where
  "assert_ledger_transaction_balances es \<longleftrightarrow> \<not> length es < 2 \<and> side_total Debit es = side_total Credit es"

definition insert_transaction :: "PostedLedgerTransaction \<Rightarrow> LedgerDb \<Rightarrow> LedgerDb option" where
  "insert_transaction p db =
    (if transactionId p \<notin> transactionId ` set (ledger_transactions db) \<and>
        idempotencyKey p \<notin> idempotencyKey ` set (ledger_transactions db) \<and>
        btrim (idempotencyKey p) \<noteq> '''' \<and>
        pred_option (known_bookings db) (ledgerBookingId p) \<and>
        (case reversesTransactionId p of None \<Rightarrow> True | Some r \<Rightarrow>
           r \<noteq> transactionId p \<and> r \<in> transactionId ` set (ledger_transactions db) \<and>
           Some r \<notin> reversesTransactionId ` set (ledger_transactions db)) \<and>
        list_all (entry_insertable db (transactionCurrency p)) (entries p) \<and>
        assert_ledger_transaction_balances (entries p)
     then Some (db\<lparr>ledger_transactions := ledger_transactions db @ [p]\<rparr>) else None)"

subsection \<open>The store\<close>

definition findByIdempotencyKey :: "string \<Rightarrow> LedgerDb \<Rightarrow> PostedLedgerTransaction option" where
  "findByIdempotencyKey key db = find (\<lambda>p. idempotencyKey p = key) (ledger_transactions db)"

definition findById_transaction :: "string \<Rightarrow> LedgerDb \<Rightarrow> PostedLedgerTransaction option" where
  "findById_transaction i db = find (\<lambda>p. transactionId p = i) (ledger_transactions db)"

definition findByReverses :: "string \<Rightarrow> LedgerDb \<Rightarrow> PostedLedgerTransaction option" where
  "findByReverses r db = find (\<lambda>p. reversesTransactionId p = Some r) (ledger_transactions db)"

definition findByIdentity :: "string \<Rightarrow> LedgerDb \<Rightarrow> LedgerAccountRecord option" where
  "findByIdentity i db = find (\<lambda>a. ledgerAccountIdentity a = i) (ledger_accounts db)"

definition store_accountFor ::
  "(LedgerDb \<Rightarrow> LedgerDb) \<Rightarrow> string \<Rightarrow> LedgerAccountSpec \<Rightarrow> LedgerDb \<Rightarrow> LedgerError + LedgerDb \<times> LedgerAccountRecord" where
  "store_accountFor race newId spec db =
    rbind (accountIdentityOf spec) (\<lambda>identity.
      case findByIdentity identity db of
        Some a \<Rightarrow> Inr (db, a)
      | None \<Rightarrow>
          let db1 = race db;
              a = \<lparr>ledgerAccountId = newId, ledgerAccountKind = accountKind spec,
                   ledgerAccountOwner = accountOwnerId spec, ledgerAccountCurrency = accountCurrency spec,
                   ledgerAccountIdentity = identity\<rparr>
          in case insert_account a db1 of
               Some db2 \<Rightarrow> Inr (db2, a)
             | None \<Rightarrow> (case findByIdentity identity db1 of
                          Some raced \<Rightarrow> Inr (db1, raced)
                        | None \<Rightarrow> Inl DatabaseRefused))"

definition posted_of :: "string \<Rightarrow> int \<Rightarrow> LedgerTransactionDraft \<Rightarrow> PostedLedgerTransaction" where
  "posted_of newId now draft =
    \<lparr>idempotencyKey = idempotencyKey draft, transactionKind = transactionKind draft,
     transactionCurrency = transactionCurrency draft, ledgerBookingId = ledgerBookingId draft,
     occurredAt = occurredAt draft, entries = entries draft,
     reversesTransactionId = reversesTransactionId draft, transactionId = newId, recordedAt = now\<rparr>"

definition store_post ::
  "(LedgerDb \<Rightarrow> LedgerDb) \<Rightarrow> string \<Rightarrow> int \<Rightarrow> LedgerTransactionDraft \<Rightarrow> LedgerDb \<Rightarrow> LedgerError + LedgerDb \<times> PostedLedgerTransaction" where
  "store_post race newId now draft db =
    (case findByIdempotencyKey (idempotencyKey draft) db of
       Some existing \<Rightarrow> Inr (db, existing)
     | None \<Rightarrow>
         let db1 = race db; p = posted_of newId now draft
         in case insert_transaction p db1 of
              Some db2 \<Rightarrow> Inr (db2, p)
            | None \<Rightarrow>
                (case findByIdempotencyKey (idempotencyKey draft) db1 of
                   Some raced \<Rightarrow> Inr (db1, raced)
                 | None \<Rightarrow>
                     (case reversesTransactionId draft of
                        Some r \<Rightarrow> if findByReverses r db1 \<noteq> None then Inl (AlreadyReversed r) else Inl DatabaseRefused
                      | None \<Rightarrow> Inl DatabaseRefused)))"

definition account_entries :: "string \<Rightarrow> LedgerDb \<Rightarrow> LedgerEntryDraft list" where
  "account_entries account db =
    filter (\<lambda>e. entryAccountId e = account) (concat (map entries (ledger_transactions db)))"

definition store_balanceOf :: "string \<Rightarrow> LedgerDb \<Rightarrow> LedgerError + Money" where
  "store_balanceOf account db =
    (case find (\<lambda>a. ledgerAccountId a = account) (ledger_accounts db) of
       None \<Rightarrow> Inl (NoSuchAccount account)
     | Some a \<Rightarrow>
         let normal = normalSideOf (ledgerAccountKind a);
             sideTotal = (\<lambda>d. side_total d (account_entries account db))
         in larith (money (to_number (of_int (sideTotal normal) - of_int (sideTotal (oppositeOf normal))))
              (ledgerAccountCurrency a)))"

subsection \<open>The service\<close>

fun direction_text :: "LedgerDirection \<Rightarrow> string" where
  "direction_text Debit = ''debit''"
| "direction_text Credit = ''credit''"

definition entry_text :: "LedgerEntryDraft \<Rightarrow> string" where
  "entry_text e = entryAccountId e @ CHR ''|'' # direction_text (direction e) @ CHR ''|''
     # show_int (amount (entryAmount e)) @ CHR ''|'' # currency_text (currency (entryAmount e))"

definition fingerprintOf :: "LedgerEntryDraft list \<Rightarrow> string" where
  "fingerprintOf es = join CHR '','' (sort (map entry_text es))"

definition sameTransaction :: "LedgerTransactionDraft \<Rightarrow> PostedLedgerTransaction \<Rightarrow> bool" where
  "sameTransaction draft posted \<longleftrightarrow>
     \<not> (transactionKind draft \<noteq> transactionKind posted \<or>
        transactionCurrency draft \<noteq> transactionCurrency posted \<or>
        ledgerBookingId draft \<noteq> ledgerBookingId posted \<or>
        reversesTransactionId draft \<noteq> reversesTransactionId posted \<or>
        fingerprintOf (entries draft) \<noteq> fingerprintOf (entries posted))"

definition assertSameTransaction :: "LedgerTransactionDraft \<Rightarrow> PostedLedgerTransaction \<Rightarrow> LedgerError + unit" where
  "assertSameTransaction draft posted =
    (if \<not> sameTransaction draft posted then Inl (KeyUsedForDifferent (idempotencyKey draft)) else Inr ())"

definition accountFor ::
  "(LedgerDb \<Rightarrow> LedgerDb) \<Rightarrow> string \<Rightarrow> LedgerAccountSpec \<Rightarrow> LedgerDb \<Rightarrow> LedgerError + LedgerDb \<times> LedgerAccountRecord" where
  "accountFor race newId spec db = rbind (accountIdentityOf spec) (\<lambda>_. store_accountFor race newId spec db)"

text \<open>
  An error of \<open>assertSameTransaction\<close> is thrown after the store has answered; the store has then
  returned an existing transaction and written nothing.
\<close>

definition post ::
  "(LedgerDb \<Rightarrow> LedgerDb) \<Rightarrow> string \<Rightarrow> int \<Rightarrow> LedgerTransactionDraft \<Rightarrow> LedgerDb \<Rightarrow> LedgerError + LedgerDb \<times> PostedLedgerTransaction" where
  "post race newId now draft db =
    rbind (assertPostable draft) (\<lambda>_.
    rbind (store_post race newId now draft db) (\<lambda>(db', posted).
    rbind (assertSameTransaction draft posted) (\<lambda>_. Inr (db', posted))))"

definition reverse ::
  "(LedgerDb \<Rightarrow> LedgerDb) \<Rightarrow> string \<Rightarrow> int \<Rightarrow> string \<Rightarrow> Correction \<Rightarrow> LedgerDb \<Rightarrow> LedgerError + LedgerDb \<times> PostedLedgerTransaction" where
  "reverse race newId now transaction correction db =
    (case findById_transaction transaction db of
       None \<Rightarrow> Inl (NoSuchTransaction transaction)
     | Some original \<Rightarrow> post race newId now (reversalOf original correction) db)"

definition balance ::
  "(LedgerDb \<Rightarrow> LedgerDb) \<Rightarrow> string \<Rightarrow> LedgerAccountSpec \<Rightarrow> LedgerDb \<Rightarrow> LedgerError + LedgerDb \<times> Money" where
  "balance race newId spec db =
    rbind (accountFor race newId spec db) (\<lambda>(db', account).
    rbind (store_balanceOf (ledgerAccountId account) db') (\<lambda>m. Inr (db', m)))"

subsection \<open>The invariant of the tables\<close>

definition all_entries :: "LedgerDb \<Rightarrow> LedgerEntryDraft list" where
  "all_entries db = concat (map entries (ledger_transactions db))"

definition transaction_ok :: "LedgerDb \<Rightarrow> PostedLedgerTransaction \<Rightarrow> bool" where
  "transaction_ok db p \<longleftrightarrow> 2 \<le> length (entries p) \<and> net (entries p) = 0 \<and>
     (\<forall>e \<in> set (entries p). 0 < amount (entryAmount e) \<and> entryAccountId e \<in> ledgerAccountId ` set (ledger_accounts db))"

definition ledger_inv :: "LedgerDb \<Rightarrow> bool" where
  "ledger_inv db \<longleftrightarrow>
     distinct (map ledgerAccountId (ledger_accounts db)) \<and>
     distinct (map ledgerAccountIdentity (ledger_accounts db)) \<and>
     distinct (map transactionId (ledger_transactions db)) \<and>
     distinct (map idempotencyKey (ledger_transactions db)) \<and>
     distinct (map reversesTransactionId (filter (\<lambda>p. reversesTransactionId p \<noteq> None) (ledger_transactions db))) \<and>
     (\<forall>p \<in> set (ledger_transactions db). transaction_ok db p)"

definition empty_ledger :: "(string \<Rightarrow> bool) \<Rightarrow> (string \<Rightarrow> bool) \<Rightarrow> LedgerDb" where
  "empty_ledger users bookings = \<lparr>ledger_accounts = [], ledger_transactions = [], known_users = users, known_bookings = bookings\<rparr>"

inductive ledger_step :: "LedgerDb \<Rightarrow> LedgerDb \<Rightarrow> bool" where
  account: "insert_account a db = Some db' \<Longrightarrow> ledger_step db db'"
| transaction: "insert_transaction p db = Some db' \<Longrightarrow> ledger_step db db'"

inductive_cases ledger_stepE: "ledger_step db db'"

lemma insert_account_inv:
  assumes "insert_account a db = Some db'" "ledger_inv db"
  shows "ledger_inv db'"
  using assms by (auto simp: insert_account_def ledger_inv_def transaction_ok_def split: if_splits)

lemma insert_transaction_inv:
  assumes "insert_transaction p db = Some db'" "ledger_inv db"
  shows "ledger_inv db'"
proof -
  have db': "db' = db\<lparr>ledger_transactions := ledger_transactions db @ [p]\<rparr>"
    and new: "transactionId p \<notin> transactionId ` set (ledger_transactions db)"
      "idempotencyKey p \<notin> idempotencyKey ` set (ledger_transactions db)"
      "case reversesTransactionId p of None \<Rightarrow> True | Some r \<Rightarrow> Some r \<notin> reversesTransactionId ` set (ledger_transactions db)"
    and e: "list_all (entry_insertable db (transactionCurrency p)) (entries p)"
      "assert_ledger_transaction_balances (entries p)"
    using assms(1) by (auto simp: insert_transaction_def split: if_splits option.splits)
  have "transaction_ok db p"
    using e by (auto simp: transaction_ok_def list_all_iff entry_insertable_def list_ex_iff
        assert_ledger_transaction_balances_def net_sides image_iff) (metis)
  with assms(2) new show ?thesis
    unfolding db' ledger_inv_def transaction_ok_def by (auto split: option.splits)
qed

lemma ledger_step_inv: "ledger_step db db' \<Longrightarrow> ledger_inv db \<Longrightarrow> ledger_inv db'"
  by (erule ledger_stepE) (auto intro: insert_account_inv insert_transaction_inv)

lemma ledger_steps_inv: "ledger_step\<^sup>*\<^sup>* db db' \<Longrightarrow> ledger_inv db \<Longrightarrow> ledger_inv db'"
  by (induction rule: rtranclp_induct) (auto intro: ledger_step_inv)

lemma empty_ledger_inv: "ledger_inv (empty_ledger us bs)"
  by (simp add: empty_ledger_def ledger_inv_def)

text \<open>Nothing is ever updated or deleted: the tables only grow.\<close>

lemma ledger_step_extends:
  "ledger_step db db' \<Longrightarrow> \<exists>as ps. ledger_accounts db' = ledger_accounts db @ as \<and> ledger_transactions db' = ledger_transactions db @ ps"
  by (erule ledger_stepE) (auto simp: insert_account_def insert_transaction_def split: if_splits)

lemma ledger_steps_extend:
  "ledger_step\<^sup>*\<^sup>* db db' \<Longrightarrow> \<exists>as ps. ledger_accounts db' = ledger_accounts db @ as \<and> ledger_transactions db' = ledger_transactions db @ ps"
proof (induction rule: rtranclp_induct)
  case (step y z)
  from ledger_step_extends [OF step.hyps(2)] step.IH show ?case by auto
qed simp

subsection \<open>The operations move along the steps\<close>

text \<open>Other writers obey the same schema: \<open>race\<close> is a sequence of steps.\<close>

definition lawful_race :: "(LedgerDb \<Rightarrow> LedgerDb) \<Rightarrow> bool" where
  "lawful_race race \<longleftrightarrow> (\<forall>db. ledger_step\<^sup>*\<^sup>* db (race db))"

lemma lawful_id [simp]: "lawful_race id" "lawful_race (\<lambda>db. db)"
  by (simp_all add: lawful_race_def)

lemma store_post_steps:
  assumes "store_post race newId now draft db = Inr (db', p)" "lawful_race race"
  shows "ledger_step\<^sup>*\<^sup>* db db' \<and> p \<in> set (ledger_transactions db') \<and> idempotencyKey p = idempotencyKey draft"
proof (cases "findByIdempotencyKey (idempotencyKey draft) db")
  case (Some e)
  with assms show ?thesis by (auto simp: store_post_def findByIdempotencyKey_def dest: find_Some_mem)
next
  case None
  have r: "ledger_step\<^sup>*\<^sup>* db (race db)" using assms(2) by (simp add: lawful_race_def)
  show ?thesis
  proof (cases "insert_transaction (posted_of newId now draft) (race db)")
    case (Some db2)
    then have "ledger_step (race db) db2" by (rule ledger_step.transaction)
    with r have "ledger_step\<^sup>*\<^sup>* db db2" by simp
    moreover have "posted_of newId now draft \<in> set (ledger_transactions db2)"
      using Some by (auto simp: insert_transaction_def split: if_splits)
    moreover have "idempotencyKey (posted_of newId now draft) = idempotencyKey draft" by (simp add: posted_of_def)
    ultimately show ?thesis using assms(1) None Some by (auto simp: store_post_def Let_def)
  next
    case N: None
    with assms(1) None r show ?thesis
      by (auto simp: store_post_def Let_def findByIdempotencyKey_def split: option.splits if_splits dest!: find_Some_mem)
  qed
qed

lemma post_Inr:
  assumes "post race newId now draft db = Inr (db', p)"
  shows "store_post race newId now draft db = Inr (db', p)" "sameTransaction draft p" "assertPostable draft = Inr ()"
  using assms by (auto simp: post_def assertSameTransaction_def result_simps split: if_splits)

lemma post_steps:
  assumes "post race newId now draft db = Inr (db', p)" "lawful_race race"
  shows "ledger_step\<^sup>*\<^sup>* db db' \<and> p \<in> set (ledger_transactions db') \<and> idempotencyKey p = idempotencyKey draft"
  using store_post_steps [OF post_Inr(1) [OF assms(1)] assms(2)] .

lemma accountFor_steps:
  assumes "accountFor race newId spec db = Inr (db', a)" "lawful_race race"
  shows "ledger_step\<^sup>*\<^sup>* db db' \<and> a \<in> set (ledger_accounts db') \<and> accountIdentityOf spec = Inr (ledgerAccountIdentity a)"
proof -
  obtain i where i: "accountIdentityOf spec = Inr i" "store_accountFor race newId spec db = Inr (db', a)"
    using assms(1) by (auto simp: accountFor_def result_simps)
  have r: "ledger_step\<^sup>*\<^sup>* db (race db)" using assms(2) by (simp add: lawful_race_def)
  show ?thesis
  proof (cases "findByIdentity i db")
    case (Some e)
    with i show ?thesis by (auto simp: store_accountFor_def findByIdentity_def dest: find_Some_mem)
  next
    case None
    define n where "n = \<lparr>ledgerAccountId = newId, ledgerAccountKind = accountKind spec,
      ledgerAccountOwner = accountOwnerId spec, ledgerAccountCurrency = accountCurrency spec, ledgerAccountIdentity = i\<rparr>"
    show ?thesis
    proof (cases "insert_account n (race db)")
      case (Some db2)
      then have "ledger_step\<^sup>*\<^sup>* db db2" using r ledger_step.account [OF Some] by simp
      moreover have "n \<in> set (ledger_accounts db2)" using Some by (auto simp: insert_account_def split: if_splits)
      ultimately show ?thesis using i None Some by (auto simp: store_accountFor_def Let_def n_def)
    next
      case N: None
      with i None r show ?thesis
        by (auto simp: store_accountFor_def Let_def findByIdentity_def n_def split: option.splits dest!: find_Some_mem)
    qed
  qed
qed

subsection \<open>The trial balance\<close>

lemma net_over_accounts:
  assumes "distinct ids" "\<forall>e \<in> set es. entryAccountId e \<in> set ids"
  shows "sum_list (map (\<lambda>a. net_on a es) ids) = net es"
  using assms(2)
proof (induction es)
  case (Cons e es)
  have zero: "entryAccountId e \<notin> set ks \<Longrightarrow> sum_list (map (\<lambda>a. if entryAccountId e = a then v else 0) ks) = 0" for v :: int and ks
    by (induction ks) auto
  have "sum_list (map (\<lambda>a. if entryAccountId e = a then v else 0) ids) = v" if "entryAccountId e \<in> set ids" for v :: int
    using assms(1) that by (induction ids) (auto simp: zero)
  with Cons show ?case by (simp add: sum_list_addf)
qed simp

lemma net_concat: "(\<forall>p \<in> set ps. net (entries p) = 0) \<Longrightarrow> net (concat (map entries ps)) = 0"
  by (induction ps) auto

text \<open>C4: The books always balance. After any sequence of account openings and postings, by any number of
  writers and whatever was refused on the way, every stored transaction has equal debits and credits
  and the balances of all accounts add up to zero.\<close>

theorem trial_balance:
  assumes "ledger_step\<^sup>*\<^sup>* (empty_ledger us bs) db"
  shows "(\<forall>p \<in> set (ledger_transactions db). side_total Debit (entries p) = side_total Credit (entries p)) \<and>
    sum_list (map (\<lambda>a. net_on (ledgerAccountId a) (all_entries db)) (ledger_accounts db)) = 0"
proof -
  have inv: "ledger_inv db" using ledger_steps_inv [OF assms empty_ledger_inv] .
  then have ok: "\<forall>p \<in> set (ledger_transactions db). transaction_ok db p" by (simp add: ledger_inv_def)
  have "net (all_entries db) = 0"
    using ok net_concat [of "ledger_transactions db"] by (simp add: all_entries_def transaction_ok_def)
  moreover have "sum_list (map (\<lambda>a. net_on a (all_entries db)) (map ledgerAccountId (ledger_accounts db))) = net (all_entries db)"
    by (rule net_over_accounts) (use inv ok in \<open>auto simp: ledger_inv_def all_entries_def transaction_ok_def\<close>)
  ultimately show ?thesis using ok by (auto simp: transaction_ok_def net_sides o_def)
qed

definition example_db :: LedgerDb where
  "example_db = (empty_ledger (\<lambda>_. True) (\<lambda>_. True))
     \<lparr>ledger_accounts := [\<lparr>ledgerAccountId = ''a'', ledgerAccountKind = ProviderClearing, ledgerAccountOwner = None,
         ledgerAccountCurrency = GBP, ledgerAccountIdentity = ''provider_clearing:GBP''\<rparr>,
       \<lparr>ledgerAccountId = ''b'', ledgerAccountKind = PlatformRevenue, ledgerAccountOwner = None,
         ledgerAccountCurrency = GBP, ledgerAccountIdentity = ''platform_revenue:GBP''\<rparr>],
      ledger_transactions := [example_posted]\<rparr>"

lemma example_db_reachable: "ledger_step\<^sup>*\<^sup>* (empty_ledger (\<lambda>_. True) (\<lambda>_. True)) example_db"
proof -
  let ?e = "empty_ledger (\<lambda>_. True) (\<lambda>_. True)"
  let ?d1 = "?e\<lparr>ledger_accounts := take 1 (ledger_accounts example_db)\<rparr>"
  let ?d2 = "?e\<lparr>ledger_accounts := ledger_accounts example_db\<rparr>"
  have 1: "insert_account (ledger_accounts example_db ! 0) ?e = Some ?d1"
    by (simp add: insert_account_def example_db_def empty_ledger_def btrim_def)
  have 2: "insert_account (ledger_accounts example_db ! 1) ?d1 = Some ?d2"
    by (simp add: insert_account_def example_db_def empty_ledger_def btrim_def)
  have 3: "insert_transaction example_posted ?d2 = Some example_db"
    by (simp add: insert_transaction_def example_db_def example_posted_def empty_ledger_def btrim_def entry_insertable_def
        int4_def assert_ledger_transaction_balances_def side_total_def)
  from ledger_step.account [OF 1] ledger_step.account [OF 2] ledger_step.transaction [OF 3] show ?thesis
    by (meson converse_rtranclp_into_rtranclp r_into_rtranclp)
qed

theorem trial_balance_witness:
  "net_on ''a'' (all_entries example_db) + net_on ''b'' (all_entries example_db) = 0"
  using trial_balance [OF example_db_reachable] by (simp add: example_db_def empty_ledger_def)

subsection \<open>Posting exactly once\<close>

text \<open>
  The contract of a log that a caller may write to again and again: a second write under the same
  key returns the first when it says the same thing and is refused when it does not, and never adds
  a row. The bound on the number of rows under a key follows from the contract alone.
\<close>

locale idempotent_log =
  fixes inv :: "'s \<Rightarrow> bool"
    and log :: "'s \<Rightarrow> 'p list"
    and key :: "'p \<Rightarrow> 'k"
    and dkey :: "'d \<Rightarrow> 'k"
    and same :: "'d \<Rightarrow> 'p \<Rightarrow> bool"
    and put :: "'d \<Rightarrow> 's \<Rightarrow> 'e + 's \<times> 'p"
  assumes keys: "inv s \<Longrightarrow> distinct (map key (log s))"
    and kept: "inv s \<Longrightarrow> put d s = Inr (s', p) \<Longrightarrow> inv s'"
    and grows: "inv s \<Longrightarrow> put d s = Inr (s', p) \<Longrightarrow> \<exists>more. log s' = log s @ more"
    and written: "inv s \<Longrightarrow> put d s = Inr (s', p) \<Longrightarrow> p \<in> set (log s') \<and> key p = dkey d \<and> same d p"
    and again: "inv s \<Longrightarrow> p \<in> set (log s) \<Longrightarrow> key p = dkey d \<Longrightarrow> put d s = Inr (s', q) \<Longrightarrow> s' = s \<and> q = p"
begin

lemma second_write:
  assumes "inv s" "put d s = Inr (s', p)" "dkey d' = dkey d" "put d' s' = Inr (s'', q)"
  shows "s'' = s' \<and> q = p \<and> same d' p"
  using again [OF kept [OF assms(1,2)] _ _ assms(4)] written [OF assms(1,2)] written [OF kept [OF assms(1,2)] assms(4)] assms(3)
  by auto

lemma one_row_per_key: "inv s \<Longrightarrow> length (filter (\<lambda>p. key p = k) (log s)) \<le> 1"
proof -
  have "distinct (map f xs) \<Longrightarrow> length (filter (\<lambda>p. f p = k) xs) \<le> 1" for f and xs :: "'p list"
  proof (induction xs)
    case (Cons x xs)
    then show ?case by (cases "f x = k") (auto simp: filter_empty_conv image_iff)
  qed simp
  then show "inv s \<Longrightarrow> ?thesis" using keys by blast
qed

end

lemma store_post_again:
  assumes "ledger_inv db" "p \<in> set (ledger_transactions db)" "idempotencyKey p = idempotencyKey d"
  shows "store_post race newId now d db = Inr (db, p)"
  using assms find_distinct [of idempotencyKey "ledger_transactions db" p]
  by (simp add: store_post_def findByIdempotencyKey_def ledger_inv_def)

lemma post_again:
  assumes "ledger_inv db" "p \<in> set (ledger_transactions db)" "idempotencyKey p = idempotencyKey d"
  shows "post race newId now d db =
    rbind (assertPostable d) (\<lambda>_. if sameTransaction d p then Inr (db, p) else Inl (KeyUsedForDifferent (idempotencyKey d)))"
  by (cases "assertPostable d") (simp_all add: post_def store_post_again [OF assms] assertSameTransaction_def)

interpretation ledger_log: idempotent_log ledger_inv ledger_transactions idempotencyKey idempotencyKey
    sameTransaction "post id newId now" for newId now
proof unfold_locales
  fix s :: LedgerDb and d :: LedgerTransactionDraft and s' p
  assume inv: "ledger_inv s"
  show "distinct (map idempotencyKey (ledger_transactions s))" using inv by (simp add: ledger_inv_def)
  assume w: "post id newId now d s = Inr (s', p)"
  note st = post_steps [OF w lawful_id(1)]
  show "ledger_inv s'" using st ledger_steps_inv inv by blast
  show "\<exists>more. ledger_transactions s' = ledger_transactions s @ more" using st ledger_steps_extend by blast
  show "p \<in> set (ledger_transactions s') \<and> idempotencyKey p = idempotencyKey d \<and> sameTransaction d p"
    using st post_Inr(2) [OF w] by blast
next
  fix s :: LedgerDb and p and d :: LedgerTransactionDraft and s' q
  assume "ledger_inv s" "p \<in> set (ledger_transactions s)" "idempotencyKey p = idempotencyKey d" "post id newId now d s = Inr (s', q)"
  then show "s' = s \<and> q = p" using post_again [of s p d id newId now] by (auto simp: result_simps split: if_splits)
qed

text \<open>C28: A posting takes effect at most once. Posting again under the same key, however often and with any
  fresh identifier, never changes the books: the same content gets the first posting back, different
  content is refused; and there is never more than one transaction under a key.\<close>

theorem posting_is_idempotent:
  assumes "ledger_inv db" "post id newId now draft db = Inr (db', p)"
  shows "post id newId' now' draft db' = Inr (db', p) \<and>
    (idempotencyKey d2 = idempotencyKey draft \<and> post id newId' now' d2 db' = Inr (db'', q) \<longrightarrow>
      db'' = db' \<and> q = p \<and> sameTransaction d2 p) \<and>
    length (filter (\<lambda>t. idempotencyKey t = idempotencyKey draft) (ledger_transactions db')) = 1"
proof (intro conjI impI)
  note w = ledger_log.written [OF assms] and inv = ledger_log.kept [OF assms]
  show "post id newId' now' draft db' = Inr (db', p)"
    using w inv post_again [of db' p draft] post_Inr(3) [OF assms(2)] by simp
  show "db'' = db'" "q = p" "sameTransaction d2 p"
    if "idempotencyKey d2 = idempotencyKey draft \<and> post id newId' now' d2 db' = Inr (db'', q)"
    using that ledger_log.again [OF inv, of p d2] ledger_log.written [OF inv, of newId' now' d2] w by auto
  have "p \<in> set (filter (\<lambda>t. idempotencyKey t = idempotencyKey draft) (ledger_transactions db'))" using w by simp
  then have "0 < length (filter (\<lambda>t. idempotencyKey t = idempotencyKey draft) (ledger_transactions db'))"
    by (rule length_pos_if_in_set)
  with ledger_log.one_row_per_key [OF inv, of "idempotencyKey draft"]
  show "length (filter (\<lambda>t. idempotencyKey t = idempotencyKey draft) (ledger_transactions db')) = 1" by linarith
qed

definition example_draft :: LedgerTransactionDraft where
  "example_draft = \<lparr>idempotencyKey = ''k2'', transactionKind = HireChargeCaptured, transactionCurrency = GBP,
     ledgerBookingId = None, occurredAt = 0,
     entries = [\<lparr>entryAccountId = ''a'', direction = Debit, entryAmount = pence 7\<rparr>,
                \<lparr>entryAccountId = ''b'', direction = Credit, entryAmount = pence 7\<rparr>],
     reversesTransactionId = None\<rparr>"

lemma example_post:
  "post id ''t2'' 9 example_draft example_db =
     Inr (example_db\<lparr>ledger_transactions := [example_posted, posted_of ''t2'' 9 example_draft]\<rparr>, posted_of ''t2'' 9 example_draft)"
proof -
  let ?p = "posted_of ''t2'' 9 example_draft"
  let ?db = "example_db\<lparr>ledger_transactions := [example_posted, ?p]\<rparr>"
  have "assertPostable example_draft = Inr ()"
    unfolding assertPostable_iff by (simp add: example_draft_def signed_amount_def side_total_def safe_int_def trim_def is_space_def)
  moreover have "store_post id ''t2'' 9 example_draft example_db = Inr (?db, ?p)"
    by (simp add: store_post_def findByIdempotencyKey_def insert_transaction_def example_db_def example_posted_def
        empty_ledger_def example_draft_def posted_of_def btrim_def entry_insertable_def int4_def
        assert_ledger_transaction_balances_def side_total_def Let_def)
  moreover have "assertSameTransaction example_draft ?p = Inr ()"
    by (simp add: assertSameTransaction_def sameTransaction_def posted_of_def)
  ultimately show ?thesis by (simp add: post_def)
qed

theorem posting_is_idempotent_witness:
  "post id ''t3'' 10 example_draft (example_db\<lparr>ledger_transactions := [example_posted, posted_of ''t2'' 9 example_draft]\<rparr>)
    = Inr (example_db\<lparr>ledger_transactions := [example_posted, posted_of ''t2'' 9 example_draft]\<rparr>, posted_of ''t2'' 9 example_draft)"
proof -
  have "ledger_inv example_db" using ledger_steps_inv [OF example_db_reachable empty_ledger_inv] .
  from posting_is_idempotent [OF this example_post] show ?thesis by blast
qed

subsection \<open>Corrections\<close>

lemma net_on_all_entries:
  "net_on a (all_entries (db\<lparr>ledger_transactions := ledger_transactions db @ [p]\<rparr>)) = net_on a (all_entries db) + net_on a (entries p)"
  by (simp add: all_entries_def)

lemma post_new_effect:
  assumes "post id newId now draft db = Inr (db', p)" "findByIdempotencyKey (idempotencyKey draft) db = None"
  shows "db' = db\<lparr>ledger_transactions := ledger_transactions db @ [p]\<rparr> \<and> entries p = entries draft"
proof -
  have s: "store_post id newId now draft db = Inr (db', p)" using post_Inr(1) [OF assms(1)] .
  then show ?thesis
    by (cases "insert_transaction (posted_of newId now draft) db")
      (auto simp: store_post_def assms(2) Let_def insert_transaction_def posted_of_def split: if_splits option.splits)
qed

text \<open>C33: A correction is exact and happens at most once. Reversing a posted transaction under a key not
  used before moves every account by the opposite of the original, and a second reversal of the same
  transaction under another key is refused as already reversed.\<close>

theorem reversal_is_exact_and_single:
  assumes "ledger_inv db" "reverse id newId now t c db = Inr (db', r)"
    "findByIdempotencyKey (correctionKey c) db = None"
  shows "\<exists>p. findById_transaction t db = Some p \<and>
      (\<forall>a. net_on a (all_entries db') = net_on a (all_entries db) - net_on a (entries p)) \<and>
      reversesTransactionId r = Some t \<and>
      (findByIdempotencyKey (correctionKey c2) db' = None \<and> trim (correctionKey c2) \<noteq> '''' \<longrightarrow>
        reverse id newId2 now2 t c2 db' = Inl (AlreadyReversed t))"
proof -
  obtain p where p: "findById_transaction t db = Some p" "post id newId now (reversalOf p c) db = Inr (db', r)"
    using assms(2) by (auto simp: reverse_def split: option.splits)
  have pt: "p \<in> set (ledger_transactions db)" "transactionId p = t"
    using p(1) by (auto simp: findById_transaction_def dest: find_Some_mem)
  have "idempotencyKey (reversalOf p c) = correctionKey c" by (simp add: reversalOf_def)
  with post_new_effect [OF p(2)] assms(3)
  have e: "db' = db\<lparr>ledger_transactions := ledger_transactions db @ [r]\<rparr>" "entries r = entries (reversalOf p c)" by auto
  have same: "reversesTransactionId r = Some t"
    using post_Inr(2) [OF p(2)] pt by (simp add: sameTransaction_def reversalOf_def)
  have inv': "ledger_inv db'" using ledger_log.kept [OF assms(1) p(2)] .
  have f: "findById_transaction t db' = Some p"
    using inv' pt e(1) find_distinct [of transactionId "ledger_transactions db'" p t]
    by (simp add: findById_transaction_def ledger_inv_def)
  have r: "r \<in> set (ledger_transactions db')" using e(1) by simp
  then have dup: "findByReverses t db' \<noteq> None"
    using same by (auto simp: findByReverses_def find_None_all)
  have k: "idempotencyKey (reversalOf p c2) = correctionKey c2" "reversesTransactionId (reversalOf p c2) = Some t"
    using pt(2) by (simp_all add: reversalOf_def)
  then have "insert_transaction (posted_of newId2 now2 (reversalOf p c2)) db' = None"
    using r same by (auto simp: insert_transaction_def posted_of_def image_iff intro!: bexI [of _ r])
  with k dup have "store_post id newId2 now2 (reversalOf p c2) db' = Inl (AlreadyReversed t)"
    if "findByIdempotencyKey (correctionKey c2) db' = None"
    using that by (simp add: store_post_def)
  moreover have "assertPostable (reversalOf p c2) = Inr ()" if "trim (correctionKey c2) \<noteq> ''''"
    using post_Inr(3) [OF p(2)] that unfolding assertPostable_iff reversal_side net_sides by (auto simp: reversalOf_def)
  ultimately have "reverse id newId2 now2 t c2 db' = Inl (AlreadyReversed t)"
    if "findByIdempotencyKey (correctionKey c2) db' = None \<and> trim (correctionKey c2) \<noteq> ''''"
    using that f by (simp add: reverse_def post_def)
  with p(1) e same show ?thesis by (auto simp: net_on_all_entries reversal_net_on)
qed

theorem reversal_is_exact_and_single_witness:
  "\<exists>db' r. reverse id ''t2'' 9 ''t'' \<lparr>correctionKey = ''r'', correctionOccurredAt = 1\<rparr> example_db = Inr (db', r) \<and>
     net_on ''a'' (all_entries db') = 0 \<and>
     reverse id ''t3'' 9 ''t'' \<lparr>correctionKey = ''q'', correctionOccurredAt = 1\<rparr> db' = Inl (AlreadyReversed ''t'')"
proof -
  let ?c = "\<lparr>correctionKey = ''r'', correctionOccurredAt = 1\<rparr>"
  let ?p = "posted_of ''t2'' 9 (reversalOf example_posted ?c)"
  let ?db = "example_db\<lparr>ledger_transactions := [example_posted, ?p]\<rparr>"
  have inv: "ledger_inv example_db" using ledger_steps_inv [OF example_db_reachable empty_ledger_inv] .
  have f: "findById_transaction ''t'' example_db = Some example_posted"
    by (simp add: findById_transaction_def example_db_def empty_ledger_def example_posted_def)
  have "assertPostable (reversalOf example_posted ?c) = Inr ()"
    unfolding assertPostable_iff by (simp add: example_posted_def reversalOf_def signed_amount_def side_total_def safe_int_def trim_def is_space_def)
  moreover have "store_post id ''t2'' 9 (reversalOf example_posted ?c) example_db = Inr (?db, ?p)"
    by (simp add: store_post_def findByIdempotencyKey_def insert_transaction_def example_db_def example_posted_def reversalOf_def
        empty_ledger_def posted_of_def btrim_def entry_insertable_def int4_def
        assert_ledger_transaction_balances_def side_total_def Let_def)
  moreover have "assertSameTransaction (reversalOf example_posted ?c) ?p = Inr ()"
    by (simp add: assertSameTransaction_def sameTransaction_def posted_of_def)
  ultimately have r: "reverse id ''t2'' 9 ''t'' ?c example_db = Inr (?db, ?p)" by (simp add: reverse_def f post_def)
  have k: "findByIdempotencyKey (correctionKey ?c) example_db = None"
    by (simp add: findByIdempotencyKey_def example_db_def example_posted_def empty_ledger_def)
  have "net_on ''a'' (all_entries example_db) = 5" "net_on ''a'' (entries example_posted) = 5"
    by (simp_all add: all_entries_def example_db_def example_posted_def empty_ledger_def signed_amount_def)
  moreover have "findByIdempotencyKey ''q'' ?db = None" "trim ''q'' \<noteq> ''''"
    by (simp_all add: findByIdempotencyKey_def example_posted_def posted_of_def reversalOf_def trim_def is_space_def)
  ultimately show ?thesis
    using reversal_is_exact_and_single [OF inv r k, of "\<lparr>correctionKey = ''q'', correctionOccurredAt = 1\<rparr>" "''t3''" 9] f r
    by (intro exI [of _ ?db] exI [of _ ?p]) simp
qed

subsection \<open>The fingerprint\<close>

definition plain_id :: "string \<Rightarrow> bool" where
  "plain_id s \<longleftrightarrow> CHR ''|'' \<notin> set s \<and> CHR '','' \<notin> set s"

lemma show_int_plain: "plain_id (show_int n)"
  using show_int_chars [of "CHR ''|''" n] show_int_chars [of "CHR '',''" n]
  by (auto simp: plain_id_def is_digit_def Let_def)

lemma direction_text_plain: "plain_id (direction_text d)"
  by (cases d) (simp_all add: plain_id_def)

lemma direction_text_inj: "direction_text d = direction_text d' \<Longrightarrow> d = d'"
  by (cases d; cases d') auto

lemma entry_text_inj:
  assumes "plain_id (entryAccountId a)" "plain_id (entryAccountId b)" "entry_text a = entry_text b"
  shows "a = (b :: LedgerEntryDraft)"
proof -
  have i: "CHR ''|'' \<notin> set (entryAccountId a)" "CHR ''|'' \<notin> set (entryAccountId b)"
    using assms by (simp_all add: plain_id_def)
  have d: "CHR ''|'' \<notin> set (direction_text (direction x))" for x :: LedgerEntryDraft
    using direction_text_plain by (simp add: plain_id_def)
  have n: "CHR ''|'' \<notin> set (show_int k)" for k using show_int_plain by (simp add: plain_id_def)
  note e1 = separator_split [OF i assms(3) [unfolded entry_text_def]]
  note e2 = separator_split [OF d d e1 [THEN conjunct2]]
  note e3 = separator_split [OF n n e2 [THEN conjunct2]]
  have "amount (entryAmount a) = amount (entryAmount b)" using e3 by (simp add: show_int_inj)
  with e1 e2 show ?thesis
    using direction_text_inj [of "direction a" "direction b"] by (simp add: Money_eq_iff)
qed

lemma entry_text_comma: "plain_id (entryAccountId e) \<Longrightarrow> CHR '','' \<notin> set (entry_text e) \<and> entry_text e \<noteq> []"
  using show_int_plain direction_text_plain by (auto simp: entry_text_def plain_id_def)

lemma fingerprint_iff_aux:
  assumes "list_all (\<lambda>e. plain_id (entryAccountId e)) as" "list_all (\<lambda>e. plain_id (entryAccountId e)) bs"
  shows "fingerprintOf as = fingerprintOf bs \<longleftrightarrow> mset as = mset bs"
proof
  assume "mset as = mset bs"
  then have "mset (map entry_text as) = mset (map entry_text bs)" by simp
  then have "sort (map entry_text as) = sort (map entry_text bs)"
    by (metis mset_sort sorted_sort sorted_sort_id properties_for_sort)
  then show "fingerprintOf as = fingerprintOf bs" by (simp add: fingerprintOf_def)
next
  assume "fingerprintOf as = fingerprintOf bs"
  then have "sort (map entry_text as) = sort (map entry_text bs)"
    unfolding fingerprintOf_def
    by (intro join_inj [of _ "CHR '',''"]) (use assms entry_text_comma in \<open>auto simp: list_all_iff\<close>)
  then have m: "image_mset entry_text (mset as) = image_mset entry_text (mset bs)" by (metis mset_map mset_sort)
  have "inj_on entry_text (set as \<union> set bs)"
    using assms entry_text_inj by (auto simp: inj_on_def list_all_iff)
  with m show "mset as = mset bs"
    using image_mset_eq_image_mset_plusD [of entry_text "mset as" "mset bs" "{#}"] by auto
qed

text \<open>
The fingerprint that guards a repeated posting sees exactly the content: two postings on accounts
  whose identifiers hold neither separator have the same fingerprint if and only if they consist of
  the same entries, in whatever order the database returns them.\<close>

theorem fingerprint_iff_same_entries:
  assumes "list_all (\<lambda>e. plain_id (entryAccountId e)) as" "list_all (\<lambda>e. plain_id (entryAccountId e)) bs"
  shows "fingerprintOf as = fingerprintOf bs \<longleftrightarrow> mset as = mset bs"
  using assms by (rule fingerprint_iff_aux)

theorem fingerprint_iff_same_entries_witness:
  "fingerprintOf (entries example_posted) = fingerprintOf (rev (entries example_posted))"
proof -
  have "list_all (\<lambda>e. plain_id (entryAccountId e)) (entries example_posted)"
    "list_all (\<lambda>e. plain_id (entryAccountId e)) (rev (entries example_posted))"
    by (simp_all add: example_posted_def plain_id_def)
  from fingerprint_iff_same_entries [OF this] show ?thesis by simp
qed

end
