(* ===== verification/Payment_Intent.thy ===== *)
theory Payment_Intent
  imports Ledger_Store
begin

section \<open>Payment attempts\<close>

text \<open>
  A payment attempt and its rules (\<^verbatim>\<open>apps/api/src/payments/payment-intent.ts\<close>), the vocabulary of the
  provider port (\<^verbatim>\<open>payment-provider.ts\<close>), and the table of attempts with the constraints of its two
  migrations and the store over it (\<^verbatim>\<open>prisma-payment-intent-store.ts\<close>). The union of a hire charge,
  which divides, and a damage-security hold, which does not, is the datatype \<open>IntentTerms\<close>.
\<close>

subsection \<open>The provider's vocabulary\<close>

datatype PaymentAttemptStatus = PendingPayerAction | Processing | Succeeded | Failed

datatype FailureReason = Declined | AuthenticationFailed | ProviderError

record PaymentFailure =
  failureReason :: FailureReason
  failureMessage :: string

record PaymentAttempt =
  attemptReference :: string
  attemptStatus :: PaymentAttemptStatus
  attemptPayerAction :: "string option"
  attemptFailure :: "PaymentFailure option"
  attemptOccurredAt :: "int option"
  attemptExpiresAt :: "int option"

record PaymentRequest =
  requestKey :: string
  requestAmount :: Money
  requestDescription :: string

subsection \<open>Attempts\<close>

datatype PaymentIntentPurpose = HireChargePurpose | DamageSecurityPurpose

datatype PaymentIntentStatus = Initiated | Reached PaymentAttemptStatus

datatype IntentTerms = HireChargeTerms Money Money | DamageSecurityTerms

fun purpose_of :: "IntentTerms \<Rightarrow> PaymentIntentPurpose" where
  "purpose_of (HireChargeTerms i f) = HireChargePurpose"
| "purpose_of DamageSecurityTerms = DamageSecurityPurpose"

definition TERMINAL_STATUSES :: "PaymentIntentStatus list" where
  "TERMINAL_STATUSES = [Reached Succeeded, Reached Failed]"

definition isTerminal_intent :: "PaymentIntentStatus \<Rightarrow> bool" where
  "isTerminal_intent status \<longleftrightarrow> status \<in> set TERMINAL_STATUSES"

datatype PaymentIntentError = SettledAttempt PaymentIntentStatus PaymentAttemptStatus
  | AttemptKeyReused string | AttemptRefused string | OutcomeRefused string | ChargeWithoutDivision string
  | VersionMissing string | CannotSettle LedgerError | NotAHold string | NoProviderConfigured
  | LedgerFailure LedgerError | IntentArithmetic MoneyError | ProviderFailure string | MissingIntent string

record NewPaymentIntent =
  intentBookingId :: string
  intentTerms :: IntentTerms
  attemptKey :: string
  intentOwnerId :: string
  intentVersionId :: string
  intentAmount :: Money
  intentProvider :: string

record PaymentIntentRecord = NewPaymentIntent +
  intentId :: string
  intentStatus :: PaymentIntentStatus
  intentReference :: "string option"
  intentExpiresAt :: "int option"
  intentFailure :: "PaymentFailure option"
  intentCreatedAt :: int
  intentUpdatedAt :: int

record PaymentIntentOutcome =
  outcomeStatus :: PaymentAttemptStatus
  outcomeReference :: string
  outcomeExpiresAt :: "int option"
  outcomeFailure :: "PaymentFailure option"

datatype OutcomeDisposition = Apply | Ignore PaymentIntentStatus

definition dispositionOf ::
  "PaymentIntentStatus \<Rightarrow> PaymentAttemptStatus \<Rightarrow> PaymentIntentError + OutcomeDisposition" where
  "dispositionOf current arriving =
    (if current = Reached arriving then Inr (Ignore current)
     else if isTerminal_intent current then Inl (SettledAttempt current arriving)
     else Inr Apply)"

fun dividesDifferently :: "IntentTerms \<Rightarrow> IntentTerms \<Rightarrow> bool" where
  "dividesDifferently (HireChargeTerms item fee1) (HireChargeTerms foundItem foundFee) \<longleftrightarrow>
     amount foundItem \<noteq> amount item \<or> amount foundFee \<noteq> amount fee1"
| "dividesDifferently _ _ \<longleftrightarrow> False"

definition assertSameAttempt ::
  "NewPaymentIntent \<Rightarrow> PaymentIntentRecord \<Rightarrow> PaymentIntentError + PaymentIntentRecord" where
  "assertSameAttempt proposed found =
    (if intentBookingId found \<noteq> intentBookingId proposed \<or>
        purpose_of (intentTerms found) \<noteq> purpose_of (intentTerms proposed) \<or>
        intentOwnerId found \<noteq> intentOwnerId proposed \<or>
        intentVersionId found \<noteq> intentVersionId proposed \<or>
        amount (intentAmount found) \<noteq> amount (intentAmount proposed) \<or>
        currency (intentAmount found) \<noteq> currency (intentAmount proposed) \<or>
        dividesDifferently (intentTerms proposed) (intentTerms found)
     then Inl (AttemptKeyReused (attemptKey proposed)) else Inr found)"

definition hireAttemptKey :: "string \<Rightarrow> nat \<Rightarrow> string" where
  "hireAttemptKey bookingId failedAttempts = ''hire:'' @ bookingId @ '':'' @ show_nat failedAttempts"

definition securityHoldKey :: "string \<Rightarrow> nat \<Rightarrow> string" where
  "securityHoldKey bookingId failedAttempts = ''security:'' @ bookingId @ '':'' @ show_nat failedAttempts"

definition hireCaptureKey :: "string \<Rightarrow> string" where
  "hireCaptureKey bookingId = ''hire-capture:'' @ bookingId"

subsection \<open>The table\<close>

record IntentRow =
  rowId :: string
  rowBookingId :: string
  rowOwnerId :: string
  rowVersionId :: string
  rowPurpose :: PaymentIntentPurpose
  rowAttemptKey :: string
  rowStatus :: PaymentIntentStatus
  rowProvider :: string
  rowReference :: "string option"
  itemChargeMinor :: "int option"
  renterFeeMinor :: "int option"
  amountMinor :: int
  rowCurrency :: CurrencyCode
  rowExpiresAt :: "int option"
  rowFailureReason :: "FailureReason option"
  rowFailureMessage :: "string option"
  rowCreatedAt :: int
  rowUpdatedAt :: int

text \<open>The checks of one row, from the two migrations.\<close>

definition intent_row_ok :: "IntentRow \<Rightarrow> bool" where
  "intent_row_ok r \<longleftrightarrow>
     btrim (rowAttemptKey r) \<noteq> '''' \<and> 0 < amountMinor r \<and> int4 (amountMinor r) \<and>
     (rowStatus r \<noteq> Reached Succeeded \<or> rowReference r \<noteq> None) \<and>
     (rowStatus r \<noteq> Reached Failed \<or> rowFailureReason r \<noteq> None) \<and>
     (case (rowPurpose r, itemChargeMinor r, renterFeeMinor r) of
        (HireChargePurpose, Some i, Some f) \<Rightarrow> 0 < i \<and> 0 \<le> f \<and> i + f = amountMinor r
      | (DamageSecurityPurpose, None, None) \<Rightarrow> True
      | _ \<Rightarrow> False)"

text \<open>
  The constraints across rows: the primary key, the unique attempt key and the partial unique index
  \<^verbatim>\<open>one_succeeded_intent_per_booking_and_purpose\<close>.
\<close>

definition intent_table_ok :: "IntentRow list \<Rightarrow> bool" where
  "intent_table_ok rows \<longleftrightarrow> distinct (map rowId rows) \<and> distinct (map rowAttemptKey rows) \<and>
     distinct (map (\<lambda>r. (rowBookingId r, rowPurpose r)) (filter (\<lambda>r. rowStatus r = Reached Succeeded) rows))"

record PayDb =
  intents :: "IntentRow list"
  ledger :: LedgerDb
  known_versions :: "string \<Rightarrow> bool"

definition insert_intent :: "IntentRow \<Rightarrow> PayDb \<Rightarrow> PayDb option" where
  "insert_intent r db =
    (if intent_row_ok r \<and> intent_table_ok (intents db @ [r]) \<and> known_bookings (ledger db) (rowBookingId r) \<and>
        known_users (ledger db) (rowOwnerId r) \<and> known_versions db (rowVersionId r)
     then Some (db\<lparr>intents := intents db @ [r]\<rparr>) else None)"

definition update_intent :: "string \<Rightarrow> (IntentRow \<Rightarrow> IntentRow) \<Rightarrow> PayDb \<Rightarrow> (PayDb \<times> IntentRow) option" where
  "update_intent i f db =
    (case find (\<lambda>r. rowId r = i) (intents db) of
       None \<Rightarrow> None
     | Some r \<Rightarrow>
         let rows = map (\<lambda>x. if rowId x = i then f x else x) (intents db)
         in if intent_row_ok (f r) \<and> intent_table_ok rows then Some (db\<lparr>intents := rows\<rparr>, f r) else None)"

definition toFailure :: "IntentRow \<Rightarrow> PaymentFailure option" where
  "toFailure row =
    (case rowFailureReason row of
       None \<Rightarrow> None
     | Some reason \<Rightarrow> Some \<lparr>failureReason = reason, failureMessage =
         (case rowFailureMessage row of
            Some m \<Rightarrow> m | None \<Rightarrow> ''That payment could not be completed. Please try again.'')\<rparr>)"

definition toIntentRecord :: "IntentRow \<Rightarrow> PaymentIntentError + PaymentIntentRecord" where
  "toIntentRecord row =
    rbind (map_sum IntentArithmetic id (money (Finite (of_int (amountMinor row))) (rowCurrency row))) (\<lambda>amt.
    rbind (if rowPurpose row = DamageSecurityPurpose then Inr DamageSecurityTerms
           else (case (itemChargeMinor row, renterFeeMinor row) of
                   (Some i, Some f) \<Rightarrow>
                     rbind (map_sum IntentArithmetic id (money (Finite (of_int i)) (rowCurrency row))) (\<lambda>item.
                     rbind (map_sum IntentArithmetic id (money (Finite (of_int f)) (rowCurrency row))) (\<lambda>fee'.
                       Inr (HireChargeTerms item fee')))
                 | _ \<Rightarrow> Inl (ChargeWithoutDivision (rowId row)))) (\<lambda>terms.
      Inr \<lparr>intentBookingId = rowBookingId row, intentTerms = terms, attemptKey = rowAttemptKey row,
           intentOwnerId = rowOwnerId row, intentVersionId = rowVersionId row, intentAmount = amt,
           intentProvider = rowProvider row, intentId = rowId row, intentStatus = rowStatus row,
           intentReference = rowReference row, intentExpiresAt = rowExpiresAt row,
           intentFailure = toFailure row, intentCreatedAt = rowCreatedAt row, intentUpdatedAt = rowUpdatedAt row\<rparr>))"

subsection \<open>The store\<close>

definition new_intent_row :: "string \<Rightarrow> int \<Rightarrow> NewPaymentIntent \<Rightarrow> IntentRow" where
  "new_intent_row newId now intent =
    \<lparr>rowId = newId, rowBookingId = intentBookingId intent, rowOwnerId = intentOwnerId intent,
     rowVersionId = intentVersionId intent, rowPurpose = purpose_of (intentTerms intent),
     rowAttemptKey = attemptKey intent, rowStatus = Initiated, rowProvider = intentProvider intent,
     rowReference = None,
     itemChargeMinor = (case intentTerms intent of HireChargeTerms i f \<Rightarrow> Some (amount i) | _ \<Rightarrow> None),
     renterFeeMinor = (case intentTerms intent of HireChargeTerms i f \<Rightarrow> Some (amount f) | _ \<Rightarrow> None),
     amountMinor = amount (intentAmount intent), rowCurrency = currency (intentAmount intent),
     rowExpiresAt = None, rowFailureReason = None, rowFailureMessage = None,
     rowCreatedAt = now, rowUpdatedAt = now\<rparr>"

definition findByAttemptKey :: "string \<Rightarrow> PayDb \<Rightarrow> IntentRow option" where
  "findByAttemptKey key db = find (\<lambda>r. rowAttemptKey r = key) (intents db)"

definition begin_intent ::
  "(PayDb \<Rightarrow> PayDb) \<Rightarrow> string \<Rightarrow> int \<Rightarrow> NewPaymentIntent \<Rightarrow> (PayDb, PaymentIntentError, PaymentIntentRecord) action" where
  "begin_intent race newId now intent db =
    (case findByAttemptKey (attemptKey intent) db of
       Some existing \<Rightarrow> (toIntentRecord existing, db)
     | None \<Rightarrow>
         let db1 = race db
         in case insert_intent (new_intent_row newId now intent) db1 of
              Some db2 \<Rightarrow> (toIntentRecord (new_intent_row newId now intent), db2)
            | None \<Rightarrow>
                (case findByAttemptKey (attemptKey intent) db1 of
                   Some raced \<Rightarrow> (toIntentRecord raced, db1)
                 | None \<Rightarrow> (Inl (AttemptRefused (intentBookingId intent)), db1)))"

definition outcome_on :: "int \<Rightarrow> PaymentIntentOutcome \<Rightarrow> IntentRow \<Rightarrow> IntentRow" where
  "outcome_on now outcome r = r\<lparr>rowStatus := Reached (outcomeStatus outcome),
     rowReference := Some (outcomeReference outcome),
     rowExpiresAt := (case outcomeExpiresAt outcome of None \<Rightarrow> rowExpiresAt r | Some e \<Rightarrow> Some e),
     rowFailureReason := (case outcomeFailure outcome of None \<Rightarrow> rowFailureReason r | Some f \<Rightarrow> Some (failureReason f)),
     rowFailureMessage := (case outcomeFailure outcome of None \<Rightarrow> rowFailureMessage r | Some f \<Rightarrow> Some (failureMessage f)),
     rowUpdatedAt := now\<rparr>"

definition recordOutcome ::
  "int \<Rightarrow> string \<Rightarrow> PaymentIntentOutcome \<Rightarrow> (PayDb, PaymentIntentError, PaymentIntentRecord) action" where
  "recordOutcome now i outcome db =
    (case update_intent i (outcome_on now outcome) db of
       None \<Rightarrow> (Inl (OutcomeRefused i), db)
     | Some (db', row) \<Rightarrow> (case toIntentRecord row of
                             Inl _ \<Rightarrow> (Inl (OutcomeRefused i), db')
                           | Inr rec \<Rightarrow> (Inr rec, db')))"

definition findById_intent :: "string \<Rightarrow> PayDb \<Rightarrow> PaymentIntentError + PaymentIntentRecord option" where
  "findById_intent i db =
    (case find (\<lambda>r. rowId r = i) (intents db) of
       None \<Rightarrow> Inr None | Some r \<Rightarrow> rbind (toIntentRecord r) (\<lambda>x. Inr (Some x)))"

text \<open>Newest first; the sort of the database is stable on the order of insertion.\<close>

definition findForBooking :: "string \<Rightarrow> PayDb \<Rightarrow> PaymentIntentError + PaymentIntentRecord list" where
  "findForBooking bookingId db =
    rmap toIntentRecord (sort_key (\<lambda>r. - rowCreatedAt r) (filter (\<lambda>r. rowBookingId r = bookingId) (intents db)))"

definition findUnsettled :: "int \<Rightarrow> nat \<Rightarrow> PayDb \<Rightarrow> PaymentIntentError + PaymentIntentRecord list" where
  "findUnsettled notUpdatedSince limit db =
    rmap toIntentRecord (take limit (sort_key rowUpdatedAt
      (filter (\<lambda>r. rowStatus r \<notin> set TERMINAL_STATUSES \<and> rowUpdatedAt r < notUpdatedSince) (intents db))))"

subsection \<open>Stored rows always read back\<close>

definition terms_of :: "IntentRow \<Rightarrow> IntentTerms" where
  "terms_of r = (if rowPurpose r = DamageSecurityPurpose then DamageSecurityTerms
     else HireChargeTerms (pence (the (itemChargeMinor r))) (pence (the (renterFeeMinor r))))"

definition record_of :: "IntentRow \<Rightarrow> PaymentIntentRecord" where
  "record_of r = \<lparr>intentBookingId = rowBookingId r, intentTerms = terms_of r, attemptKey = rowAttemptKey r,
     intentOwnerId = rowOwnerId r, intentVersionId = rowVersionId r, intentAmount = pence (amountMinor r),
     intentProvider = rowProvider r, intentId = rowId r, intentStatus = rowStatus r,
     intentReference = rowReference r, intentExpiresAt = rowExpiresAt r,
     intentFailure = toFailure r, intentCreatedAt = rowCreatedAt r, intentUpdatedAt = rowUpdatedAt r\<rparr>"

lemma record_of_simps [simp]: "intentBookingId (record_of r) = rowBookingId r" "intentTerms (record_of r) = terms_of r"
  "attemptKey (record_of r) = rowAttemptKey r" "intentOwnerId (record_of r) = rowOwnerId r"
  "intentVersionId (record_of r) = rowVersionId r" "amount (intentAmount (record_of r)) = amountMinor r"
  "intentId (record_of r) = rowId r" "intentStatus (record_of r) = rowStatus r" "intentReference (record_of r) = rowReference r"
  by (simp_all add: record_of_def)

lemma purpose_terms_of [simp]: "purpose_of (terms_of r) = rowPurpose r"
  by (cases "rowPurpose r") (simp_all add: terms_of_def)

lemma int4_safe: "int4 n \<Longrightarrow> safe_int n"
  by (auto simp: int4_def safe_int_def)

lemma money_safe: "safe_int n \<Longrightarrow> money (Finite (of_int n)) c = Inr (pence n)"
  by (cases c) simp

lemma toIntentRecord_ok:
  assumes "intent_row_ok r"
  shows "toIntentRecord r = Inr (record_of r)"
proof (cases "rowPurpose r")
  case DamageSecurityPurpose
  then show ?thesis
    using assms int4_safe by (simp add: toIntentRecord_def record_of_def terms_of_def intent_row_ok_def money_safe del: money.simps)
next
  case HireChargePurpose
  then obtain i f where d: "itemChargeMinor r = Some i" "renterFeeMinor r = Some f" "0 < i" "0 \<le> f" "i + f = amountMinor r"
    using assms by (auto simp: intent_row_ok_def split: option.splits)
  have "safe_int i" "safe_int f" "safe_int (amountMinor r)"
    using d assms by (auto simp: intent_row_ok_def int4_def safe_int_def)
  with HireChargePurpose d show ?thesis
    by (simp add: toIntentRecord_def record_of_def terms_of_def money_safe del: money.simps)
qed

definition intents_ok :: "PayDb \<Rightarrow> bool" where
  "intents_ok db \<longleftrightarrow> intent_table_ok (intents db) \<and> (\<forall>r \<in> set (intents db). intent_row_ok r)"

lemma update_intent_Some:
  assumes "update_intent i f db = Some (db', r')"
  shows "\<exists>r \<in> set (intents db). rowId r = i \<and> r' = f r \<and> intent_row_ok (f r) \<and>
    db' = db\<lparr>intents := map (\<lambda>x. if rowId x = i then f x else x) (intents db)\<rparr> \<and> intent_table_ok (intents db')"
  using assms by (auto simp: update_intent_def Let_def split: option.splits if_splits dest!: find_Some_mem)

lemma table_unique: "intent_table_ok rows \<Longrightarrow> r \<in> set rows \<Longrightarrow> x \<in> set rows \<Longrightarrow> rowId r = rowId x \<Longrightarrow> r = x"
  by (auto simp: intent_table_ok_def distinct_map dest: inj_onD)

lemma update_intent_ok:
  assumes "update_intent i f db = Some (db', r')" "intents_ok db"
  shows "intents_ok db'"
proof -
  obtain r where r: "r \<in> set (intents db)" "rowId r = i" "intent_row_ok (f r)"
    "db' = db\<lparr>intents := map (\<lambda>x. if rowId x = i then f x else x) (intents db)\<rparr>" "intent_table_ok (intents db')"
    using update_intent_Some [OF assms(1)] by blast
  have "intent_row_ok (f x)" if "x \<in> set (intents db)" "rowId x = i" for x
    using that r assms(2) table_unique [of "intents db" x r] by (auto simp: intents_ok_def)
  with r assms(2) show ?thesis by (auto simp: intents_ok_def)
qed

lemma insert_intent_ok: "insert_intent r db = Some db' \<Longrightarrow> intents_ok db \<Longrightarrow> intents_ok db'"
  by (auto simp: insert_intent_def intents_ok_def split: if_splits)

subsection \<open>Keys of attempts\<close>

lemma attempt_key_inj:
  assumes "b @ CHR '':'' # show_nat m = b' @ CHR '':'' # show_nat n"
  shows "b = b' \<and> m = n"
proof -
  have c: "CHR '':'' \<notin> set (rev (show_nat k))" for k
    using show_nat_digits [of k] by (auto simp: list_all_iff is_digit_def)
  from assms have "rev (show_nat m) @ CHR '':'' # rev b = rev (show_nat n) @ CHR '':'' # rev b'"
    by (metis append.assoc append_Cons append_Nil rev.simps(2) rev_append)
  from separator_split [OF c c this] show ?thesis by (simp add: show_nat_inj)
qed

definition key_for :: "PaymentIntentPurpose \<Rightarrow> string \<Rightarrow> nat \<Rightarrow> string" where
  "key_for purpose bookingId n =
    (case purpose of HireChargePurpose \<Rightarrow> hireAttemptKey bookingId n | DamageSecurityPurpose \<Rightarrow> securityHoldKey bookingId n)"

lemma key_for_inj: "key_for p b m = key_for q c n \<longleftrightarrow> p = q \<and> b = c \<and> m = n"
  using attempt_key_inj [of b m c n]
  by (cases p; cases q) (auto simp: key_for_def hireAttemptKey_def securityHoldKey_def)

end
