(* ===== verification/Payments.thy ===== *)
theory Payments
  imports Payment_Intent
begin

section \<open>Taking payment\<close>

text \<open>
  The payment service (\<^verbatim>\<open>apps/api/src/payments/payments.service.ts\<close>), the refusing provider
  (\<^verbatim>\<open>no-payment-provider.ts\<close>), the reconciliation sweep (\<^verbatim>\<open>reconciliation.service.ts\<close>) and the adapters
  through which the booking module reaches it (\<^verbatim>\<open>main.ts\<close>). The provider is a third party: it is a
  record of functions, arbitrary in every theorem. The fee policy of a category version is the
  catalogue's answer, the parameter \<open>policies\<close>. Each \<open>async\<close> method is an action on the database whose
  writes stay when a later step throws.
\<close>

subsection \<open>The provider and the environment of a call\<close>

record Provider =
  providerName :: string
  providerBegin :: "PaymentRequest \<Rightarrow> string + PaymentAttempt"
  providerRead :: "string \<Rightarrow> string + PaymentAttempt"
  providerHold :: "PaymentRequest \<Rightarrow> string + PaymentAttempt"

definition NoPaymentProvider :: Provider where
  "NoPaymentProvider = \<lparr>providerName = ''none'', providerBegin = (\<lambda>_. Inl ''no payment provider is configured''),
     providerRead = (\<lambda>_. Inl ''no payment provider is configured''),
     providerHold = (\<lambda>_. Inl ''no payment provider is configured'')\<rparr>"

text \<open>The clock and the identifiers the rows written during one call receive.\<close>

record PayEnv =
  payNow :: int
  intentNewId :: string
  accountNewId :: "LedgerAccountKind \<Rightarrow> string"
  transactionNewId :: string

type_synonym 'a pay = "(PayDb, PaymentIntentError, 'a) action"

definition in_ledger :: "(LedgerDb \<Rightarrow> LedgerError + LedgerDb \<times> 'a) \<Rightarrow> 'a pay" where
  "in_ledger f db = (case f (ledger db) of Inl e \<Rightarrow> (Inl (LedgerFailure e), db)
     | Inr (l, x) \<Rightarrow> (Inr x, db\<lparr>ledger := l\<rparr>))"

definition call_provider :: "string + PaymentAttempt \<Rightarrow> PaymentAttempt pay" where
  "call_provider r = pure_step (map_sum ProviderFailure id r)"

subsection \<open>The service\<close>

record HirePaymentInstruction =
  payBookingId :: string
  payOwnerId :: string
  payCharge :: HireCharge
  payVersionId :: string
  payItemTitle :: string

record HirePaymentOutcome =
  outcomeIntent :: PaymentIntentRecord
  outcomePayerAction :: "string option"

record DamageSecurityInstruction =
  holdBookingId :: string
  holdOwnerId :: string
  holdVersionId :: string
  holdExcess :: "Money option"
  holdItemTitle :: string

datatype DamageSecurityOutcome = NotRequired | Attempted PaymentIntentRecord "string option"

definition settle ::
  "(string \<Rightarrow> CategoryFeePolicy option) \<Rightarrow> string \<Rightarrow> string \<Rightarrow> HireCharge \<Rightarrow> PaymentIntentError + HireSettlement" where
  "settle policies bookingId versionId charge =
    (case policies versionId of
       None \<Rightarrow> Inl (VersionMissing bookingId)
     | Some policy \<Rightarrow>
         (case settleHire charge policy of
            Inr s \<Rightarrow> Inr s
          | Inl (LedgerArithmetic e) \<Rightarrow> Inl (IntentArithmetic e)
          | Inl e \<Rightarrow> Inl (CannotSettle e)))"

definition attemptKeyFor :: "string \<Rightarrow> PaymentIntentPurpose \<Rightarrow> PayDb \<Rightarrow> PaymentIntentError + string" where
  "attemptKeyFor bookingId purpose db =
    rbind (findForBooking bookingId db) (\<lambda>attempts.
      let failed = filter (\<lambda>a. purpose_of (intentTerms a) = purpose \<and> intentStatus a = Reached Failed) attempts
      in Inr (case purpose of HireChargePurpose \<Rightarrow> hireAttemptKey bookingId (length failed)
              | DamageSecurityPurpose \<Rightarrow> securityHoldKey bookingId (length failed)))"

definition query :: "(PayDb \<Rightarrow> PaymentIntentError + 'a) \<Rightarrow> 'a pay" where
  "query f db = (f db, db)"

definition captureDraft ::
  "string \<Rightarrow> CurrencyCode \<Rightarrow> int \<Rightarrow> LedgerEntryDraft list \<Rightarrow> LedgerTransactionDraft" where
  "captureDraft bookingId cur when es =
    \<lparr>idempotencyKey = hireCaptureKey bookingId, transactionKind = HireChargeCaptured, transactionCurrency = cur,
     ledgerBookingId = Some bookingId, occurredAt = when, entries = es, reversesTransactionId = None\<rparr>"

definition postCapture ::
  "PayEnv \<Rightarrow> (string \<Rightarrow> CategoryFeePolicy option) \<Rightarrow> PaymentIntentRecord \<Rightarrow> Money \<Rightarrow> Money \<Rightarrow> PaymentAttempt \<Rightarrow> unit pay" where
  "postCapture env policies intent item fee' attempt =
    await (pure_step (settle policies (intentBookingId intent) (intentVersionId intent)
             \<lparr>chargeItem = item, chargeFee = fee', chargeTotal = intentAmount intent\<rparr>)) (\<lambda>settlement.
    let cur = currency (renterPays settlement) in
    await (in_ledger (accountFor id (accountNewId env ProviderClearing)
             \<lparr>accountKind = ProviderClearing, accountCurrency = cur, accountOwnerId = None\<rparr>)) (\<lambda>clearing.
    await (in_ledger (accountFor id (accountNewId env OwnerPayable)
             \<lparr>accountKind = OwnerPayable, accountCurrency = cur, accountOwnerId = Some (intentOwnerId intent)\<rparr>)) (\<lambda>payable.
    await (in_ledger (accountFor id (accountNewId env PlatformRevenue)
             \<lparr>accountKind = PlatformRevenue, accountCurrency = cur, accountOwnerId = None\<rparr>)) (\<lambda>revenue.
    await (pure_step (map_sum LedgerFailure id (hireCaptureEntries settlement
             (ledgerAccountId clearing) (ledgerAccountId payable) (ledgerAccountId revenue)))) (\<lambda>es.
    await (in_ledger (post id (transactionNewId env) (payNow env)
             (captureDraft (intentBookingId intent) cur
                (case attemptOccurredAt attempt of Some t \<Rightarrow> t | None \<Rightarrow> payNow env) es))) (\<lambda>_.
      done_with ()))))))"

definition applyOutcome ::
  "PayEnv \<Rightarrow> (string \<Rightarrow> CategoryFeePolicy option) \<Rightarrow> PaymentIntentRecord \<Rightarrow> PaymentAttempt \<Rightarrow> PaymentIntentRecord pay" where
  "applyOutcome env policies intent attempt =
    await (pure_step (dispositionOf (intentStatus intent) (attemptStatus attempt))) (\<lambda>disposition.
      case disposition of
        Ignore _ \<Rightarrow> done_with intent
      | Apply \<Rightarrow>
          await (case (attemptStatus attempt, intentTerms intent) of
                   (Succeeded, HireChargeTerms item fee') \<Rightarrow> postCapture env policies intent item fee' attempt
                 | _ \<Rightarrow> done_with ()) (\<lambda>_.
            recordOutcome (payNow env) (intentId intent)
              \<lparr>outcomeStatus = attemptStatus attempt, outcomeReference = attemptReference attempt,
               outcomeExpiresAt = attemptExpiresAt attempt, outcomeFailure = attemptFailure attempt\<rparr>))"

definition payForHire ::
  "PayEnv \<Rightarrow> Provider \<Rightarrow> (string \<Rightarrow> CategoryFeePolicy option) \<Rightarrow> HirePaymentInstruction \<Rightarrow> HirePaymentOutcome pay" where
  "payForHire env provider policies instruction =
    await (pure_step (settle policies (payBookingId instruction) (payVersionId instruction) (payCharge instruction))) (\<lambda>_.
    await (query (attemptKeyFor (payBookingId instruction) HireChargePurpose)) (\<lambda>key.
    let proposed = \<lparr>intentBookingId = payBookingId instruction,
          intentTerms = HireChargeTerms (chargeItem (payCharge instruction)) (chargeFee (payCharge instruction)),
          attemptKey = key, intentOwnerId = payOwnerId instruction, intentVersionId = payVersionId instruction,
          intentAmount = chargeTotal (payCharge instruction), intentProvider = providerName provider\<rparr> in
    await (begin_intent id (intentNewId env) (payNow env) proposed) (\<lambda>found.
    await (pure_step (assertSameAttempt proposed found)) (\<lambda>intent.
    if intentStatus intent \<noteq> Initiated
    then done_with \<lparr>outcomeIntent = intent, outcomePayerAction = None\<rparr>
    else
      await (call_provider (providerBegin provider
               \<lparr>requestKey = attemptKey intent, requestAmount = chargeTotal (payCharge instruction),
                requestDescription = payItemTitle instruction\<rparr>)) (\<lambda>attempt.
      await (applyOutcome env policies intent attempt) (\<lambda>recorded.
        done_with \<lparr>outcomeIntent = recorded, outcomePayerAction = attemptPayerAction attempt\<rparr>))))))"

definition asHold :: "PaymentIntentRecord \<Rightarrow> PaymentIntentError + PaymentIntentRecord" where
  "asHold intent =
    (if purpose_of (intentTerms intent) \<noteq> DamageSecurityPurpose then Inl (NotAHold (intentId intent)) else Inr intent)"

definition holdDamageSecurity ::
  "PayEnv \<Rightarrow> Provider \<Rightarrow> (string \<Rightarrow> CategoryFeePolicy option) \<Rightarrow> DamageSecurityInstruction \<Rightarrow> DamageSecurityOutcome pay" where
  "holdDamageSecurity env provider policies instruction =
    (case holdExcess instruction of
       None \<Rightarrow> done_with NotRequired
     | Some excess \<Rightarrow>
         if amount excess = 0 then done_with NotRequired
         else
           await (query (attemptKeyFor (holdBookingId instruction) DamageSecurityPurpose)) (\<lambda>key.
           let proposed = \<lparr>intentBookingId = holdBookingId instruction, intentTerms = DamageSecurityTerms,
                 attemptKey = key, intentOwnerId = holdOwnerId instruction, intentVersionId = holdVersionId instruction,
                 intentAmount = excess, intentProvider = providerName provider\<rparr> in
           await (begin_intent id (intentNewId env) (payNow env) proposed) (\<lambda>begun.
           await (pure_step (assertSameAttempt proposed begun)) (\<lambda>found.
           await (pure_step (asHold found)) (\<lambda>intent.
           if intentStatus intent \<noteq> Initiated then done_with (Attempted intent None)
           else
             await (call_provider (providerHold provider
                      \<lparr>requestKey = attemptKey intent, requestAmount = excess,
                       requestDescription = holdItemTitle instruction\<rparr>)) (\<lambda>attempt.
             await (applyOutcome env policies intent attempt) (\<lambda>applied.
             await (pure_step (asHold applied)) (\<lambda>recorded.
               done_with (Attempted recorded (attemptPayerAction attempt)))))))))) "

definition refresh ::
  "PayEnv \<Rightarrow> Provider \<Rightarrow> (string \<Rightarrow> CategoryFeePolicy option) \<Rightarrow> string \<Rightarrow> PaymentIntentRecord option pay" where
  "refresh env provider policies i =
    await (query (findById_intent i)) (\<lambda>found.
      case found of
        None \<Rightarrow> done_with None
      | Some intent \<Rightarrow>
          if isTerminal_intent (intentStatus intent) then done_with (Some intent)
          else (case intentReference intent of
                  None \<Rightarrow> done_with (Some intent)
                | Some reference \<Rightarrow>
                    await (call_provider (providerRead provider reference)) (\<lambda>attempt.
                    await (applyOutcome env policies intent attempt) (\<lambda>recorded. done_with (Some recorded)))))"

definition attemptsFor :: "string \<Rightarrow> PaymentIntentRecord list pay" where
  "attemptsFor bookingId = query (findForBooking bookingId)"

subsection \<open>Reconciliation\<close>

definition STALE_AFTER_MINUTES :: int where "STALE_AFTER_MINUTES = 15"
definition RECONCILIATION_BATCH_LIMIT :: nat where "RECONCILIATION_BATCH_LIMIT = 100"

record ReconciliationResult =
  examined :: nat
  settled :: nat
  stillPending :: nat
  unreconcilable :: nat
  failed :: nat
  reachedLimit :: bool

fun sweep_over ::
  "(string \<Rightarrow> PayEnv) \<Rightarrow> Provider \<Rightarrow> (string \<Rightarrow> CategoryFeePolicy option) \<Rightarrow> PaymentIntentRecord list
    \<Rightarrow> ReconciliationResult \<Rightarrow> PayDb \<Rightarrow> ReconciliationResult \<times> PayDb" where
  "sweep_over envs provider policies [] counts' db = (counts', db)"
| "sweep_over envs provider policies (intent # rest) counts' db =
    (if intentReference intent = None
     then sweep_over envs provider policies rest (counts'\<lparr>unreconcilable := unreconcilable counts' + 1\<rparr>) db
     else case refresh (envs (intentId intent)) provider policies (intentId intent) db of
       (Inr refreshed, db') \<Rightarrow>
         sweep_over envs provider policies rest
           (if (case refreshed of None \<Rightarrow> False | Some r \<Rightarrow> isTerminal_intent (intentStatus r))
            then counts'\<lparr>settled := settled counts' + 1\<rparr> else counts'\<lparr>stillPending := stillPending counts' + 1\<rparr>) db'
     | (Inl _, db') \<Rightarrow> sweep_over envs provider policies rest (counts'\<lparr>failed := failed counts' + 1\<rparr>) db')"

definition reconcile_sweep ::
  "(string \<Rightarrow> PayEnv) \<Rightarrow> int \<Rightarrow> Provider \<Rightarrow> (string \<Rightarrow> CategoryFeePolicy option) \<Rightarrow> ReconciliationResult pay" where
  "reconcile_sweep envs now provider policies =
    await (query (findUnsettled (now - STALE_AFTER_MINUTES * 60000) RECONCILIATION_BATCH_LIMIT)) (\<lambda>stale db.
      case sweep_over envs provider policies stale
             \<lparr>examined = length stale, settled = 0, stillPending = 0, unreconcilable = 0, failed = 0,
              reachedLimit = (RECONCILIATION_BATCH_LIMIT \<le> length stale)\<rparr> db of
        (counts', db') \<Rightarrow> (Inr counts', db'))"

subsection \<open>The adapters the booking module sees\<close>

record HireChargeResult =
  chargeStatus :: PaymentAttemptStatus
  chargePayerAction :: "string option"
  chargeFailureMessage :: "string option"

definition chargeForHire ::
  "PayEnv \<Rightarrow> Provider \<Rightarrow> (string \<Rightarrow> CategoryFeePolicy option) \<Rightarrow> HirePaymentInstruction \<Rightarrow> HireChargeResult pay" where
  "chargeForHire env provider policies request =
    await (payForHire env provider policies request) (\<lambda>outcome.
      done_with \<lparr>chargeStatus = (case intentStatus (outcomeIntent outcome) of Initiated \<Rightarrow> Processing | Reached s \<Rightarrow> s),
                 chargePayerAction = outcomePayerAction outcome,
                 chargeFailureMessage = map_option failureMessage (intentFailure (outcomeIntent outcome))\<rparr>)"

datatype CollectionSecurityStatus = SecurityNotRequired | SecurityHeld | SecurityPending | SecurityFailed

record CollectionSecurityResult =
  securityStatus :: CollectionSecurityStatus
  securityPayerAction :: "string option"
  securityFailureMessage :: "string option"

definition holdForCollection ::
  "PayEnv \<Rightarrow> Provider \<Rightarrow> (string \<Rightarrow> CategoryFeePolicy option) \<Rightarrow> DamageSecurityInstruction \<Rightarrow> CollectionSecurityResult pay" where
  "holdForCollection env provider policies request =
    await (holdDamageSecurity env provider policies request) (\<lambda>outcome. done_with
      (case outcome of
         NotRequired \<Rightarrow> \<lparr>securityStatus = SecurityNotRequired, securityPayerAction = None, securityFailureMessage = None\<rparr>
       | Attempted intent action \<Rightarrow>
           (case intentStatus intent of
              Reached Succeeded \<Rightarrow> \<lparr>securityStatus = SecurityHeld, securityPayerAction = None, securityFailureMessage = None\<rparr>
            | Reached Failed \<Rightarrow> \<lparr>securityStatus = SecurityFailed, securityPayerAction = None,
                securityFailureMessage = map_option failureMessage (intentFailure intent)\<rparr>
            | _ \<Rightarrow> \<lparr>securityStatus = SecurityPending, securityPayerAction = action, securityFailureMessage = None\<rparr>)))"

end
