(* ===== verification/Booking_Service.thy ===== *)
theory Booking_Service
  imports Booking_Store Payments
begin

section \<open>The booking services\<close>

text \<open>
  Quoting (\<^verbatim>\<open>apps/api/src/booking/quotes.service.ts\<close>), requesting, accepting, declining, paying and
  securing a hire (\<^verbatim>\<open>bookings.service.ts\<close>), what may be paid (\<^verbatim>\<open>payability.ts\<close>), the owner's calendar
  (\<^verbatim>\<open>availability.service.ts\<close>) and the expiry sweep (\<^verbatim>\<open>request-expiry.service.ts\<close>). The calendar
  arithmetic is the time library's: the record \<open>Calendar\<close>. A listing as the catalogue answers for it is
  \<open>QuotableListing\<close>. The payment module is reached through two functions, which \<open>Payments\<close> provides.
\<close>

subsection \<open>What other modules answer\<close>

record Calendar =
  startOfLocalDay :: "string \<Rightarrow> int"
  addLocalDays :: "string \<Rightarrow> int \<Rightarrow> string"
  toLocalDateString :: "int \<Rightarrow> string"
  rentalDayCount :: "int \<Rightarrow> int \<Rightarrow> string \<Rightarrow> int"
  weekdayOf :: "string \<Rightarrow> int"

record QuotableListing =
  quotableId :: string
  quotableOwnerId :: string
  quotableTitle :: string
  quotableCategoryName :: string
  quotableRates :: ListingRateCard
  currentFeePolicy :: CategoryFeePolicy
  currentDamageSecurity :: "DamageSecurityPolicy option"
  replacementValue :: Money
  currentMaximumRentalDays :: int
  currentRequestExpiryHours :: int
  currentCategoryVersionId :: string

datatype RefusalReason = QuoteExpired | NoLongerListed | OwnListing | DatesTaken UnavailableReason | AlreadyRequested
  | NotWaiting | RequestExpired | OwnerDatesTaken UnavailableReason | PaymentNotEnabled | Unpayable BookingState
  | ItemGone | ChangedWhilePaying | NotAtCollection | PeriodUnlawful PeriodRefusal | PastPeriod | NoPriceSet
  | BelowMinimum BelowMinimumBooking | BlockInPast | BlockTooFar | BlockTooLong

datatype ServiceError = RequestRefused RefusalReason | InvalidTransition InvalidBookingTransitionError
  | Store StoreError | Price PriceFault | Pay PaymentIntentError | Vanished

type_synonym 'a booking_action = "(BookingDb, ServiceError, 'a) action"

definition in_store :: "(BookingDb, StoreError, 'a) action \<Rightarrow> 'a booking_action" where
  "in_store m db = map_prod (map_sum Store id) id (m db)"

definition ask :: "(BookingDb \<Rightarrow> StoreError + 'a) \<Rightarrow> 'a booking_action" where
  "ask f db = (map_sum Store id (f db), db)"

definition refuse :: "RefusalReason \<Rightarrow> 'a booking_action" where
  "refuse r = throw (RequestRefused r)"

definition check_transition :: "BookingState \<Rightarrow> BookingState \<Rightarrow> BookingState booking_action" where
  "check_transition from to = pure_step (map_sum InvalidTransition id (assertTransition from to))"

definition PLATFORM_TIME_ZONE :: string where "PLATFORM_TIME_ZONE = ''Europe/London''"
definition QUOTE_VALIDITY_MINUTES :: int where "QUOTE_VALIDITY_MINUTES = 30"

definition periodFromLocalDates :: "Calendar \<Rightarrow> string \<Rightarrow> string \<Rightarrow> int \<times> int" where
  "periodFromLocalDates cal startDate endDateInclusive =
    (startOfLocalDay cal startDate, startOfLocalDay cal (addLocalDays cal endDateInclusive 1))"

subsection \<open>Quotes\<close>

record QuoteRequest =
  startDate :: string
  endDate :: string
  postcode :: string

definition quote ::
  "Calendar \<Rightarrow> string \<Rightarrow> int \<Rightarrow> (string \<Rightarrow> QuotableListing option) \<Rightarrow> string \<Rightarrow> string \<Rightarrow> QuoteRequest
    \<Rightarrow> QuoteRecord option booking_action" where
  "quote cal newId now findQuotable listing renter request =
    (case findQuotable listing of
       None \<Rightarrow> done_with None
     | Some l \<Rightarrow>
         if quotableOwnerId l = renter then refuse OwnListing
         else
           let (startAt', endAt') = periodFromLocalDates cal (startDate request) (endDate request) in
           (case refusePeriod (rentalDayCount cal) startAt' endAt' PLATFORM_TIME_ZONE (currentMaximumRentalDays l) of
              Some unlawful \<Rightarrow> refuse (PeriodUnlawful unlawful)
            | None \<Rightarrow>
                if startDate request < toLocalDateString cal now then refuse PastPeriod
                else
                  await (reading (reasonUnavailable (quotableId l) startAt' endAt')) (\<lambda>unavailable.
                  case unavailable of
                    Some r \<Rightarrow> refuse (DatesTaken r)
                  | None \<Rightarrow>
                      let days = rentalDayCount cal startAt' endAt' PLATFORM_TIME_ZONE in
                      await (pure_step (map_sum Price id (priceRental (of_int days) (weekdayOf cal (startDate request))
                               (quotableRates l) (currentFeePolicy l)))) (\<lambda>priced.
                      case priced of
                        None \<Rightarrow> refuse NoPriceSet
                      | Some p \<Rightarrow>
                          await (pure_step (map_sum (Price \<circ> Arith) id
                                   (refuseBelowMinimumBooking (pricedTotal p) (currentFeePolicy l)))) (\<lambda>tooSmall.
                          case tooSmall of
                            Some b \<Rightarrow> refuse (BelowMinimum b)
                          | None \<Rightarrow>
                              await (pure_step (map_sum (Price \<circ> Arith) id
                                       (appliedExcessOrNone (currentDamageSecurity l) (replacementValue l)))) (\<lambda>excess.
                              await (in_store (create_quote newId now
                                \<lparr>quoteListingId = quotableId l, quoteRenterId = renter, quoteStartAt = startAt',
                                 quoteEndAt = endAt', quoteTimeZone = PLATFORM_TIME_ZONE, renterPostcode = postcode request,
                                 quotedItemCharge = pricedItemCharge p, quotedRenterFee = pricedRenterFee p,
                                 quotedTotal = pricedTotal p, quoteMinimumFeeApplied = pricedMinimumFeeApplied p,
                                 quoteLineItems = pricedLineItems p, quoteAppliedExcess = excess,
                                 quoteVersionId = currentCategoryVersionId l,
                                 quoteExpiresAt = now + QUOTE_VALIDITY_MINUTES * 60000\<rparr>)) (\<lambda>created.
                                done_with (Some created))))))))"

definition eraseFor :: "string \<Rightarrow> nat booking_action" where
  "eraseFor renter = in_store (deleteUnbookedForRenter renter)"

subsection \<open>Payability\<close>

definition PAYABLE_STATES :: "BookingState list" where
  "PAYABLE_STATES = [ACCEPTED, AWAITING_PAYMENT, PAYMENT_FAILED]"

datatype UnpayableReason = AlreadyPaid | NotAcceptedYet | NoLongerLive | PastPaying

definition describeUnpayable :: "BookingState \<Rightarrow> UnpayableReason" where
  "describeUnpayable state =
    (if state = RESERVED then AlreadyPaid
     else if state = REQUESTED then NotAcceptedYet
     else if state = DECLINED \<or> state = EXPIRED \<or> state = CANCELLED then NoLongerLive
     else PastPaying)"

datatype BookingPayability = Payable | OnlyTheRenterPays | NotPayable UnpayableReason | SuspendedCannotPay | NotEnabled

definition payabilityOf :: "BookingState \<Rightarrow> bool \<Rightarrow> bool \<Rightarrow> bool \<Rightarrow> BookingPayability" where
  "payabilityOf state isRenter isSuspended paymentEnabled =
    (if \<not> isRenter then OnlyTheRenterPays
     else if state \<notin> set PAYABLE_STATES then NotPayable (describeUnpayable state)
     else if isSuspended then SuspendedCannotPay
     else if \<not> paymentEnabled then NotEnabled
     else Payable)"

subsection \<open>Requests\<close>

definition createOrExplainDuplicate :: "StoreEnv \<Rightarrow> NewBooking \<Rightarrow> NewBookingEvent \<Rightarrow> BookingRecord booking_action" where
  "createOrExplainDuplicate env booking event db =
    (case createWithEvent env booking event db of
       (Inl (DuplicateQuoteBooking _), db') \<Rightarrow> (Inl (RequestRefused AlreadyRequested), db')
     | (Inl e, db') \<Rightarrow> (Inl (Store e), db')
     | (Inr b, db') \<Rightarrow> (Inr b, db'))"

definition requestDeadline :: "int \<Rightarrow> int \<Rightarrow> int" where
  "requestDeadline now hours = now + hours * 3600000"

definition readBack :: "string \<Rightarrow> string \<Rightarrow> BookingWithEvents booking_action" where
  "readBack i user = await (ask (findForParty i user)) (\<lambda>found.
     case found of None \<Rightarrow> throw Vanished | Some b \<Rightarrow> done_with b)"

definition booking_of_quote :: "QuoteRecord \<Rightarrow> QuotableListing \<Rightarrow> string \<Rightarrow> int \<Rightarrow> BookingState \<Rightarrow> NewBooking" where
  "booking_of_quote q l renter now state =
    \<lparr>listingId = quoteListingId q, renterId = renter, bookingState = state, startAt = quoteStartAt q,
     endAt = quoteEndAt q, timeZone = quoteTimeZone q, quoteId = quoteRecordId q,
     categoryVersionId = quoteVersionId q, bookedItemCharge = quotedItemCharge q,
     bookedRenterFee = quotedRenterFee q, bookedTotal = quotedTotal q, itemTitle = quotableTitle l,
     categoryName = quotableCategoryName l, appliedExcess = quoteAppliedExcess q,
     requestExpiresAt = requestDeadline now (currentRequestExpiryHours l)\<rparr>"

definition request ::
  "StoreEnv \<Rightarrow> int \<Rightarrow> (string \<Rightarrow> QuotableListing option) \<Rightarrow> string \<Rightarrow> string \<Rightarrow> BookingWithEvents option booking_action" where
  "request env now findQuotable renter quoteId' =
    await (ask (findForRenter_quote quoteId' renter)) (\<lambda>found.
    case found of
      None \<Rightarrow> done_with None
    | Some q \<Rightarrow>
        if quoteExpiresAt q \<le> now then refuse QuoteExpired
        else (case findQuotable (quoteListingId q) of
            None \<Rightarrow> refuse NoLongerListed
          | Some l \<Rightarrow>
              if quotableOwnerId l = renter then refuse OwnListing
              else
                await (reading (reasonUnavailable (quoteListingId q) (quoteStartAt q) (quoteEndAt q))) (\<lambda>unavailable.
                case unavailable of
                  Some r \<Rightarrow> refuse (DatesTaken r)
                | None \<Rightarrow>
                    await (check_transition DRAFT REQUESTED) (\<lambda>state.
                    await (createOrExplainDuplicate env (booking_of_quote q l renter now state)
                      \<lparr>eventType = Requested, fromState = None, toState = Some state, actorId = Some renter, metadata = []\<rparr>) (\<lambda>created.
                    await (readBack (bookingId created) renter) (\<lambda>b. done_with (Some b)))))))"

definition accept_request :: "StoreEnv \<Rightarrow> int \<Rightarrow> string \<Rightarrow> string \<Rightarrow> BookingWithEvents option booking_action" where
  "accept_request env now i owner =
    await (ask (findForParty i owner)) (\<lambda>existing.
    case existing of
      None \<Rightarrow> done_with None
    | Some e \<Rightarrow>
        let booking = foundBooking e in
        if bookingState booking \<noteq> REQUESTED then refuse NotWaiting
        else if requestExpiresAt booking \<le> now then refuse RequestExpired
        else
          await (reading (reasonUnavailable (listingId booking) (startAt booking) (endAt booking))) (\<lambda>unavailable.
          case unavailable of
            Some r \<Rightarrow> refuse (OwnerDatesTaken r)
          | None \<Rightarrow>
              await (check_transition REQUESTED ACCEPTED) (\<lambda>_.
              await (in_store (accept env i owner now)) (\<lambda>result.
              case result of
                None \<Rightarrow> done_with None
              | Some _ \<Rightarrow> await (readBack i owner) (\<lambda>b. done_with (Some b))))))"

definition decline_request :: "StoreEnv \<Rightarrow> int \<Rightarrow> string \<Rightarrow> string \<Rightarrow> BookingWithEvents option booking_action" where
  "decline_request env now i owner =
    await (ask (findForParty i owner)) (\<lambda>existing.
    case existing of
      None \<Rightarrow> done_with None
    | Some e \<Rightarrow>
        if bookingState (foundBooking e) \<noteq> REQUESTED then refuse NotWaiting
        else
          await (check_transition REQUESTED DECLINED) (\<lambda>_.
          await (in_store (decline env i owner now)) (\<lambda>declined.
          case declined of
            None \<Rightarrow> done_with None
          | Some _ \<Rightarrow> await (readBack i owner) (\<lambda>b. done_with (Some b)))))"

subsection \<open>Paying and securing\<close>

text \<open>
  These two act on both databases: the booking tables and the payment tables. \<open>on_bookings\<close> and
  \<open>on_payments\<close> run an action on one of them.
\<close>

type_synonym 'a platform_action = "(BookingDb \<times> PayDb, ServiceError, 'a) action"

definition on_bookings :: "'a booking_action \<Rightarrow> 'a platform_action" where
  "on_bookings m s = (case m (fst s) of (r, db) \<Rightarrow> (r, (db, snd s)))"

definition on_payments :: "'a pay \<Rightarrow> 'a platform_action" where
  "on_payments m s = (case m (snd s) of (r, db) \<Rightarrow> (map_sum Pay id r, (fst s, db)))"

definition movePayable :: "StoreEnv \<Rightarrow> BookingState \<Rightarrow> string \<Rightarrow> string \<Rightarrow> bool booking_action" where
  "movePayable env from i renter =
    (if from = AWAITING_PAYMENT then done_with True
     else
       await (check_transition from AWAITING_PAYMENT) (\<lambda>_.
       await (in_store (advance env i from AWAITING_PAYMENT (Some renter))) (\<lambda>moved. done_with (moved \<noteq> None))))"

definition settle_booking :: "StoreEnv \<Rightarrow> string \<Rightarrow> string \<Rightarrow> PaymentAttemptStatus \<Rightarrow> unit booking_action" where
  "settle_booking env i renter status =
    (if status = Processing \<or> status = PendingPayerAction then done_with ()
     else
       let to = (if status = Succeeded then RESERVED else PAYMENT_FAILED) in
       await (check_transition AWAITING_PAYMENT to) (\<lambda>_.
       await (in_store (advance env i AWAITING_PAYMENT to (Some renter))) (\<lambda>_. done_with ())))"

definition hire_instruction :: "BookingRecord \<Rightarrow> string \<Rightarrow> string \<Rightarrow> HirePaymentInstruction" where
  "hire_instruction booking i ownerId =
    \<lparr>payBookingId = i, payOwnerId = ownerId,
     payCharge = \<lparr>chargeItem = bookedItemCharge booking, chargeFee = bookedRenterFee booking, chargeTotal = bookedTotal booking\<rparr>,
     payVersionId = categoryVersionId booking, payItemTitle = itemTitle booking\<rparr>"

record BookingPayment =
  paidBooking :: BookingWithEvents
  paymentResult :: HireChargeResult

definition pay ::
  "StoreEnv \<Rightarrow> StoreEnv \<Rightarrow> bool \<Rightarrow> (string \<Rightarrow> string option) \<Rightarrow> (HirePaymentInstruction \<Rightarrow> HireChargeResult pay)
    \<Rightarrow> string \<Rightarrow> string \<Rightarrow> BookingPayment option platform_action" where
  "pay env env2 enabled ownerOf charge i renter =
    (if \<not> enabled then on_bookings (refuse PaymentNotEnabled)
     else
       await (on_bookings (ask (findForParty i renter))) (\<lambda>existing.
       case existing of
         None \<Rightarrow> done_with None
       | Some e \<Rightarrow>
           let booking = foundBooking e in
           if renterId booking \<noteq> renter then done_with None
           else if bookingState booking \<notin> set PAYABLE_STATES then on_bookings (refuse (Unpayable (bookingState booking)))
           else (case ownerOf (listingId booking) of
               None \<Rightarrow> on_bookings (refuse ItemGone)
             | Some ownerId \<Rightarrow>
                 await (on_bookings (movePayable env (bookingState booking) i renter)) (\<lambda>awaiting.
                 if \<not> awaiting then on_bookings (refuse ChangedWhilePaying)
                 else
                   await (on_payments (charge (hire_instruction booking i ownerId))) (\<lambda>result.
                   await (on_bookings (settle_booking env2 i renter (chargeStatus result))) (\<lambda>_.
                   await (on_bookings (readBack i renter)) (\<lambda>b.
                     done_with (Some \<lparr>paidBooking = b, paymentResult = result\<rparr>))))))))"

definition secureCollection ::
  "StoreEnv \<Rightarrow> bool \<Rightarrow> (string \<Rightarrow> string option) \<Rightarrow> (DamageSecurityInstruction \<Rightarrow> CollectionSecurityResult pay)
    \<Rightarrow> string \<Rightarrow> string \<Rightarrow> CollectionSecurityResult option platform_action" where
  "secureCollection env enabled ownerOf hold i renter =
    (if \<not> enabled then on_bookings (refuse PaymentNotEnabled)
     else
       await (on_bookings (ask (findForParty i renter))) (\<lambda>existing.
       case existing of
         None \<Rightarrow> done_with None
       | Some e \<Rightarrow>
           let booking = foundBooking e in
           if renterId booking \<noteq> renter then done_with None
           else if bookingState booking \<noteq> READY_FOR_COLLECTION then on_bookings (refuse NotAtCollection)
           else (case ownerOf (listingId booking) of
               None \<Rightarrow> on_bookings (refuse ItemGone)
             | Some ownerId \<Rightarrow>
                 await (on_payments (hold \<lparr>holdBookingId = i, holdOwnerId = ownerId, holdVersionId = categoryVersionId booking,
                   holdExcess = map_option excessAmount (appliedExcess booking), holdItemTitle = itemTitle booking\<rparr>)) (\<lambda>result.
                 await (if securityStatus result = SecurityFailed
                        then await (on_bookings (check_transition READY_FOR_COLLECTION SECURITY_FAILED)) (\<lambda>_.
                             await (on_bookings (in_store (advance env i READY_FOR_COLLECTION SECURITY_FAILED None))) (\<lambda>_. done_with ()))
                        else done_with ()) (\<lambda>_.
                   done_with (Some result))))))"

subsection \<open>Lists, the detail and the sweep\<close>

definition DEFAULT_BOOKING_LIST_LIMIT :: int where "DEFAULT_BOOKING_LIST_LIMIT = 50"
definition MAX_BOOKING_LIST_LIMIT :: int where "MAX_BOOKING_LIST_LIMIT = 200"

definition boundedBookingLimit :: "number \<Rightarrow> nat" where
  "boundedBookingLimit limit = nat (boundedLimit limit \<lparr>fallback = DEFAULT_BOOKING_LIST_LIMIT, max_limit = MAX_BOOKING_LIST_LIMIT\<rparr>)"

definition listForRenter :: "string \<Rightarrow> number \<Rightarrow> BookingDb \<Rightarrow> StoreError + BookingRecord Page" where
  "listForRenter renter limit db =
    rbind (findForRenter_booking renter (probe (boundedBookingLimit limit)) db) (\<lambda>rows.
      Inr (fitTo rows (boundedBookingLimit limit)))"

definition listForOwner :: "string \<Rightarrow> number \<Rightarrow> BookingDb \<Rightarrow> StoreError + BookingRecord Page" where
  "listForOwner owner limit db =
    rbind (findForOwner owner (probe (boundedBookingLimit limit)) db) (\<lambda>rows.
      Inr (fitTo rows (boundedBookingLimit limit)))"

datatype Viewer = RenterView | OwnerView

definition find_booking ::
  "bool \<Rightarrow> bool \<Rightarrow> string \<Rightarrow> string \<Rightarrow> BookingDb \<Rightarrow> StoreError + (BookingWithEvents \<times> Viewer \<times> BookingPayability) option" where
  "find_booking isSuspended paymentEnabled i user db =
    rbind (findForParty i user db) (\<lambda>found.
      case found of
        None \<Rightarrow> Inr None
      | Some b \<Rightarrow>
          let isRenter = (renterId (foundBooking b) = user) in
          Inr (Some (b, (if isRenter then RenterView else OwnerView),
                payabilityOf (bookingState (foundBooking b)) isRenter isSuspended paymentEnabled)))"

definition EXPIRY_BATCH_LIMIT :: nat where "EXPIRY_BATCH_LIMIT = 500"

definition sweep :: "(BookingDb \<Rightarrow> BookingDb) \<Rightarrow> StoreEnv \<Rightarrow> int \<Rightarrow> ExpirySweepResult booking_action" where
  "sweep race env now =
    await (check_transition REQUESTED EXPIRED) (\<lambda>_. in_store (expireRequests race env now EXPIRY_BATCH_LIMIT))"

subsection \<open>The owner's calendar\<close>

definition MAX_BLOCK_DAYS :: int where "MAX_BLOCK_DAYS = 366"
definition MAX_BLOCK_HORIZON_DAYS :: int where "MAX_BLOCK_HORIZON_DAYS = 730"

record AvailabilityBlockRequest =
  blockStartDate :: string
  blockEndDate :: string
  blockReason :: "string option"

definition refuseUnacceptablePeriod ::
  "Calendar \<Rightarrow> int \<Rightarrow> AvailabilityBlockRequest \<Rightarrow> int \<Rightarrow> int \<Rightarrow> RefusalReason option" where
  "refuseUnacceptablePeriod cal now req startAt' endAt' =
    (let today = toLocalDateString cal now in
     if blockEndDate req < today then Some BlockInPast
     else if addLocalDays cal today MAX_BLOCK_HORIZON_DAYS < blockStartDate req then Some BlockTooFar
     else if MAX_BLOCK_DAYS < rentalDayCount cal startAt' endAt' PLATFORM_TIME_ZONE then Some BlockTooLong
     else None)"

definition isOwnedBy :: "string \<Rightarrow> string \<Rightarrow> BookingDb \<Rightarrow> bool" where
  "isOwnedBy listing owner db \<longleftrightarrow> listing_owner db listing = Some owner"

definition block_dates ::
  "Calendar \<Rightarrow> string \<Rightarrow> int \<Rightarrow> string \<Rightarrow> string \<Rightarrow> AvailabilityBlockRequest \<Rightarrow> BlockRow option booking_action" where
  "block_dates cal newId now listing owner req =
    await (reading (isOwnedBy listing owner)) (\<lambda>owned.
    if \<not> owned then done_with None
    else
      let (startAt', endAt') = periodFromLocalDates cal (blockStartDate req) (blockEndDate req) in
      (case refuseUnacceptablePeriod cal now req startAt' endAt' of
         Some r \<Rightarrow> refuse r
       | None \<Rightarrow> await (in_store (block newId listing startAt' endAt' (blockReason req))) (\<lambda>b. done_with (Some b))))"

definition unblock_dates :: "string \<Rightarrow> string \<Rightarrow> string \<Rightarrow> bool booking_action" where
  "unblock_dates listing owner blockId =
    await (reading (isOwnedBy listing owner)) (\<lambda>owned.
    if \<not> owned then done_with False else in_store (unblock blockId listing))"

end
