(* ===== verification/Booking_Safety.thy ===== *)
theory Booking_Safety
  imports Booking_Service
begin

section \<open>What no sequence of booking calls can do\<close>

text \<open>
  The invariant of the booking tables. \<open>book_step\<close> has one rule per committed change: a new request with
  its first event, one booking moved along the transition table with the event that records it, and
  changes to the quotes and blocks. Every writing operation of the store is shown to be a sequence of
  these steps, so what holds of the steps holds whatever the order and the interleaving of calls.
\<close>

subsection \<open>Histories\<close>

fun replays :: "BookingState \<Rightarrow> BookingEventRow list \<Rightarrow> BookingState option" where
  "replays s [] = Some s"
| "replays s (e # es) =
    (case ev_toState e of
       None \<Rightarrow> None
     | Some t \<Rightarrow> if ev_fromState e = Some s \<and> canTransition s t then replays t es else None)"

definition history_ok :: "BookingEventRow list \<Rightarrow> BookingState \<Rightarrow> bool" where
  "history_ok es s \<longleftrightarrow> (case es of [] \<Rightarrow> False
     | e # rest \<Rightarrow> ev_type e = Requested \<and> ev_fromState e = None \<and> ev_toState e = Some REQUESTED \<and> replays REQUESTED rest = Some s)"

lemma replays_append:
  "replays s (es @ [e]) = (case replays s es of None \<Rightarrow> None | Some u \<Rightarrow> replays u [e])"
  by (induction es arbitrary: s) (auto split: option.splits)

lemma history_append:
  assumes "history_ok es s" "ev_fromState e = Some s" "ev_toState e = Some t" "canTransition s t"
  shows "history_ok (es @ [e]) t"
  using assms by (auto simp: history_ok_def replays_append split: list.splits)

lemma replays_moves: "replays s es = Some t \<Longrightarrow> moves\<^sup>*\<^sup>* s t"
proof (induction es arbitrary: s)
  case (Cons e es)
  then obtain u where "canTransition s u" "replays u es = Some t" by (auto split: option.splits if_splits)
  with Cons.IH show ?case using moves.move converse_rtranclp_into_rtranclp by metis
qed simp

subsection \<open>The steps\<close>

inductive book_step :: "BookingDb \<Rightarrow> BookingDb \<Rightarrow> bool" where
  create_step: "insert_booking r db = Inr db1 \<Longrightarrow> bk_state r = REQUESTED \<Longrightarrow> ev_bookingId e = bk_id r \<Longrightarrow>
    ev_type e = Requested \<Longrightarrow> ev_fromState e = None \<Longrightarrow> ev_toState e = Some REQUESTED \<Longrightarrow>
    book_step db (add_events [e] db1)"
| move_step: "r \<in> set (booking_rows db) \<Longrightarrow> canTransition (bk_state r) t \<Longrightarrow> set_state now (bk_id r) t db = Inr db1 \<Longrightarrow>
    ev_bookingId e = bk_id r \<Longrightarrow> ev_fromState e = Some (bk_state r) \<Longrightarrow> ev_toState e = Some t \<Longrightarrow>
    book_step db (add_events [e] db1)"
| quote_step: "quote_row_failure db q = None \<Longrightarrow> book_step db (db\<lparr>quote_rows := quote_rows db @ [q]\<rparr>)"
| erase_step: "(\<forall>q \<in> set (quote_rows db). doomed q \<longrightarrow> unbooked db q) \<Longrightarrow>
    book_step db (db\<lparr>quote_rows := filter (\<lambda>q. \<not> doomed q) (quote_rows db)\<rparr>)"
| block_step: "book_step db (db\<lparr>block_rows := bs\<rparr>)"

inductive_cases book_stepE: "book_step db db'"

definition row_ok :: "BookingRow \<Rightarrow> bool" where
  "row_ok r \<longleftrightarrow> bk_startAt r < bk_endAt r \<and> int4 (bk_itemChargeAmount r) \<and> int4 (bk_renterFeeAmount r) \<and>
     int4 (bk_totalAmount r) \<and> 0 \<le> bk_itemChargeAmount r \<and> 0 \<le> bk_renterFeeAmount r \<and>
     bk_totalAmount r = bk_itemChargeAmount r + bk_renterFeeAmount r \<and>
     pred_option int4 (bk_damageExcessAmount r) \<and> excess_columns_ok (bk_damageExcessAmount r) (bk_damageExcessBoundBy r)"

definition book_inv :: "BookingDb \<Rightarrow> bool" where
  "book_inv db \<longleftrightarrow>
     distinct (map bk_id (booking_rows db)) \<and> distinct (map bk_quoteId (booking_rows db)) \<and>
     (\<forall>a \<in> set (booking_rows db). \<forall>b \<in> set (booking_rows db). bk_id a \<noteq> bk_id b \<longrightarrow> \<not> clash a b) \<and>
     (\<forall>r \<in> set (booking_rows db). row_ok r) \<and>
     (\<forall>r \<in> set (booking_rows db). history_ok (events_of (bk_id r) db) (bk_state r)) \<and>
     (\<forall>e \<in> set (event_rows db). ev_bookingId e \<in> bk_id ` set (booking_rows db)) \<and>
     (\<forall>r \<in> set (booking_rows db). bk_quoteId r \<in> qt_id ` set (quote_rows db))"

lemma move_row_simps [simp]: "bk_id (move_row now s r) = bk_id r" "bk_quoteId (move_row now s r) = bk_quoteId r"
  "bk_state (move_row now s r) = s" "bk_listingId (move_row now s r) = bk_listingId r"
  "bk_startAt (move_row now s r) = bk_startAt r" "bk_endAt (move_row now s r) = bk_endAt r"
  "bk_renterId (move_row now s r) = bk_renterId r" "bk_requestExpiresAt (move_row now s r) = bk_requestExpiresAt r"
  by (simp_all add: move_row_def)

lemma row_ok_move [simp]: "row_ok (move_row now s r) = row_ok r"
  by (simp add: row_ok_def move_row_def)

lemma overlaps_sym: "overlaps a b c d \<longleftrightarrow> overlaps c d a b"
  by (auto simp: overlaps_def)

lemma clash_sym: "clash a b \<longleftrightarrow> clash b a"
  by (auto simp: clash_def overlaps_sym)

lemma events_of_append: "events_of i (add_events es db) = events_of i db @ filter (\<lambda>e. ev_bookingId e = i) es"
  by (simp add: events_of_def add_events_def)

lemma add_events_rows [simp]: "booking_rows (add_events es db) = booking_rows db" "quote_rows (add_events es db) = quote_rows db"
  "block_rows (add_events es db) = block_rows db" "listing_owner (add_events es db) = listing_owner db"
  "event_rows (add_events es db) = event_rows db @ es"
  by (simp_all add: add_events_def)

lemma row_failure_None:
  assumes "row_failure db r = None"
  shows "row_ok r" "bk_id r \<notin> bk_id ` set (booking_rows db)" "bk_quoteId r \<notin> bk_quoteId ` set (booking_rows db)"
    "\<forall>o' \<in> set (booking_rows db). \<not> clash r o'" "bk_quoteId r \<in> qt_id ` set (quote_rows db)"
  using assms by (auto simp: row_failure_def row_ok_def list_ex_iff split: if_splits)

lemma create_step_inv:
  assumes inv: "book_inv db" and ins: "insert_booking r db = Inr db1" and st: "bk_state r = REQUESTED"
    and e: "ev_bookingId e = bk_id r" "ev_type e = Requested" "ev_fromState e = None" "ev_toState e = Some REQUESTED"
  shows "book_inv (add_events [e] db1)"
proof -
  have db1: "db1 = db\<lparr>booking_rows := booking_rows db @ [r]\<rparr>" and none: "row_failure db r = None"
    using ins by (auto simp: insert_booking_def split: option.splits)
  note f = row_failure_None [OF none]
  have ev: "events_of i db1 = events_of i db" for i by (simp add: events_of_def db1)
  have "events_of (bk_id r) db = []"
    using inv f(2) unfolding book_inv_def events_of_def filter_empty_conv by metis
  then have "history_ok (events_of (bk_id r) (add_events [e] db1)) (bk_state r)"
    using e st by (simp add: events_of_append ev history_ok_def)
  moreover have "history_ok (events_of (bk_id x) (add_events [e] db1)) (bk_state x)" if "x \<in> set (booking_rows db)" for x
  proof -
    have "bk_id x \<noteq> bk_id r" using that f(2) by (metis image_eqI)
    then show ?thesis using that inv e(1) by (simp add: events_of_append ev book_inv_def)
  qed
  moreover have "\<forall>o' \<in> set (booking_rows db). \<not> clash r o' \<and> \<not> clash o' r" using f(4) clash_sym by blast
  ultimately show ?thesis
    using inv f(1,2,3,5) e(1) unfolding book_inv_def db1 by auto
qed

lemma set_state_Inr:
  assumes "set_state now i t db = Inr db1"
  shows "db1 = db\<lparr>booking_rows := map (\<lambda>r. if bk_id r = i then move_row now t r else r) (booking_rows db)\<rparr>"
    and "\<And>r o'. r \<in> set (booking_rows db) \<Longrightarrow> bk_id r = i \<Longrightarrow> o' \<in> set (booking_rows db) \<Longrightarrow> bk_id o' \<noteq> i \<Longrightarrow> \<not> clash (move_row now t r) o'"
  using assms by (auto simp: set_state_def list_ex_iff split: if_splits)

lemma moved_rows:
  "map bk_id (map (\<lambda>r. if bk_id r = i then move_row now t r else r) rows) = map bk_id rows"
  "map bk_quoteId (map (\<lambda>r. if bk_id r = i then move_row now t r else r) rows) = map bk_quoteId rows"
  by (induction rows) auto

lemma moved_ids: "bk_id ` set (map (\<lambda>r. if bk_id r = i then move_row now t r else r) rows) = bk_id ` set rows"
  by (metis list.set_map moved_rows(1))

lemma move_step_inv:
  assumes inv: "book_inv db" and r: "r \<in> set (booking_rows db)" "canTransition (bk_state r) t"
    and s: "set_state now (bk_id r) t db = Inr db1"
    and e: "ev_bookingId e = bk_id r" "ev_fromState e = Some (bk_state r)" "ev_toState e = Some t"
  shows "book_inv (add_events [e] db1)"
proof -
  define u where "u = (\<lambda>x. if bk_id x = bk_id r then move_row now t x else x)"
  have db1: "db1 = db\<lparr>booking_rows := map u (booking_rows db)\<rparr>"
    using set_state_Inr(1) [OF s] by (simp add: u_def)
  have only: "x = r" if "x \<in> set (booking_rows db)" "bk_id x = bk_id r" for x
    using that r(1) inv distinct_map_unique [of bk_id "booking_rows db" x r] by (simp add: book_inv_def)
  have noclash: "\<not> clash (u a) (u b)" if ab: "a \<in> set (booking_rows db)" "b \<in> set (booking_rows db)" "bk_id a \<noteq> bk_id b" for a b
    using ab inv set_state_Inr(2) [OF s, of a b] set_state_Inr(2) [OF s, of b a] clash_sym [of "u a" "u b"] clash_sym [of b a]
    by (auto simp: u_def book_inv_def clash_sym)
  have ev: "events_of i db1 = events_of i db" for i by (simp add: events_of_def db1)
  have hist: "history_ok (events_of (bk_id x) (add_events [e] db1)) (bk_state (u x))" if x: "x \<in> set (booking_rows db)" for x
  proof (cases "bk_id x = bk_id r")
    case True
    then have "x = r" using only x by simp
    have "history_ok (events_of (bk_id r) db) (bk_state r)" using inv r(1) by (simp add: book_inv_def)
    from history_append [OF this e(2,3) r(2)] show ?thesis
      using \<open>x = r\<close> e(1) by (simp add: events_of_append ev u_def)
  next
    case False
    then show ?thesis using inv x e(1) by (simp add: events_of_append ev u_def book_inv_def)
  qed
  have u: "bk_id (u x) = bk_id x" "bk_quoteId (u x) = bk_quoteId x" "row_ok (u x) = row_ok x" for x by (simp_all add: u_def)
  have o: "bk_id \<circ> u = bk_id" "bk_quoteId \<circ> u = bk_quoteId" by (auto simp: u)
  show ?thesis
    using inv noclash hist r(1) e(1) unfolding book_inv_def db1 by (auto simp: u o image_image)
qed

lemma book_step_inv: "book_step db db' \<Longrightarrow> book_inv db \<Longrightarrow> book_inv db'"
proof (erule book_stepE)
  fix q
  assume "book_inv db" "db' = db\<lparr>quote_rows := quote_rows db @ [q]\<rparr>"
  then show "book_inv db'" by (auto simp: book_inv_def events_of_def)
next
  fix doomed
  assume "book_inv db" "db' = db\<lparr>quote_rows := filter (\<lambda>q. \<not> doomed q) (quote_rows db)\<rparr>"
    "\<forall>q \<in> set (quote_rows db). doomed q \<longrightarrow> unbooked db q"
  then show "book_inv db'" by (fastforce simp: book_inv_def events_of_def unbooked_def image_iff)
next
  fix bs
  assume "book_inv db" "db' = db\<lparr>block_rows := bs\<rparr>"
  then show "book_inv db'" by (simp add: book_inv_def events_of_def)
qed (auto intro: create_step_inv move_step_inv)

lemma book_steps_inv: "book_step\<^sup>*\<^sup>* db db' \<Longrightarrow> book_inv db \<Longrightarrow> book_inv db'"
  by (induction rule: rtranclp_induct) (auto intro: book_step_inv)

definition empty_bookings :: "(string \<Rightarrow> string option) \<Rightarrow> BookingDb" where
  "empty_bookings owners = \<lparr>booking_rows = [], event_rows = [], quote_rows = [], block_rows = [], listing_owner = owners\<rparr>"

lemma empty_bookings_inv: "book_inv (empty_bookings owners)"
  by (simp add: book_inv_def empty_bookings_def)

subsection \<open>Moves that cannot be refused\<close>

lemma move_off_calendar:
  "\<not> occupiesCalendar t \<Longrightarrow> set_state now i t db =
    Inr (db\<lparr>booking_rows := map (\<lambda>r. if bk_id r = i then move_row now t r else r) (booking_rows db)\<rparr>)"
  by (auto simp: set_state_def list_ex_iff clash_def)

lemma legal_move_succeeds:
  assumes inv: "book_inv db" and r: "r \<in> set (booking_rows db)" "canTransition (bk_state r) t"
    and not_acceptance: "\<not> (bk_state r = REQUESTED \<and> t = ACCEPTED)"
  shows "set_state now (bk_id r) t db =
    Inr (db\<lparr>booking_rows := map (\<lambda>x. if bk_id x = bk_id r then move_row now t x else x) (booking_rows db)\<rparr>)"
proof (cases "occupiesCalendar t")
  case False
  then show ?thesis by (rule move_off_calendar)
next
  case True
  then have occ: "occupiesCalendar (bk_state r)" using calendar_entry [OF r(2)] not_acceptance by blast
  have "\<not> clash (move_row now t x) o'"
    if "x \<in> set (booking_rows db)" "bk_id x = bk_id r" "o' \<in> set (booking_rows db)" "bk_id o' \<noteq> bk_id r" for x o'
  proof -
    have "x = r" using that r(1) inv distinct_map_unique [of bk_id "booking_rows db" x r] by (simp add: book_inv_def)
    moreover have "\<not> clash r o'" using that r(1) inv by (auto simp: book_inv_def)
    ultimately show ?thesis using occ by (simp add: clash_def)
  qed
  then show ?thesis by (auto simp: set_state_def list_ex_iff)
qed

lemma toMoney_int4: "int4 a \<Longrightarrow> toMoney a c = Inr (pence a)"
  using money_safe [OF int4_safe] by (simp add: toMoney_def del: money.simps)

lemma toAppliedExcess_ok:
  "excess_columns_ok a b \<Longrightarrow> pred_option int4 a \<Longrightarrow> \<exists>e. toAppliedExcess a b c w = Inr e"
  using money_safe [OF int4_safe]
  by (cases a; cases b) (auto simp: toAppliedExcess_def excess_columns_ok_def asBound_def simp del: money.simps)

lemma toRecord_ok: "row_ok r \<Longrightarrow> \<exists>rec. toRecord r = Inr rec"
  using toAppliedExcess_ok [of "bk_damageExcessAmount r" "bk_damageExcessBoundBy r" "bk_currency r" "bk_id r"]
  by (auto simp: toRecord_def row_ok_def toMoney_int4)

lemma toRecord_fields:
  assumes "toRecord r = Inr rec"
  shows "bookingState rec = bk_state r" "listingId rec = bk_listingId r" "renterId rec = bk_renterId r" "startAt rec = bk_startAt r"
    "endAt rec = bk_endAt r" "bookingId rec = bk_id r" "requestExpiresAt rec = bk_requestExpiresAt r" "quoteId rec = bk_quoteId r"
  using assms by (auto simp: toRecord_def result_simps)

lemma toMoney_amount: "toMoney a c = Inr m \<Longrightarrow> m = pence a"
  by (auto simp: toMoney_def map_sum_Inr_iff Money_eq_iff split: if_splits)

lemma toRecord_money:
  assumes "toRecord r = Inr rec"
  shows "bookedItemCharge rec = pence (bk_itemChargeAmount r)" "bookedRenterFee rec = pence (bk_renterFeeAmount r)"
    "bookedTotal rec = pence (bk_totalAmount r)" "categoryVersionId rec = bk_categoryVersionId r"
  using assms toMoney_amount by (auto simp: toRecord_def rbind_Inr_iff)

subsection \<open>The operations of the store are sequences of steps\<close>

definition booked :: "BookingDb \<Rightarrow> BookingDb \<Rightarrow> bool" where
  "booked db db' \<longleftrightarrow> (book_inv db \<longrightarrow> book_step\<^sup>*\<^sup>* db db')"

lemma booked_refl: "reflp booked"
  by (simp add: reflp_def booked_def)

lemma booked_trans: "transp booked"
  by (rule transpI) (meson booked_def book_steps_inv rtranclp_trans)

lemma set_states_add_events:
  "set_states now is t (add_events es db) = map_sum id (add_events es) (set_states now is t db)"
proof (induction "is" arbitrary: db)
  case (Cons i "is")
  have "set_state now i t (add_events es db) = map_sum id (add_events es) (set_state now i t db)"
    by (auto simp: set_state_def add_events_def)
  with Cons show ?case by (cases "set_state now i t db") auto
qed simp

lemma set_states_moves:
  assumes "book_inv db" "distinct is" "\<forall>i \<in> set is. \<exists>r \<in> set (booking_rows db). bk_id r = i \<and> bk_state r = s"
    "canTransition s t" "set_states now is t db = Inr db'"
    "\<And>i. ev_bookingId (f i) = i \<and> ev_fromState (f i) = Some s \<and> ev_toState (f i) = Some t"
  shows "book_step\<^sup>*\<^sup>* db (add_events (map f is) db')"
  using assms(1-3,5)
proof (induction "is" arbitrary: db db')
  case Nil
  then show ?case by (simp add: add_events_def)
next
  case (Cons i "is")
  obtain r where r: "r \<in> set (booking_rows db)" "bk_id r = i" "bk_state r = s" using Cons.prems(3) by auto
  obtain db1 where d1: "set_state now i t db = Inr db1" "set_states now is t db1 = Inr db'"
    using Cons.prems(4) by (auto simp: result_simps)
  let ?db1 = "add_events [f i] db1"
  have st: "book_step db ?db1"
    by (rule book_step.move_step [of r _ t now]) (use r assms(4,6) d1 in auto)
  have rows: "booking_rows ?db1 = map (\<lambda>x. if bk_id x = i then move_row now t x else x) (booking_rows db)"
    using set_state_Inr(1) [OF d1(1)] by simp
  have "\<forall>j \<in> set is. \<exists>r \<in> set (booking_rows ?db1). bk_id r = j \<and> bk_state r = s"
  proof
    fix j
    assume j: "j \<in> set is"
    then obtain x where "x \<in> set (booking_rows db)" "bk_id x = j" "bk_state x = s" using Cons.prems(3) by auto
    moreover from j have "j \<noteq> i" using Cons.prems(2) by auto
    ultimately show "\<exists>r \<in> set (booking_rows ?db1). bk_id r = j \<and> bk_state r = s"
      unfolding rows by (intro bexI [of _ x]) auto
  qed
  moreover have "set_states now is t ?db1 = Inr (add_events [f i] db')" using d1(2) by (simp add: set_states_add_events)
  ultimately have "book_step\<^sup>*\<^sup>* ?db1 (add_events (map f is) (add_events [f i] db'))"
    using Cons.IH [OF book_step_inv [OF st Cons.prems(1)]] Cons.prems(2) by simp
  moreover have "add_events (map f is) (add_events [f i] db') = add_events (map f (i # is)) db'" by (simp add: add_events_def)
  ultimately show ?case using st by (metis converse_rtranclp_into_rtranclp)
qed

lemma retrying_Inr: "retrying translate env run db n = Inr x \<Longrightarrow> run db = Inr x"
proof (induction translate env run db n rule: retrying.induct)
  case (1 translate env run db attempt)
  show ?case
  proof (cases "case faults env attempt of Some f \<Rightarrow> Inl (Db f) | None \<Rightarrow> run db")
    case (Inr y)
    then show ?thesis using "1.prems" by (auto simp: retrying.simps [of translate env run db attempt] split: option.splits)
  next
    case (Inl e)
    then obtain f where "e = Db f" "translate f = None" "isDeadlock f \<and> attempt < DEADLOCK_ATTEMPTS"
      "retrying translate env run db (attempt + 1) = Inr x"
      using "1.prems" by (auto simp: retrying.simps [of translate env run db attempt] split: TxError.splits option.splits if_splits)
    with Inl "1.IH" show ?thesis by blast
  qed
qed

lemma write_booked:
  assumes "bookingState b = REQUESTED" "eventType e = Requested" "fromState e = None" "toState e = Some REQUESTED"
  shows "stable booked (createWithEvent env b e)"
proof -
  have "booked db db'" if w: "write_tx env b (Some e) db = Inr (db', row)" for db db' row
  proof -
    obtain db1 where "insert_booking (new_row env b) db = Inr db1" "db' = add_events [event_row env (newRowId env) e] db1"
      using w by (auto simp: write_tx_def result_simps)
    moreover have "bk_state (new_row env b) = REQUESTED" "bk_id (new_row env b) = newRowId env"
      using assms(1) by (simp_all add: new_row_def damageExcessColumns_def)
    ultimately have "book_step db db'"
      using book_step.create_step [of "new_row env b" db db1 "event_row env (newRowId env) e"] assms by (simp add: event_row_def)
    then show ?thesis by (auto simp: booked_def)
  qed
  then show ?thesis
    unfolding createWithEvent_def write_booking_def
    by (intro stable_await [OF booked_trans] stable_atomically [OF booked_refl] stable_simple [OF booked_refl])
      (auto dest!: retrying_Inr)
qed

lemma owned_booking_mem: "owned_booking i owner db = Some b \<Longrightarrow> b \<in> set (booking_rows db) \<and> bk_id b = i"
  by (auto simp: owned_booking_def dest: find_Some_mem)

lemma accept_tx_booked:
  assumes inv: "book_inv db" and run: "accept_tx env i owner now db = Inr (db', Some res)"
  shows "book_step\<^sup>*\<^sup>* db db'"
proof -
  obtain b where b: "owned_booking i owner db = Some b" "bk_state b = REQUESTED"
    using run by (auto simp: accept_tx_def split: option.splits if_splits)
  note mem = owned_booking_mem [OF b(1)]
  define e where "e = event_row env i (state_change REQUESTED ACCEPTED (Some owner))"
  obtain db1 db3 where d: "set_state (dbNow env) i ACCEPTED db = Inr db1"
    "set_states (dbNow env) (conflicting_requests b (add_events [e] db1)) DECLINED (add_events [e] db1) = Inr db3"
    "db' = add_events (map (\<lambda>j. event_row env j (auto_decline i)) (conflicting_requests b (add_events [e] db1))) db3"
    using run b by (auto simp: accept_tx_def result_simps Let_def e_def split: if_splits)
  have st: "book_step db (add_events [e] db1)"
    by (rule book_step.move_step [of b _ ACCEPTED "dbNow env"])
      (use mem b d in \<open>auto simp: e_def event_row_def state_change_def canTransition_def\<close>)
  have inv1: "book_inv (add_events [e] db1)" using book_step_inv [OF st inv] .
  have "book_step\<^sup>*\<^sup>* (add_events [e] db1) db'"
    unfolding d(3)
  proof (rule set_states_moves [OF inv1 _ _ _ d(2)])
    have "distinct (map bk_id (booking_rows (add_events [e] db1)))" using inv1 by (simp add: book_inv_def)
    then show "distinct (conflicting_requests b (add_events [e] db1))"
      by (simp add: conflicting_requests_def distinct_map_filter)
  qed (auto simp: conflicting_requests_def event_row_def auto_decline_def canTransition_def)
  with st show ?thesis by (metis converse_rtranclp_into_rtranclp)
qed

lemma accept_booked: "stable booked (accept env i owner now)"
  unfolding accept_def
proof (rule stable_atomically [OF booked_refl])
  fix db db' res
  assume "retrying (\<lambda>f. if isOverlapViolation f then Some (OverlappingBooking i) else None) env (accept_tx env i owner now) db 1 = Inr (db', res)"
  then have "accept_tx env i owner now db = Inr (db', res)" by (rule retrying_Inr)
  then show "booked db db'"
    using accept_tx_booked [of db env i owner now db'] by (cases res) (auto simp: booked_def accept_tx_def split: option.splits if_splits
        simp: result_simps Let_def)
qed

lemma single_move_booked:
  assumes "r \<in> set (booking_rows db)" "bk_id r = i" "canTransition (bk_state r) t" "set_state now i t db = Inr db1"
  shows "booked db (add_events [event_row env i (state_change (bk_state r) t actor)] db1)"
  using book_step.move_step [of r db t now db1 "event_row env i (state_change (bk_state r) t actor)"] assms
  by (auto simp: booked_def event_row_def state_change_def)

lemma decline_booked: "stable booked (decline env i owner now)"
  unfolding decline_def
proof (rule stable_atomically [OF booked_refl], goal_cases)
  case (1 db db' res)
  show ?case
  proof (cases "owned_booking i owner db")
    case None
    then show ?thesis using 1 by (simp add: booked_def)
  next
    case (Some b)
    then obtain db1 where "bk_state b = REQUESTED" "set_state (dbNow env) i DECLINED db = Inr db1"
      "db' = add_events [event_row env i (state_change REQUESTED DECLINED (Some owner))] db1"
      using 1 by (auto simp: result_simps split: if_splits)
    then show ?thesis
      using single_move_booked [of b db i DECLINED "dbNow env" db1 env "Some owner"] owned_booking_mem [OF Some]
      by (simp add: canTransition_def)
  qed
qed

lemma advance_booked:
  assumes "canTransition from to"
  shows "stable booked (advance env i from to actor)"
  unfolding advance_def
proof (rule stable_atomically [OF booked_refl], goal_cases)
  case (1 db db' res)
  show ?case
  proof (cases "find (\<lambda>r. bk_id r = i \<and> bk_state r = from) (booking_rows db)")
    case None
    then show ?thesis using 1 by (simp add: booked_def)
  next
    case (Some b)
    then obtain db1 where "set_state (dbNow env) i to db = Inr db1" "db' = add_events [event_row env i (state_change from to actor)] db1"
      using 1 by (auto simp: result_simps)
    with single_move_booked [of b db i to "dbNow env" db1 env actor] find_Some_mem [OF Some] assms show ?thesis by auto
  qed
qed

lemma set_states_off_calendar:
  "\<not> occupiesCalendar t \<Longrightarrow> \<exists>db'. set_states now is t db = Inr db' \<and> event_rows db' = event_rows db \<and>
    quote_rows db' = quote_rows db \<and> block_rows db' = block_rows db \<and> listing_owner db' = listing_owner db \<and>
    booking_rows db' = map (\<lambda>r. if bk_id r \<in> set is then move_row now t r else r) (booking_rows db)"
proof (induction "is" arbitrary: db)
  case (Cons i "is")
  define db1 where "db1 = db\<lparr>booking_rows := map (\<lambda>r. if bk_id r = i then move_row now t r else r) (booking_rows db)\<rparr>"
  have s: "set_state now i t db = Inr db1" using move_off_calendar [OF Cons.prems] by (simp add: db1_def)
  obtain db' where d: "set_states now is t db1 = Inr db'" "event_rows db' = event_rows db1" "quote_rows db' = quote_rows db1"
    "block_rows db' = block_rows db1" "listing_owner db' = listing_owner db1"
    "booking_rows db' = map (\<lambda>r. if bk_id r \<in> set is then move_row now t r else r) (booking_rows db1)"
    using Cons.IH [OF Cons.prems] by blast
  have "map (\<lambda>r. if bk_id r \<in> set is then move_row now t r else r) (booking_rows db1)
      = map (\<lambda>r. if bk_id r \<in> set (i # is) then move_row now t r else r) (booking_rows db)"
    by (auto simp: db1_def move_row_def)
  with d s show ?case by (auto simp: db1_def)
qed simp

definition expiry_candidates :: "int \<Rightarrow> nat \<Rightarrow> BookingDb \<Rightarrow> string list" where
  "expiry_candidates now limit db = map bk_id (take limit (sort_key bk_requestExpiresAt (sort_key bk_id
     (filter (overdue now) (booking_rows db)))))"

definition expiry_hit :: "int \<Rightarrow> nat \<Rightarrow> BookingDb \<Rightarrow> BookingDb \<Rightarrow> BookingRow list" where
  "expiry_hit now limit db db1 = filter (\<lambda>r. bk_id r \<in> set (expiry_candidates now limit db) \<and> overdue now r) (booking_rows db1)"

lemma expireRequests_run:
  "\<exists>db2. expireRequests race env now limit db =
     (if expiry_candidates now limit db = [] then (Inr \<lparr>expired = [], sweepReachedLimit = False\<rparr>, db)
      else (Inr \<lparr>expired = map (\<lambda>r. (bk_id r, bk_renterId r, bk_listingId r)) (expiry_hit now limit db (race db)),
                 sweepReachedLimit = (length (expiry_candidates now limit db) = limit)\<rparr>,
            add_events (map (\<lambda>r. event_row env (bk_id r) (state_change REQUESTED EXPIRED None)) (expiry_hit now limit db (race db))) db2)) \<and>
   set_states (dbNow env) (map bk_id (expiry_hit now limit db (race db))) EXPIRED (race db) = Inr db2 \<and>
   booking_rows db2 = map (\<lambda>r. if bk_id r \<in> set (map bk_id (expiry_hit now limit db (race db))) then move_row (dbNow env) EXPIRED r else r)
     (booking_rows (race db))"
proof -
  have "\<not> occupiesCalendar EXPIRED" by (simp add: occupiesCalendar_def CALENDAR_OCCUPYING_STATES_def)
  from set_states_off_calendar [OF this, of "dbNow env" "map bk_id (expiry_hit now limit db (race db))" "race db"]
  show ?thesis
    by (auto simp: expireRequests_def atomically_def Let_def expiry_candidates_def [symmetric] expiry_hit_def [symmetric])
qed

lemma expireRequests_booked:
  assumes "\<And>db. booked db (race db)"
  shows "stable booked (expireRequests race env now limit)"
  unfolding stable_def booked_def
proof (intro allI impI)
  fix db
  assume inv: "book_inv db"
  let ?hit = "expiry_hit now limit db (race db)"
  obtain db2 where run: "expireRequests race env now limit db =
     (if expiry_candidates now limit db = [] then (Inr \<lparr>expired = [], sweepReachedLimit = False\<rparr>, db)
      else (Inr \<lparr>expired = map (\<lambda>r. (bk_id r, bk_renterId r, bk_listingId r)) ?hit,
                 sweepReachedLimit = (length (expiry_candidates now limit db) = limit)\<rparr>,
            add_events (map (\<lambda>r. event_row env (bk_id r) (state_change REQUESTED EXPIRED None)) ?hit) db2))"
    and s: "set_states (dbNow env) (map bk_id ?hit) EXPIRED (race db) = Inr db2"
    using expireRequests_run by blast
  have r: "book_step\<^sup>*\<^sup>* db (race db)" using assms [of db] inv by (simp add: booked_def)
  have inv1: "book_inv (race db)" using book_steps_inv [OF r inv] .
  have "book_step\<^sup>*\<^sup>* (race db) (add_events (map (\<lambda>i. event_row env i (state_change REQUESTED EXPIRED None)) (map bk_id ?hit)) db2)"
  proof (rule set_states_moves [OF inv1 _ _ _ s])
    show "distinct (map bk_id ?hit)" using inv1 by (simp add: expiry_hit_def book_inv_def distinct_map_filter)
  qed (auto simp: expiry_hit_def overdue_def event_row_def state_change_def canTransition_def)
  with r have "book_step\<^sup>*\<^sup>* db (add_events (map (\<lambda>r. event_row env (bk_id r) (state_change REQUESTED EXPIRED None)) ?hit) db2)"
    by (simp add: o_def)
  then show "book_step\<^sup>*\<^sup>* db (snd (expireRequests race env now limit db))" by (simp add: run)
qed

subsection \<open>The services are sequences of steps\<close>

lemma in_store_booked: "stable booked m \<Longrightarrow> stable booked (in_store m)"
  by (simp add: stable_def in_store_def)

lemma ask_booked: "stable booked (ask f)"
  using booked_refl by (simp add: stable_def ask_def reflp_def)

lemma refuse_booked: "stable booked (refuse r)"
  unfolding refuse_def by (rule stable_simple [OF booked_refl])

lemma check_transition_booked: "stable booked (check_transition s t)"
  unfolding check_transition_def by (rule stable_simple [OF booked_refl])

lemmas booked_intros = stable_await [OF booked_trans] stable_simple [OF booked_refl] in_store_booked ask_booked refuse_booked
  check_transition_booked stable_option stable_prod stable_if

lemma create_quote_booked: "stable booked (create_quote newId now q)"
  unfolding create_quote_def Let_def
  by (intro booked_intros stable_atomically [OF booked_refl])
    (auto simp: booked_def split: option.splits intro: book_step.quote_step r_into_rtranclp)

lemma block_booked: "stable booked (block newId l s e r)" "stable booked (unblock i l)"
  unfolding block_def unblock_def Let_def
  by (intro stable_atomically [OF booked_refl];
      auto simp: booked_def split: if_splits intro: book_step.block_step r_into_rtranclp)+

lemma eraseFor_booked: "stable booked (eraseFor renter)"
proof -
  have "book_step db (db\<lparr>quote_rows := filter (\<lambda>q. \<not> (qt_renterId q = renter \<and> unbooked db q)) (quote_rows db)\<rparr>)" for db
    by (rule book_step.erase_step) simp
  then show ?thesis
    unfolding eraseFor_def deleteUnbookedForRenter_def Let_def
    by (intro in_store_booked stable_atomically [OF booked_refl]) (auto simp: booked_def)
qed

lemma quote_booked: "stable booked (quote cal newId now fq listing renter req)"
  unfolding quote_def Let_def by (intro booked_intros create_quote_booked)

lemma readBack_booked: "stable booked (readBack i u)"
  unfolding readBack_def by (intro booked_intros)

lemma createOrExplain_booked:
  assumes "stable booked (createWithEvent env b e)"
  shows "stable booked (createOrExplainDuplicate env b e)"
  unfolding stable_def
proof
  fix db
  obtain r db' where c: "createWithEvent env b e db = (r, db')" by (cases "createWithEvent env b e db")
  then have "booked db db'" using assms by (auto simp: stable_def dest: spec [of _ db])
  with c show "booked db (snd (createOrExplainDuplicate env b e db))"
    by (auto simp: createOrExplainDuplicate_def split: sum.split StoreError.split)
qed

lemma await_transition:
  "canTransition s t \<Longrightarrow> await (check_transition s t) f = f t"
  by (simp add: fun_eq_iff await_def check_transition_def action_defs assertTransition_def)

lemma request_booked: "stable booked (request env now fq renter q)"
proof -
  have legal: "canTransition DRAFT REQUESTED" by (simp add: canTransition_def)
  show ?thesis
    unfolding request_def await_transition [OF legal]
    by (intro booked_intros readBack_booked createOrExplain_booked write_booked) (simp_all add: booking_of_quote_def)
qed

lemma accept_request_booked: "stable booked (accept_request env now i owner)"
  unfolding accept_request_def Let_def by (intro booked_intros accept_booked readBack_booked)

lemma decline_request_booked: "stable booked (decline_request env now i owner)"
  unfolding decline_request_def by (intro booked_intros decline_booked readBack_booked)

lemma sweep_booked: "(\<And>db. booked db (race db)) \<Longrightarrow> stable booked (sweep race env now)"
  unfolding sweep_def by (intro booked_intros expireRequests_booked)

lemma calendar_booked: "stable booked (block_dates cal newId now l owner req)" "stable booked (unblock_dates l owner b)"
  unfolding block_dates_def unblock_dates_def Let_def by (intro booked_intros block_booked)+

end
