(* ===== verification/Booking_Correct.thy ===== *)
theory Booking_Correct
  imports Booking_Safety
begin

section \<open>The booking service is correct\<close>

text \<open>
  The calls of the platform on the booking tables are \<open>booking_call\<close>: each store operation as one
  transaction, in any order and between the steps of any other call, and each service method run whole.
  Over every sequence of them no listing is let twice at one time, every booking's history replays to its
  state and the quotes of bookings outlive erasure. The second part states what accepting, moving,
  expiring, requesting and paying do.
\<close>

subsection \<open>Paying and securing only take steps\<close>

definition booked_part :: "BookingDb \<times> 'p \<Rightarrow> BookingDb \<times> 'p \<Rightarrow> bool" where
  "booked_part s s' \<longleftrightarrow> booked (fst s) (fst s')"

lemma booked_part_refl: "reflp booked_part"
  using booked_refl by (simp add: reflp_def booked_part_def)

lemma booked_part_trans: "transp booked_part"
  using booked_trans by (auto simp: transp_def booked_part_def)

lemma on_bookings_part: "stable booked m \<Longrightarrow> stable booked_part (on_bookings m)"
  by (auto simp: stable_def on_bookings_def booked_part_def split: prod.splits) (metis snd_conv)

lemma on_payments_part: "stable booked_part (on_payments m)"
  using booked_refl by (auto simp: stable_def on_payments_def booked_part_def reflp_def split: prod.splits)

lemmas part_intros = stable_await [OF booked_part_trans] stable_simple [OF booked_part_refl] on_bookings_part
  on_payments_part stable_option stable_if

lemma advance_after_check:
  "stable booked (await (check_transition s t) (\<lambda>_. await (in_store (advance env i s t actor)) k))"
  if "\<And>x. stable booked (k x)"
proof (cases "canTransition s t")
  case True
  then show ?thesis
    unfolding await_transition [OF True] by (intro stable_await [OF booked_trans] in_store_booked advance_booked that)
next
  case False
  then have "await (check_transition s t) f = throw (InvalidTransition (InvalidBookingTransition s t))" for f :: "BookingState \<Rightarrow> 'a booking_action"
    by (simp add: fun_eq_iff await_def check_transition_def action_defs assertTransition_def)
  then show ?thesis by (simp add: stable_simple [OF booked_refl])
qed

lemma movePayable_booked: "stable booked (movePayable env s i renter)"
  unfolding movePayable_def by (intro stable_if advance_after_check booked_intros)

lemma settle_booking_booked: "stable booked (settle_booking env i renter status)"
  unfolding settle_booking_def Let_def by (intro stable_if advance_after_check booked_intros)

lemma pay_part: "stable booked_part (pay env env2 enabled ownerOf charge i renter)"
  unfolding pay_def Let_def
  by (intro part_intros booked_intros movePayable_booked settle_booking_booked readBack_booked)

lemma fail_security_part:
  "stable booked_part (await (on_bookings (check_transition READY_FOR_COLLECTION SECURITY_FAILED)) (\<lambda>_.
     await (on_bookings (in_store (advance env i READY_FOR_COLLECTION SECURITY_FAILED None))) (\<lambda>_. done_with ())))"
  by (intro part_intros booked_intros advance_booked) (simp add: canTransition_def)

lemma secureCollection_part: "stable booked_part (secureCollection env enabled ownerOf hold i renter)"
  unfolding secureCollection_def Let_def
  by (intro part_intros booked_intros fail_security_part)

subsection \<open>Every sequence of calls\<close>

inductive booking_call :: "BookingDb \<Rightarrow> BookingDb \<Rightarrow> bool" where
  call_create: "bookingState b = REQUESTED \<Longrightarrow> eventType e = Requested \<Longrightarrow> fromState e = None \<Longrightarrow> toState e = Some REQUESTED \<Longrightarrow>
    booking_call db (snd (createWithEvent env b e db))"
| call_accept: "booking_call db (snd (accept env i owner now db))"
| call_decline: "booking_call db (snd (decline env i owner now db))"
| call_advance: "canTransition from to \<Longrightarrow> booking_call db (snd (advance env i from to actor db))"
| call_expire: "(\<And>s. booking_call\<^sup>*\<^sup>* s (race s)) \<Longrightarrow> booking_call db (snd (expireRequests race env now limit db))"
| call_create_quote: "booking_call db (snd (create_quote newId now q db))"
| call_block: "booking_call db (snd (block newId listing s e reason db))"
| call_unblock: "booking_call db (snd (unblock i listing db))"
| call_quote: "booking_call db (snd (quote cal newId now findQuotable listing renter req db))"
| call_erase: "booking_call db (snd (eraseFor renter db))"
| call_request: "booking_call db (snd (request env now findQuotable renter q db))"
| call_accept_request: "booking_call db (snd (accept_request env now i owner db))"
| call_decline_request: "booking_call db (snd (decline_request env now i owner db))"
| call_pay: "booking_call db (fst (snd (pay env env2 enabled ownerOf charge i renter (db, pays))))"
| call_secure: "booking_call db (fst (snd (secureCollection env enabled ownerOf hold i renter (db, pays))))"
| call_sweep: "(\<And>s. booking_call\<^sup>*\<^sup>* s (race s)) \<Longrightarrow> booking_call db (snd (sweep race env now db))"
| call_block_dates: "booking_call db (snd (block_dates cal newId now listing owner breq db))"
| call_unblock_dates: "booking_call db (snd (unblock_dates listing owner b db))"

lemma booked_star:
  assumes "\<And>a b. r a b \<Longrightarrow> booked a b" "r\<^sup>*\<^sup>* s s'"
  shows "booked s s'"
  using assms(2)
proof (induction rule: rtranclp_induct)
  case base
  then show ?case using booked_refl by (rule reflpD)
next
  case (step a b)
  then show ?case using transpD [OF booked_trans] assms(1) by blast
qed

lemma booking_call_booked: "booking_call db db' \<Longrightarrow> booked db db'"
proof (induction rule: booking_call.induct)
  case (call_expire race db env now limit)
  note race = call_expire(1)
  have "booked s (race s)" for s by (rule booked_star [OF conjunct2 race])
  then show ?case by (rule stableD [OF expireRequests_booked])
next
  case (call_sweep race db env now)
  note race = call_sweep(1)
  have "booked s (race s)" for s by (rule booked_star [OF conjunct2 race])
  then show ?case by (rule stableD [OF sweep_booked])
next
  case (call_pay db env env2 enabled ownerOf charge i renter pays)
  show ?case using stableD [OF pay_part, of "(db, pays)"] by (simp add: booked_part_def)
next
  case (call_secure db env enabled ownerOf hold i renter pays)
  show ?case using stableD [OF secureCollection_part, of "(db, pays)"] by (simp add: booked_part_def)
qed (rule stableD, rule write_booked accept_booked decline_booked advance_booked create_quote_booked block_booked
    quote_booked eraseFor_booked request_booked accept_request_booked decline_request_booked calendar_booked; assumption?)+

lemma reachable_inv:
  assumes "booking_call\<^sup>*\<^sup>* (empty_bookings owners) db"
  shows "book_inv db"
proof -
  have "booked (empty_bookings owners) db" using booking_call_booked assms by (rule booked_star)
  then show ?thesis using empty_bookings_inv book_steps_inv by (auto simp: booked_def)
qed

lemma book_step_owner: "book_step db db' \<Longrightarrow> listing_owner db' = listing_owner db"
  by (erule book_stepE) (auto simp: insert_booking_def dest: set_state_Inr(1) split: option.splits)

lemma booking_call_owner:
  assumes "booking_call\<^sup>*\<^sup>* (empty_bookings owners) db"
  shows "listing_owner db = owners"
proof -
  have "book_step\<^sup>*\<^sup>* (empty_bookings owners) db"
    using booked_star [OF booking_call_booked assms] empty_bookings_inv by (simp add: booked_def)
  then have "listing_owner db = listing_owner (empty_bookings owners)"
    by (induction rule: rtranclp_induct) (auto dest: book_step_owner)
  then show ?thesis by (simp add: empty_bookings_def)
qed

subsection \<open>Rows and records\<close>

definition storable_money :: "Money \<Rightarrow> bool" where
  "storable_money m \<longleftrightarrow> int4 (amount m) \<and> 0 \<le> amount m"

definition storable_excess :: "AppliedExcess option \<Rightarrow> bool" where
  "storable_excess e \<longleftrightarrow> pred_option (\<lambda>x. storable_money (excessAmount x)) e"

lemma toMoney_same: "storable_money m \<Longrightarrow> toMoney (amount m) c = Inr m"
  by (cases m) (simp add: storable_money_def toMoney_int4 Money_eq_iff)

lemma excess_roundtrip:
  "storable_excess e \<Longrightarrow> toAppliedExcess (fst (damageExcessColumns e)) (snd (damageExcessColumns e)) c w = Inr e"
proof (cases e)
  case (Some x)
  moreover assume "storable_excess e"
  ultimately have "map_sum StoreArithmetic id (money (Finite (of_int (amount (excessAmount x)))) c) = Inr (excessAmount x)"
    using toMoney_same [of "excessAmount x" c] by (simp add: storable_excess_def toMoney_def)
  moreover have "asBound (bound_text (boundBy x)) = Inr (boundBy x)" by (cases "boundBy x") (simp_all add: asBound_def)
  ultimately show ?thesis using Some by (simp add: toAppliedExcess_def damageExcessColumns_def del: money.simps)
qed (simp add: toAppliedExcess_def damageExcessColumns_def)

definition storable_quote :: "NewQuote \<Rightarrow> bool" where
  "storable_quote q \<longleftrightarrow> storable_money (quotedItemCharge q) \<and> storable_money (quotedRenterFee q) \<and>
     storable_money (quotedTotal q) \<and> storable_excess (quoteAppliedExcess q) \<and>
     quoteLineItems q \<noteq> [] \<and> list_all quoteLineItemSchema (quoteLineItems q)"

lemma quote_read:
  assumes "storable_quote q"
  shows "toQuoteRecord (new_quote_row i now q) = Inr (NewQuote.extend q \<lparr>quoteRecordId = i, quoteCreatedAt = now\<rparr>)"
proof -
  obtain a b where c: "damageExcessColumns (quoteAppliedExcess q) = (a, b)" by fastforce
  have "toAppliedExcess a b cu w = Inr (quoteAppliedExcess q)" for cu w
    using excess_roundtrip [of "quoteAppliedExcess q"] assms c by (simp add: storable_quote_def)
  with assms c show ?thesis
    by (simp add: toQuoteRecord_def new_quote_row_def toMoney_same storable_quote_def parseQuoteLineItems_def NewQuote.defs)
qed

definition storable_booking :: "NewBooking \<Rightarrow> bool" where
  "storable_booking b \<longleftrightarrow> storable_money (bookedItemCharge b) \<and> storable_money (bookedRenterFee b) \<and>
     storable_money (bookedTotal b) \<and> storable_excess (appliedExcess b)"

lemma booking_read:
  assumes "storable_booking b"
  shows "toRecord (new_row env b) = Inr (NewBooking.extend b \<lparr>bookingId = newRowId env, createdAt = dbNow env, updatedAt = dbNow env\<rparr>)"
proof -
  obtain x y where c: "damageExcessColumns (appliedExcess b) = (x, y)" by fastforce
  have "toAppliedExcess x y cu w = Inr (appliedExcess b)" for cu w
    using excess_roundtrip [of "appliedExcess b"] assms c by (simp add: storable_booking_def)
  with assms c show ?thesis
    by (simp add: toRecord_def new_row_def toMoney_same storable_booking_def NewBooking.defs)
qed

subsection \<open>Requesting\<close>

definition with_booking :: "BookingRow \<Rightarrow> BookingEventRow \<Rightarrow> BookingDb \<Rightarrow> BookingDb" where
  "with_booking r e db = add_events [e] (db\<lparr>booking_rows := booking_rows db @ [r]\<rparr>)"

lemma created:
  assumes "createOrExplainDuplicate env b e db = (Inr rec, db')"
  shows "row_failure db (new_row env b) = None \<and> db' = with_booking (new_row env b) (event_row env (newRowId env) e) db \<and>
    toRecord (new_row env b) = Inr rec"
proof -
  have "createWithEvent env b e db = (Inr rec, db')"
    using assms by (auto simp: createOrExplainDuplicate_def split: prod.splits sum.splits StoreError.splits)
  then obtain row where "retrying (translate_write b) env (write_tx env b (Some e)) db 1 = Inr (db', row)" "toRecord row = Inr rec"
    by (auto simp: createWithEvent_def write_booking_def await_Inr_iff atomically_def pure_step_def split: sum.splits prod.splits)
  moreover from retrying_Inr [OF this(1)] obtain db1 where "insert_booking (new_row env b) db = Inr db1" "row = new_row env b"
    "db' = add_events [event_row env (newRowId env) e] db1"
    by (auto simp: write_tx_def result_simps)
  ultimately show ?thesis by (auto simp: insert_booking_def with_booking_def split: option.splits)
qed

lemma read_back_new:
  assumes "bk_id r \<notin> bk_id ` set (booking_rows db)" "readBack (bk_id r) (bk_renterId r) (with_booking r e db) = (Inr b, db')"
  shows "db' = with_booking r e db" "toRecord r = Inr (foundBooking b)"
proof -
  have "party_booking (bk_id r) (bk_renterId r) (with_booking r e db) = Some r"
    unfolding party_booking_def with_booking_def add_events_rows by (simp, rule find_new [OF assms(1)]) simp_all
  with assms(2) show "db' = with_booking r e db" "toRecord r = Inr (foundBooking b)"
    by (auto simp: readBack_def await_Inr_iff ask_def findForParty_def action_defs result_simps split: option.splits prod.splits)
qed

lemma step_runs:
  "done_with x s = (Inr y, s') \<longleftrightarrow> y = x \<and> s' = s" "throw e s \<noteq> (Inr y, s')" "refuse r db \<noteq> (Inr y', db')"
  "pure_step m s = (Inr y, s') \<longleftrightarrow> m = Inr y \<and> s' = s" "reading g s = (Inr w, s') \<longleftrightarrow> w = g s \<and> s' = s"
  "ask f db = (Inr z, db') \<longleftrightarrow> f db = Inr z \<and> db' = db"
  by (auto simp: action_defs refuse_def ask_def map_sum_Inr_iff)

lemmas action_runs = await_Inr_iff option_run if_run step_runs

lemma request_success:
  assumes "request env now fq renter q db = (Inr (Some b), db')"
  shows "\<exists>qr l rec r e. findForRenter_quote q renter db = Inr (Some qr) \<and> now < quoteExpiresAt qr \<and>
    fq (quoteListingId qr) = Some l \<and> quotableOwnerId l \<noteq> renter \<and>
    reasonUnavailable (quoteListingId qr) (quoteStartAt qr) (quoteEndAt qr) db = None \<and>
    r = new_row env (booking_of_quote qr l renter now REQUESTED) \<and> row_failure db r = None \<and>
    e = event_row env (newRowId env) \<lparr>eventType = Requested, fromState = None, toState = Some REQUESTED, actorId = Some renter, metadata = []\<rparr> \<and>
    toRecord r = Inr rec \<and> readBack (bookingId rec) renter (with_booking r e db) = (Inr b, db')"
proof -
  have legal: "canTransition DRAFT REQUESTED" by (simp add: canTransition_def)
  show ?thesis
    using assms unfolding request_def await_transition [OF legal]
    by (auto simp: action_runs dest!: created)
qed

lemma new_row_ids: "bk_id (new_row env b) = newRowId env" "bk_renterId (new_row env b) = renterId b"
  by (simp_all add: new_row_def damageExcessColumns_def)

lemma booking_of_quote_fields: "renterId (booking_of_quote qr l renter now s) = renter"
  by (simp add: booking_of_quote_def)

subsection \<open>An example platform\<close>

text \<open>One drill of Olive's, and two overlapping requests for it that other members have made.\<close>

definition example_owners :: "string \<Rightarrow> string option" where
  "example_owners l = (if l = ''drill'' then Some ''olive'' else None)"

definition example_line :: QuoteLineItem where
  "example_line = \<lparr>unit = Day, item_count = 2, unitPrice = pence 1500, subtotal = pence 3000\<rparr>"

definition example_quote :: "string \<Rightarrow> int \<Rightarrow> int \<Rightarrow> NewQuote" where
  "example_quote renter s e = \<lparr>quoteListingId = ''drill'', quoteRenterId = renter, quoteStartAt = s, quoteEndAt = e,
     quoteTimeZone = PLATFORM_TIME_ZONE, renterPostcode = ''LS1 4AP'', quotedItemCharge = pence 3000,
     quotedRenterFee = pence 300, quotedTotal = pence 3300, quoteMinimumFeeApplied = False,
     quoteLineItems = [example_line], quoteAppliedExcess = Some \<lparr>excessAmount = pence 20000, boundBy = CeilingBound\<rparr>,
     quoteVersionId = ''v1'', quoteExpiresAt = 1800000\<rparr>"

definition example_listing :: "string \<Rightarrow> QuotableListing option" where
  "example_listing l = (if l = ''drill'' then Some \<lparr>quotableId = ''drill'', quotableOwnerId = ''olive'', quotableTitle = ''Hammer drill'',
     quotableCategoryName = ''Power tools'', quotableRates = example_card, currentFeePolicy = example_policy,
     currentDamageSecurity = None, replacementValue = pence 20000, currentMaximumRentalDays = 90,
     currentRequestExpiryHours = 24, currentCategoryVersionId = ''v1''\<rparr> else None)"

definition calm :: "int \<Rightarrow> string \<Rightarrow> StoreEnv" where
  "calm now i = \<lparr>dbNow = now, newRowId = i, newEventId = (\<lambda>b. b @ ''-'' @ i), faults = (\<lambda>_. None)\<rparr>"

definition quoted_db :: BookingDb where
  "quoted_db = snd (create_quote ''q3'' 0 (example_quote ''tim'' 300 600)
     (snd (create_quote ''q2'' 0 (example_quote ''sam'' 200 500)
     (snd (create_quote ''q1'' 0 (example_quote ''rob'' 100 300) (empty_bookings example_owners))))))"

definition first_request :: BookingDb where
  "first_request = snd (request (calm 10 ''b1'') 10 example_listing ''rob'' ''q1'' quoted_db)"

definition second_request :: BookingDb where
  "second_request = snd (request (calm 20 ''b2'') 20 example_listing ''sam'' ''q2'' first_request)"

definition requested_db :: BookingDb where
  "requested_db = snd (request (calm 25 ''b3'') 25 example_listing ''tim'' ''q3'' second_request)"

definition accepted_one :: BookingDb where
  "accepted_one = snd (accept (calm 30 ''x'') ''b1'' ''olive'' 30 requested_db)"

definition accepted_db :: BookingDb where
  "accepted_db = snd (accept (calm 40 ''y'') ''b3'' ''olive'' 40 accepted_one)"

lemmas example_defs = example_owners_def example_line_def example_quote_def example_listing_def calm_def PLATFORM_TIME_ZONE_def

lemma stored_quote:
  "snd (create_quote i now q db) = (case quote_row_failure db (new_quote_row i now q) of
     None \<Rightarrow> db\<lparr>quote_rows := quote_rows db @ [new_quote_row i now q]\<rparr> | Some _ \<Rightarrow> db)"
  by (simp add: create_quote_def await_def atomically_def Let_def pure_step_def split: option.split)

lemma quoted_value: "quoted_db = \<lparr>booking_rows = [], event_rows = [],
   quote_rows = [new_quote_row ''q1'' 0 (example_quote ''rob'' 100 300), new_quote_row ''q2'' 0 (example_quote ''sam'' 200 500),
     new_quote_row ''q3'' 0 (example_quote ''tim'' 300 600)],
   block_rows = [], listing_owner = example_owners\<rparr>"
  unfolding quoted_db_def
  by (simp add: stored_quote empty_bookings_def quote_row_failure_def new_quote_row_def damageExcessColumns_def example_defs
      excess_columns_ok_def int4_def)

definition row_of :: "string \<Rightarrow> int \<Rightarrow> string \<Rightarrow> string \<Rightarrow> int \<Rightarrow> int \<Rightarrow> BookingState \<Rightarrow> int \<Rightarrow> BookingRow" where
  "row_of i now renter q s e st up = \<lparr>bk_id = i, bk_listingId = ''drill'', bk_renterId = renter, bk_state = st, bk_startAt = s, bk_endAt = e,
     bk_timeZone = PLATFORM_TIME_ZONE, bk_quoteId = q, bk_categoryVersionId = ''v1'', bk_itemChargeAmount = 3000,
     bk_renterFeeAmount = 300, bk_totalAmount = 3300, bk_currency = GBP, bk_itemTitle = ''Hammer drill'',
     bk_categoryName = ''Power tools'', bk_damageExcessAmount = Some 20000, bk_damageExcessBoundBy = Some ''ceiling'',
     bk_requestExpiresAt = now + 86400000, bk_createdAt = now, bk_updatedAt = up\<rparr>"

definition requested_event :: "string \<Rightarrow> string \<Rightarrow> string \<Rightarrow> int \<Rightarrow> BookingEventRow" where
  "requested_event ei i who now = \<lparr>ev_id = ei, ev_bookingId = i, ev_type = Requested, ev_fromState = None, ev_toState = Some REQUESTED,
     ev_actorId = Some who, ev_metadata = [], ev_createdAt = now\<rparr>"

lemma example_storable: "storable_quote (example_quote renter s e)"
  by (simp add: storable_quote_def storable_money_def storable_excess_def example_quote_def example_line_def
      quoteLineItemSchema_def int4_def)

lemma retrying_first: "faults env 1 = None \<Longrightarrow> run db = Inr x \<Longrightarrow> retrying tr env run db 1 = Inr x"
  by (simp add: retrying.simps [of tr env run db])

lemma requested_run:
  assumes q: "findForRenter_quote q renter db = Inr (Some qr)" "now < quoteExpiresAt qr" "fq (quoteListingId qr) = Some l"
    "quotableOwnerId l \<noteq> renter" "reasonUnavailable (quoteListingId qr) (quoteStartAt qr) (quoteEndAt qr) db = None"
    and env: "faults env 1 = None"
    and r: "r = new_row env (booking_of_quote qr l renter now REQUESTED)" "row_failure db r = None" "toRecord r = Inr rec"
    and e: "e = event_row env (newRowId env) \<lparr>eventType = Requested, fromState = None, toState = Some REQUESTED, actorId = Some renter, metadata = []\<rparr>"
    and rb: "readBack (bookingId rec) renter (with_booking r e db) = (Inr b, with_booking r e db)"
  shows "request env now fq renter q db = (Inr (Some b), with_booking r e db)"
proof -
  have legal: "canTransition DRAFT REQUESTED" by (simp add: canTransition_def)
  define nb where "nb = booking_of_quote qr l renter now REQUESTED"
  define ne where "ne = \<lparr>eventType = Requested, fromState = None, toState = Some REQUESTED, actorId = Some renter, metadata = []\<rparr>"
  have "write_tx env nb (Some ne) db = Inr (with_booking r e db, r)"
    using r(1,2) by (simp add: write_tx_def insert_booking_def nb_def [symmetric] e ne_def with_booking_def)
  from retrying_first [of env "write_tx env nb (Some ne)" db, OF env this] have "createOrExplainDuplicate env nb ne db = (Inr rec, with_booking r e db)"
    using r(3) by (simp add: createOrExplainDuplicate_def createWithEvent_def write_booking_def await_def atomically_def pure_step_def)
  with q rb show ?thesis
    unfolding request_def await_transition [OF legal]
    by (simp add: ask_def action_defs await_def nb_def ne_def)
qed

lemma readBack_run:
  "party_booking i u db = Some r \<Longrightarrow> toRecord r = Inr rec \<Longrightarrow> find (\<lambda>q. qt_id q = bk_quoteId r) (quote_rows db) = Some x \<Longrightarrow>
    parseQuoteLineItems (qt_lineItems x) (bk_id r) = Inr items' \<Longrightarrow>
    readBack i u db = (Inr \<lparr>foundBooking = rec, foundLineItems = items',
      foundEvents = sort_key ev_createdAt (sort_key ev_id (events_of i db))\<rparr>, db)"
  by (simp add: readBack_def await_def ask_def action_defs findForParty_def)

lemma example_request:
  assumes quotes: "find (\<lambda>x. qt_id x = q \<and> qt_renterId x = renter) (quote_rows db) = Some (new_quote_row q 0 (example_quote renter s e))"
      "find (\<lambda>x. qt_id x = q) (quote_rows db) = Some (new_quote_row q 0 (example_quote renter s e))"
    and free: "listing_owner db = example_owners" "block_rows db = []" "\<forall>r \<in> set (booking_rows db). \<not> occupiesCalendar (bk_state r)"
    and fresh: "i \<notin> bk_id ` set (booking_rows db)" "q \<notin> bk_quoteId ` set (booking_rows db)"
    and times: "s < e" "now < 1800000" "renter \<noteq> ''olive''"
  shows "\<exists>b. request (calm now i) now example_listing renter q db =
    (Inr (Some b), with_booking (row_of i now renter q s e REQUESTED now) (requested_event (i @ ''-'' @ i) i renter now) db)"
proof -
  let ?q = "NewQuote.extend (example_quote renter s e) \<lparr>quoteRecordId = q, quoteCreatedAt = 0\<rparr>"
  let ?l = "the (example_listing ''drill'')"
  let ?r = "row_of i now renter q s e REQUESTED now"
  let ?e = "requested_event (i @ ''-'' @ i) i renter now"
  have found: "findForRenter_quote q renter db = Inr (Some ?q)"
    by (simp add: findForRenter_quote_def quotes quote_read example_storable)
  have none: "find (\<lambda>r. bk_listingId r = l \<and> bk_state r \<in> set CALENDAR_OCCUPYING_STATES \<and> P r) (booking_rows db) = None" for l P
    using free(3) by (auto simp: find_None_all occupiesCalendar_def)
  have r: "?r = new_row (calm now i) (booking_of_quote ?q ?l renter now REQUESTED)"
    by (simp add: new_row_def booking_of_quote_def NewQuote.defs example_defs row_of_def damageExcessColumns_def requestDeadline_def)
  have "q \<in> qt_id ` set (quote_rows db)" using find_Some_mem [OF quotes(2)] by (metis image_eqI)
  then have ok: "row_failure db ?r = None"
    using fresh times free by (simp add: row_failure_def row_of_def int4_def excess_columns_ok_def example_owners_def list_ex_iff clash_def)
  have "row_ok ?r" using row_failure_None(1) [OF ok] .
  then obtain rec where rec: "toRecord ?r = Inr rec" using toRecord_ok by blast
  have party: "party_booking i renter (with_booking ?r ?e db) = Some ?r"
    unfolding party_booking_def with_booking_def add_events_rows by (simp, rule find_new [OF fresh(1)]) (simp_all add: row_of_def)
  have lines: "parseQuoteLineItems (qt_lineItems (new_quote_row q 0 (example_quote renter s e))) w = Inr [example_line]" for w
    by (simp add: parseQuoteLineItems_def quoteLineItemSchema_def example_line_def new_quote_row_def damageExcessColumns_def example_quote_def)
  have "bookingId rec = i" using toRecord_fields [OF rec] by (simp add: row_of_def)
  moreover have "find (\<lambda>x. qt_id x = bk_quoteId ?r) (quote_rows (with_booking ?r ?e db)) = Some (new_quote_row q 0 (example_quote renter s e))"
    using quotes(2) by (simp add: with_booking_def row_of_def)
  ultimately obtain b where "readBack (bookingId rec) renter (with_booking ?r ?e db) = (Inr b, with_booking ?r ?e db)"
    using readBack_run [OF party rec _ lines] by blast
  then show ?thesis
    using requested_run [OF found, of now example_listing ?l "calm now i", OF _ _ _ _ _ r ok rec] times none free(2)
    by (auto simp: NewQuote.defs example_defs reasonUnavailable_def requested_event_def event_row_def)
qed

lemma new_quote_ids: "qt_id (new_quote_row i now q) = i" "qt_renterId (new_quote_row i now q) = quoteRenterId q"
  by (simp_all add: new_quote_row_def damageExcessColumns_def)

lemma first_request_runs: "\<exists>b. request (calm 10 ''b1'') 10 example_listing ''rob'' ''q1'' quoted_db = (Inr (Some b), first_request)"
  using example_request [of "''q1''" "''rob''" quoted_db 100 300 "''b1''" 10]
  by (auto simp: first_request_def quoted_value new_quote_ids example_quote_def)

lemma first_value: "first_request = with_booking (row_of ''b1'' 10 ''rob'' ''q1'' 100 300 REQUESTED 10) (requested_event ''b1-b1'' ''b1'' ''rob'' 10) quoted_db"
  using example_request [of "''q1''" "''rob''" quoted_db 100 300 "''b1''" 10]
  by (auto simp: first_request_def quoted_value new_quote_ids example_quote_def)

lemmas occupancy = occupiesCalendar_def CALENDAR_OCCUPYING_STATES_def

lemma second_value: "second_request = with_booking (row_of ''b2'' 20 ''sam'' ''q2'' 200 500 REQUESTED 20) (requested_event ''b2-b2'' ''b2'' ''sam'' 20) first_request"
  using example_request [of "''q2''" "''sam''" first_request 200 500 "''b2''" 20]
  by (auto simp: second_request_def first_value quoted_value new_quote_ids example_quote_def with_booking_def row_of_def occupancy)

lemma third_value: "requested_db = with_booking (row_of ''b3'' 25 ''tim'' ''q3'' 300 600 REQUESTED 25) (requested_event ''b3-b3'' ''b3'' ''tim'' 25) second_request"
  using example_request [of "''q3''" "''tim''" second_request 300 600 "''b3''" 25]
  by (auto simp: requested_db_def second_value first_value quoted_value new_quote_ids example_quote_def with_booking_def row_of_def occupancy)

lemma requested_value: "requested_db = quoted_db\<lparr>
    booking_rows := [row_of ''b1'' 10 ''rob'' ''q1'' 100 300 REQUESTED 10, row_of ''b2'' 20 ''sam'' ''q2'' 200 500 REQUESTED 20,
      row_of ''b3'' 25 ''tim'' ''q3'' 300 600 REQUESTED 25],
    event_rows := [requested_event ''b1-b1'' ''b1'' ''rob'' 10, requested_event ''b2-b2'' ''b2'' ''sam'' 20,
      requested_event ''b3-b3'' ''b3'' ''tim'' 25]\<rparr>"
  by (simp add: third_value second_value first_value with_booking_def add_events_def quoted_value)

text \<open>
C31: A request that succeeds was made by the renter the quote was given to, before the quote expired, for a listing
that is still offered by somebody else and whose dates are free. It adds one booking in state REQUESTED and its
first event, and the booking carries the quote's period, version, price and damage excess unchanged, with the
deadline the category sets.
\<close>

theorem request_freezes_quote:
  assumes "request env now fq renter q db = (Inr (Some b), db')"
  shows "\<exists>qr l. findForRenter_quote q renter db = Inr (Some qr) \<and> now < quoteExpiresAt qr \<and>
    fq (quoteListingId qr) = Some l \<and> quotableOwnerId l \<noteq> renter \<and>
    reasonUnavailable (quoteListingId qr) (quoteStartAt qr) (quoteEndAt qr) db = None \<and>
    (\<exists>r e. booking_rows db' = booking_rows db @ [r] \<and> event_rows db' = event_rows db @ [e] \<and>
      toRecord r = Inr (foundBooking b) \<and> ev_bookingId e = bk_id r \<and> ev_type e = Requested \<and> ev_actorId e = Some renter \<and>
      bk_state r = REQUESTED \<and> bk_renterId r = renter \<and> bk_listingId r = quoteListingId qr \<and>
      bk_startAt r = quoteStartAt qr \<and> bk_endAt r = quoteEndAt qr \<and> bk_quoteId r = quoteRecordId qr \<and>
      bk_categoryVersionId r = quoteVersionId qr \<and> bk_itemChargeAmount r = amount (quotedItemCharge qr) \<and>
      bk_renterFeeAmount r = amount (quotedRenterFee qr) \<and> bk_totalAmount r = amount (quotedTotal qr) \<and>
      (bk_damageExcessAmount r, bk_damageExcessBoundBy r) = damageExcessColumns (quoteAppliedExcess qr) \<and>
      bk_requestExpiresAt r = now + currentRequestExpiryHours l * 3600000)"
proof -
  obtain qr l rec r e where ok: "findForRenter_quote q renter db = Inr (Some qr)" "now < quoteExpiresAt qr"
    "fq (quoteListingId qr) = Some l" "quotableOwnerId l \<noteq> renter"
    "reasonUnavailable (quoteListingId qr) (quoteStartAt qr) (quoteEndAt qr) db = None"
    and r: "r = new_row env (booking_of_quote qr l renter now REQUESTED)" "row_failure db r = None" "toRecord r = Inr rec"
    and e: "e = event_row env (newRowId env) \<lparr>eventType = Requested, fromState = None, toState = Some REQUESTED, actorId = Some renter, metadata = []\<rparr>"
    and rb: "readBack (bookingId rec) renter (with_booking r e db) = (Inr b, db')"
    using request_success [OF assms] by blast
  have "bookingId rec = bk_id r" using toRecord_fields [OF r(3)] by simp
  moreover have "bk_renterId r = renter" by (simp add: r(1) new_row_ids booking_of_quote_fields)
  ultimately have db': "db' = with_booking r e db" and found: "toRecord r = Inr (foundBooking b)"
    using read_back_new [OF row_failure_None(2) [OF r(2)]] rb by simp_all
  show ?thesis
    using ok found unfolding db'
    by (intro exI [of _ qr] exI [of _ l] conjI exI [of _ r] exI [of _ e])
      (auto simp: with_booking_def r(1) e new_row_def booking_of_quote_def event_row_def requestDeadline_def split: prod.splits)
qed

theorem request_freezes_quote_witness:
  "\<exists>b qr r. request (calm 10 ''b1'') 10 example_listing ''rob'' ''q1'' quoted_db = (Inr (Some b), first_request) \<and>
    findForRenter_quote ''q1'' ''rob'' quoted_db = Inr (Some qr) \<and> booking_rows first_request = booking_rows quoted_db @ [r] \<and>
    bk_totalAmount r = amount (quotedTotal qr)"
proof -
  obtain b where b: "request (calm 10 ''b1'') 10 example_listing ''rob'' ''q1'' quoted_db = (Inr (Some b), first_request)"
    using first_request_runs by blast
  show ?thesis using b request_freezes_quote [OF b] by blast
qed

subsection \<open>What holds in every reachable state\<close>

lemma call_then: "booking_call\<^sup>*\<^sup>* a b \<Longrightarrow> booking_call b c \<Longrightarrow> booking_call\<^sup>*\<^sup>* a c"
  by (rule rtranclp.rtrancl_into_rtrancl)

lemma quoted_reachable: "booking_call\<^sup>*\<^sup>* (empty_bookings example_owners) quoted_db"
  unfolding quoted_db_def by (intro call_then [OF _ call_create_quote] rtranclp.rtrancl_refl)

lemma requested_reachable: "booking_call\<^sup>*\<^sup>* (empty_bookings example_owners) requested_db"
  unfolding requested_db_def second_request_def first_request_def
  by (intro call_then [OF _ call_request] quoted_reachable)

lemma accepted_one_reachable: "booking_call\<^sup>*\<^sup>* (empty_bookings example_owners) accepted_one"
  unfolding accepted_one_def by (rule call_then [OF requested_reachable call_accept])

lemma accepted_reachable: "booking_call\<^sup>*\<^sup>* (empty_bookings example_owners) accepted_db"
  unfolding accepted_db_def by (rule call_then [OF accepted_one_reachable call_accept])

text \<open>
C1: No double booking. Whatever calls were made, in whatever order and interleaving, two different bookings of one
listing that both occupy its calendar have disjoint periods.
\<close>

theorem no_double_booking:
  assumes "booking_call\<^sup>*\<^sup>* (empty_bookings owners) db"
    and "a \<in> set (booking_rows db)" "b \<in> set (booking_rows db)" "bk_id a \<noteq> bk_id b"
    and "bk_listingId a = bk_listingId b" "occupiesCalendar (bk_state a)" "occupiesCalendar (bk_state b)"
  shows "bk_endAt a \<le> bk_startAt b \<or> bk_endAt b \<le> bk_startAt a"
proof -
  have "\<not> clash a b" using reachable_inv [OF assms(1)] assms(2-4) by (simp add: book_inv_def)
  with assms(5-7) show ?thesis by (auto simp: clash_def overlaps_def)
qed


text \<open>
A quote is taken up at most once and, once a booking rests on it, stays in the database: no two bookings share
a quote, and the quote of every booking is still stored, whatever erasures have run.
\<close>

theorem quote_taken_once:
  assumes "booking_call\<^sup>*\<^sup>* (empty_bookings owners) db" "r \<in> set (booking_rows db)"
  shows "(\<exists>q \<in> set (quote_rows db). qt_id q = bk_quoteId r) \<and>
    (\<forall>r' \<in> set (booking_rows db). bk_quoteId r' = bk_quoteId r \<longrightarrow> r' = r)"
proof -
  note inv = reachable_inv [OF assms(1)]
  have "bk_quoteId r \<in> qt_id ` set (quote_rows db)" using inv assms(2) by (simp add: book_inv_def)
  then have "\<exists>q \<in> set (quote_rows db). qt_id q = bk_quoteId r" by auto
  moreover have "r' = r" if "r' \<in> set (booking_rows db)" "bk_quoteId r' = bk_quoteId r" for r'
    using inv that assms(2) distinct_map_unique [of bk_quoteId "booking_rows db" r' r] by (simp add: book_inv_def)
  ultimately show ?thesis by blast
qed

subsection \<open>Accepting\<close>

definition rivals :: "BookingRow \<Rightarrow> BookingDb \<Rightarrow> BookingRow list" where
  "rivals b db = filter (\<lambda>r. bk_id r \<noteq> bk_id b \<and> bk_listingId r = bk_listingId b \<and> bk_state r = REQUESTED \<and>
     bk_startAt r < bk_endAt b \<and> bk_startAt b < bk_endAt r) (booking_rows db)"

definition accepted_rows :: "int \<Rightarrow> BookingRow \<Rightarrow> BookingDb \<Rightarrow> BookingRow list" where
  "accepted_rows now b db = map (\<lambda>r. if bk_id r = bk_id b then move_row now ACCEPTED r
     else if r \<in> set (rivals b db) then move_row now DECLINED r else r) (booking_rows db)"

lemma conflicting_after_accept:
  assumes "booking_rows db1 = map (\<lambda>r. if bk_id r = bk_id b then move_row now ACCEPTED r else r) (booking_rows db)"
  shows "conflicting_requests b (add_events es db1) = map bk_id (rivals b db)"
proof -
  have "map bk_id (filter (\<lambda>r. bk_id r \<noteq> bk_id b \<and> bk_listingId r = bk_listingId b \<and> bk_state r = REQUESTED \<and>
       overlaps (bk_startAt b) (bk_endAt b) (bk_startAt r) (bk_endAt r))
       (map (\<lambda>r. if bk_id r = bk_id b then move_row now ACCEPTED r else r) xs))
    = map bk_id (filter (\<lambda>r. bk_id r \<noteq> bk_id b \<and> bk_listingId r = bk_listingId b \<and> bk_state r = REQUESTED \<and>
       bk_startAt r < bk_endAt b \<and> bk_startAt b < bk_endAt r) xs)" for xs
    by (induction xs) (auto simp: overlaps_def)
  then show ?thesis by (simp add: conflicting_requests_def rivals_def assms)
qed

lemma accept_tx_run:
  assumes inv: "book_inv db" and b: "owned_booking i owner db = Some b" "bk_state b = REQUESTED" "now < bk_requestExpiresAt b"
    and s: "set_state (dbNow env) i ACCEPTED db = Inr db1"
  shows "\<exists>rec db'. accept_tx env i owner now db = Inr (db', Some \<lparr>acceptedBooking = rec, autoDeclinedIds = map bk_id (rivals b db)\<rparr>) \<and>
    bookingId rec = i \<and> bookingState rec = ACCEPTED \<and> booking_rows db' = accepted_rows (dbNow env) b db \<and>
    event_rows db' = event_rows db @ event_row env i (state_change REQUESTED ACCEPTED (Some owner)) #
      map (\<lambda>r. event_row env (bk_id r) (auto_decline i)) (rivals b db)"
proof -
  note mem = owned_booking_mem [OF b(1)]
  have rows1: "booking_rows db1 = map (\<lambda>r. if bk_id r = bk_id b then move_row (dbNow env) ACCEPTED r else r) (booking_rows db)"
    using set_state_Inr(1) [OF s] mem by simp
  let ?e = "event_row env i (state_change REQUESTED ACCEPTED (Some owner))"
  let ?db2 = "add_events [?e] db1"
  have losers: "conflicting_requests b ?db2 = map bk_id (rivals b db)" by (rule conflicting_after_accept [OF rows1])
  have "\<not> occupiesCalendar DECLINED" by (simp add: occupiesCalendar_def CALENDAR_OCCUPYING_STATES_def)
  from set_states_off_calendar [OF this, of "dbNow env" "map bk_id (rivals b db)" ?db2]
  obtain db3 where db3: "set_states (dbNow env) (map bk_id (rivals b db)) DECLINED ?db2 = Inr db3" "event_rows db3 = event_rows ?db2"
    "booking_rows db3 = map (\<lambda>r. if bk_id r \<in> set (map bk_id (rivals b db)) then move_row (dbNow env) DECLINED r else r) (booking_rows ?db2)"
    by blast
  have pick: "bk_id r \<in> bk_id ` set (rivals b db) \<longleftrightarrow> r \<in> set (rivals b db)" if "r \<in> set (booking_rows db)" for r
  proof
    assume "bk_id r \<in> bk_id ` set (rivals b db)"
    then obtain x where "x \<in> set (rivals b db)" "bk_id r = bk_id x" by auto
    moreover from this(1) have "x \<in> set (booking_rows db)" by (simp add: rivals_def)
    ultimately show "r \<in> set (rivals b db)"
      using that inv distinct_map_unique [of bk_id "booking_rows db" r x] by (simp add: book_inv_def)
  qed simp
  have apart: "bk_id b \<notin> bk_id ` set (rivals b db)" by (auto simp: rivals_def)
  have rows3: "booking_rows db3 = accepted_rows (dbNow env) b db"
    unfolding db3(3) accepted_rows_def add_events_rows rows1 map_map set_map
    by (rule map_cong [OF refl]) (use pick apart in \<open>simp add: o_def\<close>)
  have "row_ok b" using inv mem by (simp add: book_inv_def)
  then obtain rec where rec: "toRecord (move_row (dbNow env) ACCEPTED b) = Inr rec" using toRecord_ok by fastforce
  define db4 where "db4 = add_events (map (\<lambda>j. event_row env j (auto_decline i)) (map bk_id (rivals b db))) db3"
  have "accept_tx env i owner now db = Inr (db4, Some \<lparr>acceptedBooking = rec, autoDeclinedIds = map bk_id (rivals b db)\<rparr>)"
    using b(3) by (simp add: accept_tx_def b(1,2) s Let_def losers db3(1) rec db4_def)
  moreover have "event_rows db1 = event_rows db" using set_state_Inr(1) [OF s] by simp
  then have "event_rows db4 = event_rows db @ ?e # map (\<lambda>r. event_row env (bk_id r) (auto_decline i)) (rivals b db)"
    by (simp add: db4_def db3(2) o_def)
  moreover have "booking_rows db4 = accepted_rows (dbNow env) b db" by (simp add: db4_def rows3)
  ultimately show ?thesis using toRecord_fields(1,6) [OF rec] mem by auto
qed

lemma acceptance_clash:
  assumes inv: "book_inv db" and b: "b \<in> set (booking_rows db)" "bk_id b = i"
  shows "set_state now i ACCEPTED db =
    (if \<exists>r \<in> set (booking_rows db). bk_id r \<noteq> i \<and> bk_listingId r = bk_listingId b \<and> occupiesCalendar (bk_state r) \<and>
       bk_startAt r < bk_endAt b \<and> bk_startAt b < bk_endAt r
     then Inl (ExclusionViolation OVERLAP_CONSTRAINT)
     else Inr (db\<lparr>booking_rows := map (\<lambda>r. if bk_id r = i then move_row now ACCEPTED r else r) (booking_rows db)\<rparr>))"
proof -
  have only: "x = b" if "x \<in> set (booking_rows db)" "bk_id x = i" for x
    using that b inv distinct_map_unique [of bk_id "booking_rows db" x b] by (simp add: book_inv_def)
  have "occupiesCalendar ACCEPTED" by (simp add: occupiesCalendar_def CALENDAR_OCCUPYING_STATES_def)
  then have "clash (move_row now ACCEPTED b) r \<longleftrightarrow> bk_listingId r = bk_listingId b \<and> occupiesCalendar (bk_state r) \<and>
       bk_startAt r < bk_endAt b \<and> bk_startAt b < bk_endAt r" for r
    by (auto simp: clash_def overlaps_def)
  then have "list_ex (\<lambda>r. bk_id r = i \<and> list_ex (\<lambda>o'. bk_id o' \<noteq> i \<and> clash (move_row now ACCEPTED r) o') (booking_rows db)) (booking_rows db)
     \<longleftrightarrow> (\<exists>r \<in> set (booking_rows db). bk_id r \<noteq> i \<and> bk_listingId r = bk_listingId b \<and> occupiesCalendar (bk_state r) \<and>
       bk_startAt r < bk_endAt b \<and> bk_startAt b < bk_endAt r)"
    using only b unfolding list_ex_iff by blast
  then show ?thesis unfolding set_state_def by (rule if_cong) simp_all
qed

lemma overlap_translated: "isOverlapViolation (ExclusionViolation OVERLAP_CONSTRAINT)"
  by (simp add: isOverlapViolation_def OVERLAP_CONSTRAINT_def) code_simp

definition taken_by_another :: "BookingRow \<Rightarrow> BookingDb \<Rightarrow> bool" where
  "taken_by_another b db \<longleftrightarrow> (\<exists>r \<in> set (booking_rows db). bk_id r \<noteq> bk_id b \<and> bk_listingId r = bk_listingId b \<and>
     occupiesCalendar (bk_state r) \<and> bk_startAt r < bk_endAt b \<and> bk_startAt b < bk_endAt r)"

lemma accept_run:
  assumes inv: "book_inv db" and env: "faults env 1 = None"
    and b: "owned_booking i owner db = Some b" "bk_state b = REQUESTED" "now < bk_requestExpiresAt b"
  shows "if taken_by_another b db then accept env i owner now db = (Inl (OverlappingBooking i), db)
    else \<exists>rec db'. accept env i owner now db = (Inr (Some \<lparr>acceptedBooking = rec, autoDeclinedIds = map bk_id (rivals b db)\<rparr>), db') \<and>
      bookingId rec = i \<and> bookingState rec = ACCEPTED \<and> booking_rows db' = accepted_rows (dbNow env) b db \<and>
      event_rows db' = event_rows db @ event_row env i (state_change REQUESTED ACCEPTED (Some owner)) #
        map (\<lambda>r. event_row env (bk_id r) (auto_decline i)) (rivals b db)"
proof (cases "taken_by_another b db")
  case True
  note mem = owned_booking_mem [OF b(1)]
  have "set_state (dbNow env) i ACCEPTED db = Inl (ExclusionViolation OVERLAP_CONSTRAINT)"
    using acceptance_clash [OF inv conjunct1 [OF mem] conjunct2 [OF mem], of "dbNow env"] mem True by (simp add: taken_by_another_def)
  then have "accept_tx env i owner now db = Inl (Db (ExclusionViolation OVERLAP_CONSTRAINT))"
    using b by (simp add: accept_tx_def)
  then have "accept env i owner now db = (Inl (OverlappingBooking i), db)"
    using env overlap_translated by (simp add: accept_def atomically_def retrying.simps [of _ env])
  with True show ?thesis by simp
next
  case False
  note mem = owned_booking_mem [OF b(1)]
  obtain db1 where "set_state (dbNow env) i ACCEPTED db = Inr db1"
    using acceptance_clash [OF inv conjunct1 [OF mem] conjunct2 [OF mem], of "dbNow env"] mem False by (simp add: taken_by_another_def)
  from accept_tx_run [OF inv b this] obtain rec db' where
    tx: "accept_tx env i owner now db = Inr (db', Some \<lparr>acceptedBooking = rec, autoDeclinedIds = map bk_id (rivals b db)\<rparr>)"
    and rest: "bookingId rec = i" "bookingState rec = ACCEPTED" "booking_rows db' = accepted_rows (dbNow env) b db"
      "event_rows db' = event_rows db @ event_row env i (state_change REQUESTED ACCEPTED (Some owner)) #
        map (\<lambda>r. event_row env (bk_id r) (auto_decline i)) (rivals b db)"
    by blast
  have "accept env i owner now db = (Inr (Some \<lparr>acceptedBooking = rec, autoDeclinedIds = map bk_id (rivals b db)\<rparr>), db')"
    using retrying_first [of env "accept_tx env i owner now" db, OF env tx] by (simp add: accept_def atomically_def)
  with False rest show ?thesis by auto
qed


lemma accepted_one_rows: "booking_rows accepted_one =
    [row_of ''b1'' 10 ''rob'' ''q1'' 100 300 ACCEPTED 30, row_of ''b2'' 20 ''sam'' ''q2'' 200 500 DECLINED 30,
     row_of ''b3'' 25 ''tim'' ''q3'' 300 600 REQUESTED 25]"
proof -
  let ?b = "row_of ''b1'' 10 ''rob'' ''q1'' 100 300 REQUESTED 10"
  have "owned_booking ''b1'' ''olive'' requested_db = Some ?b"
    by (simp add: owned_booking_def requested_value quoted_value row_of_def example_owners_def)
  moreover have "\<not> taken_by_another ?b requested_db"
    by (simp add: taken_by_another_def requested_value quoted_value row_of_def occupancy)
  ultimately have "booking_rows accepted_one = accepted_rows 30 ?b requested_db"
    using accept_run [OF reachable_inv [OF requested_reachable], of "calm 30 ''x''" "''b1''" "''olive''" ?b 30]
    unfolding accepted_one_def by (auto simp: calm_def row_of_def)
  then show ?thesis by (simp add: accepted_rows_def rivals_def requested_value quoted_value row_of_def move_row_def)
qed


lemma accepted_rows_value: "booking_rows accepted_db =
    [row_of ''b1'' 10 ''rob'' ''q1'' 100 300 ACCEPTED 30, row_of ''b2'' 20 ''sam'' ''q2'' 200 500 DECLINED 30,
     row_of ''b3'' 25 ''tim'' ''q3'' 300 600 ACCEPTED 40]"
proof -
  let ?b = "row_of ''b3'' 25 ''tim'' ''q3'' 300 600 REQUESTED 25"
  have "listing_owner accepted_one = example_owners"
    using booking_call_owner [OF accepted_one_reachable] by (simp add: empty_bookings_def)
  then have "owned_booking ''b3'' ''olive'' accepted_one = Some ?b"
    by (simp add: owned_booking_def accepted_one_rows row_of_def example_owners_def)
  moreover have "\<not> taken_by_another ?b accepted_one"
    by (simp add: taken_by_another_def accepted_one_rows row_of_def occupancy)
  ultimately have "booking_rows accepted_db = accepted_rows 40 ?b accepted_one"
    using accept_run [OF reachable_inv [OF accepted_one_reachable], of "calm 40 ''y''" "''b3''" "''olive''" ?b 40]
    unfolding accepted_db_def by (auto simp: calm_def row_of_def)
  then show ?thesis by (simp add: accepted_rows_def rivals_def accepted_one_rows row_of_def move_row_def)
qed

theorem no_double_booking_witness:
  "booking_call\<^sup>*\<^sup>* (empty_bookings example_owners) accepted_db \<and>
   bk_endAt (row_of ''b1'' 10 ''rob'' ''q1'' 100 300 ACCEPTED 30) \<le> bk_startAt (row_of ''b3'' 25 ''tim'' ''q3'' 300 600 ACCEPTED 40)"
  using no_double_booking [OF accepted_reachable, of "row_of ''b1'' 10 ''rob'' ''q1'' 100 300 ACCEPTED 30"
      "row_of ''b3'' 25 ''tim'' ''q3'' 300 600 ACCEPTED 40"] accepted_reachable
  by (auto simp: accepted_rows_value row_of_def occupancy)


theorem quote_taken_once_witness:
  "\<exists>q \<in> set (quote_rows accepted_db). qt_id q = ''q1''"
  using quote_taken_once [OF accepted_reachable, of "row_of ''b1'' 10 ''rob'' ''q1'' 100 300 ACCEPTED 30"]
  by (simp add: accepted_rows_value row_of_def)

end
