(* ===== verification/Payment_Safety.thy ===== *)
theory Payment_Safety
  imports Payments
begin

section \<open>What no sequence of payments can do\<close>

text \<open>
  The invariant of the payment tables under the atomic writes the service makes, in any order and by
  any number of concurrent calls: \<open>pay_step\<close> has one rule per write. The count of failed attempts in a
  key may be stale, as it is when two calls overlap; the status an outcome is compared with is the
  stored one. The lemmas \<open>..._steps\<close> show that every method of the service moves along these steps.
\<close>

subsection \<open>The steps\<close>

definition attempts_of :: "IntentRow list \<Rightarrow> string \<Rightarrow> PaymentIntentPurpose \<Rightarrow> IntentRow list" where
  "attempts_of rows b p = filter (\<lambda>r. rowBookingId r = b \<and> rowPurpose r = p) rows"

definition failed_count :: "IntentRow list \<Rightarrow> string \<Rightarrow> PaymentIntentPurpose \<Rightarrow> nat" where
  "failed_count rows b p = length (filter (\<lambda>r. rowStatus r = Reached Failed) (attempts_of rows b p))"

definition captured :: "LedgerDb \<Rightarrow> IntentRow \<Rightarrow> bool" where
  "captured l r \<longleftrightarrow> (\<exists>t \<in> set (ledger_transactions l). idempotencyKey t = hireCaptureKey (rowBookingId r) \<and>
     side_total Debit (entries t) = amountMinor r)"

inductive pay_step :: "PayDb \<Rightarrow> PayDb \<Rightarrow> bool" where
  begin_step: "insert_intent (new_intent_row i now intent) db = Some db' \<Longrightarrow>
    attemptKey intent = key_for (purpose_of (intentTerms intent)) (intentBookingId intent) k \<Longrightarrow>
    k \<le> failed_count (intents db) (intentBookingId intent) (purpose_of (intentTerms intent)) \<Longrightarrow> pay_step db db'"
| account_step: "insert_account a (ledger db) = Some l \<Longrightarrow> plain_id (ledgerAccountId a) \<Longrightarrow> pay_step db (db\<lparr>ledger := l\<rparr>)"
| posting_step: "insert_transaction t (ledger db) = Some l \<Longrightarrow> pay_step db (db\<lparr>ledger := l\<rparr>)"
| outcome_step: "r \<in> set (intents db) \<Longrightarrow> dispositionOf (rowStatus r) (outcomeStatus oc) = Inr Apply \<Longrightarrow>
    (outcomeStatus oc = Succeeded \<and> rowPurpose r = HireChargePurpose \<longrightarrow> captured (ledger db) r) \<Longrightarrow>
    update_intent (rowId r) (outcome_on now oc) db = Some (db', r') \<Longrightarrow> pay_step db db'"

inductive_cases pay_stepE: "pay_step db db'"

subsection \<open>The invariant\<close>

definition attempts_inv :: "IntentRow list \<Rightarrow> bool" where
  "attempts_inv rows \<longleftrightarrow> (\<forall>b p. let rs = attempts_of rows b p in
     map rowAttemptKey rs = map (key_for p b) [0..<length rs] \<and>
     (\<forall>r \<in> set (butlast rs). rowStatus r = Reached Failed))"

definition pay_inv :: "PayDb \<Rightarrow> bool" where
  "pay_inv db \<longleftrightarrow> intents_ok db \<and> attempts_inv (intents db) \<and> ledger_inv (ledger db) \<and>
     (\<forall>a \<in> set (ledger_accounts (ledger db)). plain_id (ledgerAccountId a)) \<and>
     (\<forall>r \<in> set (intents db). rowStatus r = Reached Succeeded \<and> rowPurpose r = HireChargePurpose \<longrightarrow> captured (ledger db) r)"

lemma outcome_on_simps [simp]: "rowId (outcome_on now oc r) = rowId r" "rowBookingId (outcome_on now oc r) = rowBookingId r"
  "rowPurpose (outcome_on now oc r) = rowPurpose r" "rowAttemptKey (outcome_on now oc r) = rowAttemptKey r"
  "rowStatus (outcome_on now oc r) = Reached (outcomeStatus oc)" "amountMinor (outcome_on now oc r) = amountMinor r"
  "rowOwnerId (outcome_on now oc r) = rowOwnerId r"
  by (simp_all add: outcome_on_def)

lemma new_intent_row_simps [simp]: "rowId (new_intent_row i now intent) = i"
  "rowBookingId (new_intent_row i now intent) = intentBookingId intent"
  "rowPurpose (new_intent_row i now intent) = purpose_of (intentTerms intent)"
  "rowAttemptKey (new_intent_row i now intent) = attemptKey intent" "rowStatus (new_intent_row i now intent) = Initiated"
  by (simp_all add: new_intent_row_def)

lemma attempts_of_map:
  assumes "\<And>r. rowBookingId (u r) = rowBookingId r" "\<And>r. rowPurpose (u r) = rowPurpose r"
  shows "attempts_of (map u rows) b p = map u (attempts_of rows b p)"
  unfolding attempts_of_def filter_map by (intro arg_cong [of _ _ "map u"] filter_cong) (simp_all add: assms)

lemma attempts_of_append: "attempts_of (xs @ ys) b p = attempts_of xs b p @ attempts_of ys b p"
  by (simp add: attempts_of_def)

lemma attempts_inv_update:
  assumes inv: "attempts_inv rows" and ok: "intent_table_ok rows"
    and r: "r \<in> set rows" "rowStatus r \<noteq> Reached Failed"
  shows "attempts_inv (map (\<lambda>x. if rowId x = rowId r then outcome_on now oc x else x) rows)"
  unfolding attempts_inv_def Let_def
proof (intro allI conjI)
  fix b p
  define u where "u = (\<lambda>x. if rowId x = rowId r then outcome_on now oc x else x)"
  define rs where "rs = attempts_of rows b p"
  have u: "rowBookingId (u x) = rowBookingId x" "rowPurpose (u x) = rowPurpose x" "rowAttemptKey (u x) = rowAttemptKey x" for x
    by (simp_all add: u_def)
  have a: "attempts_of (map u rows) b p = map u rs" unfolding rs_def by (rule attempts_of_map) (simp_all add: u)
  have i: "map rowAttemptKey rs = map (key_for p b) [0..<length rs]" "\<forall>x \<in> set (butlast rs). rowStatus x = Reached Failed"
    using inv by (auto simp: attempts_inv_def Let_def rs_def)
  show "map rowAttemptKey (attempts_of (map (\<lambda>x. if rowId x = rowId r then outcome_on now oc x else x) rows) b p) =
      map (key_for p b) [0..<length (attempts_of (map (\<lambda>x. if rowId x = rowId r then outcome_on now oc x else x) rows) b p)]"
    unfolding u_def [symmetric] a using i(1) by (simp add: u o_def)
  have "u x = x" if "x \<in> set (butlast rs)" for x
  proof -
    have "x \<in> set rows" using that by (auto simp: rs_def attempts_of_def dest: in_set_butlastD)
    then show ?thesis using that i(2) r table_unique [OF ok, of x r] by (auto simp: u_def)
  qed
  then show "\<forall>x \<in> set (butlast (attempts_of (map (\<lambda>x. if rowId x = rowId r then outcome_on now oc x else x) rows) b p)).
      rowStatus x = Reached Failed"
    unfolding u_def [symmetric] a using i(2) by (simp add: map_butlast [symmetric])
qed

lemma filter_all_length: "length (filter P xs) = length xs \<Longrightarrow> x \<in> set xs \<Longrightarrow> P x"
  by (metis filter_id_conv length_filter_less nat_neq_iff)

lemma attempts_inv_begin:
  assumes inv: "attempts_inv rows" and ok: "intent_table_ok (rows @ [new])"
    and key: "rowAttemptKey new = key_for (rowPurpose new) (rowBookingId new) k"
    and stale: "k \<le> failed_count rows (rowBookingId new) (rowPurpose new)"
  shows "attempts_inv (rows @ [new])"
  unfolding attempts_inv_def Let_def
proof (intro allI)
  fix b p
  define rs where "rs = attempts_of rows b p"
  have i: "map rowAttemptKey rs = map (key_for p b) [0..<length rs]" "\<forall>x \<in> set (butlast rs). rowStatus x = Reached Failed"
    using inv by (auto simp: attempts_inv_def Let_def rs_def)
  show "map rowAttemptKey (attempts_of (rows @ [new]) b p) = map (key_for p b) [0..<length (attempts_of (rows @ [new]) b p)] \<and>
    (\<forall>r \<in> set (butlast (attempts_of (rows @ [new]) b p)). rowStatus r = Reached Failed)"
  proof (cases "rowBookingId new = b \<and> rowPurpose new = p")
    case True
    have "rowAttemptKey new \<notin> rowAttemptKey ` set rs"
      using ok by (auto simp: intent_table_ok_def rs_def attempts_of_def)
    then have "key_for p b k \<notin> set (map (key_for p b) [0..<length rs])"
      using key True i(1) by (metis list.set_map)
    then have "length rs \<le> k" by (auto simp: key_for_inj)
    moreover have "k \<le> length (filter (\<lambda>r. rowStatus r = Reached Failed) rs)"
      using stale True by (simp add: failed_count_def rs_def)
    moreover have "length (filter (\<lambda>r. rowStatus r = Reached Failed) rs) \<le> length rs" by simp
    ultimately have k: "k = length rs" and all: "length (filter (\<lambda>r. rowStatus r = Reached Failed) rs) = length rs" by linarith+
    have g: "attempts_of (rows @ [new]) b p = rs @ [new]"
      using True by (simp add: attempts_of_append rs_def) (simp add: attempts_of_def)
    have "\<forall>r \<in> set rs. rowStatus r = Reached Failed" using filter_all_length [OF all] by blast
    moreover have "map rowAttemptKey (rs @ [new]) = map (key_for p b) ([0..<length rs] @ [length rs])"
      using i(1) key True k by simp
    ultimately show ?thesis unfolding g by simp
  next
    case False
    then have "attempts_of (rows @ [new]) b p = rs" by (auto simp: attempts_of_append rs_def attempts_of_def)
    with i show ?thesis by simp
  qed
qed

lemma captured_mono:
  "captured l r \<Longrightarrow> insert_transaction t l = Some l' \<Longrightarrow> captured l' r"
  "captured l r \<Longrightarrow> insert_account a l = Some l'' \<Longrightarrow> captured l'' r"
  by (auto simp: captured_def insert_transaction_def insert_account_def split: if_splits)

lemma pay_step_inv:
  assumes "pay_step db db'" "pay_inv db"
  shows "pay_inv db'"
  using assms(1)
proof cases
  case (begin_step i now intent k)
  then have db': "db' = db\<lparr>intents := intents db @ [new_intent_row i now intent]\<rparr>"
    "intent_table_ok (intents db @ [new_intent_row i now intent])"
    by (auto simp: insert_intent_def split: if_splits)
  have "attempts_inv (intents db')"
    unfolding db'(1) using assms(2) begin_step db'(2)
    by (simp add: pay_inv_def attempts_inv_begin [of "intents db" "new_intent_row i now intent" k])
  moreover have "intents_ok db'" using insert_intent_ok [OF begin_step(1)] assms(2) by (simp add: pay_inv_def)
  ultimately show ?thesis using assms(2) by (auto simp: pay_inv_def db'(1))
next
  case (account_step a l)
  then show ?thesis
    using assms(2) insert_account_inv [OF account_step(2)] captured_mono(2) [OF _ account_step(2)]
    by (auto simp: pay_inv_def intents_ok_def insert_account_def split: if_splits)
next
  case (posting_step t l)
  then show ?thesis
    using assms(2) insert_transaction_inv [OF posting_step(2)] captured_mono(1) [OF _ posting_step(2)]
    by (auto simp: pay_inv_def intents_ok_def insert_transaction_def split: if_splits)
next
  case (outcome_step r oc now r')
  obtain x where x: "x \<in> set (intents db)" "rowId x = rowId r" "r' = outcome_on now oc x"
    "db' = db\<lparr>intents := map (\<lambda>x. if rowId x = rowId r then outcome_on now oc x else x) (intents db)\<rparr>"
    using update_intent_Some [OF outcome_step(4)] by blast
  have ok: "intents_ok db'" using update_intent_ok [OF outcome_step(4)] assms(2) by (simp add: pay_inv_def)
  have only: "y = r" if "y \<in> set (intents db)" "rowId y = rowId r" for y
    using that outcome_step(1) assms(2) table_unique [of "intents db" y r] by (simp add: pay_inv_def intents_ok_def)
  have "rowStatus r \<noteq> Reached Failed"
    using outcome_step(2) by (auto simp: dispositionOf_def isTerminal_intent_def TERMINAL_STATUSES_def split: if_splits)
  then have "attempts_inv (intents db')"
    using assms(2) outcome_step(1) attempts_inv_update [of "intents db" r now oc]
    by (simp add: x(4) pay_inv_def intents_ok_def)
  moreover have "captured (ledger db') y" if "y \<in> set (intents db')" "rowStatus y = Reached Succeeded" "rowPurpose y = HireChargePurpose" for y
  proof -
    note y = that
    obtain z where z: "z \<in> set (intents db)" "y = (if rowId z = rowId r then outcome_on now oc z else z)"
      using y(1) by (auto simp: x(4))
    show ?thesis
    proof (cases "rowId z = rowId r")
      case True
      then have "z = r" using only z(1) by simp
      with True z y outcome_step(3) have "captured (ledger db) r" by simp
      with \<open>z = r\<close> z show ?thesis by (simp add: captured_def x(4))
    next
      case False
      with z y assms(2) have "captured (ledger db) y" by (simp add: pay_inv_def)
      then show ?thesis by (simp add: x(4))
    qed
  qed
  ultimately show ?thesis using assms(2) ok by (auto simp: pay_inv_def x(4))
qed

lemma pay_steps_inv: "pay_step\<^sup>*\<^sup>* db db' \<Longrightarrow> pay_inv db \<Longrightarrow> pay_inv db'"
  by (induction rule: rtranclp_induct) (auto intro: pay_step_inv)

definition empty_pay :: "LedgerDb \<Rightarrow> (string \<Rightarrow> bool) \<Rightarrow> PayDb" where
  "empty_pay l versions = \<lparr>intents = [], ledger = l, known_versions = versions\<rparr>"

lemma empty_pay_inv: "pay_inv (empty_pay (empty_ledger us bs) vs)"
  by (simp add: pay_inv_def empty_pay_def intents_ok_def intent_table_ok_def attempts_inv_def attempts_of_def
      empty_ledger_inv) (simp add: empty_ledger_def)

subsection \<open>The service moves along the steps\<close>

definition ledger_only :: "PayDb \<Rightarrow> PayDb \<Rightarrow> bool" where
  "ledger_only db db' \<longleftrightarrow> intents db' = intents db \<and>
     set (ledger_accounts (ledger db)) \<subseteq> set (ledger_accounts (ledger db')) \<and> (pay_inv db \<longrightarrow> pay_step\<^sup>*\<^sup>* db db')"

lemma ledger_only_refl: "reflp ledger_only"
  by (simp add: reflp_def ledger_only_def)

lemma ledger_only_trans: "transp ledger_only"
proof (rule transpI)
  fix x y z
  assume "ledger_only x y" "ledger_only y z"
  then show "ledger_only x z" using pay_steps_inv [of x y] by (auto simp: ledger_only_def)
qed

lemmas ledger_only_intros = stable_simple [OF ledger_only_refl] stable_await [OF ledger_only_trans]

lemma accountFor_id:
  assumes "accountFor id n spec l = Inr (l', a)"
  shows "a \<in> set (ledger_accounts l') \<and> (l' = l \<or> insert_account a l = Some l' \<and> ledgerAccountId a = n)"
  using assms by (auto simp: accountFor_def store_accountFor_def findByIdentity_def Let_def result_simps
      insert_account_def split: option.splits if_splits dest!: find_Some_mem)

lemma post_id:
  assumes "post id n now d l = Inr (l', p)"
  shows "l' = l \<or> insert_transaction p l = Some l'"
  using post_Inr(1) [OF assms]
  by (auto simp: store_post_def Let_def split: option.splits if_splits)

lemma account_ledger_only:
  assumes "plain_id n"
  shows "stable ledger_only (in_ledger (accountFor id n spec))"
proof -
  have "ledger_only db (db\<lparr>ledger := l'\<rparr>)" if "accountFor id n spec (ledger db) = Inr (l', a)" for db l' a
    using accountFor_id [OF that, THEN conjunct2]
  proof
    assume i: "insert_account a (ledger db) = Some l' \<and> ledgerAccountId a = n"
    then have "pay_step db (db\<lparr>ledger := l'\<rparr>)" using assms by (auto intro: pay_step.account_step)
    with i show ?thesis by (auto simp: ledger_only_def insert_account_def split: if_splits)
  qed (simp add: ledger_only_def)
  then show ?thesis
    using ledger_only_refl by (auto simp: stable_def in_ledger_def reflp_def split: sum.splits)
qed

lemma post_ledger_only: "stable ledger_only (in_ledger (post id n now d))"
proof -
  have "ledger_only db (db\<lparr>ledger := l'\<rparr>)" if "post id n now d (ledger db) = Inr (l', p)" for db l' p
    using post_id [OF that]
  proof
    assume i: "insert_transaction p (ledger db) = Some l'"
    then have "pay_step db (db\<lparr>ledger := l'\<rparr>)" by (rule pay_step.posting_step)
    with i show ?thesis by (auto simp: ledger_only_def insert_transaction_def split: if_splits)
  qed (simp add: ledger_only_def)
  then show ?thesis
    using ledger_only_refl by (auto simp: stable_def in_ledger_def reflp_def split: sum.splits)
qed

definition plain_env :: "PayEnv \<Rightarrow> bool" where
  "plain_env env \<longleftrightarrow> (\<forall>k. plain_id (accountNewId env k))"

lemma postCapture_ledger_only: "plain_env env \<Longrightarrow> stable ledger_only (postCapture env policies intent item fee' attempt)"
  unfolding postCapture_def Let_def
  by (intro ledger_only_intros account_ledger_only post_ledger_only) (simp_all add: plain_env_def)

lemma credits_no_debit:
  "side_total Debit (map (\<lambda>x. \<lparr>entryAccountId = f x, direction = Credit, entryAmount = g x\<rparr>) xs) = 0"
  by (induction xs) (simp_all add: side_total_def)

lemma hireCaptureEntries_debit:
  assumes "hireCaptureEntries s cl py rv = Inr es"
  shows "side_total Debit es = amount (renterPays s) \<and> (\<forall>e \<in> set es. entryAccountId e \<in> {cl, py, rv})"
proof -
  define shares where "shares = filter (\<lambda>s. amount (shareAmount s) \<noteq> 0)
         [\<lparr>shareAccountId = py, shareAmount = ownerEarns s\<rparr>, \<lparr>shareAccountId = rv, shareAmount = platformEarns s\<rparr>]"
  have es: "es = \<lparr>entryAccountId = cl, direction = Debit, entryAmount = renterPays s\<rparr>
      # map (\<lambda>s. \<lparr>entryAccountId = shareAccountId s, direction = Credit, entryAmount = shareAmount s\<rparr>) shares"
    using assms unfolding hireCaptureEntries_def shares_def [symmetric]
    by (auto simp: apportion_def result_simps split: if_splits)
  have "side_total Debit es = amount (renterPays s)"
    unfolding es using credits_no_debit [of shareAccountId shareAmount shares] by (simp add: side_total_def)
  moreover have "\<forall>x \<in> set shares. shareAccountId x \<in> {py, rv}" by (auto simp: shares_def)
  ultimately show ?thesis by (auto simp: es)
qed

lemma side_total_mset: "mset as = mset bs \<Longrightarrow> side_total d as = side_total d bs"
  unfolding side_total_def by (simp flip: sum_mset_sum_list)

lemma settle_Inr: "settle policies b v c = Inr s \<Longrightarrow> renterPays s = chargeTotal c"
  using settleHire_conserves(1) by (auto simp: settle_def split: option.splits sum.splits LedgerError.splits)

lemma in_ledger_Inr: "in_ledger f db = (Inr x, db') \<longleftrightarrow> (\<exists>l. f (ledger db) = Inr (l, x) \<and> db' = db\<lparr>ledger := l\<rparr>)"
  by (auto simp: in_ledger_def split: sum.splits)

lemma postCapture_captured:
  assumes inv: "pay_inv db" and env: "plain_env env"
    and run: "postCapture env policies (record_of r) item fee' attempt db = (Inr (), db')"
  shows "captured (ledger db') r"
proof -
  obtain s c1 c2 c3 db1 db2 db3 es p where
    s: "settle policies (rowBookingId r) (rowVersionId r) \<lparr>chargeItem = item, chargeFee = fee', chargeTotal = intentAmount (record_of r)\<rparr> = Inr s"
    and a1: "in_ledger (accountFor id (accountNewId env ProviderClearing)
        \<lparr>accountKind = ProviderClearing, accountCurrency = currency (renterPays s), accountOwnerId = None\<rparr>) db = (Inr c1, db1)"
    and a2: "in_ledger (accountFor id (accountNewId env OwnerPayable)
        \<lparr>accountKind = OwnerPayable, accountCurrency = currency (renterPays s), accountOwnerId = Some (rowOwnerId r)\<rparr>) db1 = (Inr c2, db2)"
    and a3: "in_ledger (accountFor id (accountNewId env PlatformRevenue)
        \<lparr>accountKind = PlatformRevenue, accountCurrency = currency (renterPays s), accountOwnerId = None\<rparr>) db2 = (Inr c3, db3)"
    and es: "hireCaptureEntries s (ledgerAccountId c1) (ledgerAccountId c2) (ledgerAccountId c3) = Inr es"
    and po: "in_ledger (post id (transactionNewId env) (payNow env) (captureDraft (rowBookingId r) (currency (renterPays s))
        (case attemptOccurredAt attempt of Some t \<Rightarrow> t | None \<Rightarrow> payNow env) es)) db3 = (Inr p, db')"
    using run unfolding postCapture_def Let_def
    by (auto simp: await_Inr_iff action_defs result_simps)
  have pl: "plain_id (accountNewId env k)" for k using env by (simp add: plain_env_def)
  note o1 = stable_run [OF account_ledger_only [OF pl] a1] and o2 = stable_run [OF account_ledger_only [OF pl] a2]
    and o3 = stable_run [OF account_ledger_only [OF pl] a3] and o4 = stable_run [OF post_ledger_only po]
  have i1: "pay_inv db1" using o1 inv pay_steps_inv by (auto simp: ledger_only_def)
  have i2: "pay_inv db2" using o2 i1 pay_steps_inv by (auto simp: ledger_only_def)
  have i3: "pay_inv db3" using o3 i2 pay_steps_inv by (auto simp: ledger_only_def)
  have i4: "pay_inv db'" using o4 i3 pay_steps_inv by (auto simp: ledger_only_def)
  have "c1 \<in> set (ledger_accounts (ledger db1))" "c2 \<in> set (ledger_accounts (ledger db2))" "c3 \<in> set (ledger_accounts (ledger db3))"
    using a1 a2 a3 accountFor_id by (auto simp: in_ledger_Inr)
  then have acc: "{c1, c2, c3} \<subseteq> set (ledger_accounts (ledger db'))" using o2 o3 o4 by (auto simp: ledger_only_def)
  define d where "d = captureDraft (rowBookingId r) (currency (renterPays s))
        (case attemptOccurredAt attempt of Some t \<Rightarrow> t | None \<Rightarrow> payNow env) es"
  have po': "post id (transactionNewId env) (payNow env) d (ledger db3) = Inr (ledger db', p)"
    using po by (auto simp: in_ledger_Inr d_def)
  have p: "p \<in> set (ledger_transactions (ledger db'))" "idempotencyKey p = hireCaptureKey (rowBookingId r)"
    using post_steps [OF po' lawful_id(1)] by (auto simp: d_def captureDraft_def)
  have plain: "plain_id (ledgerAccountId a)" if "a \<in> set (ledger_accounts (ledger db'))" for a
    using that i4 by (simp add: pay_inv_def)
  have "entries d = es" by (simp add: d_def captureDraft_def)
  moreover have "list_all (\<lambda>e. plain_id (entryAccountId e)) es"
    using hireCaptureEntries_debit [OF es] acc plain by (auto simp: list_all_iff)
  moreover have "list_all (\<lambda>e. plain_id (entryAccountId e)) (entries p)"
  proof -
    have "transaction_ok (ledger db') p" using p(1) i4 by (simp add: pay_inv_def ledger_inv_def)
    then show ?thesis using plain by (fastforce simp: list_all_iff transaction_ok_def)
  qed
  moreover have "fingerprintOf (entries d) = fingerprintOf (entries p)"
    using post_Inr(2) [OF po'] by (simp add: sameTransaction_def)
  ultimately have "mset es = mset (entries p)" using fingerprint_iff_aux by metis
  then have "side_total Debit (entries p) = amountMinor r"
    using hireCaptureEntries_debit [OF es] settle_Inr [OF s] side_total_mset [of es "entries p"] by simp
  with p show ?thesis by (auto simp: captured_def)
qed

lemma recordOutcome_steps:
  assumes inv: "pay_inv db" and r: "r \<in> set (intents db)"
    and d: "dispositionOf (rowStatus r) (outcomeStatus oc) = Inr Apply"
    and c: "outcomeStatus oc = Succeeded \<and> rowPurpose r = HireChargePurpose \<longrightarrow> captured (ledger db) r"
  shows "pay_step\<^sup>*\<^sup>* db (snd (recordOutcome now (rowId r) oc db))"
proof (cases "update_intent (rowId r) (outcome_on now oc) db")
  case None
  then show ?thesis by (simp add: recordOutcome_def)
next
  case (Some u)
  obtain db' r' where u: "u = (db', r')" by (cases u)
  have "pay_step db db'" using pay_step.outcome_step [OF r d c] Some u by simp
  then show ?thesis using Some u by (auto simp: recordOutcome_def split: sum.splits)
qed

lemma applyOutcome_steps:
  assumes inv: "pay_inv db" and env: "plain_env env" and r: "r \<in> set (intents db)"
  shows "pay_step\<^sup>*\<^sup>* db (snd (applyOutcome env policies (record_of r) attempt db))"
proof (cases "dispositionOf (rowStatus r) (attemptStatus attempt)")
  case (Inl e)
  then show ?thesis by (simp add: applyOutcome_def await_def action_defs)
next
  case (Inr d)
  show ?thesis
  proof (cases d)
    case (Ignore w)
    with Inr show ?thesis by (simp add: applyOutcome_def await_def action_defs)
  next
    case Apply
    define oc where "oc = \<lparr>outcomeStatus = attemptStatus attempt, outcomeReference = attemptReference attempt,
               outcomeExpiresAt = attemptExpiresAt attempt, outcomeFailure = attemptFailure attempt\<rparr>"
    define pc where "pc = (case (attemptStatus attempt, terms_of r) of
        (Succeeded, HireChargeTerms item fee') \<Rightarrow> postCapture env policies (record_of r) item fee' attempt | _ \<Rightarrow> done_with ())"
    have run: "applyOutcome env policies (record_of r) attempt db = await pc (\<lambda>_. recordOutcome (payNow env) (rowId r) oc) db"
      using Inr Apply by (simp add: applyOutcome_def await_def action_defs pc_def oc_def)
    have st: "stable ledger_only pc"
      unfolding pc_def using postCapture_ledger_only [OF env] ledger_only_intros(1)
      by (auto split: PaymentAttemptStatus.split IntentTerms.split)
    obtain res db1 where p: "pc db = (res, db1)" by (cases "pc db")
    from stable_run [OF st p] inv have s1: "pay_step\<^sup>*\<^sup>* db db1" and i1: "intents db1 = intents db" by (auto simp: ledger_only_def)
    have inv1: "pay_inv db1" using pay_steps_inv [OF s1 inv] .
    show ?thesis
    proof (cases res)
      case (Inl e)
      then show ?thesis using run p s1 by (simp add: await_def)
    next
      case (Inr u)
      have "captured (ledger db1) r" if s: "attemptStatus attempt = Succeeded" "rowPurpose r = HireChargePurpose"
      proof -
        have "pc = postCapture env policies (record_of r) (pence (the (itemChargeMinor r))) (pence (the (renterFeeMinor r))) attempt"
          using s by (simp add: pc_def terms_of_def)
        with p Inr postCapture_captured [OF inv env] show ?thesis by simp
      qed
      then have "pay_step\<^sup>*\<^sup>* db1 (snd (recordOutcome (payNow env) (rowId r) oc db1))"
        using r i1 \<open>dispositionOf (rowStatus r) (attemptStatus attempt) = Inr d\<close> Apply
        by (intro recordOutcome_steps [OF inv1]) (auto simp: oc_def)
      with s1 show ?thesis using run p Inr by (simp add: await_def)
    qed
  qed
qed

lemma attemptKeyFor_key:
  assumes "intents_ok db"
  shows "attemptKeyFor b p db = Inr (key_for p b (failed_count (intents db) b p))"
proof -
  define rows where "rows = sort_key (\<lambda>r. - rowCreatedAt r) (filter (\<lambda>r. rowBookingId r = b) (intents db))"
  have "rmap toIntentRecord rows = Inr (map record_of rows)"
    by (rule rmap_cong_Inr) (use assms toIntentRecord_ok in \<open>auto simp: rows_def intents_ok_def\<close>)
  moreover have "length (filter (\<lambda>a. purpose_of (intentTerms a) = p \<and> intentStatus a = Reached Failed) (map record_of rows))
      = failed_count (intents db) b p"
  proof -
    have "length (filter (\<lambda>a. purpose_of (intentTerms a) = p \<and> intentStatus a = Reached Failed) (map record_of rows))
        = size (filter_mset (\<lambda>r. rowPurpose r = p \<and> rowStatus r = Reached Failed) (mset rows))"
      by (simp add: filter_map o_def flip: mset_filter)
    also have "mset rows = mset (filter (\<lambda>r. rowBookingId r = b) (intents db))" by (simp add: rows_def)
    finally show ?thesis
      by (simp add: failed_count_def attempts_of_def conj_commute conj_left_commute flip: mset_filter)
  qed
  ultimately show ?thesis
    by (cases p) (simp_all add: attemptKeyFor_def findForBooking_def rows_def [symmetric] key_for_def Let_def)
qed

lemma begin_intent_steps:
  assumes inv: "pay_inv db"
    and key: "attemptKey intent = key_for (purpose_of (intentTerms intent)) (intentBookingId intent)
      (failed_count (intents db) (intentBookingId intent) (purpose_of (intentTerms intent)))"
    and run: "begin_intent id n now intent db = (res, db')"
  shows "pay_step\<^sup>*\<^sup>* db db' \<and> (\<forall>found. res = Inr found \<longrightarrow> (\<exists>r \<in> set (intents db'). found = record_of r))"
proof (cases "findByAttemptKey (attemptKey intent) db")
  case (Some e)
  then have "e \<in> set (intents db)" by (auto simp: findByAttemptKey_def dest: find_Some_mem)
  moreover from this have "toIntentRecord e = Inr (record_of e)"
    using inv toIntentRecord_ok by (simp add: pay_inv_def intents_ok_def)
  ultimately show ?thesis using run Some by (auto simp: begin_intent_def)
next
  case None
  show ?thesis
  proof (cases "insert_intent (new_intent_row n now intent) db")
    case (Some db2)
    have "pay_step db db2" using pay_step.begin_step [OF Some key] by simp
    moreover have "intent_row_ok (new_intent_row n now intent)" "new_intent_row n now intent \<in> set (intents db2)"
      using Some by (auto simp: insert_intent_def split: if_splits)
    ultimately show ?thesis using run None Some toIntentRecord_ok by (auto simp: begin_intent_def)
  next
    case N: None
    with run None show ?thesis by (auto simp: begin_intent_def)
  qed
qed

lemma await_snd_Inl: "m s = (Inl e, s') \<Longrightarrow> snd (await m f s) = s'"
  and await_snd_Inr: "m s = (Inr x, s') \<Longrightarrow> snd (await m f s) = snd (f x s')"
  by (simp_all add: await_def)

lemma assertSameAttempt_Inr: "assertSameAttempt proposed found = Inr x \<Longrightarrow> x = found"
  by (auto simp: assertSameAttempt_def split: if_splits)

text \<open>What the two flows share: find or open the attempt, ask the provider, write the answer down.\<close>

lemma attempt_flow_steps:
  assumes inv: "pay_inv db" and env: "plain_env env"
    and key: "attemptKey proposed = key_for (purpose_of (intentTerms proposed)) (intentBookingId proposed)
      (failed_count (intents db) (intentBookingId proposed) (purpose_of (intentTerms proposed)))"
    and k: "\<And>r attempt db'. pay_inv db' \<Longrightarrow> r \<in> set (intents db') \<Longrightarrow> pay_step\<^sup>*\<^sup>* db' (snd (rest (record_of r) db'))"
  shows "pay_step\<^sup>*\<^sup>* db (snd (await (begin_intent id n now proposed)
    (\<lambda>found. await (pure_step (assertSameAttempt proposed found)) rest) db))"
proof -
  obtain res db1 where b: "begin_intent id n now proposed db = (res, db1)" by (cases "begin_intent id n now proposed db")
  note s = begin_intent_steps [OF inv key b]
  show ?thesis
  proof (cases res)
    case (Inl e)
    with b s show ?thesis by (simp add: await_def)
  next
    case (Inr found)
    with s obtain r where r: "r \<in> set (intents db1)" "found = record_of r" by auto
    have inv1: "pay_inv db1" using s inv pay_steps_inv by blast
    show ?thesis
    proof (cases "assertSameAttempt proposed found")
      case Inl
      with b Inr s show ?thesis by (simp add: await_def action_defs)
    next
      case same: (Inr x)
      then have "x = record_of r" using assertSameAttempt_Inr r by blast
      with b Inr same have "snd (await (begin_intent id n now proposed)
          (\<lambda>found. await (pure_step (assertSameAttempt proposed found)) rest) db) = snd (rest (record_of r) db1)"
        by (simp add: await_def action_defs)
      with s k [OF inv1 r(1)] show ?thesis by (metis rtranclp_trans)
    qed
  qed
qed

lemma provider_then_apply_steps:
  assumes "pay_inv db" "plain_env env" "r \<in> set (intents db)"
    and after: "\<And>attempt x db'. snd (after attempt x db') = db'"
  shows "pay_step\<^sup>*\<^sup>* db (snd (await (call_provider answer) (\<lambda>attempt.
    await (applyOutcome env policies (record_of r) attempt) (after attempt)) db))"
proof (cases answer)
  case (Inl e)
  then show ?thesis by (simp add: await_def call_provider_def action_defs)
next
  case (Inr attempt)
  obtain res db1 where a: "applyOutcome env policies (record_of r) attempt db = (res, db1)"
    by (cases "applyOutcome env policies (record_of r) attempt db")
  with applyOutcome_steps [OF assms(1-3), of policies attempt] have "pay_step\<^sup>*\<^sup>* db db1" by simp
  then show ?thesis using Inr a after by (cases res) (simp_all add: await_def call_provider_def action_defs)
qed

lemma payForHire_steps:
  assumes inv: "pay_inv db" and env: "plain_env env"
  shows "pay_step\<^sup>*\<^sup>* db (snd (payForHire env provider policies ins db))"
proof (cases "settle policies (payBookingId ins) (payVersionId ins) (payCharge ins)")
  case (Inl e)
  then show ?thesis by (simp add: payForHire_def await_def action_defs)
next
  case (Inr s)
  have ok: "intents_ok db" using inv by (simp add: pay_inv_def)
  show ?thesis
    unfolding payForHire_def Let_def
    apply (subst await_snd_Inr [where x = s and s' = db])
     apply (simp add: pure_step_def Inr)
    apply (subst await_snd_Inr [where s' = db], simp add: query_def attemptKeyFor_key [OF ok])
    apply (rule attempt_flow_steps [OF inv env])
     apply simp
    apply (auto simp: done_with_def intro!: provider_then_apply_steps [OF _ env])
    done
qed

lemma asHold_Inr: "asHold x = Inr y \<Longrightarrow> y = x"
  by (auto simp: asHold_def split: if_splits)

lemma holdDamageSecurity_steps:
  assumes inv: "pay_inv db" and env: "plain_env env"
  shows "pay_step\<^sup>*\<^sup>* db (snd (holdDamageSecurity env provider policies ins db))"
proof (cases "holdExcess ins")
  case None
  then show ?thesis by (simp add: holdDamageSecurity_def done_with_def)
next
  case (Some excess)
  have ok: "intents_ok db" using inv by (simp add: pay_inv_def)
  have tail: "pay_step\<^sup>*\<^sup>* db' (snd (await (pure_step (asHold (record_of r))) (\<lambda>intent.
           if intentStatus intent \<noteq> Initiated then done_with (Attempted intent None)
           else await (call_provider (providerHold provider
                      \<lparr>requestKey = attemptKey intent, requestAmount = excess, requestDescription = holdItemTitle ins\<rparr>)) (\<lambda>attempt.
             await (applyOutcome env policies intent attempt) (\<lambda>applied.
             await (pure_step (asHold applied)) (\<lambda>recorded.
               done_with (Attempted recorded (attemptPayerAction attempt)))))) db'))"
    if "pay_inv db'" "r \<in> set (intents db')" for r db'
  proof (cases "asHold (record_of r)")
    case (Inl e)
    then show ?thesis by (simp add: await_def action_defs)
  next
    case (Inr x)
    then have x: "x = record_of r" by (rule asHold_Inr)
    have a: "snd (await (pure_step (asHold applied)) (\<lambda>recorded. done_with (Attempted recorded action)) d) = d" for applied action d
      by (cases "asHold applied") (simp_all add: await_def action_defs)
    have p: "pay_step\<^sup>*\<^sup>* db' (snd (await (call_provider answer) (\<lambda>attempt.
             await (applyOutcome env policies (record_of r) attempt) (\<lambda>applied.
             await (pure_step (asHold applied)) (\<lambda>recorded.
               done_with (Attempted recorded (attemptPayerAction attempt))))) db'))" for answer
      by (rule provider_then_apply_steps [OF that(1) env that(2)]) (rule a)
    show ?thesis
      apply (subst await_snd_Inr [where x = "record_of r" and s' = db'])
       apply (simp add: pure_step_def Inr x)
      using p apply (simp add: done_with_def)
      done
  qed
  show ?thesis
  proof (cases "amount excess = 0")
    case True
    with Some show ?thesis by (simp add: holdDamageSecurity_def done_with_def)
  next
    case False
    with Some show ?thesis
      unfolding holdDamageSecurity_def Let_def
      apply simp
      apply (subst await_snd_Inr [where s' = db], simp add: query_def attemptKeyFor_key [OF ok])
      apply (rule attempt_flow_steps [OF inv env])
       apply simp
      using tail apply simp
      done
  qed
qed

lemma refresh_steps:
  assumes inv: "pay_inv db" and env: "plain_env env"
  shows "pay_step\<^sup>*\<^sup>* db (snd (refresh env provider policies i db))"
proof (cases "find (\<lambda>r. rowId r = i) (intents db)")
  case None
  then show ?thesis by (simp add: refresh_def findById_intent_def query_def await_def done_with_def)
next
  case (Some r)
  then have r: "r \<in> set (intents db)" by (auto dest: find_Some_mem)
  have q: "query (findById_intent i) db = (Inr (Some (record_of r)), db)"
    using Some r inv toIntentRecord_ok by (simp add: query_def findById_intent_def pay_inv_def intents_ok_def)
  have p: "pay_step\<^sup>*\<^sup>* db (snd (await (call_provider answer) (\<lambda>attempt.
      await (applyOutcome env policies (record_of r) attempt) (\<lambda>recorded. done_with (Some recorded))) db))" for answer
    by (rule provider_then_apply_steps [OF inv env r]) (simp add: done_with_def)
  show ?thesis
    using p by (auto simp: refresh_def await_def [of "query (findById_intent i)"] q done_with_def split: option.split)
qed

lemma sweep_over_steps:
  assumes "pay_inv db" "\<And>i. plain_env (envs i)"
  shows "pay_step\<^sup>*\<^sup>* db (snd (sweep_over envs provider policies stale c db))"
  using assms(1)
proof (induction stale arbitrary: c db)
  case (Cons intent rest)
  obtain res db1 where r: "refresh (envs (intentId intent)) provider policies (intentId intent) db = (res, db1)"
    by (cases "refresh (envs (intentId intent)) provider policies (intentId intent) db")
  with refresh_steps [OF Cons.prems assms(2), of "intentId intent" provider policies "intentId intent"]
  have s: "pay_step\<^sup>*\<^sup>* db db1" by simp
  have inv1: "pay_inv db1" using pay_steps_inv [OF s Cons.prems] .
  show ?case
  proof (cases res)
    case (Inl e)
    with r Cons.IH [OF Cons.prems] Cons.IH [OF inv1] s show ?thesis by (auto intro: rtranclp_trans)
  next
    case (Inr x)
    with r Cons.IH [OF Cons.prems] Cons.IH [OF inv1] s show ?thesis by (auto intro: rtranclp_trans)
  qed
qed simp

lemma sweep_over_counts:
  "settled c' + stillPending c' + unreconcilable c' + failed c' =
     settled c + stillPending c + unreconcilable c + failed c + length stale \<and> examined c' = examined c"
  if "sweep_over envs provider policies stale c db = (c', db')"
  using that
proof (induction stale arbitrary: c db)
  case (Cons intent rest)
  then show ?case
    by (auto split: if_splits prod.splits sum.splits dest: Cons.IH)
qed simp

subsection \<open>Sequences of calls\<close>

text \<open>
  The calls a running system makes, each with its own answers from the provider, its own clock and
  identifiers; \<open>plain_env\<close> says that identifiers of accounts hold neither of the two characters the
  fingerprint uses as separators, which a UUID does not.
\<close>

inductive pay_call :: "(string \<Rightarrow> CategoryFeePolicy option) \<Rightarrow> PayDb \<Rightarrow> PayDb \<Rightarrow> bool" for policies where
  call_pay: "plain_env env \<Longrightarrow> pay_call policies db (snd (payForHire env provider policies ins db))"
| call_hold: "plain_env env \<Longrightarrow> pay_call policies db (snd (holdDamageSecurity env provider policies hold db))"
| call_refresh: "plain_env env \<Longrightarrow> pay_call policies db (snd (refresh env provider policies i db))"
| call_sweep: "(\<And>i. plain_env (envs i)) \<Longrightarrow> pay_call policies db (snd (reconcile_sweep envs now provider policies db))"

lemma reconcile_sweep_run:
  "findUnsettled (now - STALE_AFTER_MINUTES * 60000) RECONCILIATION_BATCH_LIMIT db = Inr stale \<Longrightarrow>
    reconcile_sweep envs now provider policies db = map_prod Inr id (sweep_over envs provider policies stale
      \<lparr>examined = length stale, settled = 0, stillPending = 0, unreconcilable = 0, failed = 0,
       reachedLimit = (RECONCILIATION_BATCH_LIMIT \<le> length stale)\<rparr> db)"
  by (simp add: reconcile_sweep_def await_def query_def map_prod_def split: prod.split)

lemma reconcile_sweep_error:
  "findUnsettled (now - STALE_AFTER_MINUTES * 60000) RECONCILIATION_BATCH_LIMIT db = Inl e \<Longrightarrow>
    reconcile_sweep envs now provider policies db = (Inl e, db)"
  by (simp add: reconcile_sweep_def await_def query_def)

lemma pay_call_steps: "pay_call policies db db' \<Longrightarrow> pay_inv db \<Longrightarrow> pay_step\<^sup>*\<^sup>* db db'"
proof (induction rule: pay_call.induct)
  case (call_sweep envs db now provider)
  then show ?case
    using sweep_over_steps [of db envs]
    by (cases "findUnsettled (now - STALE_AFTER_MINUTES * 60000) RECONCILIATION_BATCH_LIMIT db")
      (simp_all add: reconcile_sweep_run reconcile_sweep_error)
qed (auto intro: payForHire_steps holdDamageSecurity_steps refresh_steps)

lemma pay_calls_inv:
  assumes "(pay_call policies)\<^sup>*\<^sup>* (empty_pay (empty_ledger us bs) vs) db"
  shows "pay_inv db"
  using assms
proof (induction rule: rtranclp_induct)
  case base
  show ?case by (rule empty_pay_inv)
next
  case (step y z)
  then show ?case using pay_call_steps pay_steps_inv by blast
qed

subsection \<open>A payment, step by step\<close>

definition example_env :: PayEnv where
  "example_env = \<lparr>payNow = 5, intentNewId = ''i1'',
     accountNewId = (\<lambda>k. case k of ProviderClearing \<Rightarrow> ''a1'' | OwnerPayable \<Rightarrow> ''a2'' | PlatformRevenue \<Rightarrow> ''a3''),
     transactionNewId = ''t1''\<rparr>"

definition example_attempt :: "PaymentAttemptStatus \<Rightarrow> PaymentAttempt" where
  "example_attempt s = \<lparr>attemptReference = ''ref'', attemptStatus = s, attemptPayerAction = None,
     attemptFailure = None, attemptOccurredAt = None, attemptExpiresAt = None\<rparr>"

definition example_provider :: Provider where
  "example_provider = \<lparr>providerName = ''p'', providerBegin = (\<lambda>_. Inr (example_attempt Succeeded)),
     providerRead = (\<lambda>_. Inl ''''), providerHold = (\<lambda>_. Inl '''')\<rparr>"

definition example_instruction :: HirePaymentInstruction where
  "example_instruction = \<lparr>payBookingId = ''b1'', payOwnerId = ''u1'',
     payCharge = \<lparr>chargeItem = pence 2500, chargeFee = pence 100, chargeTotal = pence 2600\<rparr>,
     payVersionId = ''v1'', payItemTitle = ''Drill''\<rparr>"

definition example_empty :: PayDb where
  "example_empty = empty_pay (empty_ledger (\<lambda>_. True) (\<lambda>_. True)) (\<lambda>_. True)"

definition example_paid :: PayDb where
  "example_paid = snd (payForHire example_env example_provider (\<lambda>_. Some UNCONFIGURED_FEE_POLICY) example_instruction example_empty)"

lemma example_settlement:
  "settleHire \<lparr>chargeItem = pence 2500, chargeFee = pence 100, chargeTotal = pence 2600\<rparr> UNCONFIGURED_FEE_POLICY =
   Inr \<lparr>renterPays = pence 2600, ownerEarns = pence 2500, platformEarns = pence 100, ownerCommission = pence 0\<rparr>"
  by (simp add: settleHire_def UNCONFIGURED_FEE_POLICY_def percentageOf_def basisPointsToPercent_def
      to_number_moderate fl_def add_exact subtract_exact safe_int_def)

lemma show_zero: "show_nat 0 = ''0''"
  by code_simp

lemma example_paid_rows:
  "map (\<lambda>r. (rowStatus r, rowPurpose r, rowBookingId r, amountMinor r)) (intents example_paid)
    = [(Reached Succeeded, HireChargePurpose, ''b1'', 2600)]"
  unfolding example_paid_def
  apply (simp add: payForHire_def example_instruction_def settle_def example_settlement action_defs await_def query_def
      example_empty_def empty_pay_def attemptKeyFor_def findForBooking_def begin_intent_def findByAttemptKey_def insert_intent_def
      intent_row_ok_def intent_table_ok_def hireAttemptKey_def show_zero empty_ledger_def new_intent_row_def int4_def btrim_def
      toIntentRecord_def toFailure_def safe_int_def assertSameAttempt_def call_provider_def example_provider_def example_attempt_def
      applyOutcome_def dispositionOf_def isTerminal_intent_def TERMINAL_STATUSES_def Let_def)
  apply (simp add: postCapture_def settle_def example_settlement action_defs await_def in_ledger_def accountFor_def
      store_accountFor_def accountIdentityOf_def holderOf_def findByIdentity_def insert_account_def btrim_def trim_def is_space_def
      example_env_def hireCaptureEntries_def apportion_def sum_money_def zero_money_def add_exact safe_int_def Let_def
      captureDraft_def hireCaptureKey_def)
  apply (simp add: post_def assertPostable_def totalsOf_def totalOn_def sum_money_def zero_money_def add_exact safe_int_def
      trim_def is_space_def store_post_def findByIdempotencyKey_def insert_transaction_def posted_of_def btrim_def
      entry_insertable_def int4_def assert_ledger_transaction_balances_def side_total_def assertSameTransaction_def
      sameTransaction_def Let_def recordOutcome_def update_intent_def example_env_def outcome_on_def intent_row_ok_def
      intent_table_ok_def done_with_def toIntentRecord_def toFailure_def)
  done

subsection \<open>Properties\<close>

lemma live_at_most_one:
  assumes "attempts_inv rows"
  shows "length (filter (\<lambda>r. rowStatus r \<noteq> Reached Failed) (attempts_of rows b p)) \<le> 1"
proof -
  define rs where "rs = attempts_of rows b p"
  have "\<forall>r \<in> set (butlast rs). rowStatus r = Reached Failed" using assms by (auto simp: attempts_inv_def Let_def rs_def)
  then have "filter (\<lambda>r. rowStatus r \<noteq> Reached Failed) (butlast rs) = []" by (simp add: filter_empty_conv)
  then show ?thesis
    unfolding rs_def [symmetric] by (cases rs rule: rev_cases) (auto simp: butlast_append)
qed

text \<open>C3: A renter is never charged twice. However payment calls, holds, refreshes and reconciliation
  sweeps follow one another, and whatever the provider answers, a booking has at most one attempt per
  purpose that has not failed, and at most one that succeeded; every succeeded charge has exactly one
  posting in the ledger, for exactly the amount of the attempt.\<close>

theorem charged_at_most_once:
  assumes "(pay_call policies)\<^sup>*\<^sup>* (empty_pay (empty_ledger us bs) vs) db"
  shows "length (filter (\<lambda>r. rowStatus r \<noteq> Reached Failed) (attempts_of (intents db) b p)) \<le> 1 \<and>
    (\<forall>r \<in> set (intents db). rowStatus r = Reached Succeeded \<and> rowPurpose r = HireChargePurpose \<longrightarrow>
      (\<exists>!t. t \<in> set (ledger_transactions (ledger db)) \<and> idempotencyKey t = hireCaptureKey (rowBookingId r)) \<and>
      (\<forall>t \<in> set (ledger_transactions (ledger db)). idempotencyKey t = hireCaptureKey (rowBookingId r) \<longrightarrow>
         side_total Debit (entries t) = amountMinor r \<and> side_total Credit (entries t) = amountMinor r))"
proof (intro conjI ballI impI)
  have inv: "pay_inv db" using assms by (rule pay_calls_inv)
  show "length (filter (\<lambda>r. rowStatus r \<noteq> Reached Failed) (attempts_of (intents db) b p)) \<le> 1"
    using inv live_at_most_one by (simp add: pay_inv_def)
  fix r
  assume r: "r \<in> set (intents db)" "rowStatus r = Reached Succeeded \<and> rowPurpose r = HireChargePurpose"
  then have "captured (ledger db) r" using inv by (simp add: pay_inv_def)
  then obtain t where t: "t \<in> set (ledger_transactions (ledger db))" "idempotencyKey t = hireCaptureKey (rowBookingId r)"
    "side_total Debit (entries t) = amountMinor r" by (auto simp: captured_def)
  have u: "x = t" if "x \<in> set (ledger_transactions (ledger db))" "idempotencyKey x = hireCaptureKey (rowBookingId r)" for x
    using that t inv distinct_map_unique [of idempotencyKey "ledger_transactions (ledger db)" x t]
    by (simp add: pay_inv_def ledger_inv_def)
  show "\<exists>!t. t \<in> set (ledger_transactions (ledger db)) \<and> idempotencyKey t = hireCaptureKey (rowBookingId r)"
    by (rule ex1I [of _ t]) (use t u in blast)+
  have b: "side_total Debit (entries t) = side_total Credit (entries t)"
  proof -
    have "transaction_ok (ledger db) t" using t(1) inv by (simp add: pay_inv_def ledger_inv_def)
    then show ?thesis by (simp add: transaction_ok_def net_sides)
  qed
  fix x
  assume "x \<in> set (ledger_transactions (ledger db))" "idempotencyKey x = hireCaptureKey (rowBookingId r)"
  with u t(3) b show "side_total Debit (entries x) = amountMinor r" "side_total Credit (entries x) = amountMinor r" by auto
qed

theorem charged_at_most_once_witness:
  "\<exists>t \<in> set (ledger_transactions (ledger example_paid)). idempotencyKey t = hireCaptureKey ''b1'' \<and> side_total Debit (entries t) = 2600"
proof -
  have "plain_env example_env" by (auto simp: plain_env_def example_env_def plain_id_def split: LedgerAccountKind.split)
  then have "pay_call (\<lambda>_. Some UNCONFIGURED_FEE_POLICY) example_empty example_paid"
    unfolding example_paid_def by (rule pay_call.call_pay)
  then have "(pay_call (\<lambda>_. Some UNCONFIGURED_FEE_POLICY))\<^sup>*\<^sup>* (empty_pay (empty_ledger (\<lambda>_. True) (\<lambda>_. True)) (\<lambda>_. True)) example_paid"
    unfolding example_empty_def by (rule r_into_rtranclp)
  note once = charged_at_most_once [OF this]
  obtain r where "r \<in> set (intents example_paid)" "rowStatus r = Reached Succeeded" "rowPurpose r = HireChargePurpose"
    "rowBookingId r = ''b1''" "amountMinor r = 2600"
    using example_paid_rows by (auto simp: map_eq_Cons_conv)
  with once show ?thesis by metis
qed

text \<open>
A sweep accounts for every attempt it examined: each is counted exactly once as settled, still
  pending, unreconcilable or failed, whatever the provider answers or throws.\<close>

theorem sweep_accounts_for_all:
  assumes "reconcile_sweep envs now provider policies db = (Inr c, db')"
  shows "settled c + stillPending c + unreconcilable c + failed c = examined c \<and> examined c \<le> RECONCILIATION_BATCH_LIMIT"
proof -
  obtain stale where f: "findUnsettled (now - STALE_AFTER_MINUTES * 60000) RECONCILIATION_BATCH_LIMIT db = Inr stale"
    and s: "sweep_over envs provider policies stale
             \<lparr>examined = length stale, settled = 0, stillPending = 0, unreconcilable = 0, failed = 0,
              reachedLimit = (RECONCILIATION_BATCH_LIMIT \<le> length stale)\<rparr> db = (c, db')"
  proof (cases "findUnsettled (now - STALE_AFTER_MINUTES * 60000) RECONCILIATION_BATCH_LIMIT db")
    case (Inr stale)
    then show thesis using that assms by (auto simp: reconcile_sweep_run map_prod_def split: prod.splits)
  qed (use assms in \<open>simp add: reconcile_sweep_error\<close>)
  have "length stale \<le> RECONCILIATION_BATCH_LIMIT"
    using rmap_Inr_length f by (fastforce simp: findUnsettled_def)
  with sweep_over_counts [OF s] show ?thesis by simp
qed

theorem sweep_accounts_for_all_witness:
  "\<exists>c db'. reconcile_sweep (\<lambda>_. example_env) 0 NoPaymentProvider (\<lambda>_. None) example_empty = (Inr c, db') \<and>
     settled c + stillPending c + unreconcilable c + failed c = examined c"
proof -
  have "reconcile_sweep (\<lambda>_. example_env) 0 NoPaymentProvider (\<lambda>_. None) example_empty =
      (Inr \<lparr>examined = 0, settled = 0, stillPending = 0, unreconcilable = 0, failed = 0, reachedLimit = False\<rparr>, example_empty)"
    by (simp add: reconcile_sweep_def await_def query_def findUnsettled_def example_empty_def empty_pay_def
        RECONCILIATION_BATCH_LIMIT_def)
  with sweep_accounts_for_all [OF this] show ?thesis by blast
qed

definition example_hold :: IntentRow where
  "example_hold = \<lparr>rowId = ''i1'', rowBookingId = ''b1'', rowOwnerId = ''u1'', rowVersionId = ''v1'',
     rowPurpose = DamageSecurityPurpose, rowAttemptKey = ''security:b1:0'', rowStatus = Reached PendingPayerAction,
     rowProvider = ''p'', rowReference = Some ''ref'', itemChargeMinor = None, renterFeeMinor = None, amountMinor = 5000,
     rowCurrency = GBP, rowExpiresAt = None, rowFailureReason = None, rowFailureMessage = None, rowCreatedAt = 1, rowUpdatedAt = 1\<rparr>"

text \<open>
The comparison with the settled status and the write of the outcome are two steps. A refresh that
  read an attempt before another call settled it writes its older answer over the settled one: an
  attempt that had succeeded is processing again.\<close>

theorem stale_outcome_overwrites:
  "let intent = record_of example_hold; db0 = example_empty\<lparr>intents := [example_hold]\<rparr>;
       db1 = snd (applyOutcome example_env (\<lambda>_. None) intent (example_attempt Succeeded) db0);
       db2 = snd (applyOutcome example_env (\<lambda>_. None) intent (example_attempt Processing) db1)
   in map rowStatus (intents db1) = [Reached Succeeded] \<and> map rowStatus (intents db2) = [Reached Processing]"
  by (simp add: applyOutcome_def await_def action_defs dispositionOf_def isTerminal_intent_def TERMINAL_STATUSES_def
      example_attempt_def example_hold_def terms_of_def recordOutcome_def update_intent_def outcome_on_def
      intent_row_ok_def intent_table_ok_def int4_def btrim_def toIntentRecord_def toFailure_def safe_int_def Let_def
      example_env_def)

end
