(* ===== verification/Booking_Moves.thy ===== *)
theory Booking_Moves
  imports Booking_Correct Payment_Safety
begin

section \<open>Moving, expiring and paying\<close>

text \<open>
  What the store's compare-and-set, the expiry sweep and the payment of a hire do to a booking, over every
  reachable state of the tables.
\<close>

subsection \<open>Compare and set\<close>

lemma advance_run:
  assumes inv: "book_inv db" and r: "r \<in> set (booking_rows db)" "bk_state r = from" "canTransition from to"
    and not_acceptance: "\<not> (from = REQUESTED \<and> to = ACCEPTED)"
  shows "\<exists>rec. advance env (bk_id r) from to actor db = (Inr (Some rec),
      add_events [event_row env (bk_id r) (state_change from to actor)]
        (db\<lparr>booking_rows := map (\<lambda>x. if bk_id x = bk_id r then move_row (dbNow env) to x else x) (booking_rows db)\<rparr>)) \<and>
    bookingId rec = bk_id r \<and> bookingState rec = to"
proof -
  have only: "x = r" if "x \<in> set (booking_rows db)" "bk_id x = bk_id r" for x
    using that r(1) inv distinct_map_unique [of bk_id "booking_rows db" x r] by (simp add: book_inv_def)
  have "find (\<lambda>x. bk_id x = bk_id r \<and> bk_state x = from) (booking_rows db) = Some r"
  proof (cases "find (\<lambda>x. bk_id x = bk_id r \<and> bk_state x = from) (booking_rows db)")
    case None
    then show ?thesis using r by (auto simp: find_None_all)
  next
    case (Some x)
    then show ?thesis using find_Some_mem [OF Some] only by simp
  qed
  moreover have "row_ok r" using inv r(1) by (simp add: book_inv_def)
  then obtain rec where rec: "toRecord (move_row (dbNow env) to r) = Inr rec" using toRecord_ok by fastforce
  ultimately show ?thesis
    using legal_move_succeeds [OF inv r(1), of to "dbNow env"] r(2,3) not_acceptance toRecord_fields(1,6) [OF rec]
    by (simp add: advance_def atomically_def rec)
qed

lemma advance_stale:
  assumes "\<And>x. x \<in> set (booking_rows db) \<Longrightarrow> bk_id x = i \<Longrightarrow> bk_state x \<noteq> from"
  shows "advance env i from to actor db = (Inr None, db)"
proof -
  have "find (\<lambda>x. bk_id x = i \<and> bk_state x = from) (booking_rows db) = None" using assms by (auto simp: find_None_all)
  then show ?thesis by (simp add: advance_def atomically_def)
qed


subsection \<open>The expiry sweep\<close>

definition expired_ids :: "ExpirySweepResult \<Rightarrow> string list" where
  "expired_ids res = map fst (expired res)"

lemma expiry_candidates_bounds: "length (expiry_candidates now limit db) \<le> limit"
  by (simp add: expiry_candidates_def)

lemma expiry_candidates_all:
  assumes "length (expiry_candidates now limit db) \<noteq> limit"
  shows "set (expiry_candidates now limit db) = bk_id ` set (filter (overdue now) (booking_rows db))"
proof -
  let ?s = "sort_key bk_requestExpiresAt (sort_key bk_id (filter (overdue now) (booking_rows db)))"
  have "length ?s < limit" using assms by (auto simp: expiry_candidates_def)
  then have "take limit ?s = ?s" by simp
  then show ?thesis unfolding expiry_candidates_def by (simp only: set_map set_sort)
qed

lemma hit_bound:
  assumes "distinct (map bk_id (booking_rows mid))"
  shows "length (expiry_hit now limit db mid) \<le> limit"
proof -
  have "distinct (map bk_id (expiry_hit now limit db mid))" using assms by (simp add: expiry_hit_def distinct_map_filter)
  moreover have "set (map bk_id (expiry_hit now limit db mid)) \<subseteq> set (expiry_candidates now limit db)"
    by (auto simp: expiry_hit_def)
  ultimately have "length (map bk_id (expiry_hit now limit db mid)) \<le> length (expiry_candidates now limit db)"
    by (metis card_length card_mono distinct_card finite_set order_trans)
  then show ?thesis using expiry_candidates_bounds by (metis length_map order_trans)
qed

lemma no_overdue_left:
  assumes all: "length (expiry_candidates now n db) \<noteq> n"
    and x: "x \<in> set (booking_rows db)" "r = (if bk_id x \<in> bk_id ` set (expiry_hit now n db db) then move_row t EXPIRED x else x)"
  shows "\<not> overdue now r"
proof -
  have "x \<in> set (expiry_hit now n db db)" if "overdue now x"
    using x(1) that expiry_candidates_all [OF all] by (auto simp: expiry_hit_def)
  then show ?thesis using x(2) by (auto simp: overdue_def split: if_splits)
qed

lemma sweep_expires: "sweep race env now db = in_store (expireRequests race env now EXPIRY_BATCH_LIMIT) db"
proof -
  have legal: "canTransition REQUESTED EXPIRED" by (simp add: canTransition_def)
  show ?thesis unfolding sweep_def await_transition [OF legal] ..
qed

text \<open>
C18: The expiry sweep always completes and expires only requests whose deadline has passed at the moment it writes,
whatever other calls have committed since it chose them: every other booking, one accepted in between included, is
left as it was. It touches at most one batch, adds one event for each, and when nothing ran in between and the
batch was not full, no overdue request is left.
\<close>

theorem sweep_expires_overdue:
  assumes "booking_call\<^sup>*\<^sup>* (empty_bookings owners) db" "\<And>s. booking_call\<^sup>*\<^sup>* s (race s)"
  shows "\<exists>res db' mid. sweep race env now db = (Inr res, db') \<and> mid \<in> {db, race db} \<and> length (expired res) \<le> EXPIRY_BATCH_LIMIT \<and>
    (\<forall>i \<in> set (expired_ids res). \<exists>r \<in> set (booking_rows mid). bk_id r = i \<and> overdue now r) \<and>
    booking_rows db' = map (\<lambda>r. if bk_id r \<in> set (expired_ids res) then move_row (dbNow env) EXPIRED r else r) (booking_rows mid) \<and>
    event_rows db' = event_rows mid @ map (\<lambda>i. event_row env i (state_change REQUESTED EXPIRED None)) (expired_ids res) \<and>
    (race db = db \<and> \<not> sweepReachedLimit res \<longrightarrow> (\<forall>r \<in> set (booking_rows db'). \<not> overdue now r))"
proof -
  let ?n = EXPIRY_BATCH_LIMIT
  obtain db2 where run: "expireRequests race env now ?n db =
     (if expiry_candidates now ?n db = [] then (Inr \<lparr>expired = [], sweepReachedLimit = False\<rparr>, db)
      else (Inr \<lparr>expired = map (\<lambda>r. (bk_id r, bk_renterId r, bk_listingId r)) (expiry_hit now ?n db (race db)),
                 sweepReachedLimit = (length (expiry_candidates now ?n db) = ?n)\<rparr>,
            add_events (map (\<lambda>r. event_row env (bk_id r) (state_change REQUESTED EXPIRED None)) (expiry_hit now ?n db (race db))) db2))"
    and s: "set_states (dbNow env) (map bk_id (expiry_hit now ?n db (race db))) EXPIRED (race db) = Inr db2"
    and rows2: "booking_rows db2 = map (\<lambda>r. if bk_id r \<in> set (map bk_id (expiry_hit now ?n db (race db))) then move_row (dbNow env) EXPIRED r else r)
     (booking_rows (race db))"
    using expireRequests_run by blast
  have "booking_call\<^sup>*\<^sup>* (empty_bookings owners) (race db)" using assms(1) assms(2) [of db] by (rule rtranclp_trans)
  note inv = reachable_inv [OF this]
  have "\<not> occupiesCalendar EXPIRED" by (simp add: occupancy)
  then have ev2: "event_rows db2 = event_rows (race db)"
    using s set_states_off_calendar [of EXPIRED "dbNow env" "map bk_id (expiry_hit now ?n db (race db))" "race db"] by auto
  show ?thesis
  proof (cases "expiry_candidates now ?n db = []")
    case True
    then have "sweep race env now db = (Inr \<lparr>expired = [], sweepReachedLimit = False\<rparr>, db)"
      by (simp add: sweep_expires in_store_def run)
    moreover have "\<not> overdue now r" if "r \<in> set (booking_rows db)" for r
      using expiry_candidates_all [of now ?n db] True that by (auto simp: EXPIRY_BATCH_LIMIT_def filter_empty_conv)
    ultimately show ?thesis
      by (intro exI [of _ "\<lparr>expired = [], sweepReachedLimit = False\<rparr>"] exI [of _ db]) (simp add: expired_ids_def)
  next
    case False
    let ?hit = "expiry_hit now ?n db (race db)"
    let ?res = "\<lparr>expired = map (\<lambda>r. (bk_id r, bk_renterId r, bk_listingId r)) ?hit, sweepReachedLimit = (length (expiry_candidates now ?n db) = ?n)\<rparr>"
    let ?db' = "add_events (map (\<lambda>r. event_row env (bk_id r) (state_change REQUESTED EXPIRED None)) ?hit) db2"
    have res: "sweep race env now db = (Inr ?res, ?db')" using False by (simp add: sweep_expires in_store_def run)
    have ids: "expired_ids ?res = map bk_id ?hit" by (simp add: expired_ids_def o_def)
    have "length (expired ?res) \<le> ?n" using hit_bound inv by (simp add: book_inv_def)
    moreover have "\<forall>i \<in> set (expired_ids ?res). \<exists>r \<in> set (booking_rows (race db)). bk_id r = i \<and> overdue now r"
      unfolding ids by (auto simp: expiry_hit_def)
    moreover have "booking_rows ?db' = map (\<lambda>r. if bk_id r \<in> set (expired_ids ?res) then move_row (dbNow env) EXPIRED r else r) (booking_rows (race db))"
      unfolding ids by (simp add: rows2)
    moreover have "event_rows ?db' = event_rows (race db) @ map (\<lambda>i. event_row env i (state_change REQUESTED EXPIRED None)) (expired_ids ?res)"
      unfolding ids by (simp add: ev2 o_def)
    moreover have "race db = db \<and> \<not> sweepReachedLimit ?res \<longrightarrow> (\<forall>r \<in> set (booking_rows ?db'). \<not> overdue now r)"
    proof (intro impI ballI)
      fix r
      assume still: "race db = db \<and> \<not> sweepReachedLimit ?res" and "r \<in> set (booking_rows ?db')"
      then obtain x where "x \<in> set (booking_rows db)"
        "r = (if bk_id x \<in> bk_id ` set (expiry_hit now ?n db db) then move_row (dbNow env) EXPIRED x else x)"
        using rows2 by auto
      then show "\<not> overdue now r" using no_overdue_left [of now ?n db x] still by simp
    qed
    ultimately show ?thesis using res by (intro exI [of _ ?res] exI [of _ ?db'] exI [of _ "race db"]) blast
  qed
qed

subsection \<open>Paying for a hire\<close>

text \<open>\<open>readable_booking\<close>: the party's read of the booking succeeds. A move keeps it so.\<close>

definition readable_booking :: "string \<Rightarrow> string \<Rightarrow> BookingRow \<Rightarrow> BookingDb \<Rightarrow> bool" where
  "readable_booking i user r db \<longleftrightarrow> party_booking i user db = Some r \<and> (\<exists>b. findForParty i user db = Inr (Some b))"

lemma find_moved:
  "(\<And>x. P (move_row t s x) = P x) \<Longrightarrow> find (\<lambda>x. bk_id x = i \<and> P x) xs = Some r \<Longrightarrow>
    find (\<lambda>x. bk_id x = i \<and> P x) (map (\<lambda>x. if bk_id x = i then move_row t s x else x) xs) = Some (move_row t s r)"
  by (induction xs) (auto split: if_splits)

lemma readable_moved:
  assumes inv: "book_inv db" and r: "readable_booking i user r db"
    and db': "booking_rows db' = map (\<lambda>x. if bk_id x = i then move_row t s x else x) (booking_rows db)"
      "listing_owner db' = listing_owner db" "quote_rows db' = quote_rows db"
  shows "readable_booking i user (move_row t s r) db'"
proof -
  have p: "party_booking i user db = Some r" using r by (simp add: readable_booking_def)
  then have p': "party_booking i user db' = Some (move_row t s r)"
    unfolding party_booking_def db'(1,2) by (intro find_moved) simp_all
  have "r \<in> set (booking_rows db)" using p unfolding party_booking_def by (auto dest!: find_Some_mem)
  then have "row_ok r" using inv by (simp add: book_inv_def)
  then obtain rec where rec: "toRecord (move_row t s r) = Inr rec" using toRecord_ok by fastforce
  obtain items' where "parseQuoteLineItems (case find (\<lambda>q. qt_id q = bk_quoteId r) (quote_rows db) of None \<Rightarrow> [] | Some q \<Rightarrow> qt_lineItems q) (bk_id r) = Inr items'"
    using r by (auto simp: readable_booking_def findForParty_def p result_simps)
  then show ?thesis using p' rec by (simp add: readable_booking_def findForParty_def db'(3))
qed

lemma readBack_readable: "readable_booking i user r db \<Longrightarrow> \<exists>b. readBack i user db = (Inr b, db)"
  by (auto simp: readable_booking_def readBack_def await_def ask_def action_defs)

lemma readable_row:
  assumes "readable_booking i user r db"
  shows "r \<in> set (booking_rows db)" "bk_id r = i"
  using assms unfolding readable_booking_def party_booking_def by (auto dest!: find_Some_mem)

lemma movePayable_run:
  assumes reach: "book_inv db" and r: "readable_booking i renter r db" "bk_state r \<in> set PAYABLE_STATES"
  shows "\<exists>db' r'. movePayable env (bk_state r) i renter db = (Inr True, db') \<and> book_inv db' \<and> readable_booking i renter r' db' \<and> bk_state r' = AWAITING_PAYMENT"
proof (cases "bk_state r = AWAITING_PAYMENT")
  case True
  then show ?thesis using reach r by (auto simp: movePayable_def done_with_def)
next
  case False
  then have legal: "canTransition (bk_state r) AWAITING_PAYMENT" using r(2) by (auto simp: PAYABLE_STATES_def canTransition_def)
  note row = readable_row [OF r(1)]
  obtain rec where a: "advance env i (bk_state r) AWAITING_PAYMENT (Some renter) db = (Inr (Some rec),
      add_events [event_row env i (state_change (bk_state r) AWAITING_PAYMENT (Some renter))]
        (db\<lparr>booking_rows := map (\<lambda>x. if bk_id x = i then move_row (dbNow env) AWAITING_PAYMENT x else x) (booking_rows db)\<rparr>))"
    using advance_run [OF reach row(1) refl legal, of env "Some renter"] row(2) by auto
  let ?db' = "snd (advance env i (bk_state r) AWAITING_PAYMENT (Some renter) db)"
  have "book_inv ?db'" using stableD [OF advance_booked [OF legal], of db env i "Some renter"] reach book_steps_inv by (auto simp: booked_def)
  moreover have "readable_booking i renter (move_row (dbNow env) AWAITING_PAYMENT r) ?db'"
    using reach r(1) by (rule readable_moved) (simp_all add: a)
  moreover have "movePayable env (bk_state r) i renter db = (Inr True, ?db')"
    using False by (simp add: movePayable_def await_transition [OF legal] await_def in_store_def a done_with_def)
  ultimately show ?thesis by fastforce
qed

definition state_after_payment :: "PaymentAttemptStatus \<Rightarrow> BookingState" where
  "state_after_payment status = (if status = Succeeded then RESERVED
     else if status = Processing \<or> status = PendingPayerAction then AWAITING_PAYMENT else PAYMENT_FAILED)"

lemma settle_booking_run:
  assumes inv: "book_inv db" and r: "readable_booking i renter r db" "bk_state r = AWAITING_PAYMENT"
  shows "\<exists>db' r'. settle_booking env i renter status db = (Inr (), db') \<and> readable_booking i renter r' db' \<and> bk_state r' = state_after_payment status"
proof (cases "status = Processing \<or> status = PendingPayerAction")
  case True
  then show ?thesis using r by (auto simp: settle_booking_def done_with_def state_after_payment_def)
next
  case False
  let ?to = "if status = Succeeded then RESERVED else PAYMENT_FAILED"
  have legal: "canTransition AWAITING_PAYMENT ?to" by (simp add: canTransition_def)
  note row = readable_row [OF r(1)]
  obtain rec where a: "advance env i AWAITING_PAYMENT ?to (Some renter) db = (Inr (Some rec),
      add_events [event_row env i (state_change AWAITING_PAYMENT ?to (Some renter))]
        (db\<lparr>booking_rows := map (\<lambda>x. if bk_id x = i then move_row (dbNow env) ?to x else x) (booking_rows db)\<rparr>))"
    using advance_run [OF inv row(1) r(2) legal, of env "Some renter"] row(2) by auto
  let ?db' = "snd (advance env i AWAITING_PAYMENT ?to (Some renter) db)"
  have "readable_booking i renter (move_row (dbNow env) ?to r) ?db'"
    using inv r(1) by (rule readable_moved) (simp_all add: a)
  moreover have "settle_booking env i renter status db = (Inr (), ?db')"
    using False by (simp add: settle_booking_def Let_def await_transition [OF legal] await_def in_store_def a done_with_def)
  moreover have "?to = state_after_payment status" using False by (auto simp: state_after_payment_def)
  ultimately show ?thesis by (intro exI [of _ ?db'] exI [of _ "move_row (dbNow env) ?to r"]) simp
qed

lemma findForParty_record:
  assumes "findForParty i user db = Inr (Some b)"
  obtains r where "party_booking i user db = Some r" "toRecord r = Inr (foundBooking b)"
  using assms by (auto simp: findForParty_def result_simps split: option.splits)

lemma on_bookings_Inr: "m db = (Inr x, db') \<Longrightarrow> await (on_bookings m) f (db, p) = f x (db', p)"
  by (simp add: await_def on_bookings_def)

lemma on_payments_Inr: "m p = (Inr x, p') \<Longrightarrow> await (on_payments m) f (db, p) = f x (db, p')"
  by (simp add: await_def on_payments_def)

lemma asked: "f db = Inr x \<Longrightarrow> await (on_bookings (ask f)) g (db, p) = g x (db, p)"
  by (simp add: ask_def await_def on_bookings_def)

definition instruction_of :: "BookingRow \<Rightarrow> string \<Rightarrow> HirePaymentInstruction" where
  "instruction_of r owner = \<lparr>payBookingId = bk_id r, payOwnerId = owner,
     payCharge = \<lparr>chargeItem = pence (bk_itemChargeAmount r), chargeFee = pence (bk_renterFeeAmount r), chargeTotal = pence (bk_totalAmount r)\<rparr>,
     payVersionId = bk_categoryVersionId r, payItemTitle = bk_itemTitle r\<rparr>"

lemma hire_instruction_of:
  "toRecord r = Inr rec \<Longrightarrow> hire_instruction rec (bk_id r) owner = instruction_of r owner"
  using toRecord_money by (auto simp: hire_instruction_def instruction_of_def toRecord_def result_simps)

lemma pay_found:
  assumes "findForParty i renter db = Inr (Some b)" "toRecord r = Inr (foundBooking b)" "bk_id r = i"
  shows "pay env env2 True ownerOf charge i renter (db, p) =
    (if bk_renterId r \<noteq> renter then done_with None
     else if bk_state r \<notin> set PAYABLE_STATES then on_bookings (refuse (Unpayable (bk_state r)))
     else (case ownerOf (bk_listingId r) of None \<Rightarrow> on_bookings (refuse ItemGone)
       | Some owner \<Rightarrow> await (on_bookings (movePayable env (bk_state r) i renter)) (\<lambda>awaiting.
           if \<not> awaiting then on_bookings (refuse ChangedWhilePaying)
           else await (on_payments (charge (instruction_of r owner))) (\<lambda>result.
             await (on_bookings (settle_booking env2 i renter (chargeStatus result))) (\<lambda>_.
             await (on_bookings (readBack i renter)) (\<lambda>b. done_with (Some \<lparr>paidBooking = b, paymentResult = result\<rparr>))))))) (db, p)"
  using toRecord_fields [OF assms(2)] hire_instruction_of [OF assms(2)] assms(3)
  by (cases "ownerOf (bk_listingId r)") (simp_all add: pay_def asked [where f = "findForParty i renter", OF assms(1)] Let_def cong: if_cong)

lemma pay_run:
  assumes inv: "book_inv db" and "readable_booking i renter r db" "bk_renterId r = renter"
    and "bk_state r \<in> set PAYABLE_STATES" "ownerOf (bk_listingId r) = Some owner"
    and charged: "charge (instruction_of r owner) p = (Inr result, p')"
  shows "\<exists>b db' r'. pay env env2 True ownerOf charge i renter (db, p) = (Inr (Some \<lparr>paidBooking = b, paymentResult = result\<rparr>), (db', p')) \<and>
    readable_booking i renter r' db' \<and> bk_state r' = state_after_payment (chargeStatus result)"
proof -
  note id = readable_row(2) [OF assms(2)]
  obtain b0 where b0: "findForParty i renter db = Inr (Some b0)" "toRecord r = Inr (foundBooking b0)"
    using assms(2) findForParty_record unfolding readable_booking_def by (metis option.inject)
  obtain db1 r1 where m: "movePayable env (bk_state r) i renter db = (Inr True, db1)" "book_inv db1" "readable_booking i renter r1 db1" "bk_state r1 = AWAITING_PAYMENT"
    using movePayable_run [OF inv assms(2,4)] by blast
  obtain db2 r2 where s: "settle_booking env2 i renter (chargeStatus result) db1 = (Inr (), db2)" "readable_booking i renter r2 db2"
    "bk_state r2 = state_after_payment (chargeStatus result)"
    using settle_booking_run [OF m(2,3,4)] by blast
  obtain b where b: "readBack i renter db2 = (Inr b, db2)" using readBack_readable [OF s(2)] by blast
  have "pay env env2 True ownerOf charge i renter (db, p) = (Inr (Some \<lparr>paidBooking = b, paymentResult = result\<rparr>), (db2, p'))"
    using assms(3-5)
    by (simp add: pay_found [OF b0 id] on_bookings_Inr [where m = "movePayable env (bk_state r) i renter", OF m(1)]
        on_payments_Inr [where m = "charge (instruction_of r owner)", OF charged]
        on_bookings_Inr [where m = "settle_booking env2 i renter (chargeStatus result)", OF s(1)]
        on_bookings_Inr [where m = "readBack i renter", OF b] done_with_def)
  with s(2,3) show ?thesis by blast
qed

text \<open>
C16: Paying follows the provider. For the renter of a booking in a payable state, with payment switched on and the
owner known, one call charges exactly the price frozen in the booking and leaves the booking in the state the
answer asks for: reserved when the charge succeeded, awaiting payment while it is pending, payment failed otherwise.
\<close>

theorem pay_follows_provider:
  assumes "booking_call\<^sup>*\<^sup>* (empty_bookings owners) db" "readable_booking i renter r db" "bk_renterId r = renter"
    and "bk_state r \<in> set PAYABLE_STATES" "ownerOf (bk_listingId r) = Some owner"
    and charged: "charge (instruction_of r owner) p = (Inr result, p')"
  shows "\<exists>b db' r'. pay env env2 True ownerOf charge i renter (db, p) = (Inr (Some \<lparr>paidBooking = b, paymentResult = result\<rparr>), (db', p')) \<and>
    readable_booking i renter r' db' \<and> bk_state r' = state_after_payment (chargeStatus result)"
  using pay_run [where ownerOf = ownerOf and charge = charge, OF reachable_inv [OF assms(1)] assms(2-5) charged] .

subsection \<open>What payment may touch\<close>

definition same_payments :: "BookingDb \<times> 'p \<Rightarrow> BookingDb \<times> 'p \<Rightarrow> bool" where
  "same_payments s s' \<longleftrightarrow> snd s' = snd s"

lemma same_payments_order: "reflp same_payments" "transp same_payments"
  by (auto simp: reflp_def transp_def same_payments_def)

lemma on_bookings_same: "stable same_payments (on_bookings m)"
  by (auto simp: stable_def same_payments_def on_bookings_def split: prod.splits)

lemmas same_intros = stable_await [OF same_payments_order(2)] stable_simple [OF same_payments_order(1)] on_bookings_same

lemma charge_then_same:
  assumes "\<And>x. stable same_payments (f x)"
  shows "snd (snd (await (on_payments c) f (db, p))) = snd (c p)"
proof -
  obtain r p' where c: "c p = (r, p')" by (cases "c p")
  have "snd (snd (f x (db, p'))) = p'" for x using stableD [OF assms [of x], of "(db, p')"] by (simp add: same_payments_def)
  then show ?thesis by (cases r) (simp_all add: await_def on_payments_def c)
qed

lemma booking_step_first:
  assumes "\<And>x db'. m db = (Inr x, db') \<Longrightarrow> P (f x (db', p))" "\<And>e db'. m db = (Inl e, db') \<Longrightarrow> P (Inl e, (db', p))"
  shows "P (await (on_bookings m) f (db, p))"
proof -
  obtain r db' where m: "m db = (r, db')" by (cases "m db")
  then show ?thesis using assms by (cases r) (auto simp: await_def on_bookings_def)
qed

text \<open>
Money moves only for the renter's own payable booking. If a payment call changes anything in the payment
tables, then payment is switched on, the caller is the renter of a booking in a payable state whose owner is known,
and what was done is one charge under the booking's own identifier for exactly its frozen price.
\<close>

theorem pay_guarded:
  assumes "snd (snd (pay env env2 enabled ownerOf charge i renter (db, p))) \<noteq> p"
  shows "enabled \<and> (\<exists>r owner. r \<in> set (booking_rows db) \<and> bk_id r = i \<and> bk_renterId r = renter \<and>
    bk_state r \<in> set PAYABLE_STATES \<and> ownerOf (bk_listingId r) = Some owner \<and>
    snd (snd (pay env env2 enabled ownerOf charge i renter (db, p))) = snd (charge (instruction_of r owner) p))"
proof (cases enabled)
  case True
  show ?thesis
  proof (cases "findForParty i renter db")
    case (Inl e)
    then show ?thesis using assms True by (simp add: pay_def await_def on_bookings_def ask_def)
  next
    case (Inr found)
    show ?thesis
    proof (cases found)
      case None
      then show ?thesis using assms True Inr by (simp add: pay_def await_def on_bookings_def ask_def done_with_def)
    next
      case (Some b)
      then obtain r where r: "party_booking i renter db = Some r" "toRecord r = Inr (foundBooking b)"
        using findForParty_record Inr by blast
      have mem: "r \<in> set (booking_rows db)" "bk_id r = i" using r(1) by (auto simp: party_booking_def dest!: find_Some_mem)
      have run: "pay env env2 enabled ownerOf charge i renter = pay env env2 True ownerOf charge i renter" using True by simp
      show ?thesis
      proof (cases "bk_renterId r = renter \<and> bk_state r \<in> set PAYABLE_STATES")
        case guards: True
        show ?thesis
        proof (cases "ownerOf (bk_listingId r)")
          case (Some owner)
          let ?f = "\<lambda>result. await (on_bookings (settle_booking env2 i renter (chargeStatus result))) (\<lambda>_.
             await (on_bookings (readBack i renter)) (\<lambda>b. done_with (Some \<lparr>paidBooking = b, paymentResult = result\<rparr>)))"
          have "stable same_payments (?f result)" for result by (intro same_intros)
          note tail = charge_then_same [of ?f "charge (instruction_of r owner)", OF this]
          obtain moved db1 where m: "movePayable env (bk_state r) i renter db = (moved, db1)" by fastforce
          show ?thesis
            using assms guards mem \<open>enabled\<close> Some
            unfolding run pay_found [OF Inr [unfolded \<open>found = Some b\<close>] r(2) mem(2)]
            by (cases moved) (auto simp: await_def [of "on_bookings (movePayable env (bk_state r) i renter)"] on_bookings_def m refuse_def throw_def tail)
        qed (use assms guards in \<open>simp add: run pay_found [OF Inr [unfolded Some] r(2) mem(2)] on_bookings_def refuse_def throw_def\<close>)
      qed (use assms in \<open>auto simp: run pay_found [OF Inr [unfolded Some] r(2) mem(2)] on_bookings_def refuse_def throw_def done_with_def split: if_splits\<close>)
    qed
  qed
qed (use assms in \<open>simp add: pay_def on_bookings_def refuse_def throw_def\<close>)

subsection \<open>Witnesses\<close>

lemma set_states_quotes: "set_states now is t db = Inr db' \<Longrightarrow> quote_rows db' = quote_rows db"
  by (induction "is" arbitrary: db) (auto simp: result_simps dest!: set_state_Inr(1))

lemma accept_quotes: "quote_rows (snd (accept env i owner now db)) = quote_rows db"
proof -
  have "quote_rows db' = quote_rows db" if "accept_tx env i owner now db = Inr (db', x)" for db' x
    using that by (auto simp: accept_tx_def Let_def result_simps dest!: set_states_quotes dest: set_state_Inr(1) split: option.splits if_splits)
  then show ?thesis by (auto simp: accept_def atomically_def dest!: retrying_Inr split: sum.splits)
qed


theorem sweep_expires_overdue_witness:
  "\<exists>res db'. sweep (\<lambda>s. s) (calm 86400015 ''z'') 86400015 requested_db = (Inr res, db') \<and>
    (\<forall>r \<in> set (booking_rows db'). bk_id r = ''b2'' \<longrightarrow> bk_state r = REQUESTED)"
proof -
  have quiet: "booking_call\<^sup>*\<^sup>* s ((\<lambda>s. s) s)" for s by simp
  obtain res db' where res: "sweep (\<lambda>s. s) (calm 86400015 ''z'') 86400015 requested_db = (Inr res, db')"
      "\<forall>i \<in> set (expired_ids res). \<exists>r \<in> set (booking_rows requested_db). bk_id r = i \<and> overdue 86400015 r"
      "booking_rows db' = map (\<lambda>r. if bk_id r \<in> set (expired_ids res) then move_row (dbNow (calm 86400015 ''z'')) EXPIRED r else r) (booking_rows requested_db)"
    using sweep_expires_overdue [where race = "\<lambda>s. s", OF requested_reachable quiet, of "calm 86400015 ''z''" 86400015] by auto
  have "''b2'' \<notin> set (expired_ids res)"
    using res(2) by (auto simp: requested_value quoted_value row_of_def overdue_def)
  then show ?thesis using res(1,3) by (auto simp: requested_value quoted_value row_of_def split: if_splits)
qed

definition paid_result :: HireChargeResult where
  "paid_result = \<lparr>chargeStatus = Succeeded, chargePayerAction = None, chargeFailureMessage = None\<rparr>"

definition example_charge :: "HirePaymentInstruction \<Rightarrow> HireChargeResult pay" where
  "example_charge instruction p = (Inr paid_result, example_paid)"

lemma accepted_readable: "readable_booking ''b1'' ''rob'' (row_of ''b1'' 10 ''rob'' ''q1'' 100 300 ACCEPTED 30) accepted_db"
proof -
  let ?r = "row_of ''b1'' 10 ''rob'' ''q1'' 100 300 ACCEPTED 30"
  have quotes: "quote_rows accepted_db = quote_rows quoted_db"
    using accept_quotes [of "calm 40 ''y''" "''b3''" "''olive''" 40 accepted_one] accept_quotes [of "calm 30 ''x''" "''b1''" "''olive''" 30 requested_db]
    by (simp add: accepted_db_def accepted_one_def requested_value)
  have p: "party_booking ''b1'' ''rob'' accepted_db = Some ?r" by (simp add: party_booking_def accepted_rows_value row_of_def)
  have "row_ok ?r" by (simp add: row_ok_def row_of_def int4_def excess_columns_ok_def)
  then obtain rec where "toRecord ?r = Inr rec" using toRecord_ok by blast
  moreover have "find (\<lambda>q. qt_id q = bk_quoteId ?r) (quote_rows accepted_db) = Some (new_quote_row ''q1'' 0 (example_quote ''rob'' 100 300))"
    by (simp add: quotes quoted_value new_quote_ids row_of_def)
  moreover have "parseQuoteLineItems (qt_lineItems (new_quote_row ''q1'' 0 (example_quote ''rob'' 100 300))) w = Inr [example_line]" for w
    by (simp add: parseQuoteLineItems_def quoteLineItemSchema_def example_line_def new_quote_row_def damageExcessColumns_def example_quote_def)
  ultimately show ?thesis using p by (simp add: readable_booking_def findForParty_def)
qed

theorem pay_follows_provider_witness:
  "\<exists>b db' r'. pay (calm 50 ''z'') (calm 51 ''w'') True example_owners example_charge ''b1'' ''rob'' (accepted_db, example_empty)
      = (Inr (Some \<lparr>paidBooking = b, paymentResult = paid_result\<rparr>), (db', example_paid)) \<and>
    readable_booking ''b1'' ''rob'' r' db' \<and> bk_state r' = RESERVED"
proof -
  let ?r = "row_of ''b1'' 10 ''rob'' ''q1'' 100 300 ACCEPTED 30"
  have "bk_renterId ?r = ''rob''" "bk_state ?r \<in> set PAYABLE_STATES" "example_owners (bk_listingId ?r) = Some ''olive''"
    by (simp_all add: row_of_def PAYABLE_STATES_def example_owners_def)
  moreover have "example_charge (instruction_of ?r ''olive'') example_empty = (Inr paid_result, example_paid)" by (simp add: example_charge_def)
  ultimately have "\<exists>b db' r'. pay (calm 50 ''z'') (calm 51 ''w'') True example_owners example_charge ''b1'' ''rob'' (accepted_db, example_empty)
      = (Inr (Some \<lparr>paidBooking = b, paymentResult = paid_result\<rparr>), (db', example_paid)) \<and>
    readable_booking ''b1'' ''rob'' r' db' \<and> bk_state r' = state_after_payment (chargeStatus paid_result)"
    by (rule pay_follows_provider [where ownerOf = example_owners and charge = example_charge, OF accepted_reachable accepted_readable])
  then show ?thesis by (simp add: paid_result_def state_after_payment_def)
qed

theorem pay_guarded_witness:
  "snd (snd (pay (calm 50 ''z'') (calm 51 ''w'') True example_owners example_charge ''b1'' ''rob'' (accepted_db, example_empty))) \<noteq> example_empty \<and>
   (\<exists>r \<in> set (booking_rows accepted_db). bk_id r = ''b1'' \<and> bk_renterId r = ''rob'' \<and> bk_state r \<in> set PAYABLE_STATES)"
proof -
  let ?r = "row_of ''b1'' 10 ''rob'' ''q1'' 100 300 ACCEPTED 30"
  let ?pay = "pay (calm 50 ''z'') (calm 51 ''w'') True example_owners example_charge ''b1'' ''rob'' (accepted_db, example_empty)"
  have "bk_renterId ?r = ''rob''" "bk_state ?r \<in> set PAYABLE_STATES" "example_owners (bk_listingId ?r) = Some ''olive''"
    by (simp_all add: row_of_def PAYABLE_STATES_def example_owners_def)
  moreover have "example_charge (instruction_of ?r ''olive'') example_empty = (Inr paid_result, example_paid)" by (simp add: example_charge_def)
  ultimately have "\<exists>b db' r'. ?pay = (Inr (Some \<lparr>paidBooking = b, paymentResult = paid_result\<rparr>), (db', example_paid)) \<and>
    readable_booking ''b1'' ''rob'' r' db' \<and> bk_state r' = state_after_payment (chargeStatus paid_result)"
    by (rule pay_run [where ownerOf = example_owners and charge = example_charge, OF reachable_inv [OF accepted_reachable] accepted_readable])
  then have "snd (snd ?pay) = example_paid" by auto
  moreover have "intents example_paid \<noteq> intents example_empty" using example_paid_rows by (auto simp: example_empty_def empty_pay_def)
  ultimately have "snd (snd ?pay) \<noteq> example_empty" by auto
  with pay_guarded [OF this] show ?thesis by blast
qed

end
