(* ===== verification/Postcode.thy ===== *)
theory Postcode
  imports Js_Text
begin

section \<open>UK postcodes and telephone numbers\<close>

text \<open>
  \<^verbatim>\<open>packages/core/src/postcode.ts\<close> and \<^verbatim>\<open>packages/core/src/phone.ts\<close>. The regular expressions are
  anchored, so each is the union of the character-class sequences it expands to (\<open>in_classes\<close>).
  Upper-casing covers the code units below 256: ASCII and Latin-1 letters, and the sharp s that
  becomes two letters.
\<close>

subsection \<open>Postcodes\<close>

datatype PostcodeError = PostcodeRequired | NotAPostcode

definition upper_char :: "char \<Rightarrow> string" where
  "upper_char c = (let n = of_char c :: nat in
     if 97 \<le> n \<and> n \<le> 122 \<or> 224 \<le> n \<and> n \<le> 254 \<and> n \<noteq> 247 then [char_of (n - 32)]
     else if n = 223 then ''SS'' else [c])"

definition toUpperCase :: "string \<Rightarrow> string" where
  "toUpperCase s = concat (map upper_char s)"

definition strip :: "string \<Rightarrow> string" where
  "strip raw = toUpperCase (filter (\<lambda>c. \<not> is_space c) raw)"

definition in_range :: "nat \<Rightarrow> nat \<Rightarrow> char \<Rightarrow> bool" where
  "in_range lo hi c \<longleftrightarrow> lo \<le> (of_char c :: nat) \<and> (of_char c :: nat) \<le> hi"

definition cls_AZ :: "char \<Rightarrow> bool" where
  "cls_AZ c \<longleftrightarrow> in_range 65 90 c"

definition cls_second :: "char \<Rightarrow> bool" where
  "cls_second c \<longleftrightarrow> in_range 65 72 c \<or> in_range 74 89 c"

definition cls_alnum :: "char \<Rightarrow> bool" where
  "cls_alnum c \<longleftrightarrow> is_digit c \<or> cls_AZ c"

definition cls_inward :: "char \<Rightarrow> bool" where
  "cls_inward c \<longleftrightarrow> c \<in> set ''AB'' \<or> in_range 68 72 c \<or> c \<in> set ''JLN'' \<or> in_range 80 85 c
     \<or> in_range 87 90 c"

definition in_classes :: "(char \<Rightarrow> bool) list \<Rightarrow> string \<Rightarrow> bool" where
  "in_classes cs s \<longleftrightarrow> list_all2 (\<lambda>p c. p c) cs s"

definition POSTCODE :: "string \<Rightarrow> bool" where
  "POSTCODE s \<longleftrightarrow> s = ''GIR0AA''
     \<or> in_classes [cls_AZ, is_digit, is_digit, cls_inward, cls_inward] s
     \<or> in_classes [cls_AZ, cls_second, is_digit, is_digit, cls_inward, cls_inward] s
     \<or> in_classes [cls_AZ, is_digit, cls_alnum, is_digit, cls_inward, cls_inward] s
     \<or> in_classes [cls_AZ, cls_second, is_digit, cls_alnum, is_digit, cls_inward, cls_inward] s"

definition INWARD_LENGTH :: nat where
  "INWARD_LENGTH = 3"

definition parse_postcode :: "string \<Rightarrow> PostcodeError + string" where
  "parse_postcode raw =
    (let stripped = strip raw in
     if stripped = '''' then Inl PostcodeRequired
     else if \<not> POSTCODE stripped then Inl NotAPostcode
     else Inr (take (length stripped - INWARD_LENGTH) stripped @ CHR '' ''
               # drop (length stripped - INWARD_LENGTH) stripped))"

definition isValid_postcode :: "string \<Rightarrow> bool" where
  "isValid_postcode raw \<longleftrightarrow> POSTCODE (strip raw)"

definition outwardCode :: "string \<Rightarrow> PostcodeError + string" where
  "outwardCode raw = rbind (parse_postcode raw) (\<lambda>p. Inr (takeWhile (\<lambda>c. c \<noteq> CHR '' '') p))"

subsection \<open>Telephone numbers\<close>

datatype PhoneError = PhoneRequired | NotAPhoneNumber

definition NATIONAL_NUMBER :: "string \<Rightarrow> bool" where
  "NATIONAL_NUMBER s \<longleftrightarrow> (case s of [] \<Rightarrow> False
     | c # cs \<Rightarrow> c \<in> set ''1235789'' \<and> list_all is_digit cs \<and> (length cs = 8 \<or> length cs = 9))"

definition digitsOnly :: "string \<Rightarrow> string" where
  "digitsOnly raw = filter (\<lambda>c. \<not> (is_space c \<or> c \<in> set ''-.()+'')) raw"

definition startsWith :: "string \<Rightarrow> string \<Rightarrow> bool" where
  "startsWith s pre \<longleftrightarrow> take (length pre) s = pre"

definition toNationalNumber :: "string \<Rightarrow> string option" where
  "toNationalNumber raw =
    (let digits = digitsOnly raw in
     if digits = '''' \<or> \<not> list_all is_digit digits then None
     else if startsWith digits ''0044'' then Some (drop 4 digits)
     else if startsWith digits ''0'' then Some (drop 1 digits)
     else if startsWith digits ''44'' \<and> 11 \<le> length digits then Some (drop 2 digits)
     else Some digits)"

definition parse_phone :: "string \<Rightarrow> PhoneError + string" where
  "parse_phone raw =
    (if trim raw = '''' then Inl PhoneRequired
     else case toNationalNumber raw of
            None \<Rightarrow> Inl NotAPhoneNumber
          | Some national \<Rightarrow> if \<not> NATIONAL_NUMBER national then Inl NotAPhoneNumber
                             else Inr (''+44'' @ national))"

definition isValid_phone :: "string \<Rightarrow> bool" where
  "isValid_phone raw \<longleftrightarrow> (case toNationalNumber raw of None \<Rightarrow> False
     | Some national \<Rightarrow> NATIONAL_NUMBER national)"

definition format_phone :: "string \<Rightarrow> string" where
  "format_phone e164 =
    (case toNationalNumber e164 of
       None \<Rightarrow> e164
     | Some national \<Rightarrow>
         if \<not> NATIONAL_NUMBER national then e164
         else let trunk = CHR ''0'' # national
              in if startsWith trunk ''07'' \<and> length trunk = 11
                 then take 5 trunk @ CHR '' '' # drop 5 trunk else trunk)"

subsection \<open>What a valid postcode looks like\<close>

lemma cls_inward_AZ: "cls_inward c \<Longrightarrow> cls_AZ c"
  by (auto simp: cls_inward_def cls_AZ_def in_range_def)

lemma cls_second_AZ: "cls_second c \<Longrightarrow> cls_AZ c"
  by (auto simp: cls_second_def cls_AZ_def in_range_def)

lemma list_all_alnum_GIR: "list_all cls_alnum ''GIR0AA''"
  by (simp add: cls_alnum_def cls_AZ_def in_range_def is_digit_def)

lemma alnum_classes:
  "cls_AZ c \<Longrightarrow> cls_alnum c" "is_digit c \<Longrightarrow> cls_alnum c"
  "cls_inward c \<Longrightarrow> cls_alnum c" "cls_second c \<Longrightarrow> cls_alnum c"
  by (auto simp: cls_alnum_def cls_inward_AZ cls_second_AZ)

lemma in_classes_all: "in_classes cs s \<Longrightarrow> (\<And>p c. p \<in> set cs \<Longrightarrow> p c \<Longrightarrow> q c) \<Longrightarrow> list_all q s"
  unfolding in_classes_def by (induction cs s rule: list_all2_induct) auto

lemma POSTCODE_alnum: "POSTCODE s \<Longrightarrow> list_all cls_alnum s"
proof -
  assume "POSTCODE s"
  then consider "s = ''GIR0AA''"
    | cs where "in_classes cs s" "set cs \<subseteq> {cls_AZ, is_digit, cls_inward, cls_second, cls_alnum}"
    unfolding POSTCODE_def by auto
  then show ?thesis
  proof cases
    case 1
    then show ?thesis by (simp only: list_all_alnum_GIR)
  next
    case 2
    show ?thesis using 2(2) by (intro in_classes_all [OF 2(1)]) (auto intro: alnum_classes)
  qed
qed

lemma POSTCODE_length: "POSTCODE s \<Longrightarrow> 5 \<le> length s \<and> length s \<le> 7"
  unfolding POSTCODE_def in_classes_def by (auto simp: list_all2_Cons1)

lemma cls_alnum_fixed: "cls_alnum c \<Longrightarrow> \<not> is_space c \<and> upper_char c = [c]"
  by (auto simp: cls_alnum_def cls_AZ_def in_range_def is_digit_def is_space_def upper_char_def Let_def)

lemma strip_alnum: "list_all cls_alnum s \<Longrightarrow> strip s = s"
  by (induction s) (auto simp: strip_def toUpperCase_def cls_alnum_fixed)

lemma strip_append: "strip (xs @ ys) = strip xs @ strip ys"
  by (simp add: strip_def toUpperCase_def)

lemma strip_space: "strip (CHR '' '' # s) = strip s"
  by (simp add: strip_def is_space_def)

lemma parse_postcode_Inr:
  assumes "parse_postcode raw = Inr p"
  obtains s where "strip raw = s" "POSTCODE s" "p = take (length s - 3) s @ CHR '' '' # drop (length s - 3) s"
    "list_all cls_alnum s" "5 \<le> length s" "length s \<le> 7" "strip p = s"
proof -
  define s where "s = strip raw"
  have s: "POSTCODE s" and p: "p = take (length s - 3) s @ CHR '' '' # drop (length s - 3) s"
    using assms by (auto simp: parse_postcode_def s_def INWARD_LENGTH_def Let_def split: if_splits)
  have alnum: "list_all cls_alnum s" by (rule POSTCODE_alnum [OF s])
  then have "list_all cls_alnum (take (length s - 3) s)" "list_all cls_alnum (drop (length s - 3) s)"
    by (auto simp: list_all_iff dest: in_set_takeD in_set_dropD)
  then have "strip p = s" by (simp add: p strip_append strip_space strip_alnum)
  with s p alnum POSTCODE_length [OF s] show ?thesis by (intro that) (auto simp: s_def)
qed

lemma parse_postcode_strip: "strip a = strip b \<Longrightarrow> parse_postcode a = parse_postcode b"
  by (simp add: parse_postcode_def)

lemma parse_postcode_idem_aux: "parse_postcode raw = Inr p \<Longrightarrow> parse_postcode p = Inr p"
  by (metis parse_postcode_Inr parse_postcode_strip)

lemma isValid_postcode_iff: "isValid_postcode raw \<longleftrightarrow> (\<exists>p. parse_postcode raw = Inr p)"
  using POSTCODE_length [of "strip raw"] by (auto simp: isValid_postcode_def parse_postcode_def Let_def)

lemma outwardCode_parse:
  assumes "parse_postcode raw = Inr p"
  shows "\<exists>out inw. outwardCode raw = Inr out \<and> p = out @ CHR '' '' # inw \<and>
    length inw = 3 \<and> 2 \<le> length out \<and> length out \<le> 4"
proof -
  obtain s where s: "p = take (length s - 3) s @ CHR '' '' # drop (length s - 3) s"
    "list_all cls_alnum s" "5 \<le> length s" "length s \<le> 7"
    using parse_postcode_Inr [OF assms] by metis
  have "c \<noteq> CHR '' ''" if "c \<in> set (take (length s - 3) s)" for c
  proof -
    from that s(2) have "cls_alnum c" by (auto simp: list_all_iff dest: in_set_takeD)
    then show ?thesis using cls_alnum_fixed by (force simp: is_space_def)
  qed
  then have "takeWhile (\<lambda>c. c \<noteq> CHR '' '') p = take (length s - 3) s" by (simp add: s(1))
  then have "outwardCode raw = Inr (take (length s - 3) s)" by (simp add: outwardCode_def assms)
  with s show ?thesis by auto
qed

subsection \<open>Telephone numbers have one stored form\<close>

lemma NATIONAL_NUMBER_digits:
  assumes "NATIONAL_NUMBER n"
  shows "list_all is_digit n" and "n \<noteq> []" and "hd n \<noteq> CHR ''0''" and "9 \<le> length n"
  using assms by (auto simp: NATIONAL_NUMBER_def is_digit_def split: list.splits)

lemma digitsOnly_digits: "list_all is_digit s \<Longrightarrow> digitsOnly s = s"
proof -
  assume "list_all is_digit s"
  then have "\<not> is_space c \<and> c \<notin> set ''-.()+''" if "c \<in> set s" for c
    using that by (auto simp: list_all_iff is_digit_not_space is_digit_def)
  then show ?thesis unfolding digitsOnly_def by (intro filter_True) auto
qed

lemma digitsOnly_append: "digitsOnly (xs @ ys) = digitsOnly xs @ digitsOnly ys"
  by (simp add: digitsOnly_def)

lemma toNationalNumber_E164: "NATIONAL_NUMBER n \<Longrightarrow> toNationalNumber (''+44'' @ n) = Some n"
proof -
  assume n: "NATIONAL_NUMBER n"
  have "digitsOnly (''+44'' @ n) = ''44'' @ n"
    using NATIONAL_NUMBER_digits(1) [OF n]
    by (subst digitsOnly_append) (simp add: digitsOnly_digits, simp add: digitsOnly_def is_space_def)
  then show ?thesis
    using NATIONAL_NUMBER_digits [OF n] by (simp add: toNationalNumber_def startsWith_def is_digit_def)
qed

lemma toNationalNumber_trunk:
  assumes n: "NATIONAL_NUMBER n" and d: "digitsOnly s = CHR ''0'' # n"
  shows "toNationalNumber s = Some n"
proof -
  obtain c cs where "n = c # cs" "c \<noteq> CHR ''0''" using NATIONAL_NUMBER_digits(2,3) [OF n] by (cases n) auto
  then show ?thesis
    using NATIONAL_NUMBER_digits(1) [OF n] by (simp add: toNationalNumber_def d startsWith_def)
qed

lemma parse_phone_Inr: "parse_phone raw = Inr p \<Longrightarrow> \<exists>n. NATIONAL_NUMBER n \<and> toNationalNumber raw = Some n \<and> p = ''+44'' @ n"
  by (auto simp: parse_phone_def split: if_splits option.splits)

lemma trim_empty_iff: "trim s = [] \<longleftrightarrow> list_all is_space s"
proof -
  have "trim s = [] \<longleftrightarrow> (\<forall>c \<in> set (dropWhile is_space s). is_space c)"
    by (simp add: trim_def)
  also have "\<dots> \<longleftrightarrow> (\<forall>c \<in> set (takeWhile is_space s @ dropWhile is_space s). is_space c)"
    unfolding set_append by (auto dest: set_takeWhileD)
  finally show ?thesis by (simp add: list_all_iff)
qed

lemma trim_empty_toNational: "trim s = '''' \<Longrightarrow> toNationalNumber s = None"
  by (auto simp: trim_empty_iff toNationalNumber_def digitsOnly_def list_all_iff filter_empty_conv Let_def)

lemma isValid_phone_iff: "isValid_phone raw \<longleftrightarrow> (\<exists>p. parse_phone raw = Inr p)"
  by (auto simp: isValid_phone_def parse_phone_def trim_empty_toNational split: option.splits)

lemma parse_phone_national: "NATIONAL_NUMBER n \<Longrightarrow> toNationalNumber s = Some n \<Longrightarrow> parse_phone s = Inr (''+44'' @ n)"
  using trim_empty_toNational [of s] by (auto simp: parse_phone_def)

lemma parse_format_phone_aux:
  assumes "parse_phone raw = Inr p"
  shows "parse_phone p = Inr p \<and> parse_phone (format_phone p) = Inr p"
proof -
  obtain n where n: "NATIONAL_NUMBER n" and p: "p = ''+44'' @ n" using parse_phone_Inr [OF assms] by auto
  have nat: "toNationalNumber p = Some n" unfolding p by (rule toNationalNumber_E164 [OF n])
  have digits: "list_all is_digit (CHR ''0'' # n)" using NATIONAL_NUMBER_digits(1) [OF n] by simp
  have "digitsOnly (format_phone p) = CHR ''0'' # n"
  proof (cases "startsWith (CHR ''0'' # n) ''07'' \<and> length (CHR ''0'' # n) = 11")
    case True
    then have "format_phone p = take 5 (CHR ''0'' # n) @ '' '' @ drop 5 (CHR ''0'' # n)"
      by (simp add: format_phone_def nat n Let_def)
    moreover have "digitsOnly '' '' = ''''" by (simp add: digitsOnly_def is_space_def)
    moreover have "list_all is_digit (take 5 (CHR ''0'' # n))" "list_all is_digit (drop 5 (CHR ''0'' # n))"
      using digits unfolding list_all_iff by (metis in_set_takeD) (metis digits in_set_dropD list_all_iff)
    ultimately show ?thesis by (simp only: digitsOnly_append digitsOnly_digits append_Nil append_take_drop_id)
  next
    case False
    then have "format_phone p = CHR ''0'' # n" by (auto simp: format_phone_def nat n Let_def)
    then show ?thesis using digits by (simp add: digitsOnly_digits)
  qed
  then have "toNationalNumber (format_phone p) = Some n" by (rule toNationalNumber_trunk [OF n])
  then have "parse_phone (format_phone p) = Inr p" unfolding p by (rule parse_phone_national [OF n])
  moreover have "parse_phone p = Inr p" using parse_phone_national [OF n nat] p by simp
  ultimately show ?thesis by simp
qed

subsection \<open>Properties\<close>

text \<open>
A parsed postcode is canonical: parsing it again changes nothing, it is the outward code, one
  space and the three-character inward code, and \<open>outwardCode\<close> returns the part before the space and
  nothing of the inward code. Validation accepts exactly what parses.\<close>

theorem postcode_canonical:
  assumes "parse_postcode raw = Inr p"
  shows "isValid_postcode raw \<and> parse_postcode p = Inr p \<and>
    (\<exists>out inw. outwardCode raw = Inr out \<and> p = out @ CHR '' '' # inw \<and>
      length inw = 3 \<and> 2 \<le> length out \<and> length out \<le> 4)"
  using assms parse_postcode_idem_aux outwardCode_parse isValid_postcode_iff by blast

theorem postcode_canonical_witness:
  "parse_postcode '' sw1a1aa '' = Inr ''SW1A 1AA'' \<and> parse_postcode ''SW1A 1AA'' = Inr ''SW1A 1AA''"
proof -
  have p: "parse_postcode '' sw1a1aa '' = Inr ''SW1A 1AA''" by code_simp
  with postcode_canonical [OF p] show ?thesis by blast
qed

text \<open>
A parsed telephone number is canonical: parsing the stored form again, or parsing the form shown
  to a person, gives the stored form back. Validation accepts exactly what parses.\<close>

theorem phone_canonical:
  assumes "parse_phone raw = Inr p"
  shows "isValid_phone raw \<and> parse_phone p = Inr p \<and> parse_phone (format_phone p) = Inr p"
  using assms parse_format_phone_aux isValid_phone_iff by blast

theorem phone_canonical_witness:
  "parse_phone ''07700 900123'' = Inr ''+447700900123'' \<and>
   parse_phone (format_phone ''+447700900123'') = Inr ''+447700900123''"
proof -
  have p: "parse_phone ''07700 900123'' = Inr ''+447700900123''" by code_simp
  with phone_canonical [OF p] show ?thesis by blast
qed

end
