(* ===== verification/Unit_Economics.thy ===== *)
theory Unit_Economics
  imports Pricing
begin

section \<open>Unit economics and the margin rule\<close>

text \<open>
  What one booking earns and costs the platform (\<^verbatim>\<open>apps/api/src/pricing/unit-economics.ts\<close>), the cost model it is
  computed with (\<^verbatim>\<open>cost-model.ts\<close>) and the rule that a category may not lose money at its smallest booking
  (\<^verbatim>\<open>margin-rule.ts\<close>). The provenance of a cost (a source or an assumption, in words) is documentation and is
  left out; a numeric literal is the nearest binary64 number.
\<close>

subsection \<open>The cost model\<close>

record BlendedRate =
  ratePercent :: number
  rateFixed :: Money

record CostModel =
  cardProcessing :: BlendedRate
  damageSecurityProcessing :: BlendedRate
  payout :: BlendedRate
  connectedAccountMonthly :: Money
  extendedAuthorisation :: Money
  identityVerification :: Money
  smsPerMessage :: Money
  criticalMessagesPerBooking :: number
  disputeFee :: Money
  refundRate :: number
  chargebackRate :: number
  supportPerBooking :: Money

definition UK_STRIPE_COST_MODEL :: CostModel where
  "UK_STRIPE_COST_MODEL =
    \<lparr>cardProcessing = \<lparr>ratePercent = to_number (3 / 2), rateFixed = pence 20\<rparr>,
     damageSecurityProcessing = \<lparr>ratePercent = to_number (3 / 2), rateFixed = pence 20\<rparr>,
     payout = \<lparr>ratePercent = to_number (1 / 4), rateFixed = pence 10\<rparr>,
     connectedAccountMonthly = pence 200,
     extendedAuthorisation = pence 0,
     identityVerification = pence 0,
     smsPerMessage = pence 4,
     criticalMessagesPerBooking = to_number 2,
     disputeFee = pence 2000,
     refundRate = to_number (3 / 100),
     chargebackRate = to_number (5 / 1000),
     supportPerBooking = pence 15\<rparr>"

definition applyRate :: "BlendedRate \<Rightarrow> Money \<Rightarrow> MoneyError + Money" where
  "applyRate r to = rbind (percentageOf to (ratePercent r) HalfUp) (\<lambda>p. add p (rateFixed r))"

subsection \<open>One booking\<close>

record CostBreakdown =
  cardProcessingCost :: Money
  damageSecurityCost :: Money
  payoutCost :: Money
  connectedAccountCost :: Money
  extendedAuthorisationCost :: Money
  identityVerificationCost :: Money
  smsCost :: Money
  refundsCost :: Money
  chargebacksCost :: Money
  supportCost :: Money

record UnitEconomics =
  economicsGross :: Money
  economicsRenterPays :: Money
  economicsRenterFee :: Money
  economicsCommission :: Money
  ownerProceeds :: Money
  platformRevenue :: Money
  costs :: CostBreakdown
  totalCost :: Money
  contributionMargin :: Money
  economicsMinimumFeeApplied :: bool

record BookingShape =
  grossBookingValue :: Money
  damageSecurityCaptured :: Money
  bookingsPerActiveOwnerPerMonth :: number

datatype EconomicsError = OwnerNotActive number | EconomicsArithmetic MoneyError

abbreviation econ :: "MoneyError + 'a \<Rightarrow> EconomicsError + 'a" where
  "econ m \<equiv> map_sum EconomicsArithmetic id m"

fun below_one :: "number \<Rightarrow> bool" where
  "below_one (Finite x) = (x < 1)"
| "below_one (Infinite negative) = negative"
| "below_one NaN = False"

fun reciprocal :: "number \<Rightarrow> number" where
  "reciprocal (Finite x) = (if x = 0 then Infinite False else to_number (1 / x))"
| "reciprocal (Infinite _) = Finite 0"
| "reciprocal NaN = NaN"

definition cost_list :: "CostBreakdown \<Rightarrow> Money list" where
  "cost_list c = [cardProcessingCost c, damageSecurityCost c, payoutCost c, connectedAccountCost c,
     extendedAuthorisationCost c, identityVerificationCost c, smsCost c, refundsCost c, chargebacksCost c, supportCost c]"

definition unitEconomicsOf ::
  "BookingShape \<Rightarrow> CategoryFeePolicy \<Rightarrow> CostModel \<Rightarrow> EconomicsError + UnitEconomics" where
  "unitEconomicsOf booking policy model =
    (if below_one (bookingsPerActiveOwnerPerMonth booking) then Inl (OwnerNotActive (bookingsPerActiveOwnerPerMonth booking))
     else
       let gross = grossBookingValue booking; cur = currency gross in econ (
       rbind (renterFeeOn gross policy) (\<lambda>f.
       rbind (percentageOf gross (basisPointsToPercent (ownerCommissionBasisPoints policy)) HalfUp) (\<lambda>commission.
       rbind (add gross (fee f)) (\<lambda>pays.
       rbind (subtract gross commission) (\<lambda>proceeds.
       rbind (add (fee f) commission) (\<lambda>revenue.
       rbind (applyRate (cardProcessing model) pays) (\<lambda>card.
       rbind (if isZero (damageSecurityCaptured booking) then Inr (zero_money cur)
              else applyRate (damageSecurityProcessing model) (damageSecurityCaptured booking)) (\<lambda>security.
       rbind (applyRate (payout model) proceeds) (\<lambda>payout'.
       rbind (multiply (connectedAccountMonthly model) (reciprocal (bookingsPerActiveOwnerPerMonth booking)) HalfUp) (\<lambda>account.
       rbind (multiply (smsPerMessage model) (criticalMessagesPerBooking model) HalfUp) (\<lambda>sms.
       rbind (multiply card (refundRate model) HalfUp) (\<lambda>refunds.
       rbind (rbind (add (disputeFee model) card) (\<lambda>d. multiply d (chargebackRate model) HalfUp)) (\<lambda>chargebacks.
       let cs = \<lparr>cardProcessingCost = card, damageSecurityCost = security, payoutCost = payout', connectedAccountCost = account,
                 extendedAuthorisationCost = extendedAuthorisation model, identityVerificationCost = identityVerification model,
                 smsCost = sms, refundsCost = refunds, chargebacksCost = chargebacks, supportCost = supportPerBooking model\<rparr> in
       rbind (sum_money (cost_list cs) cur) (\<lambda>total.
       rbind (subtract revenue total) (\<lambda>margin.
         Inr \<lparr>economicsGross = gross, economicsRenterPays = pays, economicsRenterFee = fee f, economicsCommission = commission,
              ownerProceeds = proceeds, platformRevenue = revenue, costs = cs, totalCost = total,
              contributionMargin = margin, economicsMinimumFeeApplied = minimumFeeApplied f\<rparr>))))))))))))))))"

definition marginAcrossOwnerActivity ::
  "BookingShape \<Rightarrow> CategoryFeePolicy \<Rightarrow> CostModel \<Rightarrow> number list \<Rightarrow> EconomicsError + (number \<times> UnitEconomics) list" where
  "marginAcrossOwnerActivity booking policy model activityLevels =
    rmap (\<lambda>n. rbind (unitEconomicsOf (booking\<lparr>bookingsPerActiveOwnerPerMonth := n\<rparr>) policy model) (\<lambda>e. Inr (n, e))) activityLevels"

text \<open>The loop from \<open>bookings\<close> up to \<open>searchUpTo\<close>; the source's default bound is 60.\<close>

function break_even_from :: "BookingShape \<Rightarrow> CategoryFeePolicy \<Rightarrow> CostModel \<Rightarrow> int \<Rightarrow> int \<Rightarrow> EconomicsError + int option" where
  "break_even_from booking policy model searchUpTo bookings =
    (if searchUpTo < bookings then Inr None
     else rbind (unitEconomicsOf (booking\<lparr>bookingsPerActiveOwnerPerMonth := Finite (of_int bookings)\<rparr>) policy model) (\<lambda>e.
       if \<not> isNegative (contributionMargin e) then Inr (Some bookings)
       else break_even_from booking policy model searchUpTo (bookings + 1)))"
  by auto
termination by (relation "measure (\<lambda>(b, p, m, upTo, n). nat (upTo + 1 - n))") auto

declare break_even_from.simps [simp del]

definition breakEvenOwnerActivity :: "BookingShape \<Rightarrow> CategoryFeePolicy \<Rightarrow> CostModel \<Rightarrow> int \<Rightarrow> EconomicsError + int option" where
  "breakEvenOwnerActivity booking policy model searchUpTo = break_even_from booking policy model searchUpTo 1"

subsection \<open>The margin rule\<close>

definition NO_FLOOR_PROBE :: Money where "NO_FLOOR_PROBE = pence 100"

definition RULE_ACTIVITY_LEVEL :: number where "RULE_ACTIVITY_LEVEL = Finite 1"

text \<open>The reason of a refusal names the value judged and the loss there.\<close>

datatype MarginReason = LosesAtMinimum Money Money | NoMinimumSet Money Money

record MarginVerdict =
  meetsRule :: bool
  judgedAt :: Money
  verdictMargin :: Money
  verdictReason :: "MarginReason option"

definition marginVerdictFor :: "CategoryFeePolicy \<Rightarrow> CostModel \<Rightarrow> EconomicsError + MarginVerdict" where
  "marginVerdictFor policy model =
    (let hasFloor = 0 < amount (minimumBookingTotal policy);
         judged = (if hasFloor then minimumBookingTotal policy else NO_FLOOR_PROBE) in
     rbind (unitEconomicsOf \<lparr>grossBookingValue = judged, damageSecurityCaptured = \<lparr>amount = 0, currency = currency judged\<rparr>,
              bookingsPerActiveOwnerPerMonth = RULE_ACTIVITY_LEVEL\<rparr> policy model) (\<lambda>e.
       let margin = contributionMargin e in
       if \<not> isNegative margin
       then Inr \<lparr>meetsRule = True, judgedAt = judged, verdictMargin = margin, verdictReason = None\<rparr>
       else rbind (econ (negate margin)) (\<lambda>loss.
         Inr \<lparr>meetsRule = False, judgedAt = judged, verdictMargin = margin,
              verdictReason = Some (if hasFloor then LosesAtMinimum judged loss else NoMinimumSet judged loss)\<rparr>)))"

definition meetsMarginRule :: "CategoryFeePolicy \<Rightarrow> EconomicsError + MarginVerdict" where
  "meetsMarginRule policy = marginVerdictFor policy UK_STRIPE_COST_MODEL"

subsection \<open>Where the money goes\<close>

lemma economics_parts:
  assumes "unitEconomicsOf booking policy model = Inr e"
  shows "amount (economicsRenterPays e) = amount (ownerProceeds e) + amount (platformRevenue e)"
    "amount (totalCost e) = sum_list (map amount (cost_list (costs e)))"
    "amount (contributionMargin e) = amount (platformRevenue e) - amount (totalCost e)"
    "economicsGross e = grossBookingValue booking"
    "amount (economicsRenterPays e) = amount (economicsGross e) + amount (economicsRenterFee e)"
  using assms
  by (auto simp: unitEconomicsOf_def Let_def result_simps add_Inr_iff subtract_Inr_iff sum_money_amount split: if_splits)

text \<open>
The money of a booking is accounted for to the penny. Whenever the unit economics of a booking can be computed,
what the renter pays is exactly the owner's proceeds plus the platform's revenue, the total cost is the sum of the ten
cost lines, and the contribution margin is what is left of the renter's payment after the owner and every cost.
\<close>

theorem unit_economics_conserve:
  assumes "unitEconomicsOf booking policy model = Inr e"
  shows "amount (economicsRenterPays e) = amount (grossBookingValue booking) + amount (economicsRenterFee e) \<and>
    amount (economicsRenterPays e) = amount (ownerProceeds e) + amount (platformRevenue e) \<and>
    amount (contributionMargin e) =
      amount (economicsRenterPays e) - amount (ownerProceeds e) - sum_list (map amount (cost_list (costs e)))"
  using economics_parts [OF assms] by simp

subsection \<open>Busier owners\<close>

abbreviation at_activity :: "BookingShape \<Rightarrow> int \<Rightarrow> BookingShape" where
  "at_activity booking n \<equiv> booking\<lparr>bookingsPerActiveOwnerPerMonth := Finite (of_int n)\<rparr>"

lemma reciprocal_int:
  assumes "1 \<le> n"
  shows "reciprocal (Finite (of_int n)) = Finite (fl (1 / of_int n))"
proof -
  have "1 / of_int n \<le> (1 :: rat)" using assms by simp
  then have "\<bar>1 / of_int n :: rat\<bar> \<le> 1" using assms by simp
  then have "\<bar>1 / of_int n :: rat\<bar> \<le> 2 ^ 64" by (rule order_trans) simp
  then show ?thesis using assms by (simp add: to_number_moderate)
qed

text \<open>The revenue and the costs that do not depend on how often the owner lets.\<close>

definition other_parts :: "BookingShape \<Rightarrow> CategoryFeePolicy \<Rightarrow> CostModel \<Rightarrow> MoneyError + int" where
  "other_parts booking policy model =
    (let gross = grossBookingValue booking in
       rbind (renterFeeOn gross policy) (\<lambda>f.
       rbind (percentageOf gross (basisPointsToPercent (ownerCommissionBasisPoints policy)) HalfUp) (\<lambda>commission.
       rbind (add gross (fee f)) (\<lambda>pays.
       rbind (subtract gross commission) (\<lambda>proceeds.
       rbind (add (fee f) commission) (\<lambda>revenue.
       rbind (applyRate (cardProcessing model) pays) (\<lambda>card.
       rbind (if isZero (damageSecurityCaptured booking) then Inr (zero_money GBP)
              else applyRate (damageSecurityProcessing model) (damageSecurityCaptured booking)) (\<lambda>security.
       rbind (applyRate (payout model) proceeds) (\<lambda>payout'.
       rbind (multiply (smsPerMessage model) (criticalMessagesPerBooking model) HalfUp) (\<lambda>sms.
       rbind (multiply card (refundRate model) HalfUp) (\<lambda>refunds.
       rbind (rbind (add (disputeFee model) card) (\<lambda>d. multiply d (chargebackRate model) HalfUp)) (\<lambda>chargebacks.
         Inr (amount revenue - (amount card + amount security + amount payout' + amount (extendedAuthorisation model) +
           amount (identityVerification model) + amount sms + amount refunds + amount chargebacks + amount (supportPerBooking model)))))))))))))))"

lemma margin_split:
  assumes "unitEconomicsOf booking policy model = Inr e"
  shows "\<exists>rest account. other_parts booking policy model = Inr rest \<and>
    multiply (connectedAccountMonthly model) (reciprocal (bookingsPerActiveOwnerPerMonth booking)) HalfUp = Inr account \<and>
    amount (contributionMargin e) = rest - amount account"
  using assms
  by (auto simp: unitEconomicsOf_def other_parts_def Let_def result_simps subtract_Inr_iff dest!: sum_money_amount
      simp: cost_list_def split: if_splits)

lemma margin_increases:
  assumes "1 \<le> n" "n \<le> m" "0 \<le> amount (connectedAccountMonthly model)"
    "unitEconomicsOf (at_activity booking n) policy model = Inr e" "unitEconomicsOf (at_activity booking m) policy model = Inr e'"
  shows "amount (contributionMargin e) \<le> amount (contributionMargin e')"
proof -
  have m: "1 \<le> m" using assms(1,2) by simp
  have other: "other_parts (at_activity booking k) policy model = other_parts booking policy model" for k
    by (simp add: other_parts_def)
  obtain a r where a: "multiply (connectedAccountMonthly model) (Finite (fl (1 / of_int n))) HalfUp = Inr a"
      "other_parts booking policy model = Inr r" "amount (contributionMargin e) = r - amount a"
    using margin_split [OF assms(4)] by (auto simp: other reciprocal_int [OF assms(1)] simp del: reciprocal.simps multiply.simps)
  obtain b where b: "multiply (connectedAccountMonthly model) (Finite (fl (1 / of_int m))) HalfUp = Inr b"
      "amount (contributionMargin e') = r - amount b"
    using margin_split [OF assms(5)] a(2) by (auto simp: other reciprocal_int [OF m] simp del: reciprocal.simps multiply.simps)
  have "1 / of_int m \<le> (1 / of_int n :: rat)" using assms(1,2) by (intro divide_left_mono) auto
  then show ?thesis using multiply_mono [OF assms(3) fl_mono b(1) a(1)] a(3) b(2) by linarith
qed

definition margin_at :: "BookingShape \<Rightarrow> CategoryFeePolicy \<Rightarrow> CostModel \<Rightarrow> int \<Rightarrow> EconomicsError + int" where
  "margin_at booking policy model n =
    rbind (unitEconomicsOf (at_activity booking n) policy model) (\<lambda>e. Inr (amount (contributionMargin e)))"

lemma margin_at_mono:
  assumes "1 \<le> n" "n \<le> m" "0 \<le> amount (connectedAccountMonthly model)"
    "margin_at booking policy model n = Inr x" "margin_at booking policy model m = Inr y"
  shows "x \<le> y"
  using assms margin_increases by (auto simp: margin_at_def result_simps)

lemma break_even_from_step:
  "break_even_from booking policy model searchUpTo k =
    (if searchUpTo < k then Inr None
     else rbind (margin_at booking policy model k) (\<lambda>x. if 0 \<le> x then Inr (Some k) else break_even_from booking policy model searchUpTo (k + 1)))"
  by (subst break_even_from.simps) (simp add: margin_at_def isNegative_def not_less)

lemma break_even_from_search:
  assumes "break_even_from booking policy model searchUpTo k = Inr res"
  shows "(\<forall>j. k \<le> j \<and> j < (case res of None \<Rightarrow> searchUpTo + 1 | Some n \<Rightarrow> n) \<longrightarrow> (\<exists>x < 0. margin_at booking policy model j = Inr x)) \<and>
    (\<forall>n. res = Some n \<longrightarrow> k \<le> n \<and> n \<le> searchUpTo \<and> (\<exists>x \<ge> 0. margin_at booking policy model n = Inr x))"
  using assms
proof (induction "nat (searchUpTo + 1 - k)" arbitrary: k)
  case 0
  then have "searchUpTo < k" by simp
  then show ?case using "0.prems" by (subst (asm) break_even_from_step) auto
next
  case (Suc d)
  then have k: "\<not> searchUpTo < k" "d = nat (searchUpTo + 1 - (k + 1))" by linarith+
  then obtain x where x: "margin_at booking policy model k = Inr x"
      "(if 0 \<le> x then Inr (Some k) else break_even_from booking policy model searchUpTo (k + 1)) = Inr res"
    using Suc.prems by (subst (asm) break_even_from_step) (auto simp: result_simps)
  show ?case
  proof (cases "0 \<le> x")
    case True
    then show ?thesis using x k by auto
  next
    case False
    then have "break_even_from booking policy model searchUpTo (k + 1) = Inr res" using x(2) by simp
    note ih = Suc.hyps(1) [OF k(2) this]
    have "\<exists>x<0. margin_at booking policy model j = Inr x"
      if "k \<le> j" "j < (case res of None \<Rightarrow> searchUpTo + 1 | Some n \<Rightarrow> n)" for j
      using that ih x(1) False by (cases "j = k") auto
    then show ?thesis using ih by auto
  qed
qed

text \<open>
C37: The break-even search is right and its answer is a threshold. Whenever the search returns, the level it names is the
smallest number of bookings a month (from one up to the bound) at which the contribution margin is not negative, at every
busier level whose economics can be computed the margin is not negative either, and no level within the bound breaks
even when it names none.
\<close>

theorem break_even_threshold:
  assumes "0 \<le> amount (connectedAccountMonthly model)" "breakEvenOwnerActivity booking policy model searchUpTo = Inr res"
  shows "case res of
      None \<Rightarrow> \<forall>j. 1 \<le> j \<and> j \<le> searchUpTo \<longrightarrow> (\<exists>x < 0. margin_at booking policy model j = Inr x)
    | Some n \<Rightarrow> 1 \<le> n \<and> n \<le> searchUpTo \<and> (\<exists>x \<ge> 0. margin_at booking policy model n = Inr x) \<and>
        (\<forall>j. 1 \<le> j \<and> j < n \<longrightarrow> (\<exists>x < 0. margin_at booking policy model j = Inr x)) \<and>
        (\<forall>j x. n \<le> j \<longrightarrow> margin_at booking policy model j = Inr x \<longrightarrow> 0 \<le> x)"
proof (cases res)
  case None
  then show ?thesis using break_even_from_search [of booking policy model searchUpTo 1 None] assms(2)
    by (simp add: breakEvenOwnerActivity_def)
next
  case (Some n)
  note s = break_even_from_search [of booking policy model searchUpTo 1 "Some n"]
  then obtain x where x: "1 \<le> n" "n \<le> searchUpTo" "0 \<le> x" "margin_at booking policy model n = Inr x"
    using assms(2) Some by (auto simp: breakEvenOwnerActivity_def)
  have "0 \<le> y" if "n \<le> j" "margin_at booking policy model j = Inr y" for j y
    using margin_at_mono [OF x(1) that(1) assms(1) x(4) that(2)] x(3) by simp
  then show ?thesis using s x assms(2) Some by (auto simp: breakEvenOwnerActivity_def)
qed


subsection \<open>The rule always has a verdict\<close>

lemma percentageOf_bounded:
  assumes "\<bar>amount m\<bar> \<le> 2 ^ 42" "\<bar>p\<bar> \<le> 100"
  shows "\<exists>r. percentageOf m (Finite p) HalfUp = Inr (pence r) \<and> \<bar>r\<bar> \<le> 8 * \<bar>amount m\<bar> + 2"
proof -
  have p: "\<bar>p / 100\<bar> \<le> 1" using assms(2) by simp
  then have "\<bar>p / 100\<bar> \<le> 2 ^ 64" by (rule order_trans) simp
  then have "number_div100 (Finite p) = Finite (fl (p / 100))" by (simp add: to_number_moderate)
  moreover have "\<bar>fl (p / 100)\<bar> \<le> 4" using fl_abs_le [of "p / 100"] p by linarith
  ultimately show ?thesis unfolding percentageOf_def using multiply_bounded [OF assms(1)] by simp
qed

lemma applyRate_bounded:
  assumes "ratePercent r = to_number p" "\<bar>p\<bar> \<le> 2" "\<bar>amount (rateFixed r)\<bar> \<le> 100" "\<bar>amount m\<bar> \<le> 2 ^ 42"
  shows "\<exists>a. applyRate r m = Inr (pence a) \<and> \<bar>a\<bar> \<le> 8 * \<bar>amount m\<bar> + 102"
proof -
  have "\<bar>p\<bar> \<le> 2 ^ 64" using assms(2) by (rule order_trans) simp
  then have "ratePercent r = Finite (fl p)" using assms(1) by (simp add: to_number_moderate)
  moreover have "\<bar>fl p\<bar> \<le> 100" using fl_abs_le [of p] assms(2) by linarith
  ultimately obtain q where q: "percentageOf m (ratePercent r) HalfUp = Inr (pence q)" "\<bar>q\<bar> \<le> 8 * \<bar>amount m\<bar> + 2"
    using percentageOf_bounded [OF assms(4)] by auto
  have "safe_int (q + amount (rateFixed r))" using q(2) assms(3,4) by (simp add: safe_int_def)
  then show ?thesis using q assms(3) by (auto simp: applyRate_def add_exact)
qed

lemma multiply_to_number_bounded:
  assumes "\<bar>amount m\<bar> \<le> 2 ^ 42" "\<bar>f\<bar> \<le> 1"
  shows "\<exists>r. multiply m (to_number f) HalfUp = Inr (pence r) \<and> \<bar>r\<bar> \<le> 8 * \<bar>amount m\<bar> + 2"
proof -
  have "\<bar>f\<bar> \<le> 2 ^ 64" using assms(2) by (rule order_trans) simp
  then have "to_number f = Finite (fl f)" by (rule to_number_moderate)
  moreover have "\<bar>fl f\<bar> \<le> 4" using fl_abs_le [of f] assms(2) by linarith
  ultimately show ?thesis using multiply_bounded [OF assms(1)] by simp
qed


lemma economics_revenue:
  assumes policy: "categoryFeePolicySchema policy" and gross: "\<bar>amount gross\<bar> \<le> 2 ^ 31"
  shows "\<exists>f c applied. renterFeeOn gross policy = Inr \<lparr>fee = pence f, minimumFeeApplied = applied\<rparr> \<and>
    percentageOf gross (basisPointsToPercent (ownerCommissionBasisPoints policy)) HalfUp = Inr (pence c) \<and>
    \<bar>f\<bar> \<le> 2 ^ 32 \<and> \<bar>c\<bar> \<le> 2 ^ 32"
proof -
  let ?floor = "amount (minimumPlatformFee policy)"
  have bounds: "0 \<le> ?floor" "?floor \<le> 2 ^ 31" "0 \<le> ownerCommissionBasisPoints policy" "ownerCommissionBasisPoints policy \<le> 10000"
      "0 \<le> renterFeeBasisPoints policy" "renterFeeBasisPoints policy \<le> 10000"
    using policy by (auto simp: schema_defs pricingFloorSchema_def MAX_PRICING_FLOOR_MINOR_UNITS_def)
  have share: "\<bar>r\<bar> \<le> \<bar>amount gross\<bar> + 1" if "2 * \<bar>10000 * r - amount gross * bp\<bar> \<le> 10000" "0 \<le> bp" "bp \<le> 10000" for r bp
  proof -
    have "\<bar>amount gross * bp\<bar> \<le> \<bar>amount gross\<bar> * 10000" unfolding abs_mult using that by (intro mult_left_mono) auto
    moreover have "\<bar>10000 * r\<bar> \<le> \<bar>10000 * r - amount gross * bp\<bar> + \<bar>amount gross * bp\<bar>" by (rule order_trans [OF _ abs_triangle_ineq]) simp
    ultimately show ?thesis using that(1) by (simp add: abs_mult)
  qed
  have g37: "\<bar>amount gross\<bar> \<le> 2 ^ 37" using gross by simp
  obtain r where r: "renterFeeOn gross policy = Inr \<lparr>fee = pence (max r ?floor), minimumFeeApplied = (r < ?floor)\<rparr>"
      "2 * \<bar>10000 * r - amount gross * renterFeeBasisPoints policy\<bar> \<le> 10000"
    using renterFeeOn_ok [OF policy g37] by blast
  obtain c where c: "percentageOf gross (basisPointsToPercent (ownerCommissionBasisPoints policy)) HalfUp = Inr (pence c)"
      "2 * \<bar>10000 * c - amount gross * ownerCommissionBasisPoints policy\<bar> \<le> 10000"
    using percentageOf_nearest [OF bounds(3,4) g37] unfolding basisPointsToPercent_def by blast
  have "\<bar>max r ?floor\<bar> \<le> 2 ^ 32" using share [OF r(2) bounds(5,6)] bounds(1,2) gross by simp
  moreover have "\<bar>c\<bar> \<le> 2 ^ 32" using share [OF c(2) bounds(3,4)] gross by simp
  ultimately show ?thesis using r(1) c(1) by blast
qed

lemma uk_costs:
  assumes "\<bar>pays\<bar> \<le> 2 ^ 34" "\<bar>proceeds\<bar> \<le> 2 ^ 34"
  shows "\<exists>card p ref ch. applyRate (cardProcessing UK_STRIPE_COST_MODEL) (pence pays) = Inr (pence card) \<and>
    applyRate (payout UK_STRIPE_COST_MODEL) (pence proceeds) = Inr (pence p) \<and>
    multiply (pence card) (refundRate UK_STRIPE_COST_MODEL) HalfUp = Inr (pence ref) \<and>
    add (disputeFee UK_STRIPE_COST_MODEL) (pence card) = Inr (pence (2000 + card)) \<and>
    multiply (pence (2000 + card)) (chargebackRate UK_STRIPE_COST_MODEL) HalfUp = Inr (pence ch) \<and>
    \<bar>card\<bar> \<le> 2 ^ 38 \<and> \<bar>p\<bar> \<le> 2 ^ 38 \<and> \<bar>ref\<bar> \<le> 2 ^ 42 \<and> \<bar>ch\<bar> \<le> 2 ^ 42"
proof -
  let ?M = UK_STRIPE_COST_MODEL
  obtain card where card: "applyRate (cardProcessing ?M) (pence pays) = Inr (pence card)" "\<bar>card\<bar> \<le> 2 ^ 38"
    using applyRate_bounded [of "cardProcessing ?M" "3 / 2" "pence pays"] assms by (auto simp: UK_STRIPE_COST_MODEL_def)
  obtain p where p: "applyRate (payout ?M) (pence proceeds) = Inr (pence p)" "\<bar>p\<bar> \<le> 2 ^ 38"
    using applyRate_bounded [of "payout ?M" "1 / 4" "pence proceeds"] assms by (auto simp: UK_STRIPE_COST_MODEL_def)
  obtain ref where ref: "multiply (pence card) (refundRate ?M) HalfUp = Inr (pence ref)" "\<bar>ref\<bar> \<le> 2 ^ 42"
    using multiply_to_number_bounded [of "pence card" "3 / 100"] card(2) by (auto simp: UK_STRIPE_COST_MODEL_def simp del: multiply.simps)
  have d: "add (disputeFee ?M) (pence card) = Inr (pence (2000 + card))"
    using card(2) by (subst add_exact) (auto simp: UK_STRIPE_COST_MODEL_def safe_int_def)
  have cb: "\<bar>2000 + card\<bar> \<le> 2 ^ 38 + 2000" using card(2) by simp
  obtain ch where ch: "multiply (pence (2000 + card)) (chargebackRate ?M) HalfUp = Inr (pence ch)" "\<bar>ch\<bar> \<le> 2 ^ 42"
    using multiply_to_number_bounded [of "pence (2000 + card)" "5 / 1000"] cb by (auto simp: UK_STRIPE_COST_MODEL_def simp del: multiply.simps)
  show ?thesis using card p ref d ch by blast
qed

lemma uk_fixed:
  "extendedAuthorisation UK_STRIPE_COST_MODEL = pence 0" "identityVerification UK_STRIPE_COST_MODEL = pence 0"
  "supportPerBooking UK_STRIPE_COST_MODEL = pence 15"
  "multiply (connectedAccountMonthly UK_STRIPE_COST_MODEL) (reciprocal (Finite 1)) HalfUp = Inr (pence 200)"
  "multiply (smsPerMessage UK_STRIPE_COST_MODEL) (criticalMessagesPerBooking UK_STRIPE_COST_MODEL) HalfUp = Inr (pence 8)"
proof -
  have one: "reciprocal (Finite 1) = Finite (of_int 1)" "to_number 2 = Finite (of_int 2)"
    using fl_int [of 1] fl_int [of 2] by (simp_all add: to_number_moderate)
  show "multiply (connectedAccountMonthly UK_STRIPE_COST_MODEL) (reciprocal (Finite 1)) HalfUp = Inr (pence 200)"
    "multiply (smsPerMessage UK_STRIPE_COST_MODEL) (criticalMessagesPerBooking UK_STRIPE_COST_MODEL) HalfUp = Inr (pence 8)"
    unfolding UK_STRIPE_COST_MODEL_def CostModel.simps one multiply_int by (simp_all add: safe_int_def)
qed (simp_all add: UK_STRIPE_COST_MODEL_def)

lemma economics_total:
  assumes policy: "categoryFeePolicySchema policy" and gross: "\<bar>amount gross\<bar> \<le> 2 ^ 31"
  shows "\<exists>e. unitEconomicsOf \<lparr>grossBookingValue = gross, damageSecurityCaptured = pence 0,
    bookingsPerActiveOwnerPerMonth = Finite 1\<rparr> policy UK_STRIPE_COST_MODEL = Inr e \<and> safe_int (amount (contributionMargin e))"
proof -
  obtain f c applied where r: "renterFeeOn gross policy = Inr \<lparr>fee = pence f, minimumFeeApplied = applied\<rparr>"
      "percentageOf gross (basisPointsToPercent (ownerCommissionBasisPoints policy)) HalfUp = Inr (pence c)"
      "\<bar>f\<bar> \<le> 2 ^ 32" "\<bar>c\<bar> \<le> 2 ^ 32"
    using economics_revenue [OF assms] by blast
  have pays: "add gross (pence f) = Inr (pence (amount gross + f))" "subtract gross (pence c) = Inr (pence (amount gross - c))"
      "add (pence f) (pence c) = Inr (pence (f + c))"
    using r(3,4) gross by (simp_all add: add_exact subtract_exact safe_int_def)
  have b: "\<bar>amount gross + f\<bar> \<le> 2 ^ 34" "\<bar>amount gross - c\<bar> \<le> 2 ^ 34" using r(3,4) gross by simp_all
  obtain card p ref ch where k: "applyRate (cardProcessing UK_STRIPE_COST_MODEL) (pence (amount gross + f)) = Inr (pence card)"
      "applyRate (payout UK_STRIPE_COST_MODEL) (pence (amount gross - c)) = Inr (pence p)"
      "multiply (pence card) (refundRate UK_STRIPE_COST_MODEL) HalfUp = Inr (pence ref)"
      "add (disputeFee UK_STRIPE_COST_MODEL) (pence card) = Inr (pence (2000 + card))"
      "multiply (pence (2000 + card)) (chargebackRate UK_STRIPE_COST_MODEL) HalfUp = Inr (pence ch)"
      "\<bar>card\<bar> \<le> 2 ^ 38" "\<bar>p\<bar> \<le> 2 ^ 38" "\<bar>ref\<bar> \<le> 2 ^ 42" "\<bar>ch\<bar> \<le> 2 ^ 42"
    using uk_costs [OF b] by blast
  define total where "total = card + p + 200 + 8 + ref + ch + 15"
  have total: "sum_money [pence card, pence 0, pence p, pence 200, pence 0, pence 0, pence 8, pence ref, pence ch, pence 15] GBP = Inr (pence total)"
    using k(6-9) by (subst sum_money_exact) (auto simp: safe_int_def total_def)
  have margin: "subtract (pence (f + c)) (pence total) = Inr (pence (f + c - total))" "safe_int (f + c - total)"
    using r(3,4) k(6-9) by (simp_all add: subtract_exact safe_int_def total_def)
  show ?thesis
    using margin(2) by (simp add: unitEconomicsOf_def Let_def r(1,2) pays k(1-5) uk_fixed
        cost_list_def total margin(1) isZero_def zero_money_def del: multiply.simps reciprocal.simps)
qed

text \<open>
Every fee policy an administrator can submit gets a verdict, and the verdict is the sign of the margin: the rule
judges the category at its minimum booking total, or at one pound when it sets none, with an owner active once a month
and no damage security, accepts exactly when the contribution margin there is not negative, and otherwise names the
loss as the reason.
\<close>

theorem margin_rule_decides:
  assumes "categoryFeePolicySchema policy"
  shows "\<exists>v e. meetsMarginRule policy = Inr v \<and>
    unitEconomicsOf \<lparr>grossBookingValue = judgedAt v, damageSecurityCaptured = pence 0,
      bookingsPerActiveOwnerPerMonth = Finite 1\<rparr> policy UK_STRIPE_COST_MODEL = Inr e \<and>
    judgedAt v = (if amount (minimumBookingTotal policy) = 0 then pence 100 else minimumBookingTotal policy) \<and>
    meetsRule v = (0 \<le> amount (contributionMargin e)) \<and>
    verdictReason v = (if meetsRule v then None
      else Some ((if amount (minimumBookingTotal policy) = 0 then NoMinimumSet else LosesAtMinimum)
             (judgedAt v) (pence (- amount (contributionMargin e)))))"
proof -
  have floor: "0 \<le> amount (minimumBookingTotal policy)" "amount (minimumBookingTotal policy) \<le> 1000000"
    using assms by (auto simp: schema_defs pricingFloorSchema_def MAX_PRICING_FLOOR_MINOR_UNITS_def)
  define j where "j = (if amount (minimumBookingTotal policy) = 0 then pence 100 else minimumBookingTotal policy)"
  have "\<bar>amount j\<bar> \<le> 2 ^ 31" using floor by (simp add: j_def)
  then obtain e where e: "unitEconomicsOf \<lparr>grossBookingValue = j, damageSecurityCaptured = pence 0,
      bookingsPerActiveOwnerPerMonth = Finite 1\<rparr> policy UK_STRIPE_COST_MODEL = Inr e" "safe_int (amount (contributionMargin e))"
    using economics_total [OF assms] by blast
  have loss: "negate (contributionMargin e) = Inr (pence (- amount (contributionMargin e)))"
    using e(2) money_int [of "- amount (contributionMargin e)" GBP] by (simp add: negate_def safe_int_def)
  have "(0 < amount (minimumBookingTotal policy)) = (amount (minimumBookingTotal policy) \<noteq> 0)" using floor by auto
  then show ?thesis
    using e(1) loss by (simp add: meetsMarginRule_def marginVerdictFor_def Let_def NO_FLOOR_PROBE_def RULE_ACTIVITY_LEVEL_def
        isNegative_def j_def not_less split: if_splits)
qed


definition floor_policy :: CategoryFeePolicy where
  "floor_policy = \<lparr>ownerCommissionBasisPoints = 1500, renterFeeBasisPoints = 800,
     minimumBookingTotal = pence 1000, minimumPlatformFee = pence 100\<rparr>"

lemma floor_policy_ok: "categoryFeePolicySchema floor_policy"
  by (simp add: floor_policy_def schema_defs pricingFloorSchema_def MAX_PRICING_FLOOR_MINOR_UNITS_def)

theorem margin_rule_decides_witness:
  "categoryFeePolicySchema floor_policy \<and> (\<exists>v. meetsMarginRule floor_policy = Inr v \<and> judgedAt v = pence 1000)"
  using margin_rule_decides [OF floor_policy_ok] floor_policy_ok by (auto simp: floor_policy_def)

definition floor_booking :: BookingShape where
  "floor_booking = \<lparr>grossBookingValue = pence 1000, damageSecurityCaptured = pence 0, bookingsPerActiveOwnerPerMonth = Finite 1\<rparr>"

lemma floor_economics: "\<exists>e. unitEconomicsOf floor_booking floor_policy UK_STRIPE_COST_MODEL = Inr e"
  using economics_total [OF floor_policy_ok, of "pence 1000"] by (auto simp: floor_booking_def)

theorem unit_economics_conserve_witness:
  "\<exists>e. unitEconomicsOf floor_booking floor_policy UK_STRIPE_COST_MODEL = Inr e \<and>
     amount (economicsRenterPays e) = amount (ownerProceeds e) + amount (platformRevenue e)"
  using floor_economics unit_economics_conserve by blast

theorem break_even_threshold_witness:
  "\<exists>res. breakEvenOwnerActivity floor_booking floor_policy UK_STRIPE_COST_MODEL 1 = Inr res \<and>
     (\<forall>n. res = Some n \<longrightarrow> n = 1)"
proof -
  have b: "floor_booking\<lparr>bookingsPerActiveOwnerPerMonth := Finite 1\<rparr> = floor_booking" by (simp add: floor_booking_def)
  obtain e where e: "unitEconomicsOf floor_booking floor_policy UK_STRIPE_COST_MODEL = Inr e" using floor_economics by blast
  have "\<exists>res. breakEvenOwnerActivity floor_booking floor_policy UK_STRIPE_COST_MODEL 1 = Inr res"
    unfolding breakEvenOwnerActivity_def by (subst break_even_from_step, subst break_even_from_step) (simp add: margin_at_def b e)
  then obtain res where r: "breakEvenOwnerActivity floor_booking floor_policy UK_STRIPE_COST_MODEL 1 = Inr res" by blast
  have "0 \<le> amount (connectedAccountMonthly UK_STRIPE_COST_MODEL)" by (simp add: UK_STRIPE_COST_MODEL_def)
  then have "n = 1" if "res = Some n" for n using break_even_threshold [OF _ r] that by auto
  then show ?thesis using r by blast
qed

end
