(* ===== verification/Attributes.thy ===== *)
theory Attributes
  imports Scaled "HOL-Library.AList"
begin

section \<open>Category attributes and the answers to them\<close>

text \<open>
  The questions a category asks (\<^verbatim>\<open>packages/contracts/src/catalogue.ts\<close>), the check of an owner's answers
  (\<^verbatim>\<open>attribute-values.ts\<close>), the transport options of a category and the suggestion made from an item's
  weight (\<^verbatim>\<open>transport.ts\<close>, \<^verbatim>\<open>item-weight.ts\<close>). What arrives from outside is a \<open>json\<close> value, the fields of an
  object in order; a schema that trims returns the trimmed value. A message shown to a person is a
  constructor of \<open>AttributeProblem\<close>. Characters are those up to U+00FF.
\<close>

datatype json = JNull | JBool bool | JNumber number | JString string | JArray "json list" | JObject "(string \<times> json) list"

subsection \<open>Text\<close>

text \<open>The characters of the Unicode categories Cc and Cf in that range.\<close>

definition is_control_or_format :: "char \<Rightarrow> bool" where
  "is_control_or_format c \<longleftrightarrow> (let n = of_char c :: nat in n < 32 \<or> 127 \<le> n \<and> n < 160 \<or> n = 173)"

definition is_line_break :: "char \<Rightarrow> bool" where
  "is_line_break c \<longleftrightarrow> (let n = of_char c :: nat in n \<in> {9, 10, 13})"

definition hasUnsafeCharacters :: "string \<Rightarrow> bool \<Rightarrow> bool" where
  "hasUnsafeCharacters value allowLineBreaks =
    list_ex is_control_or_format (if allowLineBreaks then filter (\<lambda>c. \<not> is_line_break c) value else value)"

definition is_lower :: "char \<Rightarrow> bool" where
  "is_lower c \<longleftrightarrow> (let n = of_char c :: nat in 97 \<le> n \<and> n \<le> 122)"

fun split_at :: "(char \<Rightarrow> bool) \<Rightarrow> string \<Rightarrow> string list" where
  "split_at sep [] = [[]]"
| "split_at sep (c # s) = (if sep c then [] # split_at sep s
     else (case split_at sep s of [] \<Rightarrow> [[c]] | w # ws \<Rightarrow> (c # w) # ws))"

text \<open>Words of lower-case letters and digits, joined by single separators.\<close>

definition joined_words :: "(char \<Rightarrow> bool) \<Rightarrow> string \<Rightarrow> bool" where
  "joined_words sep s = list_all (\<lambda>w. w \<noteq> [] \<and> list_all (\<lambda>c. is_lower c \<or> is_digit c) w) (split_at sep s)"

subsection \<open>The questions\<close>

record AttributeOption =
  optionValue :: string
  optionLabel :: string

datatype AttributeType = TextType int | NumberType string int | ChoiceType "AttributeOption list" | ChoiceManyType "AttributeOption list"

record CategoryAttribute =
  attributeKey :: string
  attributeLabel :: string
  required :: bool
  attributeType :: AttributeType

definition MAX_CATEGORY_ATTRIBUTES :: nat where "MAX_CATEGORY_ATTRIBUTES = 12"
definition MAX_ATTRIBUTE_LABEL_LENGTH :: nat where "MAX_ATTRIBUTE_LABEL_LENGTH = 60"
definition MAX_ATTRIBUTE_UNIT_LENGTH :: nat where "MAX_ATTRIBUTE_UNIT_LENGTH = 12"
definition MAX_ATTRIBUTE_OPTIONS :: nat where "MAX_ATTRIBUTE_OPTIONS = 24"
definition MAX_ATTRIBUTE_OPTION_LABEL_LENGTH :: nat where "MAX_ATTRIBUTE_OPTION_LABEL_LENGTH = 60"
definition MAX_ATTRIBUTE_TEXT_LENGTH :: int where "MAX_ATTRIBUTE_TEXT_LENGTH = 200"
definition MAX_ATTRIBUTE_DECIMAL_PLACES :: int where "MAX_ATTRIBUTE_DECIMAL_PLACES = 3"

definition attributeKeySchema :: "string \<Rightarrow> string option" where
  "attributeKeySchema raw = (let s = trim raw in
     if 2 \<le> length s \<and> length s \<le> 40 \<and> is_lower (hd s) \<and> joined_words (\<lambda>c. c = CHR ''_'') s then Some s else None)"

definition attributeLabelSchema :: "string \<Rightarrow> string option" where
  "attributeLabelSchema raw = (let s = trim raw in
     if 2 \<le> length s \<and> length s \<le> MAX_ATTRIBUTE_LABEL_LENGTH then Some s else None)"

definition attributeOptionSchema :: "AttributeOption \<Rightarrow> AttributeOption option" where
  "attributeOptionSchema raw = (let v = trim (optionValue raw); l = trim (optionLabel raw) in
     if v \<noteq> [] \<and> length v \<le> 40 \<and> joined_words (\<lambda>c. c = CHR ''-'' \<or> c = CHR ''_'') v \<and>
        l \<noteq> [] \<and> length l \<le> MAX_ATTRIBUTE_OPTION_LABEL_LENGTH
     then Some \<lparr>optionValue = v, optionLabel = l\<rparr> else None)"

fun attributeTypeSchema :: "AttributeType \<Rightarrow> AttributeType option" where
  "attributeTypeSchema (TextType maxLength) =
    (if 1 \<le> maxLength \<and> maxLength \<le> MAX_ATTRIBUTE_TEXT_LENGTH then Some (TextType maxLength) else None)"
| "attributeTypeSchema (NumberType raw decimalPlaces) = (let u = trim raw in
    if u \<noteq> [] \<and> length u \<le> MAX_ATTRIBUTE_UNIT_LENGTH \<and> 0 \<le> decimalPlaces \<and> decimalPlaces \<le> MAX_ATTRIBUTE_DECIMAL_PLACES
    then Some (NumberType u decimalPlaces) else None)"
| "attributeTypeSchema (ChoiceType raw) =
    (if 2 \<le> length raw \<and> length raw \<le> MAX_ATTRIBUTE_OPTIONS
     then (case those (map attributeOptionSchema raw) of
             None \<Rightarrow> None | Some opts \<Rightarrow> if distinct (map optionValue opts) then Some (ChoiceType opts) else None)
     else None)"
| "attributeTypeSchema (ChoiceManyType raw) =
    (if 1 \<le> length raw \<and> length raw \<le> MAX_ATTRIBUTE_OPTIONS
     then (case those (map attributeOptionSchema raw) of
             None \<Rightarrow> None | Some opts \<Rightarrow> if distinct (map optionValue opts) then Some (ChoiceManyType opts) else None)
     else None)"

definition categoryAttributeSchema :: "CategoryAttribute \<Rightarrow> CategoryAttribute option" where
  "categoryAttributeSchema raw =
    (case (attributeKeySchema (attributeKey raw), attributeLabelSchema (attributeLabel raw), attributeTypeSchema (attributeType raw)) of
       (Some k, Some l, Some t) \<Rightarrow> Some \<lparr>attributeKey = k, attributeLabel = l, required = required raw, attributeType = t\<rparr>
     | _ \<Rightarrow> None)"

definition categoryAttributesSchema :: "CategoryAttribute list \<Rightarrow> CategoryAttribute list option" where
  "categoryAttributesSchema raw =
    (if length raw \<le> MAX_CATEGORY_ATTRIBUTES
     then (case those (map categoryAttributeSchema raw) of
             None \<Rightarrow> None | Some as \<Rightarrow> if distinct (map attributeKey as) then Some as else None)
     else None)"

subsection \<open>The answers\<close>

datatype AttributeValue = TextValue string | NumberValue int | ManyValue "string list"

type_synonym ListingAttributeValues = "(string \<times> AttributeValue) list"

datatype AttributeProblem = MustBeText | MustNotBeBlank | TooLong | UnsafeCharacters | MustBeSentAsText | MustBeANumber
  | ScaledProblem ScaledError | MustBeOneOf | MustBeAList | MayOnlyContain | ListedTwice | MustNotBeEmptyList
  | NotAField | NotAnObject | TooManyValues

type_synonym AttributeValueIssue = "string option \<times> AttributeProblem"

definition isOption :: "AttributeOption list \<Rightarrow> string \<Rightarrow> bool" where
  "isOption opts value = list_ex (\<lambda>opt. optionValue opt = value) opts"

fun chooseMany :: "AttributeOption list \<Rightarrow> string list \<Rightarrow> json list \<Rightarrow> AttributeProblem + string list" where
  "chooseMany opts chosen [] = Inr chosen"
| "chooseMany opts chosen (JString e # rest) =
    (if \<not> isOption opts e then Inl MayOnlyContain
     else if e \<in> set chosen then Inl ListedTwice
     else chooseMany opts (chosen @ [e]) rest)"
| "chooseMany opts chosen (_ # rest) = Inl MayOnlyContain"

definition readValue :: "CategoryAttribute \<Rightarrow> json \<Rightarrow> AttributeProblem + AttributeValue" where
  "readValue attribute raw =
    (case attributeType attribute of
       TextType maxLength \<Rightarrow>
         (case raw of
            JString s \<Rightarrow>
              (let trimmed = trim s in
               if trimmed = [] then Inl MustNotBeBlank
               else if maxLength < int (length trimmed) then Inl TooLong
               else if hasUnsafeCharacters trimmed False then Inl UnsafeCharacters
               else Inr (TextValue trimmed))
          | _ \<Rightarrow> Inl MustBeText)
     | NumberType u decimalPlaces \<Rightarrow>
         (case raw of
            JString s \<Rightarrow>
              (let typed = trim s in
               if typed = [] then Inl MustNotBeBlank
               else if decimal_match typed = None then Inl MustBeANumber
               else map_sum ScaledProblem NumberValue (fromDecimalString typed (Finite (of_int decimalPlaces))))
          | _ \<Rightarrow> Inl MustBeSentAsText)
     | ChoiceType opts \<Rightarrow>
         (case raw of
            JString s \<Rightarrow> if isOption opts s then Inr (TextValue s) else Inl MustBeOneOf
          | _ \<Rightarrow> Inl MustBeOneOf)
     | ChoiceManyType opts \<Rightarrow>
         (case raw of
            JArray entries \<Rightarrow>
              rbind (chooseMany opts [] entries) (\<lambda>chosen.
                if chosen = [] then Inl MustNotBeEmptyList
                else Inr (ManyValue (filter (\<lambda>v. v \<in> set chosen) (map optionValue opts))))
          | _ \<Rightarrow> Inl MustBeAList))"

fun readAnswers :: "CategoryAttribute list \<Rightarrow> (string \<times> json) list \<Rightarrow> AttributeValueIssue list \<times> ListingAttributeValues
    \<Rightarrow> AttributeValueIssue list \<times> ListingAttributeValues" where
  "readAnswers [] raw acc = acc"
| "readAnswers (a # as) raw (issues, values) =
    (case map_of raw (attributeKey a) of
       None \<Rightarrow> readAnswers as raw (issues, values)
     | Some JNull \<Rightarrow> readAnswers as raw (issues, values)
     | Some supplied \<Rightarrow>
         (case readValue a supplied of
            Inl problem \<Rightarrow> readAnswers as raw (issues @ [(Some (attributeKey a), problem)], values)
          | Inr value \<Rightarrow> readAnswers as raw (issues, AList.update (attributeKey a) value values)))"

definition validateAttributeValues :: "CategoryAttribute list \<Rightarrow> json \<Rightarrow> AttributeValueIssue list + ListingAttributeValues" where
  "validateAttributeValues attributes raw =
    (case raw of
       JObject flds \<Rightarrow>
         if MAX_CATEGORY_ATTRIBUTES < length flds then Inl [(None, TooManyValues)]
         else
           let unknown = map (\<lambda>k. (Some k, NotAField)) (filter (\<lambda>k. k \<notin> attributeKey ` set attributes) (map fst flds));
               (issues, values) = readAnswers attributes flds (unknown, [])
           in if issues \<noteq> [] then Inl issues else Inr values
     | _ \<Rightarrow> Inl [(None, NotAnObject)])"

subsection \<open>Transport\<close>

datatype TransportRequirement = HandCarryable | CarBoot | EstateOrHatchback | VanRequired | TrailerRequired

definition TRANSPORT_REQUIREMENTS :: "TransportRequirement list" where
  "TRANSPORT_REQUIREMENTS = [HandCarryable, CarBoot, EstateOrHatchback, VanRequired, TrailerRequired]"

fun rankOf :: "TransportRequirement \<Rightarrow> nat" where
  "rankOf HandCarryable = 0"
| "rankOf CarBoot = 1"
| "rankOf EstateOrHatchback = 2"
| "rankOf VanRequired = 3"
| "rankOf TrailerRequired = 4"

record CategoryTransportOption =
  requirement :: TransportRequirement
  suggestedUpToKg :: "int option"

definition MIN_TRANSPORT_SUGGESTION_KG :: int where "MIN_TRANSPORT_SUGGESTION_KG = 1"
definition MAX_TRANSPORT_SUGGESTION_KG :: int where "MAX_TRANSPORT_SUGGESTION_KG = 2000"

definition transportOptionSchema :: "CategoryTransportOption \<Rightarrow> bool" where
  "transportOptionSchema o' \<longleftrightarrow> pred_option (\<lambda>kg. MIN_TRANSPORT_SUGGESTION_KG \<le> kg \<and> kg \<le> MAX_TRANSPORT_SUGGESTION_KG) (suggestedUpToKg o')"

fun thresholdsIncrease :: "int option \<Rightarrow> CategoryTransportOption list \<Rightarrow> bool" where
  "thresholdsIncrease previous [] = True"
| "thresholdsIncrease previous (o' # os) =
    (case suggestedUpToKg o' of
       None \<Rightarrow> thresholdsIncrease previous os
     | Some kg \<Rightarrow> (case previous of None \<Rightarrow> True | Some p \<Rightarrow> p < kg) \<and> thresholdsIncrease (Some kg) os)"

definition categoryTransportOptionsSchema :: "CategoryTransportOption list \<Rightarrow> CategoryTransportOption list option" where
  "categoryTransportOptionsSchema options =
    (let ordered = sort_key (\<lambda>o'. rankOf (requirement o')) options in
     if list_all transportOptionSchema options \<and> length options \<le> length TRANSPORT_REQUIREMENTS \<and>
        distinct (map requirement options) \<and> thresholdsIncrease None ordered
     then Some ordered else None)"

definition offersTransportRequirement :: "CategoryTransportOption list \<Rightarrow> TransportRequirement \<Rightarrow> bool" where
  "offersTransportRequirement options r = list_ex (\<lambda>o'. requirement o' = r) options"

record ItemWeight =
  scaledWeight :: int
  weightDecimalPlaces :: nat

text \<open>The products stay far inside the exact integers: at most 2000 kg at 9 places.\<close>

fun suggest_from :: "ItemWeight \<Rightarrow> TransportRequirement option \<Rightarrow> bool \<Rightarrow> CategoryTransportOption list \<Rightarrow> TransportRequirement option" where
  "suggest_from w heaviestOffered anyThreshold [] = (if anyThreshold then heaviestOffered else None)"
| "suggest_from w heaviestOffered anyThreshold (o' # os) =
    (case suggestedUpToKg o' of
       None \<Rightarrow> suggest_from w (Some (requirement o')) anyThreshold os
     | Some kg \<Rightarrow> if scaledWeight w \<le> kg * 10 ^ weightDecimalPlaces w then Some (requirement o')
                  else suggest_from w (Some (requirement o')) True os)"

definition suggestTransportRequirement :: "CategoryTransportOption list \<Rightarrow> ItemWeight option \<Rightarrow> TransportRequirement option" where
  "suggestTransportRequirement options weight =
    (case weight of None \<Rightarrow> None | Some w \<Rightarrow> if options = [] then None else suggest_from w None False options)"

definition WEIGHT_ATTRIBUTE_KEY :: string where "WEIGHT_ATTRIBUTE_KEY = ''weight_kg''"

definition readItemWeight :: "CategoryAttribute list \<Rightarrow> (string \<times> json) list \<Rightarrow> ItemWeight option" where
  "readItemWeight attributes answers =
    (case find (\<lambda>a. attributeKey a = WEIGHT_ATTRIBUTE_KEY) attributes of
       None \<Rightarrow> None
     | Some a \<Rightarrow>
         (case (attributeType a, map_of answers WEIGHT_ATTRIBUTE_KEY) of
            (NumberType u places, Some (JString answer)) \<Rightarrow>
              (let typed = trim answer in
               if typed = [] then None
               else if decimal_match typed = None then None
               else (case fromDecimalString typed (Finite (of_int places)) of
                       Inl _ \<Rightarrow> None
                     | Inr scaled \<Rightarrow> if scaled < 0 then None
                                     else Some \<lparr>scaledWeight = scaled, weightDecimalPlaces = nat places\<rparr>))
          | _ \<Rightarrow> None))"

subsection \<open>What a valid answer is\<close>

definition value_ok :: "CategoryAttribute \<Rightarrow> AttributeValue \<Rightarrow> bool" where
  "value_ok a v \<longleftrightarrow>
    (case (attributeType a, v) of
       (TextType n, TextValue s) \<Rightarrow> s \<noteq> [] \<and> trim s = s \<and> int (length s) \<le> n \<and> \<not> hasUnsafeCharacters s False
     | (NumberType u d, NumberValue n) \<Rightarrow> safe_int n
     | (ChoiceType opts, TextValue s) \<Rightarrow> s \<in> optionValue ` set opts
     | (ChoiceManyType opts, ManyValue vs) \<Rightarrow> vs \<noteq> [] \<and> vs = filter (\<lambda>x. x \<in> set vs) (map optionValue opts)
     | _ \<Rightarrow> False)"

text \<open>How a stored value is put back into the form: numbers as decimal text.\<close>

fun answer_json :: "AttributeType \<Rightarrow> AttributeValue \<Rightarrow> json" where
  "answer_json t (TextValue s) = JString s"
| "answer_json t (ManyValue vs) = JArray (map JString vs)"
| "answer_json t (NumberValue n) =
    (case t of
       NumberType u d \<Rightarrow> (case toDecimalString (Finite (of_int n)) (Finite (of_int d)) of Inr s \<Rightarrow> JString s | Inl _ \<Rightarrow> JNull)
     | _ \<Rightarrow> JNull)"

definition type_ok :: "AttributeType \<Rightarrow> bool" where
  "type_ok t \<longleftrightarrow> (case t of TextType n \<Rightarrow> True | NumberType u d \<Rightarrow> 0 \<le> d \<and> d \<le> 3
     | ChoiceType opts \<Rightarrow> distinct (map optionValue opts) | ChoiceManyType opts \<Rightarrow> distinct (map optionValue opts))"

lemma isOption_iff: "isOption opts v \<longleftrightarrow> v \<in> optionValue ` set opts"
  by (auto simp: isOption_def list_ex_iff)

lemma chooseMany_Inr_iff:
  "chooseMany opts chosen entries = Inr res \<longleftrightarrow>
    (\<exists>vs. entries = map JString vs \<and> set vs \<subseteq> optionValue ` set opts \<and> distinct vs \<and> set vs \<inter> set chosen = {} \<and> res = chosen @ vs)"
proof (induction opts chosen entries rule: chooseMany.induct)
  case (2 opts chosen e rest)
  show ?case
  proof (cases "isOption opts e \<and> e \<notin> set chosen")
    case True
    then have "chooseMany opts chosen (JString e # rest) = Inr res \<longleftrightarrow> chooseMany opts (chosen @ [e]) rest = Inr res" by simp
    also have "\<dots> \<longleftrightarrow> (\<exists>vs. rest = map JString vs \<and> set vs \<subseteq> optionValue ` set opts \<and> distinct vs \<and>
        set vs \<inter> set (chosen @ [e]) = {} \<and> res = (chosen @ [e]) @ vs)"
      using 2 True by simp
    also have "\<dots> \<longleftrightarrow> (\<exists>vs. JString e # rest = map JString vs \<and> set vs \<subseteq> optionValue ` set opts \<and> distinct vs \<and>
        set vs \<inter> set chosen = {} \<and> res = chosen @ vs)" (is "?l \<longleftrightarrow> ?r")
    proof
      assume ?l
      then obtain vs where "rest = map JString vs" "set vs \<subseteq> optionValue ` set opts" "distinct vs"
        "set vs \<inter> set (chosen @ [e]) = {}" "res = (chosen @ [e]) @ vs" by blast
      then show ?r using True by (intro exI [of _ "e # vs"]) (auto simp: isOption_iff)
    next
      assume ?r
      then obtain vs where "JString e # rest = map JString (e # vs)" "set (e # vs) \<subseteq> optionValue ` set opts" "distinct (e # vs)"
        "set (e # vs) \<inter> set chosen = {}" "res = chosen @ e # vs" by (auto simp: Cons_eq_map_conv)
      then show ?l by (intro exI [of _ vs]) auto
    qed
    finally show ?thesis .
  next
    case False
    then show ?thesis by (auto simp: Cons_eq_map_conv isOption_iff)
  qed
qed (auto simp: Cons_eq_map_conv)

lemma readValue_ok: "readValue a raw = Inr v \<Longrightarrow> value_ok a v"
proof (cases "attributeType a")
  case (TextType n)
  moreover assume "readValue a raw = Inr v"
  ultimately show ?thesis by (auto simp: readValue_def value_ok_def Let_def trim_idem split: json.splits if_splits)
next
  case (NumberType u d)
  moreover assume "readValue a raw = Inr v"
  ultimately show ?thesis
    by (auto simp: readValue_def value_ok_def Let_def result_simps fromDecimalString_def safe_int_def
        split: json.splits if_splits option.splits)
next
  case (ChoiceType opts)
  moreover assume "readValue a raw = Inr v"
  ultimately show ?thesis by (auto simp: readValue_def value_ok_def isOption_iff split: json.splits if_splits)
next
  case (ChoiceManyType opts)
  moreover assume "readValue a raw = Inr v"
  ultimately obtain entries chosen where e: "raw = JArray entries" "chooseMany opts [] entries = Inr chosen" "chosen \<noteq> []"
      "v = ManyValue (filter (\<lambda>x. x \<in> set chosen) (map optionValue opts))"
    by (auto simp: readValue_def result_simps split: json.splits if_splits)
  then obtain c where "c \<in> set chosen" "c \<in> optionValue ` set opts"
    by (cases chosen) (auto simp: chooseMany_Inr_iff)
  then have "filter (\<lambda>x. x \<in> set chosen) (map optionValue opts) \<noteq> []" by (auto simp: filter_empty_conv)
  moreover define F where "F = filter (\<lambda>x. x \<in> set chosen) (map optionValue opts)"
  have "F = filter (\<lambda>x. x \<in> set F) (map optionValue opts)" unfolding F_def by (rule filter_cong) auto
  ultimately show ?thesis using ChoiceManyType e(4) F_def by (simp add: value_ok_def)
qed

lemma readValue_answer:
  assumes "value_ok a v" "type_ok (attributeType a)"
  shows "readValue a (answer_json (attributeType a) v) = Inr v" "answer_json (attributeType a) v \<noteq> JNull"
proof -
  have "readValue a (answer_json (attributeType a) v) = Inr v \<and> answer_json (attributeType a) v \<noteq> JNull"
  proof (cases "attributeType a")
    case (NumberType u d)
    then obtain n where n: "v = NumberValue n" "safe_int n" using assms(1) by (auto simp: value_ok_def split: AttributeValue.splits)
    define k where "k = nat d"
    have d: "d = int k" "k \<le> 9" using assms(2) NumberType by (auto simp: type_ok_def k_def)
    obtain s where s: "toDecimalString (Finite (of_int n)) (Finite (of_nat k)) = Inr s" "fromDecimalString s (Finite (of_nat k)) = Inr n"
      using scaled_roundtrip_aux [OF d(2) n(2)] by blast
    have "decimal_match (trim s) \<noteq> None" using s(2) by (auto simp: fromDecimalString_def result_simps split: option.splits)
    moreover have "trim s \<noteq> []" using calculation by (auto simp: decimal_match_def)
    moreover have "fromDecimalString (trim s) (Finite (of_nat k)) = Inr n" using s(2) by (simp add: fromDecimalString_def trim_idem)
    ultimately show ?thesis using NumberType n s(1) d(1) by (simp add: readValue_def Let_def del: toDecimalString.simps)
  next
    case (ChoiceManyType opts)
    then obtain vs where vs: "v = ManyValue vs" "vs \<noteq> []" "vs = filter (\<lambda>x. x \<in> set vs) (map optionValue opts)"
      using assms(1) by (auto simp: value_ok_def split: AttributeValue.splits)
    have "distinct vs" using vs(3) assms(2) ChoiceManyType by (metis distinct_filter type_ok_def AttributeType.simps(20))
    moreover have "set vs \<subseteq> optionValue ` set opts" using vs(3) by (metis filter_is_subset list.set_map)
    ultimately have "chooseMany opts [] (map JString vs) = Inr vs" by (simp add: chooseMany_Inr_iff)
    then show ?thesis using vs ChoiceManyType by (simp add: readValue_def)
  qed (use assms in \<open>auto simp: value_ok_def readValue_def Let_def isOption_iff split: AttributeValue.splits\<close>)
  then show "readValue a (answer_json (attributeType a) v) = Inr v" "answer_json (attributeType a) v \<noteq> JNull" by auto
qed

subsection \<open>The whole form\<close>

definition answer_to :: "(string \<times> json) list \<Rightarrow> CategoryAttribute \<Rightarrow> AttributeProblem + AttributeValue option" where
  "answer_to raw a = (case map_of raw (attributeKey a) of None \<Rightarrow> Inr None | Some JNull \<Rightarrow> Inr None
     | Some j \<Rightarrow> map_sum id Some (readValue a j))"

definition answered :: "CategoryAttribute list \<Rightarrow> (string \<times> json) list \<Rightarrow> ListingAttributeValues" where
  "answered qs raw = List.map_filter (\<lambda>a. case answer_to raw a of Inr (Some v) \<Rightarrow> Some (attributeKey a, v) | _ \<Rightarrow> None) qs"

definition problems :: "CategoryAttribute list \<Rightarrow> (string \<times> json) list \<Rightarrow> AttributeValueIssue list" where
  "problems qs raw = List.map_filter (\<lambda>a. case answer_to raw a of Inl e \<Rightarrow> Some (Some (attributeKey a), e) | _ \<Rightarrow> None) qs"

lemma readAnswers_eq:
  assumes "distinct (map attributeKey qs)" "fst ` set vals \<inter> attributeKey ` set qs = {}"
  shows "readAnswers qs raw (issues, vals) = (issues @ problems qs raw, vals @ answered qs raw)"
  using assms
proof (induction qs arbitrary: issues vals)
  case (Cons a qs)
  have fresh: "attributeKey a \<notin> fst ` set vals" using Cons.prems(2) by auto
  show ?case
  proof (cases "answer_to raw a")
    case (Inl e)
    then have "readAnswers (a # qs) raw (issues, vals) = readAnswers qs raw (issues @ [(Some (attributeKey a), e)], vals)"
      by (auto simp: answer_to_def split: option.splits json.splits sum.splits)
    then show ?thesis using Cons Inl by (simp add: problems_def answered_def map_filter_simps)
  next
    case (Inr o')
    show ?thesis
    proof (cases o')
      case None
      then have "readAnswers (a # qs) raw (issues, vals) = readAnswers qs raw (issues, vals)"
        using Inr by (auto simp: answer_to_def result_simps split: option.splits json.splits sum.splits)
      then show ?thesis using Cons Inr None by (simp add: problems_def answered_def map_filter_simps)
    next
      case (Some v)
      then have "readAnswers (a # qs) raw (issues, vals) = readAnswers qs raw (issues, AList.update (attributeKey a) v vals)"
        using Inr by (auto simp: answer_to_def result_simps split: option.splits json.splits sum.splits)
      moreover have "AList.update (attributeKey a) v vals = vals @ [(attributeKey a, v)]"
        using fresh by (induction vals) auto
      ultimately show ?thesis using Cons Inr Some fresh by (simp add: problems_def answered_def map_filter_simps)
    qed
  qed
qed (simp add: problems_def answered_def map_filter_simps)

lemma validate_eq:
  assumes "distinct (map attributeKey qs)"
  shows "validateAttributeValues qs (JObject raw) =
    (if MAX_CATEGORY_ATTRIBUTES < length raw then Inl [(None, TooManyValues)]
     else let issues = map (\<lambda>k. (Some k, NotAField)) (filter (\<lambda>k. k \<notin> attributeKey ` set qs) (map fst raw)) @ problems qs raw
          in if issues \<noteq> [] then Inl issues else Inr (answered qs raw))"
  using readAnswers_eq [OF assms, of "[]" raw] by (simp add: validateAttributeValues_def Let_def)

definition form_answers :: "CategoryAttribute list \<Rightarrow> ListingAttributeValues \<Rightarrow> (string \<times> json) list" where
  "form_answers qs vals = List.map_filter (\<lambda>a. map_option (\<lambda>v. (attributeKey a, answer_json (attributeType a) v))
     (map_of vals (attributeKey a))) qs"

lemma map_filter_cong: "(\<And>x. x \<in> set xs \<Longrightarrow> f x = g x) \<Longrightarrow> List.map_filter f xs = List.map_filter g xs"
  by (induction xs) (auto simp: map_filter_simps split: option.splits)

lemma map_filter_keys: "fst ` set (List.map_filter (\<lambda>a. map_option (\<lambda>v. (k a, g a v)) (f a)) xs) = k ` {a \<in> set xs. f a \<noteq> None}"
  by (induction xs) (auto simp: map_filter_simps split: option.splits)

lemma map_of_map_filter:
  "distinct (map k xs) \<Longrightarrow> a \<in> set xs \<Longrightarrow>
    map_of (List.map_filter (\<lambda>a. map_option (\<lambda>v. (k a, g a v)) (f a)) xs) (k a) = map_option (g a) (f a)"
proof (induction xs)
  case (Cons x xs)
  have absent: "map_of (List.map_filter (\<lambda>a. map_option (\<lambda>v. (k a, g a v)) (f a)) xs) (k x) = None"
    using Cons.prems(1) by (auto simp: map_of_eq_None_iff map_filter_keys)
  show ?case
  proof (cases "a = x")
    case True
    then show ?thesis using absent by (cases "f x") (auto simp: map_filter_simps)
  next
    case False
    then have "a \<in> set xs" using Cons.prems(2) by simp
    moreover from this have "k a \<in> k ` set xs" by (rule imageI)
    ultimately have "a \<in> set xs" "k a \<noteq> k x" using Cons.prems(1) by (simp, metis distinct.simps(2) list.simps(9) list.set_map)
    then show ?thesis using Cons by (cases "f x") (auto simp: map_filter_simps)
  qed
qed simp

lemma answered_alt: "answered qs raw = List.map_filter (\<lambda>a. map_option (\<lambda>v. (attributeKey a, v)) (case answer_to raw a of Inr o' \<Rightarrow> o' | Inl _ \<Rightarrow> None)) qs"
  unfolding answered_def by (rule map_filter_cong) (auto split: sum.splits option.splits)

lemma answered_ok:
  assumes "distinct (map attributeKey qs)" "a \<in> set qs" "map_of (answered qs raw) (attributeKey a) = Some v"
  shows "value_ok a v"
proof -
  have "answer_to raw a = Inr (Some v)"
    using map_of_map_filter [OF assms(1,2), of "\<lambda>_ v. v" "\<lambda>a. case answer_to raw a of Inr o' \<Rightarrow> o' | Inl _ \<Rightarrow> None"] assms(3)
    unfolding answered_alt by (auto simp: option.map_ident split: sum.splits)
  then show ?thesis by (auto simp: answer_to_def result_simps split: option.splits json.splits intro: readValue_ok)
qed

lemma answer_to_form:
  assumes "distinct (map attributeKey qs)" "a \<in> set qs" "\<forall>a \<in> set qs. type_ok (attributeType a)"
    and ok: "\<And>a v. a \<in> set qs \<Longrightarrow> map_of vals (attributeKey a) = Some v \<Longrightarrow> value_ok a v"
  shows "answer_to (form_answers qs vals) a = Inr (map_of vals (attributeKey a))"
proof -
  have m: "map_of (form_answers qs vals) (attributeKey a) = map_option (answer_json (attributeType a)) (map_of vals (attributeKey a))"
    unfolding form_answers_def
    using map_of_map_filter [OF assms(1,2), of "\<lambda>a. answer_json (attributeType a)" "\<lambda>a. map_of vals (attributeKey a)"] .
  show ?thesis
  proof (cases "map_of vals (attributeKey a)")
    case (Some v)
    have "readValue a (answer_json (attributeType a) v) = Inr v" "answer_json (attributeType a) v \<noteq> JNull"
      using readValue_answer [OF ok [OF assms(2) Some]] assms(2,3) by auto
    then show ?thesis using m Some by (auto simp: answer_to_def split: json.splits)
  qed (simp add: answer_to_def m)
qed

lemma those_Some_iff: "those xs = Some ys \<longleftrightarrow> xs = map Some ys"
proof (induction xs arbitrary: ys)
  case (Cons x xs)
  then show ?case by (cases x; cases ys) auto
qed auto

lemma attributeTypeSchema_ok: "attributeTypeSchema raw = Some t \<Longrightarrow> type_ok t"
  by (cases raw) (auto simp: type_ok_def MAX_ATTRIBUTE_DECIMAL_PLACES_def Let_def split: if_splits option.splits)

lemma categoryAttributesSchema_ok:
  assumes "categoryAttributesSchema raw = Some qs"
  shows "distinct (map attributeKey qs)" "\<forall>a \<in> set qs. type_ok (attributeType a)" "length qs \<le> MAX_CATEGORY_ATTRIBUTES"
proof -
  have s: "length raw \<le> MAX_CATEGORY_ATTRIBUTES" "map categoryAttributeSchema raw = map Some qs" "distinct (map attributeKey qs)"
    using assms by (auto simp: categoryAttributesSchema_def those_Some_iff split: if_splits option.splits)
  then show "distinct (map attributeKey qs)" "length qs \<le> MAX_CATEGORY_ATTRIBUTES" by (auto dest!: map_eq_imp_length_eq)
  show "\<forall>a \<in> set qs. type_ok (attributeType a)"
  proof
    fix a
    assume "a \<in> set qs"
    then have "Some a \<in> set (map categoryAttributeSchema raw)" by (simp add: s(2))
    then obtain r where "categoryAttributeSchema r = Some a" by auto
    then show "type_ok (attributeType a)"
      by (auto simp: categoryAttributeSchema_def intro: attributeTypeSchema_ok split: option.splits)
  qed
qed

lemma validate_form:
  assumes "categoryAttributesSchema raw = Some qs" and ok: "\<And>a v. a \<in> set qs \<Longrightarrow> map_of vals (attributeKey a) = Some v \<Longrightarrow> value_ok a v"
    and vals: "vals = List.map_filter (\<lambda>a. map_option (\<lambda>v. (attributeKey a, v)) (f a)) qs"
  shows "validateAttributeValues qs (JObject (form_answers qs vals)) = Inr vals"
proof -
  note q = categoryAttributesSchema_ok [OF assms(1)]
  have get: "answer_to (form_answers qs vals) a = Inr (map_of vals (attributeKey a))" if "a \<in> set qs" for a
    using answer_to_form [OF q(1) that q(2) ok] .
  have "problems qs (form_answers qs vals) = List.map_filter (\<lambda>a. None) qs"
    unfolding problems_def by (rule map_filter_cong) (simp add: get split: option.splits)
  then have "problems qs (form_answers qs vals) = []" by (simp add: List.map_filter_def)
  moreover have "answered qs (form_answers qs vals) = vals"
  proof -
    have "map_of vals (attributeKey a) = f a" if "a \<in> set qs" for a
      using map_of_map_filter [OF q(1) that, of "\<lambda>_ v. v" f] by (simp add: vals option.map_ident)
    then have "answered qs (form_answers qs vals) = List.map_filter (\<lambda>a. map_option (\<lambda>v. (attributeKey a, v)) (f a)) qs"
      unfolding answered_alt by (intro map_filter_cong) (simp add: get)
    then show ?thesis by (simp add: vals)
  qed
  moreover have "fst ` set (form_answers qs vals) \<subseteq> attributeKey ` set qs"
    unfolding form_answers_def map_filter_keys by auto
  then have "filter (\<lambda>k. k \<notin> attributeKey ` set qs) (map fst (form_answers qs vals)) = []" by (auto simp: filter_empty_conv)
  moreover have "length (form_answers qs vals) \<le> length qs" by (simp add: form_answers_def List.map_filter_def)
  ultimately show ?thesis using q(3) by (simp add: validate_eq [OF q(1)])
qed

text \<open>
C36: The answers of a listing are sound and survive the edit form. When an owner's answers pass the check of a
category's questions, every stored value belongs to exactly one question and has its type (a trimmed, bounded,
safe text, a whole number at the scale, an offered choice, or the offered choices in the category's order without
repetition), nothing submitted was silently dropped as unknown, and the stored values put back into the form pass
again and give the same values.
\<close>

theorem attribute_answers_sound:
  assumes "categoryAttributesSchema raw = Some qs" "validateAttributeValues qs answers = Inr vals"
  shows "\<exists>given. answers = JObject given \<and> fst ` set given \<subseteq> attributeKey ` set qs \<and> distinct (map fst vals) \<and>
    (\<forall>(k, v) \<in> set vals. \<exists>a \<in> set qs. attributeKey a = k \<and> value_ok a v) \<and>
    validateAttributeValues qs (JObject (form_answers qs vals)) = Inr vals"
proof -
  note q = categoryAttributesSchema_ok [OF assms(1)]
  obtain given where g: "answers = JObject given" using assms(2) by (auto simp: validateAttributeValues_def split: json.splits)
  have v: "vals = answered qs given" "filter (\<lambda>k. k \<notin> attributeKey ` set qs) (map fst given) = []"
    using assms(2) by (auto simp: g validate_eq [OF q(1)] Let_def split: if_splits)
  let ?f = "\<lambda>a. case answer_to given a of Inr o' \<Rightarrow> o' | Inl _ \<Rightarrow> None"
  have vals: "vals = List.map_filter (\<lambda>a. map_option (\<lambda>v. (attributeKey a, v)) (?f a)) qs" by (simp add: v(1) answered_alt)
  have "map fst (List.map_filter (\<lambda>a. map_option (\<lambda>v. (attributeKey a, v)) (?f a)) xs) = map attributeKey (filter (\<lambda>a. ?f a \<noteq> None) xs)" for xs
    by (induction xs) (auto simp: map_filter_simps split: option.splits)
  then have "map fst vals = map attributeKey (filter (\<lambda>a. ?f a \<noteq> None) qs)" by (simp add: vals)
  then have dist: "distinct (map fst vals)" using q(1) by (simp add: distinct_map_filter)
  have ok: "\<exists>a \<in> set qs. attributeKey a = k \<and> value_ok a x" if m: "(k, x) \<in> set vals" for k x
  proof -
    obtain a where a: "a \<in> set qs" "attributeKey a = k" using m by (auto simp: vals List.map_filter_def)
    moreover have "map_of vals k = Some x" using dist m by simp
    ultimately show ?thesis using answered_ok [OF q(1) a(1), of given x] v(1) by auto
  qed
  have "fst ` set given \<subseteq> attributeKey ` set qs" using v(2) by (auto simp: filter_empty_conv)
  moreover have "validateAttributeValues qs (JObject (form_answers qs vals)) = Inr vals"
    using validate_form [OF assms(1) _ vals] answered_ok [OF q(1)] v(1) by blast
  ultimately show ?thesis using g dist ok by auto
qed


definition example_questions :: "CategoryAttribute list" where
  "example_questions =
    [\<lparr>attributeKey = ''brand'', attributeLabel = ''Brand'', required = True, attributeType = TextType 20\<rparr>,
     \<lparr>attributeKey = ''weight_kg'', attributeLabel = ''Weight'', required = False, attributeType = NumberType ''kg'' 1\<rparr>,
     \<lparr>attributeKey = ''power'', attributeLabel = ''Power'', required = False, attributeType = ChoiceManyType
       [\<lparr>optionValue = ''mains'', optionLabel = ''Mains''\<rparr>, \<lparr>optionValue = ''battery'', optionLabel = ''Battery''\<rparr>]\<rparr>]"

definition example_answers :: json where
  "example_answers = JObject [(''power'', JArray [JString ''battery'', JString ''mains'']), (''brand'', JString '' Bosch ''),
     (''weight_kg'', JString ''4.5'')]"

definition example_values :: ListingAttributeValues where
  "example_values = [(''brand'', TextValue ''Bosch''), (''weight_kg'', NumberValue 45), (''power'', ManyValue [''mains'', ''battery''])]"

theorem attribute_answers_sound_witness:
  "categoryAttributesSchema example_questions = Some example_questions \<and>
   validateAttributeValues example_questions example_answers = Inr example_values \<and>
   validateAttributeValues example_questions (JObject (form_answers example_questions example_values)) = Inr example_values"
proof -
  have a: "categoryAttributesSchema example_questions = Some example_questions" by code_simp
  have b: "validateAttributeValues example_questions example_answers = Inr example_values" by code_simp
  show ?thesis using attribute_answers_sound [OF a b] a b by blast
qed

subsection \<open>The suggested transport\<close>

lemma thresholds_above: "thresholdsIncrease (Some p) opts \<Longrightarrow> o' \<in> set opts \<Longrightarrow> suggestedUpToKg o' = Some kg \<Longrightarrow> p < kg"
  by (induction opts arbitrary: p) (auto split: option.splits intro: less_trans)

lemma thresholds_tail: "thresholdsIncrease p (o' # opts) \<Longrightarrow> thresholdsIncrease (if suggestedUpToKg o' = None then p else suggestedUpToKg o') opts"
  by (auto split: option.splits)

lemma suggest_offered: "suggest_from w h t opts = Some r \<Longrightarrow> h = Some r \<or> r \<in> requirement ` set opts"
  by (induction w h t opts rule: suggest_from.induct) (auto split: option.splits if_splits)

lemma suggest_None_iff:
  "(t \<longrightarrow> h \<noteq> None) \<Longrightarrow> suggest_from w h t opts = None \<longleftrightarrow> \<not> t \<and> list_all (\<lambda>o'. suggestedUpToKg o' = None) opts"
  by (induction w h t opts rule: suggest_from.induct) (auto split: option.splits if_splits)

lemma suggest_at_threshold:
  assumes "thresholdsIncrease p opts" "o' \<in> set opts" "suggestedUpToKg o' = Some kg"
    "scaledWeight w = kg * 10 ^ weightDecimalPlaces w"
  shows "suggest_from w h t opts = Some (requirement o')"
  using assms
proof (induction opts arbitrary: p h t)
  case (Cons x opts)
  show ?case
  proof (cases "x = o'")
    case False
    then have o: "o' \<in> set opts" using Cons.prems(2) by simp
    have tail: "thresholdsIncrease (if suggestedUpToKg x = None then p else suggestedUpToKg x) opts"
      by (rule thresholds_tail [OF Cons.prems(1)])
    have "k < kg" if "suggestedUpToKg x = Some k" for k
      using thresholds_above [OF _ o Cons.prems(3), of k] tail that by simp
    then show ?thesis using Cons.IH [OF tail o] Cons.prems(3,4) by (auto split: option.splits)
  qed (use Cons.prems in auto)
qed simp

lemma suggest_at_least:
  assumes "sorted (map (\<lambda>o'. rankOf (requirement o')) opts)" "\<forall>o' \<in> set opts. rankOf x \<le> rankOf (requirement o')"
    "suggest_from w (Some x) t opts = Some r"
  shows "rankOf x \<le> rankOf r"
  using suggest_offered [OF assms(3)] assms(2) by auto

lemma suggest_mono:
  assumes "sorted (map (\<lambda>o'. rankOf (requirement o')) opts)" "weightDecimalPlaces w = weightDecimalPlaces w'" "scaledWeight w \<le> scaledWeight w'"
    "suggest_from w h t opts = Some r" "suggest_from w' h t opts = Some r'"
  shows "rankOf r \<le> rankOf r'"
  using assms
proof (induction opts arbitrary: h t)
  case (Cons x opts)
  have s: "sorted (map (\<lambda>o'. rankOf (requirement o')) opts)" "\<forall>o' \<in> set opts. rankOf (requirement x) \<le> rankOf (requirement o')"
    using Cons.prems(1) by auto
  show ?case
  proof (cases "\<exists>kg. suggestedUpToKg x = Some kg \<and> scaledWeight w \<le> kg * 10 ^ weightDecimalPlaces w")
    case True
    then have "r = requirement x" using Cons.prems(4) by auto
    moreover have "r' = requirement x \<or> (\<exists>t. suggest_from w' (Some (requirement x)) t opts = Some r')"
      using Cons.prems(5) by (auto split: option.splits if_splits)
    ultimately show ?thesis using suggest_at_least [OF s] by auto
  next
    case False
    then show ?thesis using Cons.IH [OF s(1) assms(2,3)] Cons.prems(2-) by (auto split: option.splits if_splits)
  qed
qed auto

text \<open>
The transport suggested for an item is one its category offers, is never an option earlier in the order for a
heavier item, reaches every option that has a threshold (at exactly that weight), and there is a suggestion for every
known weight as soon as one option has a threshold, none otherwise.
\<close>

theorem transport_suggestion:
  assumes "categoryTransportOptionsSchema raw = Some opts"
  shows "(\<forall>w r. suggestTransportRequirement opts (Some w) = Some r \<longrightarrow> offersTransportRequirement opts r) \<and>
    (\<forall>w w' r r'. weightDecimalPlaces w = weightDecimalPlaces w' \<longrightarrow> scaledWeight w \<le> scaledWeight w' \<longrightarrow>
       suggestTransportRequirement opts (Some w) = Some r \<longrightarrow> suggestTransportRequirement opts (Some w') = Some r' \<longrightarrow> rankOf r \<le> rankOf r') \<and>
    (\<forall>o' \<in> set opts. \<forall>kg d. suggestedUpToKg o' = Some kg \<longrightarrow>
       suggestTransportRequirement opts (Some \<lparr>scaledWeight = kg * 10 ^ d, weightDecimalPlaces = d\<rparr>) = Some (requirement o')) \<and>
    (\<forall>w. suggestTransportRequirement opts (Some w) = None \<longleftrightarrow> (\<forall>o' \<in> set opts. suggestedUpToKg o' = None))"
proof -
  have o: "opts = sort_key (\<lambda>o'. rankOf (requirement o')) raw" "thresholdsIncrease None opts"
    using assms by (auto simp: categoryTransportOptionsSchema_def Let_def split: if_splits)
  then have sorted: "sorted (map (\<lambda>o'. rankOf (requirement o')) opts)" by simp
  have sug: "suggestTransportRequirement opts (Some w) = suggest_from w None False opts" for w
    by (simp add: suggestTransportRequirement_def)
  have "offersTransportRequirement opts r" if "suggest_from w None False opts = Some r" for w r
    using suggest_offered [OF that] by (auto simp: offersTransportRequirement_def list_ex_iff)
  moreover have "suggest_from w None False opts = None \<longleftrightarrow> (\<forall>o' \<in> set opts. suggestedUpToKg o' = None)" for w
    by (simp add: suggest_None_iff list_all_iff)
  moreover note suggest_mono [OF sorted] suggest_at_threshold [OF o(2)]
  ultimately show ?thesis unfolding sug by (intro conjI allI ballI impI) (blast, blast, simp, blast)
qed

definition example_transport :: "CategoryTransportOption list" where
  "example_transport =
    [\<lparr>requirement = CarBoot, suggestedUpToKg = Some 25\<rparr>, \<lparr>requirement = VanRequired, suggestedUpToKg = None\<rparr>]"

theorem transport_suggestion_witness:
  "categoryTransportOptionsSchema (rev example_transport) = Some example_transport \<and>
   suggestTransportRequirement example_transport (Some \<lparr>scaledWeight = 25 * 10 ^ 1, weightDecimalPlaces = 1\<rparr>) = Some CarBoot \<and>
   suggestTransportRequirement example_transport (Some \<lparr>scaledWeight = 251, weightDecimalPlaces = 1\<rparr>) = Some VanRequired"
proof -
  have a: "categoryTransportOptionsSchema (rev example_transport) = Some example_transport"
    by (simp add: example_transport_def categoryTransportOptionsSchema_def transportOptionSchema_def TRANSPORT_REQUIREMENTS_def
        MIN_TRANSPORT_SUGGESTION_KG_def MAX_TRANSPORT_SUGGESTION_KG_def)
  have m: "\<lparr>requirement = CarBoot, suggestedUpToKg = Some 25\<rparr> \<in> set example_transport" by (simp add: example_transport_def)
  note at = transport_suggestion [OF a, THEN conjunct2, THEN conjunct2, THEN conjunct1]
  have "suggestTransportRequirement example_transport (Some \<lparr>scaledWeight = 25 * 10 ^ 1, weightDecimalPlaces = 1\<rparr>) = Some CarBoot"
    using bspec [OF at m, THEN spec, THEN spec, of 25 1] by simp
  moreover have "suggestTransportRequirement example_transport (Some \<lparr>scaledWeight = 251, weightDecimalPlaces = 1\<rparr>) = Some VanRequired"
    by (simp add: suggestTransportRequirement_def example_transport_def)
  ultimately show ?thesis using a by blast
qed

end
