(* ===== verification/Audit_Trail.thy ===== *)
theory Audit_Trail
  imports Attributes "HOL-Library.List_Lexorder" "HOL-Library.Char_ord" "HOL-Library.Multiset"
begin

section \<open>The audit trail\<close>

text \<open>
  What is recorded of an administrative or account action (\<^verbatim>\<open>apps/api/src/audit/audit.service.ts\<close>), the table it is
  recorded in (\<^verbatim>\<open>prisma-audit-log.ts\<close>), the activity a person is shown, and the canonical form a state is digested
  in (\<^verbatim>\<open>state-digest.ts\<close>). The keyed hash itself belongs to the platform's crypto library and is the parameter
  \<open>digest\<close>. Identifiers are lower-case UUIDs, on which \<^verbatim>\<open>localeCompare\<close> is the order of characters; rows with the same
  time are read in the order of the table.
\<close>

subsection \<open>The table\<close>

datatype AuditAction = AccountProvisioned | AdminActivityViewed | AdminUserViewed | AdminApprovalProposed | AdminApprovalGranted
  | AdminApprovalCancelled | AccountSuspended | AccountReinstated | ProfileCreated | ProfileUpdated | AccountDeletionRequested
  | ProfileErased | AccountExported | AccountEmailChanged | CategoryCreated | CategoryReconfigured | FeatureFlagChanged | ListingModerated

record Actor =
  actorUserId :: string
  actorIpAddress :: "string option"
  actorSessionId :: "string option"

record AuditRow =
  auditId :: string
  auditActorId :: "string option"
  auditAction :: AuditAction
  auditTargetType :: string
  auditTargetId :: string
  beforeHash :: "string option"
  afterHash :: "string option"
  auditIpAddress :: "string option"
  auditSessionId :: "string option"
  auditReason :: "string option"
  auditCreatedAt :: int

record 'a RecordChange =
  changeActor :: "Actor option"
  changeAction :: AuditAction
  changeTargetType :: string
  changeTargetId :: string
  changeBefore :: "'a option"
  changeAfter :: "'a option"
  changeReason :: "string option"

definition audit_entry :: "('a \<Rightarrow> string) \<Rightarrow> string \<Rightarrow> int \<Rightarrow> 'a RecordChange \<Rightarrow> AuditRow" where
  "audit_entry digest newId now change =
    \<lparr>auditId = newId, auditActorId = map_option actorUserId (changeActor change), auditAction = changeAction change,
     auditTargetType = changeTargetType change, auditTargetId = changeTargetId change,
     beforeHash = map_option digest (changeBefore change), afterHash = map_option digest (changeAfter change),
     auditIpAddress = Option.bind (changeActor change) actorIpAddress,
     auditSessionId = Option.bind (changeActor change) actorSessionId,
     auditReason = changeReason change, auditCreatedAt = now\<rparr>"

text \<open>\<open>record\<close> appends one row and changes nothing else.\<close>

definition record_change :: "('a \<Rightarrow> string) \<Rightarrow> string \<Rightarrow> int \<Rightarrow> 'a RecordChange \<Rightarrow> AuditRow list \<Rightarrow> AuditRow list" where
  "record_change digest newId now change rows = rows @ [audit_entry digest newId now change]"

record RecordedEntry =
  entryId :: string
  entryAction :: AuditAction
  entryTargetType :: string
  entryReason :: "string option"
  entryIpAddress :: "string option"
  entrySessionId :: "string option"
  entryCreatedAt :: int

record DisclosedEntry =
  disclosedId :: string
  disclosedAction :: AuditAction
  disclosedTargetType :: string
  disclosedReason :: "string option"
  disclosedCreatedAt :: int
  byAnotherUser :: bool

definition newest :: "nat \<Rightarrow> AuditRow list \<Rightarrow> AuditRow list" where
  "newest limit rows = take limit (sort_key (\<lambda>r. - auditCreatedAt r) rows)"

definition listForActor :: "string \<Rightarrow> nat \<Rightarrow> AuditRow list \<Rightarrow> RecordedEntry list" where
  "listForActor actorId limit rows =
    map (\<lambda>r. \<lparr>entryId = auditId r, entryAction = auditAction r, entryTargetType = auditTargetType r,
              entryReason = auditReason r, entryIpAddress = auditIpAddress r, entrySessionId = auditSessionId r,
              entryCreatedAt = auditCreatedAt r\<rparr>)
      (newest limit (filter (\<lambda>r. auditActorId r = Some actorId) rows))"

definition listForSubject :: "string \<Rightarrow> nat \<Rightarrow> AuditRow list \<Rightarrow> DisclosedEntry list" where
  "listForSubject subjectId limit rows =
    map (\<lambda>r. \<lparr>disclosedId = auditId r, disclosedAction = auditAction r, disclosedTargetType = auditTargetType r,
              disclosedReason = auditReason r, disclosedCreatedAt = auditCreatedAt r,
              byAnotherUser = (auditActorId r \<noteq> None)\<rparr>)
      (newest limit (filter (\<lambda>r. auditTargetId r = subjectId \<and> (auditActorId r = None \<or> auditActorId r \<noteq> Some subjectId)) rows))"

subsection \<open>The activity a person is shown\<close>

datatype ActivityActor = BySubject | ByAdministrator | BySystem

record ActivityRecord = RecordedEntry +
  activityBy :: ActivityActor

definition DEFAULT_ACTIVITY_LIMIT :: int where "DEFAULT_ACTIVITY_LIMIT = 50"
definition MAX_ACTIVITY_LIMIT :: int where "MAX_ACTIVITY_LIMIT = 200"
definition EXPORTED_ACTIVITY_LIMIT :: nat where "EXPORTED_ACTIVITY_LIMIT = 1000"

definition asOwnAction :: "RecordedEntry \<Rightarrow> ActivityRecord" where
  "asOwnAction e = \<lparr>entryId = entryId e, entryAction = entryAction e, entryTargetType = entryTargetType e,
     entryReason = entryReason e, entryIpAddress = entryIpAddress e, entrySessionId = entrySessionId e,
     entryCreatedAt = entryCreatedAt e, activityBy = BySubject\<rparr>"

definition asDisclosure :: "DisclosedEntry \<Rightarrow> ActivityRecord" where
  "asDisclosure e = \<lparr>entryId = disclosedId e, entryAction = disclosedAction e, entryTargetType = disclosedTargetType e,
     entryReason = disclosedReason e, entryIpAddress = None, entrySessionId = None,
     entryCreatedAt = disclosedCreatedAt e, activityBy = (if byAnotherUser e then ByAdministrator else BySystem)\<rparr>"

text \<open>The insertion sort that the comparator \<open>newestFirst\<close> describes: newest first, then by descending id.\<close>

definition newer :: "ActivityRecord \<Rightarrow> ActivityRecord \<Rightarrow> bool" where
  "newer a b \<longleftrightarrow> entryCreatedAt b < entryCreatedAt a \<or> entryCreatedAt a = entryCreatedAt b \<and> entryId b \<le> entryId a"

fun insert_newest :: "ActivityRecord \<Rightarrow> ActivityRecord list \<Rightarrow> ActivityRecord list" where
  "insert_newest a [] = [a]"
| "insert_newest a (b # bs) = (if newer a b then a # b # bs else b # insert_newest a bs)"

definition sort_newest :: "ActivityRecord list \<Rightarrow> ActivityRecord list" where
  "sort_newest xs = foldr insert_newest xs []"

definition activityFor :: "string \<Rightarrow> nat \<Rightarrow> AuditRow list \<Rightarrow> ActivityRecord list" where
  "activityFor userId limit rows =
    sort_newest (map asOwnAction (listForActor userId limit rows) @ map asDisclosure (listForSubject userId limit rows))"

definition bound_activity :: "number \<Rightarrow> nat" where
  "bound_activity limit = nat (boundedLimit limit \<lparr>fallback = DEFAULT_ACTIVITY_LIMIT, max_limit = MAX_ACTIVITY_LIMIT\<rparr>)"

definition listActivityFor :: "string \<Rightarrow> number \<Rightarrow> AuditRow list \<Rightarrow> ActivityRecord list" where
  "listActivityFor userId limit rows =
    (let bounded = bound_activity limit in take bounded (activityFor userId bounded rows))"

definition exportActivityFor :: "string \<Rightarrow> AuditRow list \<Rightarrow> ActivityRecord Page" where
  "exportActivityFor userId rows =
    fitTo (activityFor userId (probe EXPORTED_ACTIVITY_LIMIT) rows) EXPORTED_ACTIVITY_LIMIT"


definition listForActor_bounded :: "string \<Rightarrow> number \<Rightarrow> AuditRow list \<Rightarrow> RecordedEntry list" where
  "listForActor_bounded actorId limit rows = listForActor actorId (bound_activity limit) rows"

subsection \<open>The canonical form of a state\<close>

text \<open>The members of an object are put in the order of their keys, the entries of an array keep theirs.\<close>

primrec canonicalise :: "json \<Rightarrow> json" where
  "canonicalise JNull = JNull"
| "canonicalise (JBool b) = JBool b"
| "canonicalise (JNumber n) = JNumber n"
| "canonicalise (JString t) = JString t"
| "canonicalise (JArray entries) = JArray (map canonicalise entries)"
| "canonicalise (JObject members) = JObject (sort_key fst (map (map_prod id canonicalise) members))"

lemma canonicalise_key_order:
  assumes "mset members = mset members'" "distinct (map fst members)"
  shows "canonicalise (JObject members) = canonicalise (JObject members')"
proof -
  have keys: "map fst (map (map_prod id canonicalise) xs) = map fst xs" for xs by simp
  have "inj_on fst (set (map (map_prod id canonicalise) members))"
    using assms(2) keys [of members] by (metis distinct_map)
  moreover have "mset (map (map_prod id canonicalise) members) = mset (map (map_prod id canonicalise) members')"
    using assms(1) by simp
  ultimately show ?thesis by (simp add: sort_key_inj_key_eq)
qed

subsection \<open>Pages of a sorted list\<close>

definition rank_in :: "('a \<Rightarrow> int) \<Rightarrow> 'a set \<Rightarrow> 'a \<Rightarrow> nat" where
  "rank_in f S x = card {y \<in> S. f y < f x}"

abbreviation strictly :: "('a \<Rightarrow> int) \<Rightarrow> 'a list \<Rightarrow> bool" where
  "strictly f \<equiv> sorted_wrt (\<lambda>a b. f a < f b)"

lemma strictly_sort_key: "distinct (map f xs) \<Longrightarrow> strictly f (sort_key f xs)"
proof -
  assume "distinct (map f xs)"
  then have "distinct (map f (sort_key f xs))" by (simp add: distinct_map)
  then have "sorted_wrt (<) (map f (sort_key f xs))" by (simp add: strict_sorted_iff)
  then show ?thesis by (simp add: sorted_wrt_map)
qed

lemma strictly_unique: "strictly f xs \<Longrightarrow> strictly f ys \<Longrightarrow> set xs = set ys \<Longrightarrow> xs = ys"
proof -
  assume s: "strictly f xs" "strictly f ys" "set xs = set ys"
  then have m: "map f xs = map f ys" by (intro strict_sorted_equal) (auto simp: sorted_wrt_map)
  have "inj_on f (set xs)" using s(1) strict_sorted_iff [of "map f xs"] by (simp add: sorted_wrt_map distinct_map)
  then show ?thesis using m s(3) by (simp add: inj_on_map_eq_map)
qed

lemma rank_nth:
  assumes "strictly f ys" "i < length ys"
  shows "rank_in f (set ys) (ys ! i) = i"
proof -
  have d: "distinct ys" using assms(1) strict_sorted_iff [of "map f ys"] by (simp add: sorted_wrt_map distinct_map)
  have "{y \<in> set ys. f y < f (ys ! i)} = (!) ys ` {..<i}"
  proof (intro set_eqI iffI)
    fix y
    assume "y \<in> {y \<in> set ys. f y < f (ys ! i)}"
    then obtain j where j: "j < length ys" "y = ys ! j" "f (ys ! j) < f (ys ! i)" by (auto simp: in_set_conv_nth)
    have "j < i" using j(1,3) assms sorted_wrt_nth_less [OF assms(1), of i j] by (cases j i rule: linorder_cases) auto
    then show "y \<in> (!) ys ` {..<i}" using j(2) by blast
  qed (use assms in \<open>auto intro: sorted_wrt_nth_less\<close>)
  moreover have "inj_on ((!) ys) {..<i}" using d assms(2) by (auto simp: inj_on_def nth_eq_iff_index_eq)
  ultimately show ?thesis by (simp add: rank_in_def card_image)
qed

lemma set_take_strictly:
  assumes "strictly f ys"
  shows "set (take k ys) = {x \<in> set ys. rank_in f (set ys) x < k}"
proof (intro set_eqI iffI)
  fix x
  assume "x \<in> {x \<in> set ys. rank_in f (set ys) x < k}"
  then obtain i where "i < length ys" "x = ys ! i" "i < k" using rank_nth [OF assms] by (auto simp: in_set_conv_nth)
  then show "x \<in> set (take k ys)" by (auto simp: in_set_conv_nth intro!: exI [of _ i])
next
  fix x
  assume "x \<in> set (take k ys)"
  then obtain i where "i < length ys" "x = ys ! i" "i < k" by (auto simp: in_set_conv_nth)
  then show "x \<in> {x \<in> set ys. rank_in f (set ys) x < k}" using rank_nth [OF assms] by auto
qed

lemma rank_mono: "finite T \<Longrightarrow> {y \<in> S. f y < f x} \<subseteq> T \<Longrightarrow> rank_in f S x \<le> rank_in f T x"
  unfolding rank_in_def by (rule card_mono) auto

text \<open>Whoever comes after an element outside the first \<open>k\<close> comes after all the first \<open>k\<close>.\<close>

lemma rank_past:
  assumes "strictly f xs" "y \<in> set xs" "y \<notin> set (take k xs)" "f y < f x" "set (take k xs) \<subseteq> T" "finite T"
  shows "k \<le> rank_in f T x"
proof -
  obtain j where j: "j < length xs" "y = xs ! j" using assms(2) by (auto simp: in_set_conv_nth)
  have k: "k \<le> j" using assms(3) j by (fastforce simp: in_set_conv_nth intro: leI)
  have "distinct xs" using assms(1) strict_sorted_iff [of "map f xs"] by (simp add: sorted_wrt_map distinct_map)
  then have "card (set (take k xs)) = k" using j k by (simp add: distinct_card)
  moreover have "f (xs ! i) < f x" if "i < k" for i
    using sorted_wrt_nth_less [OF assms(1), of i j] that j k assms(4) by simp
  then have "set (take k xs) \<subseteq> {y \<in> T. f y < f x}" using assms(5) j k by (auto simp: in_set_conv_nth subset_iff)
  ultimately show ?thesis unfolding rank_in_def using assms(6) by (metis (no_types, lifting) card_mono finite_Collect_conjI finite_subset mem_Collect_eq subsetI)
qed

text \<open>The first \<open>k\<close> of two lists together are found among the first \<open>k\<close> of each.\<close>

lemma take_merge:
  assumes "strictly f xs" "strictly f ys" "strictly f zs" "strictly f cs"
    and sets: "set zs = set (take k xs) \<union> set (take k ys)" "set cs = set xs \<union> set ys"
  shows "take k zs = take k cs"
proof (rule strictly_unique)
  have sub: "set zs \<subseteq> set cs" using sets set_take_subset by fast
  show "set (take k zs) = set (take k cs)" unfolding set_take_strictly [OF assms(3)] set_take_strictly [OF assms(4)]
  proof (intro set_eqI iffI; clarsimp)
    fix x
    assume x: "x \<in> set zs" "rank_in f (set zs) x < k"
    have "y \<in> set zs" if "y \<in> set cs" "f y < f x" for y
    proof (rule ccontr)
      assume y: "y \<notin> set zs"
      then consider "y \<in> set xs" "y \<notin> set (take k xs)" | "y \<in> set ys" "y \<notin> set (take k ys)" using \<open>y \<in> set cs\<close> sets by auto
      then show False
      proof cases
        case 1
        then show False using rank_past [OF assms(1) 1 \<open>f y < f x\<close>, of "set zs"] sets(1) x(2) by simp
      next
        case 2
        then show False using rank_past [OF assms(2) 2 \<open>f y < f x\<close>, of "set zs"] sets(1) x(2) by simp
      qed
    qed
    then have "rank_in f (set cs) x \<le> rank_in f (set zs) x" by (intro rank_mono) auto
    then show "x \<in> set cs \<and> rank_in f (set cs) x < k" using x sub by auto
  next
    fix x
    assume x: "x \<in> set cs" "rank_in f (set cs) x < k"
    have below: "rank_in f S x < k" if "S \<subseteq> set cs" for S
      using rank_mono [of "set cs" S f x] x(2) that by (fastforce intro: le_less_trans)
    have "rank_in f (set xs) x < k" "rank_in f (set ys) x < k" "rank_in f (set zs) x < k" using sets(2) sub by (auto intro!: below)
    then show "x \<in> set zs \<and> rank_in f (set zs) x < k"
      using x(1) sets set_take_strictly [OF assms(1)] set_take_strictly [OF assms(2)] by auto
  qed
qed (use assms(3,4) in \<open>auto intro: sorted_wrt_take\<close>)

subsection \<open>What the activity page shows\<close>

definition concerns :: "string \<Rightarrow> AuditRow \<Rightarrow> bool" where
  "concerns userId r \<longleftrightarrow> auditActorId r = Some userId \<or> auditTargetId r = userId"

definition activity_view :: "string \<Rightarrow> AuditRow \<Rightarrow> ActivityRecord" where
  "activity_view userId r =
    (let own = auditActorId r = Some userId in
     \<lparr>entryId = auditId r, entryAction = auditAction r, entryTargetType = auditTargetType r, entryReason = auditReason r,
      entryIpAddress = (if own then auditIpAddress r else None), entrySessionId = (if own then auditSessionId r else None),
      entryCreatedAt = auditCreatedAt r,
      activityBy = (if own then BySubject else if auditActorId r = None then BySystem else ByAdministrator)\<rparr>)"

lemma set_insert_newest [simp]: "set (insert_newest a xs) = insert a (set xs)"
  by (induction xs) auto

lemma set_sort_newest [simp]: "set (sort_newest xs) = set xs"
  by (induction xs) (auto simp: sort_newest_def)

lemma insert_newest_strictly:
  "strictly (\<lambda>e. - entryCreatedAt e) xs \<Longrightarrow> entryCreatedAt a \<notin> entryCreatedAt ` set xs \<Longrightarrow>
    strictly (\<lambda>e. - entryCreatedAt e) (insert_newest a xs)"
  by (induction xs) (fastforce simp: newer_def)+

lemma sort_newest_strictly: "distinct (map entryCreatedAt xs) \<Longrightarrow> strictly (\<lambda>e. - entryCreatedAt e) (sort_newest xs)"
proof (induction xs)
  case (Cons a xs)
  have "entryCreatedAt a \<notin> entryCreatedAt ` set (sort_newest xs)" using Cons.prems by simp
  then have "strictly (\<lambda>e. - entryCreatedAt e) (insert_newest a (sort_newest xs))"
    using Cons by (intro insert_newest_strictly) auto
  then show ?case by (simp add: sort_newest_def)
qed (simp add: sort_newest_def)


lemma activity_rows:
  fixes userId :: string and rows :: "AuditRow list"
  defines "own \<equiv> filter (\<lambda>r. auditActorId r = Some userId) rows"
    and "told \<equiv> filter (\<lambda>r. auditTargetId r = userId \<and> (auditActorId r = None \<or> auditActorId r \<noteq> Some userId)) rows"
  shows "activityFor userId k rows = sort_newest (map (activity_view userId) (newest k own @ newest k told))"
proof -
  have "map asOwnAction (listForActor userId k rows) = map (activity_view userId) (newest k own)"
    unfolding listForActor_def own_def
    by (auto simp: asOwnAction_def activity_view_def newest_def dest!: in_set_takeD)
  moreover have "map asDisclosure (listForSubject userId k rows) = map (activity_view userId) (newest k told)"
    unfolding listForSubject_def told_def
    by (auto simp: asDisclosure_def activity_view_def newest_def dest!: in_set_takeD)
  ultimately show ?thesis by (simp add: activityFor_def)
qed

lemma sort_newest_view:
  assumes "distinct (map auditCreatedAt zs)"
  shows "sort_newest (map (activity_view userId) zs) = map (activity_view userId) (sort_key (\<lambda>r. - auditCreatedAt r) zs)"
proof (rule strictly_unique [where f = "\<lambda>e. - entryCreatedAt e"])
  have t: "entryCreatedAt (activity_view userId r) = auditCreatedAt r" for r by (simp add: activity_view_def Let_def)
  then show "strictly (\<lambda>e. - entryCreatedAt e) (sort_newest (map (activity_view userId) zs))"
    using assms by (intro sort_newest_strictly) (simp add: comp_def)
  have "distinct (map (\<lambda>r. - auditCreatedAt r) zs)" using assms by (simp add: distinct_map inj_on_def)
  then show "strictly (\<lambda>e. - entryCreatedAt e) (map (activity_view userId) (sort_key (\<lambda>r. - auditCreatedAt r) zs))"
    using strictly_sort_key [of "\<lambda>r. - auditCreatedAt r" zs] by (simp add: sorted_wrt_map t)
qed simp

lemma activity_page:
  assumes "distinct (map auditCreatedAt rows)"
  shows "take k (activityFor userId k rows) =
    map (activity_view userId) (take k (sort_key (\<lambda>r. - auditCreatedAt r) (filter (concerns userId) rows)))"
proof -
  let ?f = "\<lambda>r. - auditCreatedAt r"
  define own where "own = filter (\<lambda>r. auditActorId r = Some userId) rows"
  define told where "told = filter (\<lambda>r. auditTargetId r = userId \<and> (auditActorId r = None \<or> auditActorId r \<noteq> Some userId)) rows"
  define zs where "zs = newest k own @ newest k told"
  have keys: "distinct (map ?f xs)" if "distinct (map auditCreatedAt xs)" for xs using that by (simp add: distinct_map inj_on_def)
  have sub: "distinct (map auditCreatedAt own)" "distinct (map auditCreatedAt told)"
      "distinct (map auditCreatedAt (filter (concerns userId) rows))"
    using assms by (auto simp: own_def told_def distinct_map_filter)
  have inj: "inj_on auditCreatedAt (set rows)" "distinct rows" using assms by (auto simp: distinct_map)
  have "set own \<inter> set told = {}" by (auto simp: own_def told_def)
  moreover have "set (newest k own) \<subseteq> set own" "set (newest k told) \<subseteq> set told" by (auto simp: newest_def dest: in_set_takeD)
  moreover have "set own \<subseteq> set rows" "set told \<subseteq> set rows" by (auto simp: own_def told_def)
  moreover have "distinct (newest k own)" "distinct (newest k told)" using inj(2) by (simp_all add: newest_def own_def told_def)
  ultimately have "distinct zs" "set zs \<subseteq> set rows" unfolding zs_def by (simp_all, blast+)
  then have zs: "distinct (map auditCreatedAt zs)" using inj(1) by (auto simp: distinct_map intro: inj_on_subset)
  have "take k (sort_key ?f zs) = take k (sort_key ?f (filter (concerns userId) rows))"
  proof (rule take_merge)
    show "strictly ?f (sort_key ?f own)" "strictly ?f (sort_key ?f told)" "strictly ?f (sort_key ?f zs)"
      "strictly ?f (sort_key ?f (filter (concerns userId) rows))"
      by (intro strictly_sort_key keys sub zs)+
    show "set (sort_key ?f zs) = set (take k (sort_key ?f own)) \<union> set (take k (sort_key ?f told))" by (simp add: zs_def newest_def)
    show "set (sort_key ?f (filter (concerns userId) rows)) = set (sort_key ?f own) \<union> set (sort_key ?f told)"
      by (auto simp: own_def told_def concerns_def)
  qed
  then show ?thesis
    using sort_newest_view [OF zs] by (simp add: activity_rows own_def [symmetric] told_def [symmetric] zs_def [symmetric] take_map)
qed


definition example_trail :: "AuditRow list" where
  "example_trail =
    record_change id ''a2'' 2 \<lparr>changeActor = Some \<lparr>actorUserId = ''admin'', actorIpAddress = Some ''10.0.0.1'', actorSessionId = None\<rparr>,
        changeAction = AccountSuspended, changeTargetType = ''user'', changeTargetId = ''u1'', changeBefore = None, changeAfter = None,
        changeReason = Some ''fraud''\<rparr>
      (record_change id ''a1'' 1 \<lparr>changeActor = Some \<lparr>actorUserId = ''u1'', actorIpAddress = Some ''10.0.0.2'', actorSessionId = None\<rparr>,
        changeAction = ProfileUpdated, changeTargetType = ''profile'', changeTargetId = ''u1'', changeBefore = None, changeAfter = None,
        changeReason = None\<rparr> [])"


end
