(* ===== verification/Catalogue.thy ===== *)
theory Catalogue
  imports Unit_Economics Audit_Trail
begin

section \<open>Categories and their versions\<close>

text \<open>
  A category is a slug and a list of configuration versions that are never edited: reconfiguring mints the next version
  (\<^verbatim>\<open>apps/api/src/catalogue/prisma-category-store.ts\<close>, \<^verbatim>\<open>catalogue.service.ts\<close>). The tables carry the constraints
  of the migrations; a JSON column holds the values written and is parsed again when it is read. \<open>race\<close> is what other
  requests commit between two statements. Columns of a closed vocabulary (the risk level, the reportable activity)
  are written from that vocabulary only; the foreign key to the author is not modelled.
\<close>

subsection \<open>The contract\<close>

datatype CategoryRiskLevel = LowRisk | MediumRisk | HighRisk

datatype CategoryReportableActivity = NotReportable | MeansOfTransport | PersonalService | SaleOfGoods

definition activatesSellerReporting :: "CategoryReportableActivity \<Rightarrow> bool" where
  "activatesSellerReporting activity \<longleftrightarrow> activity \<noteq> NotReportable"

record CategoryConfiguration =
  configName :: string
  riskLevel :: CategoryRiskLevel
  reportableActivity :: CategoryReportableActivity
  configAttributes :: "CategoryAttribute list"
  configTransport :: "CategoryTransportOption list"
  feePolicy :: CategoryFeePolicy
  damageSecurity :: "DamageSecurityPolicy option"
  maximumRentalDays :: int
  requestExpiryHours :: int

definition MIN_CATEGORY_SLUG_LENGTH :: nat where "MIN_CATEGORY_SLUG_LENGTH = 2"
definition MAX_CATEGORY_SLUG_LENGTH :: nat where "MAX_CATEGORY_SLUG_LENGTH = 64"
definition MIN_CATEGORY_NAME_LENGTH :: nat where "MIN_CATEGORY_NAME_LENGTH = 2"
definition MAX_CATEGORY_NAME_LENGTH :: nat where "MAX_CATEGORY_NAME_LENGTH = 120"
definition MIN_MAXIMUM_RENTAL_DAYS :: int where "MIN_MAXIMUM_RENTAL_DAYS = 1"
definition MIN_REQUEST_EXPIRY_HOURS :: int where "MIN_REQUEST_EXPIRY_HOURS = 1"
definition MAX_REQUEST_EXPIRY_HOURS :: int where "MAX_REQUEST_EXPIRY_HOURS = 336"


definition categorySlugSchema :: "string \<Rightarrow> string option" where
  "categorySlugSchema raw = (let s = trim raw in
     if MIN_CATEGORY_SLUG_LENGTH \<le> length s \<and> length s \<le> MAX_CATEGORY_SLUG_LENGTH \<and> joined_words (\<lambda>c. c = CHR ''-'') s
     then Some s else None)"

definition categoryNameSchema :: "string \<Rightarrow> string option" where
  "categoryNameSchema raw = (let s = trim raw in
     if MIN_CATEGORY_NAME_LENGTH \<le> length s \<and> length s \<le> MAX_CATEGORY_NAME_LENGTH then Some s else None)"

definition maximumRentalDaysSchema :: "int \<Rightarrow> bool" where
  "maximumRentalDaysSchema n \<longleftrightarrow> MIN_MAXIMUM_RENTAL_DAYS \<le> n \<and> n \<le> MAX_MAXIMUM_RENTAL_DAYS"

definition requestExpiryHoursSchema :: "int \<Rightarrow> bool" where
  "requestExpiryHoursSchema n \<longleftrightarrow> MIN_REQUEST_EXPIRY_HOURS \<le> n \<and> n \<le> MAX_REQUEST_EXPIRY_HOURS"

definition requireReportingAcknowledgement :: "CategoryReportableActivity \<Rightarrow> bool \<Rightarrow> bool" where
  "requireReportingAcknowledgement activity acknowledged \<longleftrightarrow> activatesSellerReporting activity \<longrightarrow> acknowledged"

definition categoryConfigurationSchema :: "CategoryConfiguration \<Rightarrow> bool \<Rightarrow> CategoryConfiguration option" where
  "categoryConfigurationSchema raw reportingDutiesAcknowledged =
    (case (categoryNameSchema (configName raw), categoryAttributesSchema (configAttributes raw),
           categoryTransportOptionsSchema (configTransport raw)) of
       (Some name, Some attributes, Some transport) \<Rightarrow>
         if categoryFeePolicySchema (feePolicy raw) \<and> pred_option damageSecurityPolicySchema (damageSecurity raw) \<and>
            maximumRentalDaysSchema (maximumRentalDays raw) \<and> requestExpiryHoursSchema (requestExpiryHours raw) \<and>
            requireReportingAcknowledgement (reportableActivity raw) reportingDutiesAcknowledged
         then Some (raw\<lparr>configName := name, configAttributes := attributes, configTransport := transport\<rparr>)
         else None
     | _ \<Rightarrow> None)"

subsection \<open>The tables\<close>

record CategoryRow =
  cat_id :: string
  cat_slug :: string
  cat_createdAt :: int

record CategoryVersionRow =
  cv_id :: string
  cv_categoryId :: string
  cv_versionNumber :: int
  cv_name :: string
  cv_riskLevel :: CategoryRiskLevel
  cv_reportableActivity :: CategoryReportableActivity
  cv_attributes :: "CategoryAttribute list"
  cv_transportOptions :: "CategoryTransportOption list"
  cv_ownerCommission :: int
  cv_renterFee :: int
  cv_minimumTotal :: int
  cv_minimumTotalCurrency :: CurrencyCode
  cv_minimumFee :: int
  cv_minimumFeeCurrency :: CurrencyCode
  cv_excessFloor :: "int option"
  cv_excessFloorCurrency :: "CurrencyCode option"
  cv_excessPercentage :: "int option"
  cv_recoveryCeiling :: "int option"
  cv_recoveryCeilingCurrency :: "CurrencyCode option"
  cv_maximumRentalDays :: int
  cv_requestExpiryHours :: int
  cv_createdById :: string
  cv_createdAt :: int

record CatalogueDb =
  category_rows :: "CategoryRow list"
  version_rows :: "CategoryVersionRow list"
  audit_rows :: "AuditRow list"

definition damage_security_is_complete :: "CategoryVersionRow \<Rightarrow> bool" where
  "damage_security_is_complete v \<longleftrightarrow>
    (case (cv_excessFloor v, cv_excessFloorCurrency v, cv_excessPercentage v, cv_recoveryCeiling v, cv_recoveryCeilingCurrency v) of
       (None, None, None, None, None) \<Rightarrow> True
     | (Some lo, Some _, Some bp, Some hi, Some _) \<Rightarrow> lo \<le> hi \<and> 0 \<le> lo \<and> 0 < hi \<and> 0 \<le> bp \<and> bp \<le> 10000
     | _ \<Rightarrow> False)"

definition version_checks :: "CategoryVersionRow \<Rightarrow> bool" where
  "version_checks v \<longleftrightarrow>
     0 \<le> cv_ownerCommission v \<and> cv_ownerCommission v \<le> 5000 \<and> 0 \<le> cv_renterFee v \<and> cv_renterFee v \<le> 5000 \<and>
     0 \<le> cv_minimumTotal v \<and> 0 \<le> cv_minimumFee v \<and>
     cv_minimumTotalCurrency v = cv_minimumFeeCurrency v \<and> cv_minimumFee v \<le> cv_minimumTotal v \<and>
     damage_security_is_complete v \<and> cv_excessFloorCurrency v = cv_recoveryCeilingCurrency v \<and>
     1 \<le> cv_maximumRentalDays v \<and> cv_maximumRentalDays v \<le> 88 \<and> 1 \<le> cv_requestExpiryHours v \<and> cv_requestExpiryHours v \<le> 336 \<and>
     int4 (cv_versionNumber v) \<and> int4 (cv_minimumTotal v) \<and> int4 (cv_minimumFee v) \<and>
     pred_option int4 (cv_excessFloor v) \<and> pred_option int4 (cv_recoveryCeiling v)"

datatype CategoryStoreError = CategorySlugTaken string | VersionTaken | CheckFailed | UnreadableAttributes string
  | UnreadableTransport string | PartialDamageSecurity string | NoConfigurationVersion string

definition insert_version :: "CategoryVersionRow \<Rightarrow> CatalogueDb \<Rightarrow> CategoryStoreError + CatalogueDb" where
  "insert_version v db =
    (if \<not> version_checks v then Inl CheckFailed
     else if cv_id v \<in> cv_id ` set (version_rows db) then Inl VersionTaken
     else if list_ex (\<lambda>w. cv_categoryId w = cv_categoryId v \<and> cv_versionNumber w = cv_versionNumber v) (version_rows db)
     then Inl VersionTaken
     else Inr (db\<lparr>version_rows := version_rows db @ [v]\<rparr>))"

definition latest_version :: "string \<Rightarrow> CatalogueDb \<Rightarrow> CategoryVersionRow option" where
  "latest_version categoryId db =
    (case sort_key (\<lambda>v. - cv_versionNumber v) (filter (\<lambda>v. cv_categoryId v = categoryId) (version_rows db)) of
       [] \<Rightarrow> None | v # _ \<Rightarrow> Some v)"

definition category_by_slug :: "string \<Rightarrow> CatalogueDb \<Rightarrow> CategoryRow option" where
  "category_by_slug slug db = find (\<lambda>c. cat_slug c = slug) (category_rows db)"

subsection \<open>Reading a version\<close>

definition asFeePolicy :: "CategoryVersionRow \<Rightarrow> CategoryFeePolicy" where
  "asFeePolicy v =
    \<lparr>ownerCommissionBasisPoints = cv_ownerCommission v, renterFeeBasisPoints = cv_renterFee v,
     minimumBookingTotal = \<lparr>amount = cv_minimumTotal v, currency = cv_minimumTotalCurrency v\<rparr>,
     minimumPlatformFee = \<lparr>amount = cv_minimumFee v, currency = cv_minimumFeeCurrency v\<rparr>\<rparr>"

definition asDamageSecurity :: "CategoryVersionRow \<Rightarrow> string \<Rightarrow> CategoryStoreError + DamageSecurityPolicy option" where
  "asDamageSecurity v what =
    (case cv_recoveryCeiling v of
       None \<Rightarrow> Inr None
     | Some hi \<Rightarrow>
         (case (cv_excessFloor v, cv_excessFloorCurrency v, cv_excessPercentage v, cv_recoveryCeilingCurrency v) of
            (Some lo, Some c, Some bp, Some c') \<Rightarrow>
              Inr (Some \<lparr>excessFloor = \<lparr>amount = lo, currency = c\<rparr>, excessPercentageBasisPoints = bp,
                         recoveryCeiling = \<lparr>amount = hi, currency = c'\<rparr>\<rparr>)
          | _ \<Rightarrow> Inl (PartialDamageSecurity what)))"

definition asAttributes :: "CategoryAttribute list \<Rightarrow> string \<Rightarrow> CategoryStoreError + CategoryAttribute list" where
  "asAttributes raw what = (case categoryAttributesSchema raw of None \<Rightarrow> Inl (UnreadableAttributes what) | Some a \<Rightarrow> Inr a)"

definition asTransportOptions :: "CategoryTransportOption list \<Rightarrow> string \<Rightarrow> CategoryStoreError + CategoryTransportOption list" where
  "asTransportOptions raw what =
    (case categoryTransportOptionsSchema raw of None \<Rightarrow> Inl (UnreadableTransport what) | Some a \<Rightarrow> Inr a)"

record CategoryRecord = CategoryConfiguration +
  categoryId :: string
  categorySlug :: string
  versionNumber :: int
  versionCreatedAt :: int
  categoryCreatedAt :: int

definition version_record :: "CategoryRow \<Rightarrow> CategoryVersionRow \<Rightarrow> CategoryStoreError + CategoryRecord" where
  "version_record c v =
    rbind (asAttributes (cv_attributes v) (cat_slug c)) (\<lambda>attributes.
    rbind (asTransportOptions (cv_transportOptions v) (cat_slug c)) (\<lambda>transport.
    rbind (asDamageSecurity v (cat_slug c)) (\<lambda>security.
      Inr \<lparr>configName = cv_name v, riskLevel = cv_riskLevel v, reportableActivity = cv_reportableActivity v,
           configAttributes = attributes, configTransport = transport, feePolicy = asFeePolicy v, damageSecurity = security,
           maximumRentalDays = cv_maximumRentalDays v, requestExpiryHours = cv_requestExpiryHours v,
           categoryId = cat_id c, categorySlug = cat_slug c, versionNumber = cv_versionNumber v,
           versionCreatedAt = cv_createdAt v, categoryCreatedAt = cat_createdAt c\<rparr>)))"

definition toRecord_category :: "CatalogueDb \<Rightarrow> CategoryRow \<Rightarrow> CategoryStoreError + CategoryRecord" where
  "toRecord_category db c =
    (case latest_version (cat_id c) db of
       None \<Rightarrow> Inl (NoConfigurationVersion (cat_slug c))
     | Some v \<Rightarrow> version_record c v)"

subsection \<open>The store\<close>

record CatalogueEnv =
  newCategoryId :: string
  newVersionId :: string
  newAuditId :: string
  catalogueNow :: int

definition version_row :: "CatalogueEnv \<Rightarrow> string \<Rightarrow> int \<Rightarrow> CategoryConfiguration \<Rightarrow> string \<Rightarrow> CategoryVersionRow" where
  "version_row env categoryId' n c authorId =
    \<lparr>cv_id = newVersionId env, cv_categoryId = categoryId', cv_versionNumber = n, cv_name = configName c,
     cv_riskLevel = riskLevel c, cv_reportableActivity = reportableActivity c, cv_attributes = configAttributes c,
     cv_transportOptions = configTransport c, cv_ownerCommission = ownerCommissionBasisPoints (feePolicy c),
     cv_renterFee = renterFeeBasisPoints (feePolicy c), cv_minimumTotal = amount (minimumBookingTotal (feePolicy c)),
     cv_minimumTotalCurrency = currency (minimumBookingTotal (feePolicy c)),
     cv_minimumFee = amount (minimumPlatformFee (feePolicy c)), cv_minimumFeeCurrency = currency (minimumPlatformFee (feePolicy c)),
     cv_excessFloor = map_option (\<lambda>d. amount (excessFloor d)) (damageSecurity c),
     cv_excessFloorCurrency = map_option (\<lambda>d. currency (excessFloor d)) (damageSecurity c),
     cv_excessPercentage = map_option excessPercentageBasisPoints (damageSecurity c),
     cv_recoveryCeiling = map_option (\<lambda>d. amount (recoveryCeiling d)) (damageSecurity c),
     cv_recoveryCeilingCurrency = map_option (\<lambda>d. currency (recoveryCeiling d)) (damageSecurity c),
     cv_maximumRentalDays = maximumRentalDays c, cv_requestExpiryHours = requestExpiryHours c,
     cv_createdById = authorId, cv_createdAt = catalogueNow env\<rparr>"

definition FIRST_VERSION :: int where "FIRST_VERSION = 1"

definition create_category ::
  "CatalogueEnv \<Rightarrow> string \<Rightarrow> CategoryConfiguration \<Rightarrow> string \<Rightarrow> (CatalogueDb, CategoryStoreError, CategoryRecord) action" where
  "create_category env slug input authorId = atomically (\<lambda>db.
    if slug \<in> cat_slug ` set (category_rows db) \<or> newCategoryId env \<in> cat_id ` set (category_rows db)
    then Inl (CategorySlugTaken slug)
    else
      let c = \<lparr>cat_id = newCategoryId env, cat_slug = slug, cat_createdAt = catalogueNow env\<rparr>;
          db1 = db\<lparr>category_rows := category_rows db @ [c]\<rparr> in
      case insert_version (version_row env (cat_id c) FIRST_VERSION input authorId) db1 of
        Inl VersionTaken \<Rightarrow> Inl (CategorySlugTaken slug)
      | Inl e \<Rightarrow> Inl e
      | Inr db2 \<Rightarrow> rbind (toRecord_category db2 c) (\<lambda>r. Inr (db2, r)))"

definition findBySlug :: "string \<Rightarrow> CatalogueDb \<Rightarrow> CategoryStoreError + CategoryRecord option" where
  "findBySlug slug db =
    (case category_by_slug slug db of
       None \<Rightarrow> Inr None
     | Some c \<Rightarrow> rbind (toRecord_category db c) (\<lambda>r. Inr (Some r)))"

definition addVersion ::
  "(CatalogueDb \<Rightarrow> CatalogueDb) \<Rightarrow> CatalogueEnv \<Rightarrow> string \<Rightarrow> CategoryConfiguration \<Rightarrow> string
    \<Rightarrow> (CatalogueDb, CategoryStoreError, CategoryRecord option) action" where
  "addVersion race env slug configuration authorId =
    await (reading (\<lambda>db. map_option (\<lambda>c. (c, latest_version (cat_id c) db)) (category_by_slug slug db))) (\<lambda>existing.
    case existing of
      None \<Rightarrow> done_with None
    | Some (c, None) \<Rightarrow> done_with None
    | Some (c, Some current) \<Rightarrow>
        await (\<lambda>db. (Inr (), race db)) (\<lambda>_.
        let v = version_row env (cat_id c) (cv_versionNumber current + 1) configuration authorId in
        await (atomically (\<lambda>db. rbind (insert_version v db) (\<lambda>db'. Inr (db', ())))) (\<lambda>_.
        await (pure_step (version_record c v)) (\<lambda>r. done_with (Some r)))))"

definition list_categories :: "nat \<Rightarrow> CatalogueDb \<Rightarrow> CategoryStoreError + CategoryRecord list" where
  "list_categories limit db = rmap (toRecord_category db) (take limit (sort_key cat_createdAt (category_rows db)))"

definition findFeePolicyByVersionId :: "CatalogueDb \<Rightarrow> string \<Rightarrow> CategoryFeePolicy option" where
  "findFeePolicyByVersionId db versionId = map_option asFeePolicy (find (\<lambda>v. cv_id v = versionId) (version_rows db))"

subsection \<open>The service\<close>

datatype CatalogueError = CategoryMargin string "MarginReason option" | MarginUnknown EconomicsError | CategoryStore CategoryStoreError

definition refuseNegativeMargin :: "CategoryFeePolicy \<Rightarrow> string \<Rightarrow> CatalogueError + unit" where
  "refuseNegativeMargin policy slug =
    rbind (map_sum MarginUnknown id (meetsMarginRule policy)) (\<lambda>verdict.
      if meetsRule verdict then Inr () else Inl (CategoryMargin slug (verdictReason verdict)))"

record AuditableCategory =
  auditableSlug :: string
  auditableName :: string
  auditableRisk :: CategoryRiskLevel
  auditableActivity :: CategoryReportableActivity
  auditableAttributes :: "CategoryAttribute list"
  auditableTransport :: "CategoryTransportOption list"
  auditableFees :: CategoryFeePolicy
  auditableSecurity :: "DamageSecurityPolicy option"

definition auditable :: "CategoryRecord \<Rightarrow> AuditableCategory" where
  "auditable r = \<lparr>auditableSlug = categorySlug r, auditableName = configName r, auditableRisk = riskLevel r,
     auditableActivity = reportableActivity r, auditableAttributes = configAttributes r, auditableTransport = configTransport r,
     auditableFees = feePolicy r, auditableSecurity = damageSecurity r\<rparr>"

definition store_action :: "(CatalogueDb, CategoryStoreError, 'a) action \<Rightarrow> (CatalogueDb, CatalogueError, 'a) action" where
  "store_action m db = (case m db of (r, db') \<Rightarrow> (map_sum CategoryStore id r, db'))"

definition audit_category ::
  "(AuditableCategory \<Rightarrow> string) \<Rightarrow> CatalogueEnv \<Rightarrow> AuditableCategory RecordChange \<Rightarrow> (CatalogueDb, CatalogueError, unit) action" where
  "audit_category digest env change db =
    (Inr (), db\<lparr>audit_rows := record_change digest (newAuditId env) (catalogueNow env) change (audit_rows db)\<rparr>)"

definition createCategory ::
  "(AuditableCategory \<Rightarrow> string) \<Rightarrow> CatalogueEnv \<Rightarrow> Actor \<Rightarrow> string \<Rightarrow> CategoryConfiguration \<Rightarrow> string
    \<Rightarrow> (CatalogueDb, CatalogueError, CategoryRecord) action" where
  "createCategory digest env actor slug input reason =
    await (pure_step (refuseNegativeMargin (feePolicy input) slug)) (\<lambda>_.
    await (store_action (create_category env slug input (actorUserId actor))) (\<lambda>created.
    await (audit_category digest env \<lparr>changeActor = Some actor, changeAction = CategoryCreated, changeTargetType = ''category'',
        changeTargetId = categoryId created, changeBefore = None, changeAfter = Some (auditable created),
        changeReason = Some reason\<rparr>) (\<lambda>_.
      done_with created)))"

definition reconfigure ::
  "(CatalogueDb \<Rightarrow> CatalogueDb) \<Rightarrow> (CatalogueDb \<Rightarrow> CatalogueDb) \<Rightarrow> (AuditableCategory \<Rightarrow> string) \<Rightarrow> CatalogueEnv \<Rightarrow> Actor
    \<Rightarrow> string \<Rightarrow> CategoryConfiguration \<Rightarrow> string \<Rightarrow> (CatalogueDb, CatalogueError, CategoryRecord option) action" where
  "reconfigure race1 race2 digest env actor slug configuration reason =
    await (store_action (\<lambda>db. (findBySlug slug db, db))) (\<lambda>found.
    case found of
      None \<Rightarrow> done_with None
    | Some before \<Rightarrow>
        await (pure_step (refuseNegativeMargin (feePolicy configuration) slug)) (\<lambda>_.
        await (\<lambda>db. (Inr (), race1 db)) (\<lambda>_.
        await (store_action (addVersion race2 env slug configuration (actorUserId actor))) (\<lambda>added.
        case added of
          None \<Rightarrow> done_with None
        | Some after \<Rightarrow>
            await (audit_category digest env \<lparr>changeActor = Some actor, changeAction = CategoryReconfigured,
                changeTargetType = ''category'', changeTargetId = categoryId after, changeBefore = Some (auditable before),
                changeAfter = Some (auditable after), changeReason = Some reason\<rparr>) (\<lambda>_.
              done_with (Some after))))))"

definition CATEGORY_LIST_LIMIT :: nat where "CATEGORY_LIST_LIMIT = 500"

definition listCategories :: "CatalogueDb \<Rightarrow> CategoryStoreError + CategoryRecord list" where
  "listCategories db =
    rbind (list_categories (probe CATEGORY_LIST_LIMIT) db) (\<lambda>rows. Inr (items (fitTo rows CATEGORY_LIST_LIMIT)))"


subsection \<open>A parsed configuration reads back unchanged\<close>

lemma those_idem:
  assumes "those (map f raw) = Some qs" "\<And>x y. f x = Some y \<Longrightarrow> f y = Some y"
  shows "those (map f qs) = Some qs"
proof -
  have "map f raw = map Some qs" using assms(1) by (simp add: those_Some_iff)
  then have "\<forall>q \<in> set qs. \<exists>x. f x = Some q" by (metis (no_types, lifting) imageE image_eqI list.set_map)
  then have "\<forall>q \<in> set qs. f q = Some q" using assms(2) by blast
  then show ?thesis by (simp add: those_Some_iff)
qed

lemma those_length: "those (map f raw) = Some qs \<Longrightarrow> length qs = length raw"
  by (auto simp: those_Some_iff dest: map_eq_imp_length_eq)

lemma attributeOptionSchema_idem: "attributeOptionSchema x = Some y \<Longrightarrow> attributeOptionSchema y = Some y"
  by (auto simp: attributeOptionSchema_def Let_def trim_idem split: if_splits)

lemma attributeTypeSchema_idem:
  assumes "attributeTypeSchema x = Some y"
  shows "attributeTypeSchema y = Some y"
proof -
  have opts: "those (map attributeOptionSchema os) = Some os \<and> length os = length raw"
    if "those (map attributeOptionSchema raw) = Some os" for raw os
    using those_idem [OF that attributeOptionSchema_idem] those_length [OF that] by simp
  show ?thesis
  proof (cases x)
    case (ChoiceType raw)
    then obtain os where "those (map attributeOptionSchema raw) = Some os" "y = ChoiceType os" "distinct (map optionValue os)"
        "2 \<le> length raw" "length raw \<le> MAX_ATTRIBUTE_OPTIONS"
      using assms by (auto split: if_splits option.splits)
    then show ?thesis using opts [of raw os] by simp
  next
    case (ChoiceManyType raw)
    then obtain os where "those (map attributeOptionSchema raw) = Some os" "y = ChoiceManyType os" "distinct (map optionValue os)"
        "1 \<le> length raw" "length raw \<le> MAX_ATTRIBUTE_OPTIONS"
      using assms by (auto split: if_splits option.splits)
    then show ?thesis using opts [of raw os] by simp
  qed (use assms in \<open>auto simp: Let_def trim_idem split: if_splits\<close>)
qed

lemma categoryAttributeSchema_idem:
  assumes "categoryAttributeSchema x = Some y"
  shows "categoryAttributeSchema y = Some y"
proof -
  obtain k l t where t: "attributeKeySchema (attributeKey x) = Some k" "attributeLabelSchema (attributeLabel x) = Some l"
      "attributeTypeSchema (attributeType x) = Some t"
      "y = \<lparr>attributeKey = k, attributeLabel = l, required = required x, attributeType = t\<rparr>"
    using assms by (auto simp: categoryAttributeSchema_def split: option.splits)
  have "attributeKeySchema k = Some k" "attributeLabelSchema l = Some l"
    using t(1,2) by (auto simp: attributeKeySchema_def attributeLabelSchema_def Let_def trim_idem split: if_splits)
  then show ?thesis using attributeTypeSchema_idem [OF t(3)] by (simp add: categoryAttributeSchema_def t(4))
qed

lemma categoryAttributesSchema_idem:
  assumes "categoryAttributesSchema raw = Some qs"
  shows "categoryAttributesSchema qs = Some qs"
proof -
  have "those (map categoryAttributeSchema raw) = Some qs" "length raw \<le> MAX_CATEGORY_ATTRIBUTES" "distinct (map attributeKey qs)"
    using assms by (auto simp: categoryAttributesSchema_def split: if_splits option.splits)
  then show ?thesis
    using those_idem [OF _ categoryAttributeSchema_idem, of raw qs] those_length [of categoryAttributeSchema raw qs]
    by (simp add: categoryAttributesSchema_def)
qed

lemma categoryTransportOptionsSchema_idem:
  "categoryTransportOptionsSchema raw = Some opts \<Longrightarrow> categoryTransportOptionsSchema opts = Some opts"
  by (auto simp: categoryTransportOptionsSchema_def Let_def list_all_iff distinct_map sort_key_id_if_sorted split: if_splits)

definition parsed :: "CategoryConfiguration \<Rightarrow> bool" where
  "parsed c \<longleftrightarrow> categoryAttributesSchema (configAttributes c) = Some (configAttributes c) \<and>
     categoryTransportOptionsSchema (configTransport c) = Some (configTransport c) \<and>
     categoryFeePolicySchema (feePolicy c) \<and> pred_option damageSecurityPolicySchema (damageSecurity c) \<and>
     maximumRentalDaysSchema (maximumRentalDays c) \<and> requestExpiryHoursSchema (requestExpiryHours c)"

lemma categoryConfigurationSchema_parsed: "categoryConfigurationSchema raw ack = Some c \<Longrightarrow> parsed c"
  by (auto simp: categoryConfigurationSchema_def parsed_def categoryAttributesSchema_idem categoryTransportOptionsSchema_idem
      split: option.splits if_splits)

lemma version_row_checks:
  assumes "parsed c" "int4 n"
  shows "version_checks (version_row env i n c a)"
proof (cases "damageSecurity c")
  case None
  then show ?thesis using assms
    by (auto simp: parsed_def version_row_def version_checks_def damage_security_is_complete_def schema_defs pricingFloorSchema_def
        MAX_PRICING_FLOOR_MINOR_UNITS_def maximumRentalDaysSchema_def requestExpiryHoursSchema_def MIN_MAXIMUM_RENTAL_DAYS_def
        MAX_MAXIMUM_RENTAL_DAYS_def MIN_REQUEST_EXPIRY_HOURS_def MAX_REQUEST_EXPIRY_HOURS_def int4_def)
next
  case (Some d)
  then show ?thesis using assms
    by (auto simp: parsed_def version_row_def version_checks_def damage_security_is_complete_def schema_defs pricingFloorSchema_def
        boundedMoneySchema_def MAX_PRICING_FLOOR_MINOR_UNITS_def maximumRentalDaysSchema_def requestExpiryHoursSchema_def
        MIN_MAXIMUM_RENTAL_DAYS_def MAX_MAXIMUM_RENTAL_DAYS_def MIN_REQUEST_EXPIRY_HOURS_def MAX_REQUEST_EXPIRY_HOURS_def int4_def)
qed

lemma version_row_reads:
  assumes "parsed c"
  shows "version_record r (version_row env i n c a) = Inr
    \<lparr>configName = configName c, riskLevel = riskLevel c, reportableActivity = reportableActivity c, configAttributes = configAttributes c,
     configTransport = configTransport c, feePolicy = feePolicy c, damageSecurity = damageSecurity c,
     maximumRentalDays = maximumRentalDays c, requestExpiryHours = requestExpiryHours c, categoryId = cat_id r,
     categorySlug = cat_slug r, versionNumber = n, versionCreatedAt = catalogueNow env, categoryCreatedAt = cat_createdAt r\<rparr>"
  using assms
  by (cases "damageSecurity c")
    (auto simp: version_record_def asAttributes_def asTransportOptions_def asDamageSecurity_def asFeePolicy_def version_row_def parsed_def)


subsection \<open>The invariant of the tables\<close>

definition versions_of :: "string \<Rightarrow> CatalogueDb \<Rightarrow> CategoryVersionRow list" where
  "versions_of i db = filter (\<lambda>v. cv_categoryId v = i) (version_rows db)"

definition version_ok :: "CategoryVersionRow \<Rightarrow> bool" where
  "version_ok v \<longleftrightarrow> version_checks v \<and> categoryAttributesSchema (cv_attributes v) = Some (cv_attributes v) \<and>
     categoryTransportOptionsSchema (cv_transportOptions v) = Some (cv_transportOptions v) \<and>
     (\<exists>verdict. meetsMarginRule (asFeePolicy v) = Inr verdict \<and> meetsRule verdict)"

text \<open>The versions of a category are numbered 1, 2, and so on, in the order they were written.\<close>

definition cat_inv :: "CatalogueDb \<Rightarrow> bool" where
  "cat_inv db \<longleftrightarrow> distinct (map cat_id (category_rows db)) \<and> distinct (map cat_slug (category_rows db)) \<and>
     distinct (map cv_id (version_rows db)) \<and>
     (\<forall>v \<in> set (version_rows db). version_ok v \<and> cv_categoryId v \<in> cat_id ` set (category_rows db)) \<and>
     (\<forall>c \<in> set (category_rows db). versions_of (cat_id c) db \<noteq> [] \<and>
        map cv_versionNumber (versions_of (cat_id c) db) = [1..int (length (versions_of (cat_id c) db))])"

definition cat_keeps :: "CatalogueDb \<Rightarrow> CatalogueDb \<Rightarrow> bool" where
  "cat_keeps db db' \<longleftrightarrow> cat_inv db \<longrightarrow> cat_inv db' \<and>
     (\<exists>vs. version_rows db' = version_rows db @ vs) \<and> (\<exists>cs. category_rows db' = category_rows db @ cs) \<and>
     (\<exists>as. audit_rows db' = audit_rows db @ as)"

lemma cat_keeps_refl: "reflp cat_keeps"
  by (simp add: reflp_def cat_keeps_def)

lemma cat_keeps_trans: "transp cat_keeps"
  unfolding transp_def cat_keeps_def by (metis append.assoc)

lemma latest_version_last:
  assumes "map cv_versionNumber (versions_of i db) = [1..n]"
  shows "latest_version i db = (if versions_of i db = [] then None else Some (last (versions_of i db)))"
proof -
  let ?vs = "versions_of i db"
  have "sorted_wrt (<) (map cv_versionNumber ?vs)" unfolding assms by simp
  then have s: "sorted_wrt (\<lambda>a b. cv_versionNumber a < cv_versionNumber b) ?vs" by (simp add: sorted_wrt_map)
  then have d: "distinct (map (\<lambda>v. - cv_versionNumber v) ?vs)"
    using strict_sorted_iff [of "map cv_versionNumber ?vs"] by (simp add: sorted_wrt_map distinct_map inj_on_def)
  have "strictly (\<lambda>v. - cv_versionNumber v) (rev ?vs)" using s by (simp add: sorted_wrt_rev)
  then have "sort_key (\<lambda>v. - cv_versionNumber v) ?vs = rev ?vs"
    using strictly_unique [OF strictly_sort_key [OF d]] by simp
  then show ?thesis by (cases ?vs rule: rev_cases) (auto simp: latest_version_def versions_of_def [symmetric])
qed

lemma latest_number:
  assumes "cat_inv db" "c \<in> set (category_rows db)"
  obtains v where "latest_version (cat_id c) db = Some v" "v \<in> set (versions_of (cat_id c) db)"
    "cv_versionNumber v = int (length (versions_of (cat_id c) db))"
proof -
  let ?vs = "versions_of (cat_id c) db"
  have n: "?vs \<noteq> []" "map cv_versionNumber ?vs = [1..int (length ?vs)]" using assms by (auto simp: cat_inv_def)
  then have "cv_versionNumber (last ?vs) = last [1..int (length ?vs)]" by (metis last_map)
  also have "\<dots> = int (length ?vs)" using n(1) by (simp add: upto_rec2 [of 1 "int (length ?vs)"] Suc_le_eq)
  finally show thesis using that [of "last ?vs"] latest_version_last [OF n(2)] n(1) by simp
qed

lemma insert_version_keeps:
  assumes inv: "cat_inv db" and c: "c \<in> set (category_rows db)" and ins: "insert_version v db = Inr db'"
    and v: "cv_categoryId v = cat_id c" "cv_versionNumber v = int (length (versions_of (cat_id c) db)) + 1" "version_ok v"
  shows "cat_inv db'"
proof -
  have db': "db' = db\<lparr>version_rows := version_rows db @ [v]\<rparr>" and fresh: "cv_id v \<notin> cv_id ` set (version_rows db)"
    using ins by (auto simp: insert_version_def split: if_splits)
  have vs: "versions_of i db' = (if i = cat_id c then versions_of i db @ [v] else versions_of i db)" for i
    by (simp add: db' versions_of_def v(1))
  have numbers: "map cv_versionNumber (versions_of (cat_id d) db') = [1..int (length (versions_of (cat_id d) db'))]"
    if "d \<in> set (category_rows db)" for d
  proof (cases "cat_id d = cat_id c")
    case True
    have "map cv_versionNumber (versions_of (cat_id c) db) = [1..int (length (versions_of (cat_id c) db))]"
      using inv c by (auto simp: cat_inv_def)
    then show ?thesis by (simp add: vs True v(2) upto_rec2)
  next
    case False
    then show ?thesis using inv that by (simp add: vs cat_inv_def)
  qed
  have "versions_of (cat_id d) db' \<noteq> []" if "d \<in> set (category_rows db)" for d using inv that by (auto simp: vs cat_inv_def)
  then show ?thesis using inv numbers fresh v(1,3) c unfolding cat_inv_def by (auto simp: db')
qed


lemma refuseNegativeMargin_ok: "refuseNegativeMargin policy slug = Inr () \<longleftrightarrow> (\<exists>v. meetsMarginRule policy = Inr v \<and> meetsRule v)"
  by (auto simp: refuseNegativeMargin_def result_simps split: if_splits)

lemma version_row_policy [simp]: "asFeePolicy (version_row env i n c a) = feePolicy c"
  by (simp add: asFeePolicy_def version_row_def Money_eq_iff CategoryFeePolicy.equality)

lemma version_row_ok:
  assumes "parsed c" "\<exists>v. meetsMarginRule (feePolicy c) = Inr v \<and> meetsRule v" "version_checks (version_row env i n c a)"
  shows "version_ok (version_row env i n c a)"
  using assms unfolding version_ok_def version_row_policy by (simp add: parsed_def version_row_def)

lemma category_by_slug_mem: "category_by_slug slug db = Some c \<Longrightarrow> c \<in> set (category_rows db) \<and> cat_slug c = slug"
  by (auto simp: category_by_slug_def dest: find_Some_mem)

lemma addVersion_run:
  fixes env configuration author
  assumes inv: "cat_inv db" and c: "category_by_slug slug db = Some c"
  defines "v \<equiv> version_row env (cat_id c) (int (length (versions_of (cat_id c) db)) + 1) configuration author"
  shows "addVersion race env slug configuration author db =
    (case insert_version v (race db) of
       Inl e \<Rightarrow> (Inl e, race db)
     | Inr db' \<Rightarrow> (map_sum id Some (version_record c v), db'))"
proof -
  obtain l where l: "latest_version (cat_id c) db = Some l" "cv_versionNumber l = int (length (versions_of (cat_id c) db))"
    using latest_number [OF inv] category_by_slug_mem [OF c] by blast
  show ?thesis
    by (auto simp: addVersion_def await_def action_defs atomically_def c l v_def Let_def split: sum.splits)
qed

text \<open>A version that another request wrote in between takes the number, and the write is refused.\<close>

lemma race_takes_number:
  assumes inv: "cat_inv db" and race: "cat_keeps db db1" and c: "c \<in> set (category_rows db)"
    and ins: "insert_version (version_row env (cat_id c) (int (length (versions_of (cat_id c) db)) + 1) configuration author) db1 = Inr db2"
  shows "versions_of (cat_id c) db1 = versions_of (cat_id c) db"
proof -
  obtain vs cs where k: "cat_inv db1" "version_rows db1 = version_rows db @ vs" "category_rows db1 = category_rows db @ cs"
    using race inv by (auto simp: cat_keeps_def)
  define more where "more = filter (\<lambda>v. cv_categoryId v = cat_id c) vs"
  have v1: "versions_of (cat_id c) db1 = versions_of (cat_id c) db @ more" by (simp add: versions_of_def k(2) more_def)
  have "map cv_versionNumber (versions_of (cat_id c) db1) = [1..int (length (versions_of (cat_id c) db1))]"
    using k(1,3) c by (auto simp: cat_inv_def)
  then have set: "set (map cv_versionNumber (versions_of (cat_id c) db1)) = {1..int (length (versions_of (cat_id c) db1))}" by simp
  have "more = []"
  proof (rule ccontr)
    assume "more \<noteq> []"
    then have "int (length (versions_of (cat_id c) db)) + 1 \<in> {1..int (length (versions_of (cat_id c) db1))}"
      by (cases more) (auto simp: v1)
    then obtain w where "w \<in> set (versions_of (cat_id c) db1)" "cv_versionNumber w = int (length (versions_of (cat_id c) db)) + 1"
      unfolding set [symmetric] by auto
    then show False using ins by (auto simp: insert_version_def version_row_def versions_of_def list_ex_iff split: if_splits)
  qed
  then show ?thesis by (simp add: v1)
qed

lemma insert_version_appends:
  "insert_version v db = Inr db' \<Longrightarrow> version_checks v \<and> db' = db\<lparr>version_rows := version_rows db @ [v]\<rparr> \<and> cv_id v \<notin> cv_id ` set (version_rows db)"
  by (auto simp: insert_version_def split: if_splits)

lemma addVersion_keeps:
  assumes "parsed configuration" "\<exists>v. meetsMarginRule (feePolicy configuration) = Inr v \<and> meetsRule v"
    and race: "\<And>db. cat_keeps db (race db)"
  shows "cat_keeps db (snd (addVersion race env slug configuration author db))"
proof (cases "cat_inv db")
  case inv: True
  show ?thesis
  proof (cases "category_by_slug slug db")
    case None
    then show ?thesis by (simp add: addVersion_def await_def action_defs reflpD [OF cat_keeps_refl])
  next
    case (Some c)
    define v where "v = version_row env (cat_id c) (int (length (versions_of (cat_id c) db)) + 1) configuration author"
    note run = addVersion_run [OF inv Some, of race env configuration author, folded v_def]
    show ?thesis
    proof (cases "insert_version v (race db)")
      case (Inl e)
      then show ?thesis using race by (simp add: run)
    next
      case (Inr db')
      have c: "c \<in> set (category_rows db)" using category_by_slug_mem [OF Some] by simp
      then have c1: "c \<in> set (category_rows (race db))" and i1: "cat_inv (race db)"
        using race [of db] inv by (auto simp: cat_keeps_def)
      have n: "versions_of (cat_id c) (race db) = versions_of (cat_id c) db"
        using race_takes_number [OF inv race c Inr [unfolded v_def]] .
      have a: "version_checks v" "db' = race db\<lparr>version_rows := version_rows (race db) @ [v]\<rparr>" using insert_version_appends [OF Inr] by simp_all
      have "version_ok v" using version_row_ok [OF assms(1,2)] a(1) by (simp add: v_def)
      then have "cat_inv db'" using insert_version_keeps [OF i1 c1 Inr] n by (simp add: v_def version_row_def)
      then have "cat_keeps (race db) db'" using a(2) by (simp add: cat_keeps_def)
      then show ?thesis using race [of db] transpD [OF cat_keeps_trans] by (auto simp: run Inr)
    qed
  qed
qed (simp add: cat_keeps_def)


lemma create_category_run:
  assumes inv: "cat_inv db" and run: "create_category env slug input author db = (Inr r, db')" and "parsed input"
  defines "c \<equiv> \<lparr>cat_id = newCategoryId env, cat_slug = slug, cat_createdAt = catalogueNow env\<rparr>"
    and "v \<equiv> version_row env (newCategoryId env) 1 input author"
  shows "db' = db\<lparr>category_rows := category_rows db @ [c], version_rows := version_rows db @ [v]\<rparr>"
    "slug \<notin> cat_slug ` set (category_rows db)" "cat_id c \<notin> cat_id ` set (category_rows db)" "cv_id v \<notin> cv_id ` set (version_rows db)"
    "version_checks v" "versions_of (cat_id c) db' = [v]" "version_record c v = Inr r"
proof -
  let ?db1 = "db\<lparr>category_rows := category_rows db @ [c]\<rparr>"
  have ins: "insert_version v ?db1 = Inr db'" and fresh: "slug \<notin> cat_slug ` set (category_rows db)"
      "cat_id c \<notin> cat_id ` set (category_rows db)" and rd: "toRecord_category db' c = Inr r"
    using run by (auto simp: create_category_def atomically_def Let_def c_def v_def FIRST_VERSION_def result_simps
        split: sum.splits if_splits CategoryStoreError.splits)
  show db': "db' = db\<lparr>category_rows := category_rows db @ [c], version_rows := version_rows db @ [v]\<rparr>"
    and "cv_id v \<notin> cv_id ` set (version_rows db)" "version_checks v"
    using insert_version_appends [OF ins] by simp_all
  have "\<forall>w \<in> set (version_rows db). cv_categoryId w \<noteq> cat_id c" using inv fresh(2) unfolding cat_inv_def by metis
  then show vs: "versions_of (cat_id c) db' = [v]"
    by (auto simp: versions_of_def db' filter_empty_conv) (simp add: v_def version_row_def c_def)
  have "map cv_versionNumber (versions_of (cat_id c) db') = [1..1]" by (simp add: vs v_def version_row_def)
  then show "version_record c v = Inr r" using rd latest_version_last [of "cat_id c" db' 1] vs by (simp add: toRecord_category_def)
  show "slug \<notin> cat_slug ` set (category_rows db)" "cat_id c \<notin> cat_id ` set (category_rows db)" using fresh by simp_all
qed

lemma create_category_keeps:
  assumes "parsed input" "\<exists>v. meetsMarginRule (feePolicy input) = Inr v \<and> meetsRule v"
  shows "cat_keeps db (snd (create_category env slug input author db))"
proof (cases "cat_inv db \<and> (\<exists>r. fst (create_category env slug input author db) = Inr r)")
  case True
  then obtain r db' where run: "create_category env slug input author db = (Inr r, db')" by (metis prod.collapse)
  define c where "c = \<lparr>cat_id = newCategoryId env, cat_slug = slug, cat_createdAt = catalogueNow env\<rparr>"
  define v where "v = version_row env (newCategoryId env) 1 input author"
  have inv: "cat_inv db" using True by simp
  note k = create_category_run [OF inv run assms(1), folded c_def v_def]
  have ok: "version_ok v" using version_row_ok [OF assms] k(5) by (simp add: v_def)
  have vc: "cv_categoryId v = cat_id c" "cv_versionNumber v = 1" by (simp_all add: v_def c_def version_row_def)
  have "versions_of (cat_id d) db' = versions_of (cat_id d) db" if "d \<in> set (category_rows db)" for d
    using that k(3) vc by (auto simp: versions_of_def k(1))
  then have "cat_inv db'" unfolding cat_inv_def using inv k(2-6) ok vc by (auto simp: k(1) cat_inv_def c_def)
  then show ?thesis by (simp add: run cat_keeps_def k(1))
next
  case False
  then show ?thesis
    by (auto simp: cat_keeps_def create_category_def atomically_def split: sum.splits)
qed

lemma store_action_snd [simp]: "snd (store_action m db) = snd (m db)"
  by (simp add: store_action_def split: prod.split)

lemma audit_category_keeps: "stable cat_keeps (audit_category digest env change)"
  by (auto simp: stable_def cat_keeps_def audit_category_def record_change_def cat_inv_def versions_of_def)

lemma createCategory_keeps:
  assumes "parsed input"
  shows "cat_keeps db (snd (createCategory digest env actor slug input reason db))"
proof (cases "refuseNegativeMargin (feePolicy input) slug")
  case (Inl e)
  then show ?thesis by (simp add: createCategory_def await_def pure_step_def reflpD [OF cat_keeps_refl])
next
  case (Inr u)
  then have m: "\<exists>v. meetsMarginRule (feePolicy input) = Inr v \<and> meetsRule v" using refuseNegativeMargin_ok by simp
  have "stable cat_keeps (store_action (create_category env slug input (actorUserId actor)))"
    using create_category_keeps [OF assms m] by (simp add: stable_def)
  then have "stable cat_keeps (createCategory digest env actor slug input reason)"
    unfolding createCategory_def by (intro stable_await cat_keeps_trans audit_category_keeps stable_simple cat_keeps_refl)
  then show ?thesis by (rule stableD)
qed

lemma reconfigure_keeps:
  assumes "parsed configuration" "\<And>db. cat_keeps db (race1 db)" "\<And>db. cat_keeps db (race2 db)"
  shows "cat_keeps db (snd (reconfigure race1 race2 digest env actor slug configuration reason db))"
proof (cases "refuseNegativeMargin (feePolicy configuration) slug")
  case (Inl e)
  then show ?thesis
    by (auto simp: reconfigure_def await_def store_action_def pure_step_def done_with_def reflpD [OF cat_keeps_refl] split: sum.splits option.splits)
next
  case (Inr u)
  then have m: "\<exists>v. meetsMarginRule (feePolicy configuration) = Inr v \<and> meetsRule v" using refuseNegativeMargin_ok by simp
  have a: "stable cat_keeps (store_action (addVersion race2 env slug configuration (actorUserId actor)))"
    using addVersion_keeps [OF assms(1) m assms(3)] by (simp add: stable_def)
  have r: "stable cat_keeps (\<lambda>db. (Inr (), race1 db))" using assms(2) by (simp add: stable_def)
  have f: "stable cat_keeps (store_action (\<lambda>db. (findBySlug slug db, db)))" by (simp add: stable_def reflpD [OF cat_keeps_refl])
  have "stable cat_keeps (reconfigure race1 race2 digest env actor slug configuration reason)"
    unfolding reconfigure_def
    by (intro stable_await stable_option cat_keeps_trans audit_category_keeps stable_simple cat_keeps_refl a r f)
  then show ?thesis by (rule stableD)
qed


subsection \<open>Properties\<close>

lemma find_prefix: "find P xs = Some x \<Longrightarrow> find P (xs @ ys) = Some x"
  by (induction xs) auto

lemma cat_keeps_policy:
  "cat_keeps db db' \<Longrightarrow> cat_inv db \<Longrightarrow> findFeePolicyByVersionId db i = Some p \<Longrightarrow> findFeePolicyByVersionId db' i = Some p"
  by (auto simp: cat_keeps_def findFeePolicyByVersionId_def) (metis find_prefix)

text \<open>
C38: Configuration is append-only. Whatever an administrator's create or reconfigure call returns, an error included, and
whatever other requests commit in between, the versions written before stay as they are and in place, the numbers of each
category stay 1, 2, 3 without gap or repetition, every version still satisfies the table's checks, reads back and meets
the margin rule, and the fee policy of a known version never changes.
\<close>

theorem category_versions_frozen:
  assumes "cat_inv db" "categoryConfigurationSchema raw acknowledged = Some configuration"
    and races: "\<forall>db. cat_keeps db (race1 db) \<and> cat_keeps db (race2 db)"
    and after: "db' \<in> {snd (createCategory digest env actor slug configuration reason db),
                       snd (reconfigure race1 race2 digest env actor slug configuration reason db)}"
  shows "cat_inv db' \<and> (\<exists>vs. version_rows db' = version_rows db @ vs) \<and>
    (\<forall>i p. findFeePolicyByVersionId db i = Some p \<longrightarrow> findFeePolicyByVersionId db' i = Some p)"
proof -
  have p: "parsed configuration" using assms(2) by (rule categoryConfigurationSchema_parsed)
  have "cat_keeps db db'" using after createCategory_keeps [OF p] reconfigure_keeps [OF p] races by auto
  moreover note cat_keeps_policy [OF this assms(1)]
  ultimately show ?thesis using assms(1) by (auto simp: cat_keeps_def)
qed

lemma by_slug_kept:
  assumes "cat_inv db" "cat_keeps db db'" "category_by_slug slug db = Some c"
  shows "category_by_slug slug db' = Some c"
  using assms by (auto simp: cat_keeps_def category_by_slug_def dest: find_prefix)

lemma reconfigure_run:
  assumes inv: "cat_inv db" and cfg: "parsed configuration" and r1: "\<And>db. cat_keeps db (race1 db)" and r2: "\<And>db. cat_keeps db (race2 db)"
    and run: "reconfigure race1 race2 digest env actor slug configuration reason db = (Inr (Some r), db')"
  obtains c before v db2 where "category_by_slug slug db = Some c" "findBySlug slug db = Inr (Some before)"
    "\<exists>w. meetsMarginRule (feePolicy configuration) = Inr w \<and> meetsRule w"
    "v = version_row env (cat_id c) (int (length (versions_of (cat_id c) (race1 db))) + 1) configuration (actorUserId actor)"
    "insert_version v (race2 (race1 db)) = Inr db2" "version_record c v = Inr r"
    "db' = db2\<lparr>audit_rows := record_change digest (newAuditId env) (catalogueNow env) \<lparr>changeActor = Some actor,
       changeAction = CategoryReconfigured, changeTargetType = ''category'', changeTargetId = categoryId r,
       changeBefore = Some (auditable before), changeAfter = Some (auditable r), changeReason = Some reason\<rparr> (audit_rows db2)\<rparr>"
    "versions_of (cat_id c) (race2 (race1 db)) = versions_of (cat_id c) (race1 db)"
proof -
  have inv1: "cat_inv (race1 db)" using r1 inv by (auto simp: cat_keeps_def)
  obtain before where b: "findBySlug slug db = Inr (Some before)" "refuseNegativeMargin (feePolicy configuration) slug = Inr ()"
    using run by (auto simp: reconfigure_def await_def store_action_def action_defs result_simps split: sum.splits option.splits prod.splits)
  then obtain c where c: "category_by_slug slug db = Some c" by (auto simp: findBySlug_def split: option.splits)
  then have c1: "category_by_slug slug (race1 db) = Some c" using by_slug_kept [OF inv r1] by simp
  define v where "v = version_row env (cat_id c) (int (length (versions_of (cat_id c) (race1 db))) + 1) configuration (actorUserId actor)"
  note add = addVersion_run [OF inv1 c1, of race2 env configuration "actorUserId actor", folded v_def]
  have eq: "reconfigure race1 race2 digest env actor slug configuration reason db =
      (case addVersion race2 env slug configuration (actorUserId actor) (race1 db) of
         (Inl e, s) \<Rightarrow> (Inl (CategoryStore e), s)
       | (Inr None, s) \<Rightarrow> (Inr None, s)
       | (Inr (Some a), s) \<Rightarrow> (Inr (Some a), s\<lparr>audit_rows := record_change digest (newAuditId env) (catalogueNow env)
           \<lparr>changeActor = Some actor, changeAction = CategoryReconfigured, changeTargetType = ''category'',
       changeTargetId = categoryId a, changeBefore = Some (auditable before), changeAfter = Some (auditable a), changeReason = Some reason\<rparr> (audit_rows s)\<rparr>))"
    by (simp add: reconfigure_def await_def store_action_def action_defs b audit_category_def split: sum.split option.split prod.split)
  obtain db2 where i: "insert_version v (race2 (race1 db)) = Inr db2" "version_record c v = Inr r"
      "db' = db2\<lparr>audit_rows := record_change digest (newAuditId env) (catalogueNow env) \<lparr>changeActor = Some actor, changeAction = CategoryReconfigured, changeTargetType = ''category'',
       changeTargetId = categoryId r, changeBefore = Some (auditable before), changeAfter = Some (auditable r), changeReason = Some reason\<rparr> (audit_rows db2)\<rparr>"
    using run unfolding eq add by (auto simp: result_simps split: sum.splits option.splits prod.splits)
  have "versions_of (cat_id c) (race2 (race1 db)) = versions_of (cat_id c) (race1 db)"
    using race_takes_number [OF inv1 r2 _ i(1) [unfolded v_def]] category_by_slug_mem [OF c1] by simp
  then show thesis using that [OF c b(1) _ v_def i] b(2) refuseNegativeMargin_ok by simp
qed

text \<open>
C39: A reconfiguration that succeeds mints the next version and no update is lost. The category's versions afterwards are
those the request saw with exactly one more, numbered next, holding the submitted configuration; that version is the
current one and reads back as the record returned; the fee policy does not lose money at the smallest booking. Another
administrator who wrote a version in between is never overwritten: the number is taken and this call fails instead.
\<close>

theorem reconfigure_mints_next:
  assumes "cat_inv db" "categoryConfigurationSchema raw acknowledged = Some configuration"
    and races: "\<forall>db. cat_keeps db (race1 db) \<and> cat_keeps db (race2 db)"
    and run: "reconfigure race1 race2 digest env actor slug configuration reason db = (Inr (Some r), db')"
  shows "\<exists>c v. c \<in> set (category_rows db) \<and> cat_slug c = slug \<and>
    versions_of (cat_id c) db' = versions_of (cat_id c) (race1 db) @ [v] \<and>
    versions_of (cat_id c) (race2 (race1 db)) = versions_of (cat_id c) (race1 db) \<and>
    cv_versionNumber v = int (length (versions_of (cat_id c) db')) \<and> latest_version (cat_id c) db' = Some v \<and>
    findBySlug slug db' = Inr (Some r) \<and> CategoryConfiguration.truncate r = configuration \<and>
    (\<exists>w. meetsMarginRule (feePolicy r) = Inr w \<and> 0 \<le> amount (verdictMargin w))"
proof -
  have p: "parsed configuration" using assms(2) by (rule categoryConfigurationSchema_parsed)
  have r1: "cat_keeps db (race1 db)" and r2: "cat_keeps db (race2 db)" for db using races by simp_all
  obtain c before v db2 where k: "category_by_slug slug db = Some c" "findBySlug slug db = Inr (Some before)"
      "\<exists>w. meetsMarginRule (feePolicy configuration) = Inr w \<and> meetsRule w"
      "v = version_row env (cat_id c) (int (length (versions_of (cat_id c) (race1 db))) + 1) configuration (actorUserId actor)"
      "insert_version v (race2 (race1 db)) = Inr db2" "version_record c v = Inr r"
      "db' = db2\<lparr>audit_rows := record_change digest (newAuditId env) (catalogueNow env) \<lparr>changeActor = Some actor, changeAction = CategoryReconfigured, changeTargetType = ''category'',
       changeTargetId = categoryId r, changeBefore = Some (auditable before), changeAfter = Some (auditable r), changeReason = Some reason\<rparr> (audit_rows db2)\<rparr>"
      "versions_of (cat_id c) (race2 (race1 db)) = versions_of (cat_id c) (race1 db)"
    by (rule reconfigure_run [OF assms(1) p r1 r2 run])
  have keeps: "cat_keeps db db'" using reconfigure_keeps [OF p r1 r2, of db digest env actor slug reason] run by simp
  then have inv': "cat_inv db'" using assms(1) by (simp add: cat_keeps_def)
  have c': "category_by_slug slug db' = Some c" using by_slug_kept [OF assms(1) keeps k(1)] .
  have vs: "versions_of (cat_id c) db' = versions_of (cat_id c) (race1 db) @ [v]"
    using insert_version_appends [OF k(5)] k(8) by (simp add: versions_of_def k(7)) (simp add: k(4) version_row_def)
  have "map cv_versionNumber (versions_of (cat_id c) db') = [1..int (length (versions_of (cat_id c) db'))]"
    using inv' category_by_slug_mem [OF c'] by (auto simp: cat_inv_def)
  then have l: "latest_version (cat_id c) db' = Some v" using latest_version_last vs by simp
  have r: "findBySlug slug db' = Inr (Some r)" using c' l k(6) by (simp add: findBySlug_def toRecord_category_def)
  have t: "CategoryConfiguration.truncate r = configuration" "feePolicy r = feePolicy configuration"
    using k(6) version_row_reads [OF p] unfolding k(4) by (auto simp: CategoryConfiguration.truncate_def)
  have "\<exists>w. meetsMarginRule (feePolicy r) = Inr w \<and> 0 \<le> amount (verdictMargin w)"
    using k(3) t(2) by (auto simp: meetsMarginRule_def marginVerdictFor_def Let_def result_simps isNegative_def split: if_splits)
  then show ?thesis using category_by_slug_mem [OF k(1)] vs k(8) l r t(1) by (intro exI [of _ c] exI [of _ v]) (simp add: k(4) version_row_def)
qed

text \<open>
The audit trail does not see a change of the hire limit or of the request deadline. A reconfiguration that changes
only the maximum number of rental days and the hours to answer a request is stored and recorded, but the digests before
and after are the same, whatever the digest function.
\<close>

theorem digest_misses_limits:
  assumes "cat_inv db" "parsed configuration"
    "findBySlug slug db = Inr (Some before)"
    "configuration = (CategoryConfiguration.truncate before)\<lparr>maximumRentalDays := days, requestExpiryHours := hours\<rparr>"
    "reconfigure id id digest env actor slug configuration reason db = (Inr (Some r), db')"
  shows "maximumRentalDays r = days \<and> requestExpiryHours r = hours \<and>
    audit_rows db' \<noteq> [] \<and> beforeHash (last (audit_rows db')) = afterHash (last (audit_rows db')) \<and>
    beforeHash (last (audit_rows db')) \<noteq> None"
proof -
  have keeps: "cat_keeps db (id db)" for db by (simp add: reflpD [OF cat_keeps_refl])
  obtain c before' v db2 where k: "category_by_slug slug db = Some c" "findBySlug slug db = Inr (Some before')"
      "\<exists>w. meetsMarginRule (feePolicy configuration) = Inr w \<and> meetsRule w"
      "v = version_row env (cat_id c) (int (length (versions_of (cat_id c) (id db))) + 1) configuration (actorUserId actor)"
      "insert_version v (id (id db)) = Inr db2" "version_record c v = Inr r"
      "db' = db2\<lparr>audit_rows := record_change digest (newAuditId env) (catalogueNow env) \<lparr>changeActor = Some actor, changeAction = CategoryReconfigured, changeTargetType = ''category'',
       changeTargetId = categoryId r, changeBefore = Some (auditable before'), changeAfter = Some (auditable r), changeReason = Some reason\<rparr> (audit_rows db2)\<rparr>"
      "versions_of (cat_id c) (id (id db)) = versions_of (cat_id c) (id db)"
    by (rule reconfigure_run [OF assms(1,2) keeps keeps assms(5)])
  have "categorySlug before = cat_slug c"
    using assms(3) k(1) by (auto simp: findBySlug_def toRecord_category_def version_record_def result_simps split: option.splits)
  then have "auditable r = auditable before" "maximumRentalDays r = days" "requestExpiryHours r = hours"
    using version_row_reads [OF assms(2)] k(6) unfolding k(4) by (auto simp: auditable_def assms(4) CategoryConfiguration.truncate_def)
  then show ?thesis using k(2) assms(3) by (simp add: k(7) record_change_def audit_entry_def)
qed


lemma version_ok_reads: "version_ok v \<Longrightarrow> \<exists>r. version_record c v = Inr r"
  by (auto simp: version_ok_def version_record_def asAttributes_def asTransportOptions_def asDamageSecurity_def version_checks_def
      damage_security_is_complete_def split: option.splits)

lemma findBySlug_total:
  assumes "cat_inv db" "category_by_slug slug db = Some c"
  shows "\<exists>r. findBySlug slug db = Inr (Some r)"
proof -
  obtain v where v: "latest_version (cat_id c) db = Some v" "v \<in> set (versions_of (cat_id c) db)"
    using latest_number [OF assms(1)] category_by_slug_mem [OF assms(2)] by blast
  then have "version_ok v" using assms(1) by (auto simp: cat_inv_def versions_of_def)
  then show ?thesis using version_ok_reads [of v c] assms(2) v(1) by (auto simp: findBySlug_def toRecord_category_def)
qed

text \<open>With nobody in between, a reconfiguration that keeps the rule succeeds.\<close>

lemma reconfigure_succeeds:
  assumes inv: "cat_inv db" and c: "category_by_slug slug db = Some c" and cfg: "parsed configuration"
    and rule: "\<exists>v. meetsMarginRule (feePolicy configuration) = Inr v \<and> meetsRule v"
    and fresh: "newVersionId env \<notin> cv_id ` set (version_rows db)" "int (length (version_rows db)) < 2 ^ 31 - 1"
  shows "\<exists>r db'. reconfigure id id digest env actor slug configuration reason db = (Inr (Some r), db')"
proof -
  let ?n = "int (length (versions_of (cat_id c) db))"
  define v where "v = version_row env (cat_id c) (?n + 1) configuration (actorUserId actor)"
  obtain b where b: "findBySlug slug db = Inr (Some b)" using findBySlug_total [OF inv c] by blast
  have "?n \<le> int (length (version_rows db))" by (simp add: versions_of_def)
  then have "int4 (?n + 1)" using fresh(2) by (simp add: int4_def)
  then have "version_checks v" using version_row_checks [OF cfg] by (simp add: v_def)
  moreover have "set (map cv_versionNumber (versions_of (cat_id c) db)) = {1..?n}"
    using inv category_by_slug_mem [OF c] unfolding cat_inv_def by (metis set_upto)
  then have "?n + 1 \<notin> cv_versionNumber ` set (versions_of (cat_id c) db)" by simp
  then have "\<not> list_ex (\<lambda>w. cv_categoryId w = cv_categoryId v \<and> cv_versionNumber w = cv_versionNumber v) (version_rows db)"
    by (auto simp: list_ex_iff v_def version_row_def versions_of_def image_iff)
  ultimately have ins: "\<exists>db'. insert_version v db = Inr db'" using fresh(1) by (simp add: insert_version_def v_def version_row_def)
  then show ?thesis
    using addVersion_run [OF inv c, of id env configuration "actorUserId actor"] version_row_reads [OF cfg] b rule
      refuseNegativeMargin_ok [THEN iffD2, OF rule, of slug]
    by (auto simp: v_def reconfigure_def await_def store_action_def action_defs audit_category_def split: sum.splits)
qed

subsection \<open>An example category\<close>

lemma multiply_fraction:
  assumes "0 \<le> amount m" "amount m \<le> 2 ^ 42" "0 \<le> f" "f \<le> 1"
  shows "\<exists>r. multiply m (to_number f) HalfUp = Inr (pence r) \<and> 0 \<le> r \<and> r \<le> amount m"
proof -
  have t: "to_number f = Finite (fl f)" using assms(3,4) by (intro to_number_moderate) simp
  obtain r where r: "multiply m (Finite (fl f)) HalfUp = Inr (pence r)"
    using multiply_to_number_bounded [of m f] assms t by auto
  have f: "0 \<le> fl f" "fl f \<le> 1" using fl_nonneg [OF assms(3)] fl_mono [OF assms(4)] fl_int [of 1] by simp_all
  have "of_int (amount m) * fl f \<le> of_int (amount m)" using mult_left_mono [OF f(2), of "of_int (amount m)"] assms(1) by simp
  then have "fl (of_int (amount m) * fl f) \<le> of_int (amount m)" using fl_mono fl_int [of "amount m"] assms(1,2) by fastforce
  then have "half_up (fl (of_int (amount m) * fl f)) \<le> half_up (of_int (amount m))" by (rule half_up_mono)
  also have "half_up (of_int (amount m)) = of_int (amount m)" using applyRounding_int [of "amount m" HalfUp] by (simp add: half_up_def)
  finally have "of_int r \<le> (of_int (amount m) :: rat)" using multiply_Inr [OF r] by simp
  moreover have "half_up 0 \<le> half_up (fl (of_int (amount m) * fl f))" using f(1) assms(1) by (intro half_up_mono fl_nonneg) simp
  then have "0 \<le> (of_int r :: rat)" using multiply_Inr [OF r] by (simp add: half_up_def)
  ultimately show ?thesis using r by (simp add: t)
qed

definition shop_policy :: CategoryFeePolicy where
  "shop_policy = \<lparr>ownerCommissionBasisPoints = 1500, renterFeeBasisPoints = 800,
     minimumBookingTotal = pence 20000, minimumPlatformFee = pence 100\<rparr>"

lemma shop_policy_ok: "categoryFeePolicySchema shop_policy"
  by (simp add: shop_policy_def schema_defs pricingFloorSchema_def MAX_PRICING_FLOOR_MINOR_UNITS_def)

lemma nearest_bounds:
  fixes r x :: int
  assumes "2 * \<bar>10000 * r - x\<bar> \<le> 10000"
  shows "10000 * r \<le> x + 5000" "x \<le> 10000 * r + 5000"
proof -
  have "\<bar>10000 * r - x\<bar> \<le> 5000" using assms by simp
  then show "10000 * r \<le> x + 5000" "x \<le> 10000 * r + 5000" unfolding abs_le_iff by linarith+
qed

lemma nearest_exact:
  fixes r k x :: int
  assumes "2 * \<bar>10000 * r - x\<bar> \<le> 10000" "x = 10000 * k"
  shows "r = k"
proof -
  have "r < k + 1" "k < r + 1" using nearest_bounds [OF assms(1)] assms(2) by linarith+
  then show ?thesis by simp
qed

lemma shop_rates:
  "renterFeeOn (pence 20000) shop_policy = Inr \<lparr>fee = pence 1600, minimumFeeApplied = False\<rparr>"
  "percentageOf (pence 20000) (basisPointsToPercent 1500) HalfUp = Inr (pence 3000)"
  "applyRate (cardProcessing UK_STRIPE_COST_MODEL) (pence 21600) = Inr (pence 344)"
  "\<exists>p \<le> 53. 0 \<le> p \<and> applyRate (payout UK_STRIPE_COST_MODEL) (pence 17000) = Inr (pence p)"
proof -
  obtain r where r: "renterFeeOn (pence 20000) shop_policy = Inr \<lparr>fee = pence (max r 100), minimumFeeApplied = (r < 100)\<rparr>"
      "2 * \<bar>10000 * r - 20000 * 800\<bar> \<le> 10000"
    using renterFeeOn_ok [OF shop_policy_ok, of "pence 20000"] by (auto simp: shop_policy_def)
  have "r = 1600" using nearest_exact [OF r(2)] by simp
  then show "renterFeeOn (pence 20000) shop_policy = Inr \<lparr>fee = pence 1600, minimumFeeApplied = False\<rparr>" using r(1) by simp
  obtain c where c: "percentageOf (pence 20000) (basisPointsToPercent 1500) HalfUp = Inr (pence c)" "2 * \<bar>10000 * c - 20000 * 1500\<bar> \<le> 10000"
    using percentageOf_nearest [of 1500 "pence 20000"] by (auto simp: basisPointsToPercent_def)
  have "c = 3000" using nearest_exact [OF c(2)] by simp
  then show "percentageOf (pence 20000) (basisPointsToPercent 1500) HalfUp = Inr (pence 3000)" using c(1) by simp
  obtain d where d: "percentageOf (pence 21600) (to_number (3 / 2)) HalfUp = Inr (pence d)" "2 * \<bar>10000 * d - 21600 * 150\<bar> \<le> 10000"
    using percentageOf_nearest [of 150 "pence 21600"] by auto
  have "d = 324" using nearest_exact [OF d(2)] by simp
  then show "applyRate (cardProcessing UK_STRIPE_COST_MODEL) (pence 21600) = Inr (pence 344)"
    using d(1) by (simp add: applyRate_def UK_STRIPE_COST_MODEL_def add_exact safe_int_def)
  obtain p where p: "percentageOf (pence 17000) (to_number (1 / 4)) HalfUp = Inr (pence p)" "2 * \<bar>10000 * p - 17000 * 25\<bar> \<le> 10000"
    using percentageOf_nearest [of 25 "pence 17000"] by auto
  have b: "p < 44" "41 < p" using nearest_bounds [OF p(2)] by linarith+
  then have "applyRate (payout UK_STRIPE_COST_MODEL) (pence 17000) = Inr (pence (p + 10))"
    using p(1) by (simp add: applyRate_def UK_STRIPE_COST_MODEL_def add_exact safe_int_def)
  then show "\<exists>p \<le> 53. 0 \<le> p \<and> applyRate (payout UK_STRIPE_COST_MODEL) (pence 17000) = Inr (pence p)" using b by (intro exI [of _ "p + 10"]) simp
qed

lemma shop_policy_meets: "\<exists>v. meetsMarginRule shop_policy = Inr v \<and> meetsRule v"
proof -
  obtain p where p: "p \<le> 53" "0 \<le> p" "applyRate (payout UK_STRIPE_COST_MODEL) (pence 17000) = Inr (pence p)" using shop_rates(4) by blast
  obtain a where a: "multiply (pence 344) (refundRate UK_STRIPE_COST_MODEL) HalfUp = Inr (pence a)" "0 \<le> a" "a \<le> 344"
    using multiply_fraction [of "pence 344" "3 / 100"] by (auto simp: UK_STRIPE_COST_MODEL_def simp del: multiply.simps)
  obtain b where b: "multiply (pence 2344) (chargebackRate UK_STRIPE_COST_MODEL) HalfUp = Inr (pence b)" "0 \<le> b" "b \<le> 2344"
    using multiply_fraction [of "pence 2344" "5 / 1000"] by (auto simp: UK_STRIPE_COST_MODEL_def simp del: multiply.simps)
  have sums: "add (pence 20000) (pence 1600) = Inr (pence 21600)" "subtract (pence 20000) (pence 3000) = Inr (pence 17000)"
      "add (pence 1600) (pence 3000) = Inr (pence 4600)" "add (disputeFee UK_STRIPE_COST_MODEL) (pence 344) = Inr (pence 2344)"
    by (simp_all add: add_exact subtract_exact safe_int_def UK_STRIPE_COST_MODEL_def)
  define total where "total = 344 + p + 200 + 8 + a + b + 15"
  have total: "sum_money [pence 344, pence 0, pence p, pence 200, pence 0, pence 0, pence 8, pence a, pence b, pence 15] GBP = Inr (pence total)"
    using p a b by (subst sum_money_exact) (auto simp: safe_int_def total_def)
  have m: "subtract (pence 4600) (pence total) = Inr (pence (4600 - total))" "0 \<le> 4600 - total"
    using p a b by (simp_all add: subtract_exact safe_int_def total_def)
  have "minimumBookingTotal shop_policy = pence 20000" "ownerCommissionBasisPoints shop_policy = 1500" by (simp_all add: shop_policy_def)
  then have "\<exists>e. unitEconomicsOf \<lparr>grossBookingValue = pence 20000, damageSecurityCaptured = pence 0, bookingsPerActiveOwnerPerMonth = Finite 1\<rparr>
      shop_policy UK_STRIPE_COST_MODEL = Inr e \<and> contributionMargin e = pence (4600 - total)"
    by (simp add: unitEconomicsOf_def Let_def shop_rates(1-3) sums p(3) a(1) b(1) uk_fixed cost_list_def total m(1) isZero_def zero_money_def
        del: multiply.simps reciprocal.simps)
  then show ?thesis using m(2) \<open>minimumBookingTotal shop_policy = pence 20000\<close>
    by (auto simp: meetsMarginRule_def marginVerdictFor_def Let_def RULE_ACTIVITY_LEVEL_def isNegative_def)
qed


definition shop_config :: CategoryConfiguration where
  "shop_config = \<lparr>configName = ''Garden tools'', riskLevel = LowRisk, reportableActivity = NotReportable,
     configAttributes = example_questions, configTransport = example_transport, feePolicy = shop_policy, damageSecurity = None,
     maximumRentalDays = 88, requestExpiryHours = 48\<rparr>"

definition shorter_config :: CategoryConfiguration where
  "shorter_config = shop_config\<lparr>maximumRentalDays := 14, requestExpiryHours := 48\<rparr>"

lemma example_questions_ok: "categoryAttributesSchema example_questions = Some example_questions"
  by code_simp

lemma example_transport_ok: "categoryTransportOptionsSchema example_transport = Some example_transport"
  by (simp add: example_transport_def categoryTransportOptionsSchema_def transportOptionSchema_def TRANSPORT_REQUIREMENTS_def
      MIN_TRANSPORT_SUGGESTION_KG_def MAX_TRANSPORT_SUGGESTION_KG_def)

lemma shop_config_ok: "categoryConfigurationSchema shop_config False = Some shop_config"
  "categoryConfigurationSchema shorter_config False = Some shorter_config"
proof -
  have n: "categoryNameSchema ''Garden tools'' = Some ''Garden tools''" by code_simp
  show "categoryConfigurationSchema shop_config False = Some shop_config"
    "categoryConfigurationSchema shorter_config False = Some shorter_config"
    by (simp_all add: categoryConfigurationSchema_def shop_config_def shorter_config_def n example_questions_ok example_transport_ok shop_policy_ok
        maximumRentalDaysSchema_def requestExpiryHoursSchema_def MIN_MAXIMUM_RENTAL_DAYS_def MAX_MAXIMUM_RENTAL_DAYS_def
        MIN_REQUEST_EXPIRY_HOURS_def MAX_REQUEST_EXPIRY_HOURS_def requireReportingAcknowledgement_def activatesSellerReporting_def)
qed

definition shop_env :: "string \<Rightarrow> int \<Rightarrow> CatalogueEnv" where
  "shop_env i now = \<lparr>newCategoryId = ''c'' @ i, newVersionId = ''v'' @ i, newAuditId = ''a'' @ i, catalogueNow = now\<rparr>"

definition shop_admin :: Actor where
  "shop_admin = \<lparr>actorUserId = ''ada'', actorIpAddress = None, actorSessionId = None\<rparr>"

definition empty_catalogue :: CatalogueDb where
  "empty_catalogue = \<lparr>category_rows = [], version_rows = [], audit_rows = []\<rparr>"

definition shop_db :: CatalogueDb where
  "shop_db = snd (createCategory auditableName (shop_env ''1'' 1) shop_admin ''garden'' shop_config ''launch'' empty_catalogue)"

lemma empty_catalogue_inv: "cat_inv empty_catalogue"
  by (simp add: cat_inv_def empty_catalogue_def)

lemma shop_db_inv: "cat_inv shop_db"
  using createCategory_keeps [OF categoryConfigurationSchema_parsed [OF shop_config_ok(1)]] empty_catalogue_inv
  unfolding shop_db_def cat_keeps_def by blast

lemma shop_db_rows:
  "category_rows shop_db = [\<lparr>cat_id = ''c1'', cat_slug = ''garden'', cat_createdAt = 1\<rparr>]"
  "version_rows shop_db = [version_row (shop_env ''1'' 1) ''c1'' 1 shop_config ''ada'']"
proof -
  let ?v = "version_row (shop_env ''1'' 1) ''c1'' 1 shop_config ''ada''"
  let ?c = "\<lparr>cat_id = ''c1'', cat_slug = ''garden'', cat_createdAt = 1\<rparr>"
  let ?db = "\<lparr>category_rows = [?c], version_rows = [?v], audit_rows = []\<rparr>"
  have cfg: "parsed shop_config" by (rule categoryConfigurationSchema_parsed [OF shop_config_ok(1)])
  have ins: "insert_version ?v \<lparr>category_rows = [?c], version_rows = [], audit_rows = []\<rparr> = Inr ?db"
    using version_row_checks [OF cfg, of 1] by (simp add: insert_version_def int4_def)
  have "versions_of ''c1'' ?db = [?v]" by (simp add: versions_of_def version_row_def)
  then have "latest_version ''c1'' ?db = Some ?v" by (simp add: latest_version_def versions_of_def)
  then have "\<exists>r. toRecord_category ?db ?c = Inr r" using version_row_reads [OF cfg] by (simp add: toRecord_category_def)
  moreover have "refuseNegativeMargin (feePolicy shop_config) ''garden'' = Inr ()"
    using shop_policy_meets refuseNegativeMargin_ok by (simp add: shop_config_def)
  ultimately show "category_rows shop_db = [?c]" "version_rows shop_db = [?v]"
    using ins by (auto simp: shop_db_def createCategory_def await_def pure_step_def store_action_def create_category_def atomically_def
        empty_catalogue_def Let_def shop_env_def shop_admin_def FIRST_VERSION_def audit_category_def done_with_def)
qed

lemma shop_reconfigures:
  "\<exists>r db'. reconfigure id id auditableName (shop_env ''2'' 2) shop_admin ''garden'' shorter_config ''shorter'' shop_db = (Inr (Some r), db')"
  by (rule reconfigure_succeeds [OF shop_db_inv _ categoryConfigurationSchema_parsed [OF shop_config_ok(2)]])
    (use shop_policy_meets in \<open>simp_all add: category_by_slug_def shop_db_rows shorter_config_def shop_config_def version_row_def shop_env_def\<close>)

theorem category_versions_frozen_witness:
  "cat_inv shop_db \<and> (\<exists>p. findFeePolicyByVersionId shop_db ''v1'' = Some p \<and>
     findFeePolicyByVersionId (snd (reconfigure id id auditableName (shop_env ''2'' 2) shop_admin ''garden'' shorter_config ''shorter'' shop_db)) ''v1'' = Some p)"
proof -
  have r: "\<forall>db. cat_keeps db (id db) \<and> cat_keeps db (id db)" by (simp add: reflpD [OF cat_keeps_refl])
  have "findFeePolicyByVersionId shop_db ''v1'' \<noteq> None" by (simp add: findFeePolicyByVersionId_def shop_db_rows version_row_def shop_env_def)
  then show ?thesis using category_versions_frozen [OF shop_db_inv shop_config_ok(2) r] shop_db_inv by blast
qed

theorem reconfigure_mints_next_witness:
  "\<exists>r db'. reconfigure id id auditableName (shop_env ''2'' 2) shop_admin ''garden'' shorter_config ''shorter'' shop_db = (Inr (Some r), db') \<and>
     findBySlug ''garden'' db' = Inr (Some r) \<and> maximumRentalDays r = 14"
proof -
  obtain r db' where run: "reconfigure id id auditableName (shop_env ''2'' 2) shop_admin ''garden'' shorter_config ''shorter'' shop_db = (Inr (Some r), db')"
    using shop_reconfigures by blast
  have races: "\<forall>db. cat_keeps db (id db) \<and> cat_keeps db (id db)" by (simp add: reflpD [OF cat_keeps_refl])
  have "findBySlug ''garden'' db' = Inr (Some r)" "CategoryConfiguration.truncate r = shorter_config"
    using reconfigure_mints_next [OF shop_db_inv shop_config_ok(2) races run] by blast+
  moreover from this(2) have "maximumRentalDays r = 14"
    by (auto simp: CategoryConfiguration.truncate_def shorter_config_def shop_config_def)
  ultimately show ?thesis using run by blast
qed

theorem digest_misses_limits_witness:
  "\<exists>before r db'. findBySlug ''garden'' shop_db = Inr (Some before) \<and> maximumRentalDays before = 88 \<and>
     reconfigure id id auditableName (shop_env ''2'' 2) shop_admin ''garden'' shorter_config ''shorter'' shop_db = (Inr (Some r), db') \<and>
     maximumRentalDays r = 14 \<and> beforeHash (last (audit_rows db')) = afterHash (last (audit_rows db'))"
proof -
  obtain r db' where run: "reconfigure id id auditableName (shop_env ''2'' 2) shop_admin ''garden'' shorter_config ''shorter'' shop_db = (Inr (Some r), db')"
    using shop_reconfigures by blast
  have "latest_version ''c1'' shop_db = Some (version_row (shop_env ''1'' 1) ''c1'' 1 shop_config ''ada'')"
    by (simp add: latest_version_def shop_db_rows version_row_def)
  then obtain b where b: "findBySlug ''garden'' shop_db = Inr (Some b)" "CategoryConfiguration.truncate b = shop_config"
    using version_row_reads [OF categoryConfigurationSchema_parsed [OF shop_config_ok(1)]]
    by (simp add: findBySlug_def category_by_slug_def shop_db_rows toRecord_category_def CategoryConfiguration.truncate_def)
  have cfg: "shorter_config = CategoryConfiguration.truncate b\<lparr>maximumRentalDays := 14, requestExpiryHours := 48\<rparr>"
    by (simp add: b(2) shorter_config_def)
  have "maximumRentalDays b = 88" using b(2) by (auto simp: CategoryConfiguration.truncate_def shop_config_def)
  then show ?thesis
    using digest_misses_limits [OF shop_db_inv categoryConfigurationSchema_parsed [OF shop_config_ok(2)] b(1) cfg run] b(1) run by blast
qed

end
