(* ===== verification/Location.thy ===== *)
theory Location
  imports Prelude Js_Number
begin

section \<open>Where an item is, and where the public is told it is\<close>

text \<open>
  The module \<^verbatim>\<open>apps/api/src/search-location\<close>: the displacement of a published point (\<^verbatim>\<open>fuzz.ts\<close>), the quiet geocoding
  of a postcode (\<^verbatim>\<open>geocode-quietly.ts\<close>), the service that places a listing (\<^verbatim>\<open>location.service.ts\<close>) and the buckets a
  distance is told in (\<^verbatim>\<open>distance-bucket.ts\<close>). Coordinates are exact reals: the trigonometry of the host rounds, and
  its last digit is not modelled. Distances told to a searcher are doubles, rounded as the host rounds them. The
  geocoding provider is the parameter \<open>geocoder\<close> and the random source of the platform the parameter \<open>randomInt\<close>.
\<close>

subsection \<open>Displacing a point\<close>

record Point =
  latitude :: real
  longitude :: real

record FuzzOffset =
  bearingDegrees :: int
  distanceMetres :: int

definition MINIMUM_FUZZ_METRES :: int where "MINIMUM_FUZZ_METRES = 500"
definition MAXIMUM_FUZZ_METRES :: int where "MAXIMUM_FUZZ_METRES = 1000"
definition EARTH_RADIUS_METRES :: real where "EARTH_RADIUS_METRES = 63710088 / 10"
definition DEGREES :: real where "DEGREES = pi / 180"

definition createFuzzOffset :: "(int \<Rightarrow> int \<Rightarrow> int) \<Rightarrow> FuzzOffset" where
  "createFuzzOffset randomInt =
    \<lparr>bearingDegrees = randomInt 0 360, distanceMetres = randomInt MINIMUM_FUZZ_METRES (MAXIMUM_FUZZ_METRES + 1)\<rparr>"

text \<open>The host's \<^verbatim>\<open>Math.atan2\<close> and its remainder, which keeps the sign of the left operand.\<close>

definition atan2 :: "real \<Rightarrow> real \<Rightarrow> real" where
  "atan2 y x =
    (if 0 < x then arctan (y / x)
     else if x < 0 then (if 0 \<le> y then arctan (y / x) + pi else arctan (y / x) - pi)
     else if 0 < y then pi / 2 else if y < 0 then - (pi / 2) else 0)"

definition remainder :: "real \<Rightarrow> real \<Rightarrow> real" where
  "remainder a b = a - b * of_int (if 0 \<le> a / b then \<lfloor>a / b\<rfloor> else \<lceil>a / b\<rceil>)"

definition normaliseLongitude :: "real \<Rightarrow> real" where
  "normaliseLongitude degrees = remainder (remainder (degrees + 180) 360 + 360) 360 - 180"

definition applyFuzzOffset :: "Point \<Rightarrow> FuzzOffset \<Rightarrow> Point" where
  "applyFuzzOffset point offset =
    (let angular = of_int (distanceMetres offset) / EARTH_RADIUS_METRES;
         bearing = of_int (bearingDegrees offset) * DEGREES;
         lat = latitude point * DEGREES;
         lon = longitude point * DEGREES;
         sinLatitude = sin lat * cos angular + cos lat * sin angular * cos bearing;
         fuzzedLat = arcsin sinLatitude;
         fuzzedLon = lon + atan2 (sin bearing * sin angular * cos lat) (cos angular - sin lat * sinLatitude)
     in \<lparr>latitude = fuzzedLat / DEGREES, longitude = normaliseLongitude (fuzzedLon / DEGREES)\<rparr>)"

definition distance_between :: "Point \<Rightarrow> Point \<Rightarrow> real" where
  "distance_between from to =
    (let fromLatitude = latitude from * DEGREES;
         toLatitude = latitude to * DEGREES;
         deltaLatitude = (latitude to - latitude from) * DEGREES;
         deltaLongitude = (longitude to - longitude from) * DEGREES;
         a = (sin (deltaLatitude / 2))\<^sup>2 + cos fromLatitude * cos toLatitude * (sin (deltaLongitude / 2))\<^sup>2
     in 2 * EARTH_RADIUS_METRES * arcsin (min 1 (sqrt a)))"

subsection \<open>Placing a postcode\<close>

record GeocodedPostcode = Point +
  geocodedPostcode :: string

datatype GeocodeFailure = GeocoderUnavailable | GeocoderDefect

type_synonym PostcodeGeocoder = "string \<Rightarrow> GeocodeFailure + GeocodedPostcode option"

text \<open>A provider that is down counts as a postcode it does not know; any other failure is thrown on.\<close>

definition geocodeQuietly :: "PostcodeGeocoder \<Rightarrow> string \<Rightarrow> GeocodeFailure + Point option" where
  "geocodeQuietly geocoder postcode =
    (case geocoder postcode of
       Inl GeocoderUnavailable \<Rightarrow> Inr None
     | Inl GeocoderDefect \<Rightarrow> Inl GeocoderDefect
     | Inr located \<Rightarrow> Inr (map_option Point.truncate located))"

record FuzzedLocation =
  trueLatitude :: real
  trueLongitude :: real
  fuzzBearingDegrees :: int
  fuzzDistanceMetres :: int
  fuzzedLatitude :: real
  fuzzedLongitude :: real

definition fuzzedAt :: "Point \<Rightarrow> FuzzOffset \<Rightarrow> FuzzedLocation" where
  "fuzzedAt located offset =
    (let fuzzed = applyFuzzOffset located offset in
     \<lparr>trueLatitude = latitude located, trueLongitude = longitude located,
      fuzzBearingDegrees = bearingDegrees offset, fuzzDistanceMetres = distanceMetres offset,
      fuzzedLatitude = latitude fuzzed, fuzzedLongitude = longitude fuzzed\<rparr>)"

definition locate :: "PostcodeGeocoder \<Rightarrow> (int \<Rightarrow> int \<Rightarrow> int) \<Rightarrow> string \<Rightarrow> GeocodeFailure + FuzzedLocation option" where
  "locate geocoder randomInt postcode =
    rbind (geocodeQuietly geocoder postcode) (\<lambda>located.
      Inr (map_option (\<lambda>p. fuzzedAt p (createFuzzOffset randomInt)) located))"

definition relocate :: "PostcodeGeocoder \<Rightarrow> string \<Rightarrow> FuzzOffset \<Rightarrow> GeocodeFailure + FuzzedLocation option" where
  "relocate geocoder postcode offset =
    rbind (geocodeQuietly geocoder postcode) (\<lambda>located. Inr (map_option (\<lambda>p. fuzzedAt p offset) located))"

subsection \<open>Telling a distance\<close>

datatype DistanceBucket = UnderAMile | Approximate int

definition METRES_PER_MILE :: rat where "METRES_PER_MILE = fl (1609344 / 1000)"

definition milesToMetres :: "int \<Rightarrow> rat" where
  "milesToMetres miles = fl (of_int miles * METRES_PER_MILE)"

definition bucketDistance :: "rat \<Rightarrow> DistanceBucket" where
  "bucketDistance metres =
    (let miles = fl (metres / METRES_PER_MILE) in
     if miles < 1 then UnderAMile else Approximate \<lfloor>miles + 1 / 2\<rfloor>)"

subsection \<open>The displacement is the one that was drawn\<close>

lemma polar:
  fixes x y :: real
  shows "sqrt (x\<^sup>2 + y\<^sup>2) * cos (atan2 y x) = x"
proof -
  have pos: "sqrt (x\<^sup>2 + y\<^sup>2) * cos (arctan (y / x)) = \<bar>x\<bar>" if "x \<noteq> 0"
  proof -
    have "1 + (y / x)\<^sup>2 = (x\<^sup>2 + y\<^sup>2) / x\<^sup>2" using that by (simp add: power_divide field_simps)
    then have "sqrt (1 + (y / x)\<^sup>2) = sqrt (x\<^sup>2 + y\<^sup>2) / \<bar>x\<bar>" by (simp add: real_sqrt_divide)
    moreover have "0 < sqrt (x\<^sup>2 + y\<^sup>2)" using that by (simp add: sum_power2_gt_zero_iff)
    ultimately show ?thesis by (simp add: cos_arctan)
  qed
  consider "0 < x" | "x < 0" | "x = 0" by linarith
  then show ?thesis
  proof cases
    case 1
    then show ?thesis using pos by (simp add: atan2_def)
  next
    case 2
    then have "cos (atan2 y x) = - cos (arctan (y / x))" by (simp add: atan2_def cos_diff)
    then show ?thesis using 2 pos by simp
  next
    case 3
    then show ?thesis by (simp add: atan2_def)
  qed
qed

lemma remainder_period: "\<exists>k::int. remainder a b = a + b * of_int k"
  by (rule exI [of _ "- (if 0 \<le> a / b then \<lfloor>a / b\<rfloor> else \<lceil>a / b\<rceil>)"]) (simp add: remainder_def)

lemma normaliseLongitude_period: "\<exists>k::int. normaliseLongitude d = d + 360 * of_int k"
proof -
  obtain j where j: "remainder (d + 180) 360 = d + 180 + 360 * of_int j" using remainder_period by blast
  obtain k where "remainder (remainder (d + 180) 360 + 360) 360 = remainder (d + 180) 360 + 360 + 360 * of_int k"
    using remainder_period by blast
  then have "normaliseLongitude d = d + 360 * of_int (j + k + 1)" by (simp add: normaliseLongitude_def j)
  then show ?thesis by blast
qed

lemma remainder_small:
  assumes "0 < b"
  shows "\<bar>remainder a b\<bar> < b" and "0 \<le> a \<Longrightarrow> 0 \<le> remainder a b"
proof -
  define q where "q = a / b"
  have a: "a = b * q" using assms by (simp add: q_def)
  have "b * (q - 1) < b * of_int \<lfloor>q\<rfloor>" "b * of_int \<lfloor>q\<rfloor> \<le> b * q" "b * q \<le> b * of_int \<lceil>q\<rceil>" "b * of_int \<lceil>q\<rceil> < b * (q + 1)"
    using assms by (intro mult_strict_left_mono mult_left_mono; linarith)+
  then show "\<bar>remainder a b\<bar> < b" and "0 \<le> a \<Longrightarrow> 0 \<le> remainder a b"
    using assms by (auto simp: remainder_def q_def [symmetric] a algebra_simps zero_le_mult_iff)
qed

lemma normaliseLongitude_range: "- 180 \<le> normaliseLongitude d" "normaliseLongitude d < 180"
proof -
  have "0 \<le> remainder (d + 180) 360 + 360" using remainder_small(1) [of 360 "d + 180"] by linarith
  then show "- 180 \<le> normaliseLongitude d" "normaliseLongitude d < 180"
    using remainder_small [of 360 "remainder (d + 180) 360 + 360"] by (auto simp: normaliseLongitude_def)
qed

lemma haversine: "(sin (t / 2))\<^sup>2 = (1 - cos t) / (2::real)"
  using cos_double_sin [of "t / 2"] by simp

lemma two_squares: "(a * c + b * d)\<^sup>2 + (b * c - a * d)\<^sup>2 = (a\<^sup>2 + b\<^sup>2) * (c\<^sup>2 + d\<^sup>2)" for a b c d :: real
  by (simp add: power2_eq_square algebra_simps)

lemma destination:
  fixes lat angular bearing :: real
  defines "s \<equiv> sin lat * cos angular + cos lat * sin angular * cos bearing"
  assumes "0 \<le> cos lat"
  shows "\<bar>s\<bar> \<le> 1"
    and "cos lat * cos (arcsin s) * cos (atan2 (sin bearing * sin angular * cos lat) (cos angular - sin lat * s))
      = cos angular - sin lat * s"
proof -
  let ?x = "cos angular - sin lat * s" and ?y = "sin bearing * sin angular * cos lat"
  let ?u = "cos lat * cos angular - sin lat * sin angular * cos bearing"
  have pythagoras: "(sin t)\<^sup>2 = 1 - (cos t)\<^sup>2" for t :: real by (simp add: sin_squared_eq)
  have "s\<^sup>2 + ?u\<^sup>2 = ((sin lat)\<^sup>2 + (cos lat)\<^sup>2) * ((cos angular)\<^sup>2 + (sin angular * cos bearing)\<^sup>2)"
    using two_squares [of "sin lat" "cos angular" "cos lat" "sin angular * cos bearing"] by (simp only: s_def mult.assoc)
  then have unit: "1 - s\<^sup>2 = ?u\<^sup>2 + (sin angular * sin bearing)\<^sup>2"
    by (simp add: power_mult_distrib pythagoras algebra_simps)
  then have "s\<^sup>2 \<le> 1\<^sup>2" by (smt (verit) zero_le_power2 one_power2)
  then show bound: "\<bar>s\<bar> \<le> 1" by (simp add: abs_square_le_1)
  have "?x = (1 - (sin lat)\<^sup>2) * cos angular - sin lat * cos lat * sin angular * cos bearing"
    unfolding s_def by (simp add: power2_eq_square algebra_simps)
  then have x: "?x = cos lat * ?u" unfolding cos_squared_eq [symmetric] by (simp only: power2_eq_square algebra_simps)
  have "?x\<^sup>2 + ?y\<^sup>2 = (cos lat)\<^sup>2 * (1 - s\<^sup>2)" unfolding x unit by (simp add: power2_eq_square algebra_simps)
  then have "sqrt (?x\<^sup>2 + ?y\<^sup>2) = cos lat * cos (arcsin s)"
    using assms(2) bound by (simp add: real_sqrt_mult cos_arcsin abs_le_iff)
  then show "cos lat * cos (arcsin s) * cos (atan2 ?y ?x) = ?x" using polar [of ?x ?y] by simp
qed

lemma fuzz_exact:
  assumes "\<bar>latitude p\<bar> \<le> 90" "0 \<le> distanceMetres offset" "of_int (distanceMetres offset) \<le> pi * EARTH_RADIUS_METRES"
  shows "distance_between p (applyFuzzOffset p offset) = of_int (distanceMetres offset)
    \<and> - 180 \<le> longitude (applyFuzzOffset p offset) \<and> longitude (applyFuzzOffset p offset) < 180"
proof -
  define lat angular bearing where "lat = latitude p * DEGREES"
    and "angular = of_int (distanceMetres offset) / EARTH_RADIUS_METRES" and "bearing = of_int (bearingDegrees offset) * DEGREES"
  define s y x where "s = sin lat * cos angular + cos lat * sin angular * cos bearing"
    and "y = sin bearing * sin angular * cos lat" and "x = cos angular - sin lat * s"
  have deg: "0 < DEGREES" by (simp add: DEGREES_def)
  have R: "0 < EARTH_RADIUS_METRES" by (simp add: EARTH_RADIUS_METRES_def)
  have "\<bar>lat\<bar> \<le> 90 * DEGREES" using assms(1) deg by (simp add: lat_def abs_mult)
  then have "0 \<le> cos lat" by (intro cos_ge_zero) (auto simp: DEGREES_def abs_le_iff)
  note dest = destination [OF this, of angular bearing, folded s_def, folded y_def x_def]
  have range: "0 \<le> angular" "angular \<le> pi" using assms R by (auto simp: angular_def field_simps)
  obtain k where k: "normaliseLongitude ((longitude p * DEGREES + atan2 y x) / DEGREES)
      = (longitude p * DEGREES + atan2 y x) / DEGREES + 360 * of_int k" using normaliseLongitude_period by blast
  have fuzzed: "applyFuzzOffset p offset = \<lparr>latitude = arcsin s / DEGREES,
      longitude = (longitude p * DEGREES + atan2 y x) / DEGREES + 360 * of_int k\<rparr>"
    unfolding k [symmetric] by (simp add: applyFuzzOffset_def Let_def lat_def angular_def bearing_def s_def y_def x_def)
  have "((longitude p * DEGREES + atan2 y x) / DEGREES + 360 * of_int k - longitude p) * DEGREES = atan2 y x + 2 * pi * of_int k"
    using deg by (simp add: field_simps) (simp add: DEGREES_def)
  then have lon: "cos ((longitude (applyFuzzOffset p offset) - longitude p) * DEGREES) = cos (atan2 y x)"
    by (simp add: fuzzed cos_add)
  have lat2: "latitude (applyFuzzOffset p offset) * DEGREES = arcsin s"
    "(latitude (applyFuzzOffset p offset) - latitude p) * DEGREES = arcsin s - lat"
    using deg by (simp_all add: fuzzed lat_def field_simps)
  have "(sin ((arcsin s - lat) / 2))\<^sup>2 + cos lat * cos (arcsin s) * (sin ((longitude (applyFuzzOffset p offset) - longitude p) * DEGREES / 2))\<^sup>2
      = (1 - (cos (arcsin s - lat) - cos lat * cos (arcsin s) + x)) / 2"
    unfolding haversine lon using dest(2) by (simp add: field_simps)
  also have "\<dots> = (1 - cos angular) / 2"
    using dest(1) by (simp add: cos_diff x_def s_def [symmetric] abs_le_iff)
  also have "\<dots> = (sin (angular / 2))\<^sup>2" by (simp add: haversine)
  finally have a: "(sin ((arcsin s - lat) / 2))\<^sup>2
      + cos lat * cos (arcsin s) * (sin ((longitude (applyFuzzOffset p offset) - longitude p) * DEGREES / 2))\<^sup>2 = (sin (angular / 2))\<^sup>2" .
  have "0 \<le> sin (angular / 2)" using range by (intro sin_ge_zero) auto
  then have "distance_between p (applyFuzzOffset p offset) = 2 * EARTH_RADIUS_METRES * arcsin (sin (angular / 2))"
    by (simp add: distance_between_def Let_def lat2 lat_def [symmetric] a)
  also have "\<dots> = EARTH_RADIUS_METRES * angular" using range by (simp add: arcsin_sin)
  also have "\<dots> = of_int (distanceMetres offset)" using R by (simp add: angular_def)
  finally show ?thesis
    using normaliseLongitude_range by (simp add: applyFuzzOffset_def Let_def)
qed

definition random_source :: "(int \<Rightarrow> int \<Rightarrow> int) \<Rightarrow> bool" where
  "random_source randomInt \<longleftrightarrow> (\<forall>low high. low < high \<longrightarrow> low \<le> randomInt low high \<and> randomInt low high < high)"

definition on_earth :: "PostcodeGeocoder \<Rightarrow> bool" where
  "on_earth geocoder \<longleftrightarrow> (\<forall>postcode p. geocoder postcode = Inr (Some p) \<longrightarrow> \<bar>latitude p\<bar> \<le> 90)"

definition lawful_offset :: "FuzzOffset \<Rightarrow> bool" where
  "lawful_offset offset \<longleftrightarrow> 0 \<le> bearingDegrees offset \<and> bearingDegrees offset < 360
     \<and> MINIMUM_FUZZ_METRES \<le> distanceMetres offset \<and> distanceMetres offset \<le> MAXIMUM_FUZZ_METRES"

definition offset_of :: "FuzzedLocation \<Rightarrow> FuzzOffset" where
  "offset_of l = \<lparr>bearingDegrees = fuzzBearingDegrees l, distanceMetres = fuzzDistanceMetres l\<rparr>"

abbreviation true_point :: "FuzzedLocation \<Rightarrow> Point" where
  "true_point l \<equiv> \<lparr>latitude = trueLatitude l, longitude = trueLongitude l\<rparr>"

abbreviation published_point :: "FuzzedLocation \<Rightarrow> Point" where
  "published_point l \<equiv> \<lparr>latitude = fuzzedLatitude l, longitude = fuzzedLongitude l\<rparr>"

lemma offset_of_fuzzedAt [simp]: "offset_of (fuzzedAt p offset) = offset"
  by (cases offset) (simp add: offset_of_def fuzzedAt_def Let_def)

lemma fuzzedAt_points [simp]:
  "true_point (fuzzedAt p offset) = Point.truncate p" "published_point (fuzzedAt p offset) = applyFuzzOffset p offset"
  by (simp_all add: fuzzedAt_def Let_def Point.truncate_def applyFuzzOffset_def)

lemma createFuzzOffset_lawful:
  assumes "random_source randomInt"
  shows "lawful_offset (createFuzzOffset randomInt)"
proof -
  have "0 \<le> randomInt 0 360 \<and> randomInt 0 360 < 360" "500 \<le> randomInt 500 1001 \<and> randomInt 500 1001 < 1001"
    using assms by (auto simp: random_source_def)
  then show ?thesis by (simp add: lawful_offset_def createFuzzOffset_def MINIMUM_FUZZ_METRES_def MAXIMUM_FUZZ_METRES_def)
qed

lemma geocodeQuietly_SomeD:
  assumes "geocodeQuietly geocoder postcode = Inr (Some p)"
  shows "\<exists>q. geocoder postcode = Inr (Some q) \<and> p = Point.truncate q"
  using assms by (auto simp: geocodeQuietly_def split: sum.splits GeocodeFailure.splits)

lemma locate_SomeD:
  assumes "locate geocoder randomInt postcode = Inr (Some l)"
  shows "\<exists>p. geocoder postcode = Inr (Some p) \<and> l = fuzzedAt (Point.truncate p) (createFuzzOffset randomInt)"
  using assms by (auto simp: locate_def result_simps dest: geocodeQuietly_SomeD)

lemma relocate_SomeD:
  assumes "relocate geocoder postcode offset = Inr (Some l)"
  shows "\<exists>p. geocoder postcode = Inr (Some p) \<and> l = fuzzedAt (Point.truncate p) offset"
  using assms by (auto simp: relocate_def result_simps dest: geocodeQuietly_SomeD)

lemma fuzzedAt_distance:
  assumes "\<bar>latitude p\<bar> \<le> 90" "lawful_offset offset"
  shows "distance_between (true_point (fuzzedAt p offset)) (published_point (fuzzedAt p offset)) = of_int (distanceMetres offset)"
proof -
  have "real_of_int (distanceMetres offset) \<le> 1000" using assms(2) by (simp add: lawful_offset_def MAXIMUM_FUZZ_METRES_def)
  also have "\<dots> \<le> 2 * EARTH_RADIUS_METRES" by (simp add: EARTH_RADIUS_METRES_def)
  also have "\<dots> \<le> pi * EARTH_RADIUS_METRES" using pi_ge_two by (simp add: EARTH_RADIUS_METRES_def)
  finally have "distance_between p (applyFuzzOffset p offset) = of_int (distanceMetres offset)"
    using fuzz_exact [of p offset] assms by (simp add: lawful_offset_def MINIMUM_FUZZ_METRES_def)
  then show ?thesis by (simp add: distance_between_def Point.truncate_def)
qed


definition example_geocoder :: PostcodeGeocoder where
  "example_geocoder postcode = Inr (Some \<lparr>latitude = 515 / 10, longitude = - 1 / 10, geocodedPostcode = postcode\<rparr>)"


subsection \<open>The distance a searcher is told\<close>

lemma bucketDistance_positive: "bucketDistance metres = Approximate n \<Longrightarrow> 1 \<le> n"
  by (auto simp: bucketDistance_def Let_def le_floor_iff split: if_splits)

end
