(* ===== verification/Listing_Store.thy ===== *)
theory Listing_Store
  imports Catalogue Postcode Booking_Service Location
begin

section \<open>Listings and their store\<close>

text \<open>
  What an owner lists (\<^verbatim>\<open>packages/contracts/src/listings.ts\<close>, \<^verbatim>\<open>publication.ts\<close>), the tables it is kept in and
  the operations of \<^verbatim>\<open>apps/api/src/catalogue/prisma-listing-store.ts\<close> over them. The six coordinate columns of a
  location are written together or not at all (\<^verbatim>\<open>location_is_geocoded_or_not\<close>) and are one optional value. \<open>bucket\<close> holds
  the keys of the photographs in the object store. The encryption of the street lines is the parameter \<open>encryptor\<close>
  (the port \<^verbatim>\<open>FieldEncryptor\<close>), bound to the id of the listing. Columns of a closed vocabulary are written from it only, so reading them back cannot fail.
\<close>

subsection \<open>The contract\<close>

datatype ListingStatus = Draft | Published | Paused

datatype ModerationState = Approved | UnderReview | Rejected

definition DEFAULT_MODERATION_STATE :: ModerationState where "DEFAULT_MODERATION_STATE = Approved"

definition isPubliclyVisible :: "ListingStatus \<Rightarrow> ModerationState \<Rightarrow> bool" where
  "isPubliclyVisible status moderation \<longleftrightarrow> status = Published \<and> moderation = Approved"

definition moderationRequiresReason :: "ModerationState \<Rightarrow> bool" where
  "moderationRequiresReason state \<longleftrightarrow> state \<noteq> Approved"

datatype ListingTransition = Publish | Pause

fun LISTING_TRANSITIONS :: "ListingTransition \<Rightarrow> ListingStatus list" where
  "LISTING_TRANSITIONS Publish = [Draft, Published, Paused]"
| "LISTING_TRANSITIONS Pause = [Published, Paused]"

definition canTransition_listing :: "ListingTransition \<Rightarrow> ListingStatus \<Rightarrow> bool" where
  "canTransition_listing transition from \<longleftrightarrow> from \<in> set (LISTING_TRANSITIONS transition)"

datatype TransitionRefusal = NothingToPause | CannotBePublished

definition transitionRefusal :: "ListingTransition \<Rightarrow> ListingStatus \<Rightarrow> TransitionRefusal option" where
  "transitionRefusal transition from =
    (if canTransition_listing transition from then None
     else if transition = Pause then Some NothingToPause else Some CannotBePublished)"

record PostalAddress =
  line1 :: string
  line2 :: "string option"
  town :: string
  postcode :: string

datatype OwnerStatus = PrivateOwner | ProfessionalTrader

subsection \<open>When a listing may be published\<close>

record PublicationCandidate =
  candidateDescription :: string
  candidateAttributes :: ListingAttributeValues
  candidateQuestions :: "CategoryAttribute list"
  candidateTransportOptions :: "CategoryTransportOption list"
  candidateTransport :: "TransportRequirement option"
  candidateRates :: ListingRateCard
  hasCollectionLocation :: bool
  candidateLocated :: bool
  candidateOwnerStatus :: "OwnerStatus option"

datatype PublicationBlocker = DescriptionNeeded | AttributeNeeded string | TransportNeeded | DailyRateNeeded
  | OwnerStatusNeeded | BusinessesNotAccepted | LocationNeeded | LocationNotPlaced

text \<open>The answers are a plain object, so reading a member that is not its own finds what \<^verbatim>\<open>Object.prototype\<close> has.\<close>

definition OBJECT_PROTOTYPE_KEYS :: "string list" where
  "OBJECT_PROTOTYPE_KEYS = [''constructor'', ''hasOwnProperty'', ''isPrototypeOf'', ''propertyIsEnumerable'', ''toLocaleString'',
     ''toString'', ''valueOf'', ''__defineGetter__'', ''__defineSetter__'', ''__lookupGetter__'', ''__lookupSetter__'', ''__proto__'']"

definition is_answered :: "ListingAttributeValues \<Rightarrow> string \<Rightarrow> bool" where
  "is_answered vals key = (case map_of vals key of Some v \<Rightarrow> v \<noteq> TextValue [] \<and> v \<noteq> ManyValue []
     | None \<Rightarrow> key \<in> set OBJECT_PROTOTYPE_KEYS)"

definition publicationBlockers :: "PublicationCandidate \<Rightarrow> PublicationBlocker list" where
  "publicationBlockers listing =
    (if trim (candidateDescription listing) = [] then [DescriptionNeeded] else []) @
    map (\<lambda>a. AttributeNeeded (attributeKey a))
      (filter (\<lambda>a. required a \<and> \<not> is_answered (candidateAttributes listing) (attributeKey a)) (candidateQuestions listing)) @
    (if candidateTransportOptions listing \<noteq> [] \<and> candidateTransport listing = None then [TransportNeeded] else []) @
    (if daily (candidateRates listing) = None then [DailyRateNeeded] else []) @
    (case candidateOwnerStatus listing of None \<Rightarrow> [OwnerStatusNeeded]
       | Some ProfessionalTrader \<Rightarrow> [BusinessesNotAccepted] | Some PrivateOwner \<Rightarrow> []) @
    (if \<not> hasCollectionLocation listing then [LocationNeeded]
     else if \<not> candidateLocated listing then [LocationNotPlaced] else [])"

definition isPublishable :: "PublicationCandidate \<Rightarrow> bool" where
  "isPublishable listing \<longleftrightarrow> publicationBlockers listing = []"

subsection \<open>The tables\<close>

type_synonym LocatedListingPoint = FuzzedLocation
type_synonym StoredFuzzOffset = FuzzOffset

record EncryptedDetail =
  detailLine1 :: string
  detailLine2 :: "string option"

record FieldEncryptor =
  encrypt :: "EncryptedDetail \<Rightarrow> string \<Rightarrow> string"
  decrypt :: "string \<Rightarrow> string \<Rightarrow> EncryptedDetail option"

record ListingRow =
  l_id :: string
  l_ownerId :: string
  l_categoryId :: string
  l_categoryVersionId :: string
  l_title :: string
  l_description :: string
  l_replacementAmount :: int
  l_replacementCurrency :: CurrencyCode
  l_daily :: "int option"
  l_weekend :: "int option"
  l_weekly :: "int option"
  l_rateCurrency :: CurrencyCode
  l_attributes :: ListingAttributeValues
  l_transport :: "TransportRequirement option"
  l_twoPersonLift :: bool
  l_outwardCode :: "string option"
  l_town :: "string option"
  l_status :: ListingStatus
  l_moderationState :: ModerationState
  l_moderationReason :: "string option"
  l_moderatedById :: "string option"
  l_moderatedAt :: "int option"
  l_createdAt :: int
  l_updatedAt :: int

record LocationRow =
  loc_listingId :: string
  loc_postcode :: string
  loc_detail :: string
  loc_point :: "LocatedListingPoint option"

record MediaRow =
  media_id :: string
  media_listingId :: string
  media_position :: int
  media_displayKey :: string
  media_thumbnailKey :: string
  media_contentType :: string
  media_byteSize :: int
  media_width :: int
  media_height :: int
  media_thumbnailWidth :: int
  media_thumbnailHeight :: int
  media_sha256 :: string
  media_moderationState :: ModerationState
  media_createdAt :: int

record ListingDb =
  catalogue :: CatalogueDb
  listing_rows :: "ListingRow list"
  location_rows :: "LocationRow list"
  media_rows :: "MediaRow list"
  bucket :: "string list"

datatype ListingFault = ListingCheckFailed | RowNotFound | ReferencedRow | UnreadableMoney string | UnreadableDetail string
  | MissingVersion string | UnreadableCategory CategoryStoreError | BadPostcode PostcodeError

datatype ListingError = UnknownCategory string | CategoryChanged string int int | AttributeValuesInvalid "AttributeValueIssue list"
  | TransportNotOffered TransportRequirement | PublicationSuspended | TransitionRefused TransitionRefusal
  | NotPublishable "PublicationBlocker list" | PublishedIncomplete "PublicationBlocker list"
  | ModerationReasonRequired ModerationState | LocatorFailed GeocodeFailure | StoreFault ListingFault

definition rate_in_bounds :: "int option \<Rightarrow> bool" where
  "rate_in_bounds r \<longleftrightarrow> pred_option (\<lambda>n. 100 \<le> n \<and> n \<le> 1000000) r"

definition listing_checks :: "ListingRow \<Rightarrow> bool" where
  "listing_checks r \<longleftrightarrow>
     (l_outwardCode r = None) = (l_town r = None) \<and>
     (l_daily r \<noteq> None \<or> l_weekend r = None \<and> l_weekly r = None) \<and>
     rate_in_bounds (l_daily r) \<and> rate_in_bounds (l_weekend r) \<and> rate_in_bounds (l_weekly r) \<and>
     (l_moderationState r = Approved \<or> (\<exists>reason. l_moderationReason r = Some reason \<and> btrim reason \<noteq> [])) \<and>
     (l_moderatedById r = None) = (l_moderatedAt r = None) \<and> int4 (l_replacementAmount r)"

definition location_checks :: "LocationRow \<Rightarrow> bool" where
  "location_checks r \<longleftrightarrow> pred_option (\<lambda>p. 0 \<le> fuzzBearingDegrees p \<and> fuzzBearingDegrees p < 360 \<and> 500 \<le> fuzzDistanceMetres p) (loc_point r)"


subsection \<open>Reading a listing\<close>

record ListingRecord =
  lr_id :: string
  lr_ownerId :: string
  lr_categorySlug :: string
  lr_categoryName :: string
  lr_versionNumber :: int
  lr_questions :: "CategoryAttribute list"
  lr_feePolicy :: CategoryFeePolicy
  lr_damageSecurity :: "DamageSecurityPolicy option"
  lr_transportOptions :: "CategoryTransportOption list"
  lr_title :: string
  lr_description :: string
  lr_replacementValue :: Money
  lr_rates :: ListingRateCard
  lr_attributes :: ListingAttributeValues
  lr_transport :: "TransportRequirement option"
  lr_twoPersonLift :: bool
  lr_location :: "PostalAddress option"
  lr_isLocated :: bool
  lr_status :: ListingStatus
  lr_moderationState :: ModerationState
  lr_moderationReason :: "string option"
  lr_createdAt :: int
  lr_updatedAt :: int

definition version_by_id :: "string \<Rightarrow> ListingDb \<Rightarrow> CategoryVersionRow option" where
  "version_by_id i db = find (\<lambda>v. cv_id v = i) (version_rows (catalogue db))"

definition category_by_id :: "string \<Rightarrow> ListingDb \<Rightarrow> CategoryRow option" where
  "category_by_id i db = find (\<lambda>c. cat_id c = i) (category_rows (catalogue db))"

definition location_of :: "string \<Rightarrow> ListingDb \<Rightarrow> LocationRow option" where
  "location_of i db = find (\<lambda>r. loc_listingId r = i) (location_rows db)"

definition listing_by_id :: "string \<Rightarrow> ListingDb \<Rightarrow> ListingRow option" where
  "listing_by_id i db = find (\<lambda>r. l_id r = i) (listing_rows db)"

definition owned_listing :: "string \<Rightarrow> string \<Rightarrow> ListingDb \<Rightarrow> ListingRow option" where
  "owned_listing i owner db = find (\<lambda>r. l_id r = i \<and> l_ownerId r = owner) (listing_rows db)"

text \<open>The pinned version, its category and the current version, joined by the foreign keys.\<close>

definition pinned_version :: "ListingDb \<Rightarrow> ListingRow \<Rightarrow> ListingFault + CategoryRow \<times> CategoryVersionRow \<times> CategoryVersionRow" where
  "pinned_version db r =
    (case version_by_id (l_categoryVersionId r) db of
       None \<Rightarrow> Inl (MissingVersion (l_id r))
     | Some v \<Rightarrow>
         (case category_by_id (cv_categoryId v) db of
            None \<Rightarrow> Inl (MissingVersion (l_id r))
          | Some c \<Rightarrow> Inr (c, v, (case latest_version (cat_id c) (catalogue db) of None \<Rightarrow> v | Some w \<Rightarrow> w))))"

definition asMoney :: "int \<Rightarrow> CurrencyCode \<Rightarrow> string \<Rightarrow> ListingFault + Money" where
  "asMoney n c what = (case money (Finite (of_int n)) c of Inl _ \<Rightarrow> Inl (UnreadableMoney what) | Inr m \<Rightarrow> Inr m)"

definition asRate :: "ListingRow \<Rightarrow> int option \<Rightarrow> ListingFault + Money option" where
  "asRate r a = (case a of None \<Rightarrow> Inr None | Some n \<Rightarrow> rbind (asMoney n (l_rateCurrency r) (l_id r)) (\<lambda>m. Inr (Some m)))"

definition asRateCard :: "ListingRow \<Rightarrow> ListingFault + ListingRateCard" where
  "asRateCard r =
    rbind (asRate r (l_daily r)) (\<lambda>d. rbind (asRate r (l_weekend r)) (\<lambda>we. rbind (asRate r (l_weekly r)) (\<lambda>wk.
      Inr \<lparr>daily = d, weekend = we, weekly = wk\<rparr>)))"

definition asFeePolicy_listing :: "CategoryVersionRow \<Rightarrow> string \<Rightarrow> ListingFault + CategoryFeePolicy" where
  "asFeePolicy_listing v what =
    rbind (asMoney (cv_minimumTotal v) (cv_minimumTotalCurrency v) what) (\<lambda>t.
    rbind (asMoney (cv_minimumFee v) (cv_minimumFeeCurrency v) what) (\<lambda>f.
      Inr \<lparr>ownerCommissionBasisPoints = cv_ownerCommission v, renterFeeBasisPoints = cv_renterFee v,
           minimumBookingTotal = t, minimumPlatformFee = f\<rparr>))"

abbreviation of_category :: "CategoryStoreError + 'a \<Rightarrow> ListingFault + 'a" where
  "of_category m \<equiv> map_sum UnreadableCategory id m"

definition toLocation :: "FieldEncryptor \<Rightarrow> ListingDb \<Rightarrow> ListingRow \<Rightarrow> ListingFault + PostalAddress option" where
  "toLocation encryptor db r =
    (case location_of (l_id r) db of
       None \<Rightarrow> Inr None
     | Some loc \<Rightarrow>
         (case decrypt encryptor (loc_detail loc) (l_id r) of
            None \<Rightarrow> Inl (UnreadableDetail (l_id r))
          | Some d \<Rightarrow> Inr (Some \<lparr>line1 = detailLine1 d, line2 = detailLine2 d,
              town = (case l_town r of None \<Rightarrow> [] | Some t \<Rightarrow> t), postcode = loc_postcode loc\<rparr>)))"

definition isLocated :: "ListingDb \<Rightarrow> string \<Rightarrow> bool" where
  "isLocated db i \<longleftrightarrow> (case location_of i db of None \<Rightarrow> False | Some loc \<Rightarrow> loc_point loc \<noteq> None)"

definition toRecord_listing :: "FieldEncryptor \<Rightarrow> ListingDb \<Rightarrow> ListingRow \<Rightarrow> ListingFault + ListingRecord" where
  "toRecord_listing encryptor db r =
    rbind (pinned_version db r) (\<lambda>(c, v, current).
    rbind (of_category (asAttributes (cv_attributes v) (l_id r))) (\<lambda>questions.
    rbind (asFeePolicy_listing current (l_id r)) (\<lambda>fees.
    rbind (of_category (asDamageSecurity current (l_id r))) (\<lambda>security.
    rbind (of_category (asTransportOptions (cv_transportOptions v) (l_id r))) (\<lambda>options.
    rbind (asMoney (l_replacementAmount r) (l_replacementCurrency r) (l_id r)) (\<lambda>value.
    rbind (asRateCard r) (\<lambda>rates.
    rbind (toLocation encryptor db r) (\<lambda>location.
      Inr \<lparr>lr_id = l_id r, lr_ownerId = l_ownerId r, lr_categorySlug = cat_slug c, lr_categoryName = cv_name v,
           lr_versionNumber = cv_versionNumber v, lr_questions = questions, lr_feePolicy = fees, lr_damageSecurity = security,
           lr_transportOptions = options, lr_title = l_title r, lr_description = l_description r, lr_replacementValue = value,
           lr_rates = rates, lr_attributes = l_attributes r, lr_transport = l_transport r, lr_twoPersonLift = l_twoPersonLift r,
           lr_location = location, lr_isLocated = isLocated db (l_id r), lr_status = l_status r,
           lr_moderationState = l_moderationState r, lr_moderationReason = l_moderationReason r,
           lr_createdAt = l_createdAt r, lr_updatedAt = l_updatedAt r\<rparr>))))))))"

type_synonym 'a listing_action = "(ListingDb, ListingError, 'a) action"

definition lookup_listing :: "(ListingDb \<Rightarrow> ListingFault + 'a) \<Rightarrow> 'a listing_action" where
  "lookup_listing f db = (map_sum StoreFault id (f db), db)"

definition read_row :: "FieldEncryptor \<Rightarrow> ListingRow option \<Rightarrow> ListingDb \<Rightarrow> ListingFault + ListingRecord option" where
  "read_row encryptor row db =
    (case row of None \<Rightarrow> Inr None | Some r \<Rightarrow> rbind (toRecord_listing encryptor db r) (\<lambda>x. Inr (Some x)))"

definition findOwnedBy :: "FieldEncryptor \<Rightarrow> string \<Rightarrow> string \<Rightarrow> ListingRecord option listing_action" where
  "findOwnedBy encryptor i owner = lookup_listing (\<lambda>db. read_row encryptor (owned_listing i owner db) db)"

definition findForModeration :: "FieldEncryptor \<Rightarrow> string \<Rightarrow> ListingRecord option listing_action" where
  "findForModeration encryptor i = lookup_listing (\<lambda>db. read_row encryptor (listing_by_id i db) db)"

definition listing_ownerOf :: "string \<Rightarrow> ListingDb \<Rightarrow> string option" where
  "listing_ownerOf i db = map_option l_ownerId (listing_by_id i db)"

definition existsOwnedBy :: "string \<Rightarrow> string \<Rightarrow> ListingDb \<Rightarrow> bool" where
  "existsOwnedBy i owner db \<longleftrightarrow> owned_listing i owner db \<noteq> None"

definition listOwnedBy :: "FieldEncryptor \<Rightarrow> string \<Rightarrow> nat \<Rightarrow> ListingDb \<Rightarrow> ListingFault + ListingRecord list" where
  "listOwnedBy encryptor owner limit db =
    rmap (toRecord_listing encryptor db)
      (take limit (sort_key (\<lambda>r. - l_createdAt r) (filter (\<lambda>r. l_ownerId r = owner) (listing_rows db))))"

definition listIdsOwnedBy :: "string \<Rightarrow> ListingDb \<Rightarrow> string list" where
  "listIdsOwnedBy owner db = map l_id (filter (\<lambda>r. l_ownerId r = owner) (listing_rows db))"

definition findFuzzOffset :: "string \<Rightarrow> string \<Rightarrow> ListingDb \<Rightarrow> StoredFuzzOffset option" where
  "findFuzzOffset i owner db =
    (case owned_listing i owner db of
       None \<Rightarrow> None
     | Some _ \<Rightarrow> Option.bind (location_of i db) (\<lambda>loc. map_option offset_of (loc_point loc)))"

subsection \<open>Writing a listing\<close>

record ListingEnv =
  newListingId :: string
  listingNow :: int

record ListingDraft =
  draftOwnerId :: string
  draftCategorySlug :: string
  draftTitle :: string
  draftDescription :: string
  draftReplacementValue :: Money
  draftAttributes :: ListingAttributeValues
  draftTransport :: "TransportRequirement option"
  draftTwoPersonLift :: bool
  draftRates :: ListingRateCard
  draftLocation :: "PostalAddress option"
  draftPoint :: "LocatedListingPoint option"
  draftVersionNumber :: int

datatype CollectionLocationEdit = AddressOnly PostalAddress | Relocated PostalAddress "LocatedListingPoint option" | Cleared

record ListingEdit =
  editTitle :: string
  editDescription :: string
  editReplacementValue :: Money
  editAttributes :: ListingAttributeValues
  editTransport :: "TransportRequirement option"
  editTwoPersonLift :: bool
  editRates :: ListingRateCard
  editLocation :: CollectionLocationEdit
  editVersionNumber :: int

definition rateCurrency :: "ListingRateCard \<Rightarrow> CurrencyCode" where
  "rateCurrency rates =
    (case daily rates of Some m \<Rightarrow> currency m
     | None \<Rightarrow> (case weekend rates of Some m \<Rightarrow> currency m
       | None \<Rightarrow> (case weekly rates of Some m \<Rightarrow> currency m | None \<Rightarrow> GBP)))"

definition with_rates :: "ListingRateCard \<Rightarrow> ListingRow \<Rightarrow> ListingRow" where
  "with_rates rates r = r\<lparr>l_daily := map_option amount (daily rates), l_weekend := map_option amount (weekend rates),
     l_weekly := map_option amount (weekly rates), l_rateCurrency := rateCurrency rates\<rparr>"

definition outward :: "PostalAddress \<Rightarrow> ListingFault + string" where
  "outward location = map_sum BadPostcode id (outwardCode (postcode location))"

definition seal :: "FieldEncryptor \<Rightarrow> string \<Rightarrow> PostalAddress \<Rightarrow> string" where
  "seal encryptor i location = encrypt encryptor \<lparr>detailLine1 = line1 location, detailLine2 = line2 location\<rparr> i"

definition new_listing_row :: "ListingEnv \<Rightarrow> string \<Rightarrow> string \<Rightarrow> ListingDraft \<Rightarrow> string option \<Rightarrow> ListingRow" where
  "new_listing_row env catId versionId draft code = with_rates (draftRates draft)
    \<lparr>l_id = newListingId env, l_ownerId = draftOwnerId draft, l_categoryId = catId, l_categoryVersionId = versionId,
     l_title = draftTitle draft, l_description = draftDescription draft,
     l_replacementAmount = amount (draftReplacementValue draft), l_replacementCurrency = currency (draftReplacementValue draft),
     l_daily = None, l_weekend = None, l_weekly = None, l_rateCurrency = GBP,
     l_attributes = draftAttributes draft, l_transport = draftTransport draft, l_twoPersonLift = draftTwoPersonLift draft,
     l_outwardCode = code, l_town = map_option town (draftLocation draft), l_status = Draft,
     l_moderationState = DEFAULT_MODERATION_STATE, l_moderationReason = None, l_moderatedById = None, l_moderatedAt = None,
     l_createdAt = listingNow env, l_updatedAt = listingNow env\<rparr>"

definition insert_listing :: "ListingRow \<Rightarrow> ListingDb \<Rightarrow> ListingFault + ListingDb" where
  "insert_listing r db =
    (if \<not> listing_checks r \<or> l_id r \<in> l_id ` set (listing_rows db) then Inl ListingCheckFailed
     else Inr (db\<lparr>listing_rows := listing_rows db @ [r]\<rparr>))"

definition insert_location :: "LocationRow \<Rightarrow> ListingDb \<Rightarrow> ListingFault + ListingDb" where
  "insert_location r db =
    (if \<not> location_checks r \<or> location_of (loc_listingId r) db \<noteq> None then Inl ListingCheckFailed
     else Inr (db\<lparr>location_rows := location_rows db @ [r]\<rparr>))"

text \<open>Versions of a category are never removed, so the version read before the transaction is still there in it.\<close>

definition store_createDraft :: "FieldEncryptor \<Rightarrow> ListingEnv \<Rightarrow> ListingDraft \<Rightarrow> ListingRecord listing_action" where
  "store_createDraft encryptor env draft = atomically (\<lambda>db.
    case category_by_slug (draftCategorySlug draft) (catalogue db) of
      None \<Rightarrow> Inl (UnknownCategory (draftCategorySlug draft))
    | Some c \<Rightarrow>
        (case latest_version (cat_id c) (catalogue db) of
           None \<Rightarrow> Inl (UnknownCategory (draftCategorySlug draft))
         | Some current \<Rightarrow>
             if cv_versionNumber current \<noteq> draftVersionNumber draft
             then Inl (CategoryChanged (draftCategorySlug draft) (draftVersionNumber draft) (cv_versionNumber current))
             else map_sum StoreFault id (
               rbind (case draftLocation draft of None \<Rightarrow> Inr None | Some a \<Rightarrow> rbind (outward a) (\<lambda>o'. Inr (Some o'))) (\<lambda>code.
               let r = new_listing_row env (cat_id c) (cv_id current) draft code in
               rbind (insert_listing r db) (\<lambda>db1.
               rbind (case draftLocation draft of
                        None \<Rightarrow> Inr db1
                      | Some a \<Rightarrow> insert_location \<lparr>loc_listingId = l_id r, loc_postcode = postcode a,
                          loc_detail = seal encryptor (l_id r) a, loc_point = draftPoint draft\<rparr> db1) (\<lambda>db2.
               rbind (toRecord_listing encryptor db2 r) (\<lambda>rec. Inr (db2, rec))))))))"

text \<open>An \<open>updateMany\<close>: every matching row is rewritten and checked.\<close>

definition update_rows :: "(ListingRow \<Rightarrow> bool) \<Rightarrow> (ListingRow \<Rightarrow> ListingRow) \<Rightarrow> ListingDb \<Rightarrow> ListingFault + ListingDb" where
  "update_rows P f db =
    (if list_all (\<lambda>r. listing_checks (f r)) (filter P (listing_rows db))
     then Inr (db\<lparr>listing_rows := map (\<lambda>r. if P r then f r else r) (listing_rows db)\<rparr>)
     else Inl ListingCheckFailed)"

definition publishableLocationColumns :: "CollectionLocationEdit \<Rightarrow> ListingFault + string option \<times> string option" where
  "publishableLocationColumns e =
    (case e of Cleared \<Rightarrow> Inr (None, None)
     | AddressOnly a \<Rightarrow> rbind (outward a) (\<lambda>o'. Inr (Some o', Some (town a)))
     | Relocated a p \<Rightarrow> rbind (outward a) (\<lambda>o'. Inr (Some o', Some (town a))))"

definition writeLocation :: "FieldEncryptor \<Rightarrow> string \<Rightarrow> CollectionLocationEdit \<Rightarrow> ListingDb \<Rightarrow> ListingFault + ListingDb" where
  "writeLocation encryptor i e db =
    (case e of
       Cleared \<Rightarrow> Inr (db\<lparr>location_rows := filter (\<lambda>r. loc_listingId r \<noteq> i) (location_rows db)\<rparr>)
     | AddressOnly a \<Rightarrow>
         if location_of i db = None then Inl RowNotFound
         else Inr (db\<lparr>location_rows := map (\<lambda>r. if loc_listingId r = i
                then r\<lparr>loc_postcode := postcode a, loc_detail := seal encryptor i a\<rparr> else r) (location_rows db)\<rparr>)
     | Relocated a p \<Rightarrow>
         let new = \<lparr>loc_listingId = i, loc_postcode = postcode a, loc_detail = seal encryptor i a, loc_point = p\<rparr> in
         if \<not> location_checks new then Inl ListingCheckFailed
         else if location_of i db = None then Inr (db\<lparr>location_rows := location_rows db @ [new]\<rparr>)
         else Inr (db\<lparr>location_rows := map (\<lambda>r. if loc_listingId r = i then new else r) (location_rows db)\<rparr>))"

definition apply_edit :: "int \<Rightarrow> string \<Rightarrow> ListingEdit \<Rightarrow> string option \<times> string option \<Rightarrow> ListingRow \<Rightarrow> ListingRow" where
  "apply_edit now versionId edit place r = with_rates (editRates edit)
    (r\<lparr>l_categoryVersionId := versionId, l_title := editTitle edit, l_description := editDescription edit,
       l_replacementAmount := amount (editReplacementValue edit), l_replacementCurrency := currency (editReplacementValue edit),
       l_attributes := editAttributes edit, l_transport := editTransport edit, l_twoPersonLift := editTwoPersonLift edit,
       l_outwardCode := fst place, l_town := snd place, l_updatedAt := now\<rparr>)"

definition write_edit :: "FieldEncryptor \<Rightarrow> ListingEnv \<Rightarrow> string \<Rightarrow> string \<Rightarrow> ListingEdit \<Rightarrow> bool listing_action" where
  "write_edit encryptor env i owner edit = atomically (\<lambda>db.
    case owned_listing i owner db of
      None \<Rightarrow> Inr (db, False)
    | Some r \<Rightarrow>
        (case latest_version (l_categoryId r) (catalogue db) of
           None \<Rightarrow> Inr (db, False)
         | Some current \<Rightarrow>
             if cv_versionNumber current \<noteq> editVersionNumber edit
             then Inl (CategoryChanged (case category_by_id (l_categoryId r) db of None \<Rightarrow> [] | Some c \<Rightarrow> cat_slug c)
                        (editVersionNumber edit) (cv_versionNumber current))
             else map_sum StoreFault id (
               rbind (publishableLocationColumns (editLocation edit)) (\<lambda>place.
               rbind (update_rows (\<lambda>r. l_id r = i \<and> l_ownerId r = owner)
                        (apply_edit (listingNow env) (cv_id current) edit place) db) (\<lambda>db1.
               rbind (writeLocation encryptor i (editLocation edit) db1) (\<lambda>db2. Inr (db2, True)))))))"

definition update_listing :: "FieldEncryptor \<Rightarrow> ListingEnv \<Rightarrow> string \<Rightarrow> string \<Rightarrow> ListingEdit \<Rightarrow> ListingRecord option listing_action" where
  "update_listing encryptor env i owner edit =
    await (write_edit encryptor env i owner edit) (\<lambda>written.
      if \<not> written then done_with None else findOwnedBy encryptor i owner)"

definition write_status :: "ListingStatus \<Rightarrow> ListingEnv \<Rightarrow> string \<Rightarrow> string \<Rightarrow> bool listing_action" where
  "write_status status env i owner = atomically (\<lambda>db.
    map_sum StoreFault id (rbind (update_rows (\<lambda>r. l_id r = i \<and> l_ownerId r = owner)
      (\<lambda>r. r\<lparr>l_status := status, l_updatedAt := listingNow env\<rparr>) db) (\<lambda>db'. Inr (db', owned_listing i owner db \<noteq> None))))"

definition store_publish :: "FieldEncryptor \<Rightarrow> ListingEnv \<Rightarrow> string \<Rightarrow> string \<Rightarrow> ListingRecord option listing_action" where
  "store_publish encryptor env i owner =
    await (write_status Published env i owner) (\<lambda>found. if \<not> found then done_with None else findOwnedBy encryptor i owner)"

definition store_pause :: "FieldEncryptor \<Rightarrow> ListingEnv \<Rightarrow> string \<Rightarrow> string \<Rightarrow> ListingRecord option listing_action" where
  "store_pause encryptor env i owner =
    await (write_status Paused env i owner) (\<lambda>found. if \<not> found then done_with None else findOwnedBy encryptor i owner)"

record ModerationDecision =
  decisionListingId :: string
  decisionState :: ModerationState
  decisionReason :: "string option"
  moderatorId :: string
  decidedAt :: int

definition write_moderation :: "ModerationDecision \<Rightarrow> bool listing_action" where
  "write_moderation d = atomically (\<lambda>db.
    case listing_by_id (decisionListingId d) db of
      None \<Rightarrow> Inr (db, False)
    | Some _ \<Rightarrow> map_sum StoreFault id (rbind (update_rows (\<lambda>r. l_id r = decisionListingId d)
        (\<lambda>r. r\<lparr>l_moderationState := decisionState d, l_moderationReason := decisionReason d,
              l_moderatedById := Some (moderatorId d), l_moderatedAt := Some (decidedAt d), l_updatedAt := decidedAt d\<rparr>) db)
        (\<lambda>db'. Inr (db', True))))"

definition store_moderate :: "FieldEncryptor \<Rightarrow> ModerationDecision \<Rightarrow> ListingRecord option listing_action" where
  "store_moderate encryptor d =
    await (write_moderation d) (\<lambda>found. if \<not> found then done_with None else findForModeration encryptor (decisionListingId d))"

text \<open>\<open>booked\<close> tells which listings a booking refers to: deleting such a row is refused.\<close>

definition eraseOwnedBy :: "(string \<Rightarrow> bool) \<Rightarrow> string \<Rightarrow> string list \<Rightarrow> unit listing_action" where
  "eraseOwnedBy booked owner retained = atomically (\<lambda>db.
    let gone = (\<lambda>r. l_ownerId r = owner \<and> l_id r \<notin> set retained) in
    if list_ex (\<lambda>r. gone r \<and> booked (l_id r)) (listing_rows db) then Inl (StoreFault ReferencedRow)
    else
      let goneIds = l_id ` set (filter gone (listing_rows db)) in
      Inr (db\<lparr>listing_rows := filter (\<lambda>r. \<not> gone r) (listing_rows db),
             location_rows := filter (\<lambda>r. loc_listingId r \<notin> set retained \<and> loc_listingId r \<notin> goneIds) (location_rows db),
             media_rows := filter (\<lambda>m. media_listingId m \<notin> goneIds) (media_rows db)\<rparr>, ()))"

subsection \<open>What the public sees\<close>

record ListingImageRecord =
  imageKey :: string
  imageWidth :: int
  imageHeight :: int

record PublicListingMediaRecord =
  publicMediaId :: string
  displayImage :: ListingImageRecord
  thumbnailImage :: ListingImageRecord

definition asPublicMedia :: "MediaRow \<Rightarrow> PublicListingMediaRecord" where
  "asPublicMedia m = \<lparr>publicMediaId = media_id m,
     displayImage = \<lparr>imageKey = media_displayKey m, imageWidth = media_width m, imageHeight = media_height m\<rparr>,
     thumbnailImage = \<lparr>imageKey = media_thumbnailKey m, imageWidth = media_thumbnailWidth m, imageHeight = media_thumbnailHeight m\<rparr>\<rparr>"

definition public_media :: "string \<Rightarrow> ListingDb \<Rightarrow> MediaRow list" where
  "public_media i db = sort_key media_position (sort_key media_createdAt (sort_key media_id
     (filter (\<lambda>m. media_listingId m = i \<and> media_moderationState m = Approved) (media_rows db))))"

record PublicListingRecord =
  pl_id :: string
  pl_ownerId :: string
  pl_categorySlug :: string
  pl_categoryName :: string
  pl_questions :: "CategoryAttribute list"
  pl_feePolicy :: CategoryFeePolicy
  pl_damageSecurity :: "DamageSecurityPolicy option"
  pl_replacementValue :: Money
  pl_title :: string
  pl_description :: string
  pl_rates :: ListingRateCard
  pl_attributes :: ListingAttributeValues
  pl_transport :: "TransportRequirement option"
  pl_twoPersonLift :: bool
  pl_outwardCode :: string
  pl_town :: string
  pl_media :: "PublicListingMediaRecord list"

record PublicListingSummaryRecord =
  ps_id :: string
  ps_ownerId :: string
  ps_categoryName :: string
  ps_feePolicy :: CategoryFeePolicy
  ps_title :: string
  ps_rates :: ListingRateCard
  ps_outwardCode :: string
  ps_town :: string
  ps_thumbnail :: "ListingImageRecord option"

definition PUBLICLY_VISIBLE :: "ListingRow \<Rightarrow> bool" where
  "PUBLICLY_VISIBLE r \<longleftrightarrow> l_status r = Published \<and> l_moderationState r = Approved"

definition visible_listing :: "string \<Rightarrow> ListingDb \<Rightarrow> ListingRow option" where
  "visible_listing i db = find (\<lambda>r. l_id r = i \<and> PUBLICLY_VISIBLE r) (listing_rows db)"

definition store_findQuotable :: "string \<Rightarrow> ListingDb \<Rightarrow> ListingFault + QuotableListing option" where
  "store_findQuotable i db =
    (case visible_listing i db of
       None \<Rightarrow> Inr None
     | Some r \<Rightarrow>
         rbind (pinned_version db r) (\<lambda>(c, v, current).
         rbind (asRateCard r) (\<lambda>rates.
         rbind (asFeePolicy_listing current (l_id r)) (\<lambda>fees.
         rbind (of_category (asDamageSecurity current (l_id r))) (\<lambda>security.
         rbind (asMoney (l_replacementAmount r) (l_replacementCurrency r) (l_id r)) (\<lambda>value.
           Inr (Some \<lparr>quotableId = l_id r, quotableOwnerId = l_ownerId r, quotableTitle = l_title r,
                quotableCategoryName = cv_name v, quotableRates = rates, currentFeePolicy = fees, currentDamageSecurity = security,
                replacementValue = value, currentMaximumRentalDays = cv_maximumRentalDays current,
                currentRequestExpiryHours = cv_requestExpiryHours current, currentCategoryVersionId = cv_id current\<rparr>)))))))"

definition findPublished :: "string \<Rightarrow> ListingDb \<Rightarrow> ListingFault + PublicListingRecord option" where
  "findPublished i db =
    (case visible_listing i db of
       None \<Rightarrow> Inr None
     | Some r \<Rightarrow>
         (case (l_outwardCode r, l_town r) of
            (Some code, Some t) \<Rightarrow>
              rbind (pinned_version db r) (\<lambda>(c, v, current).
              rbind (of_category (asAttributes (cv_attributes v) (l_id r))) (\<lambda>questions.
              rbind (asFeePolicy_listing current (l_id r)) (\<lambda>fees.
              rbind (of_category (asDamageSecurity current (l_id r))) (\<lambda>security.
              rbind (asMoney (l_replacementAmount r) (l_replacementCurrency r) (l_id r)) (\<lambda>value.
              rbind (asRateCard r) (\<lambda>rates.
                Inr (Some \<lparr>pl_id = l_id r, pl_ownerId = l_ownerId r, pl_categorySlug = cat_slug c, pl_categoryName = cv_name v,
                  pl_questions = questions, pl_feePolicy = fees, pl_damageSecurity = security, pl_replacementValue = value,
                  pl_title = l_title r, pl_description = l_description r, pl_rates = rates, pl_attributes = l_attributes r,
                  pl_transport = l_transport r, pl_twoPersonLift = l_twoPersonLift r, pl_outwardCode = code, pl_town = t,
                  pl_media = map asPublicMedia (public_media i db)\<rparr>)))))))
          | _ \<Rightarrow> Inr None))"

definition summary_of :: "ListingDb \<Rightarrow> ListingRow \<Rightarrow> ListingFault + PublicListingSummaryRecord option" where
  "summary_of db r =
    (case (l_outwardCode r, l_town r) of
       (Some code, Some t) \<Rightarrow>
         rbind (pinned_version db r) (\<lambda>(c, v, current).
         rbind (asFeePolicy_listing current (l_id r)) (\<lambda>fees.
         rbind (asRateCard r) (\<lambda>rates.
           Inr (Some \<lparr>ps_id = l_id r, ps_ownerId = l_ownerId r, ps_categoryName = cv_name v, ps_feePolicy = fees,
                ps_title = l_title r, ps_rates = rates, ps_outwardCode = code, ps_town = t,
                ps_thumbnail = (case public_media (l_id r) db of [] \<Rightarrow> None | m # _ \<Rightarrow> Some (thumbnailImage (asPublicMedia m)))\<rparr>))))
     | _ \<Rightarrow> Inr None)"

definition findPublishedSummaries :: "string list \<Rightarrow> ListingDb \<Rightarrow> ListingFault + PublicListingSummaryRecord list" where
  "findPublishedSummaries ids db =
    rbind (rmap (summary_of db) (filter (\<lambda>r. l_id r \<in> set ids \<and> PUBLICLY_VISIBLE r) (listing_rows db))) (\<lambda>found.
      Inr (List.map_filter id found))"

subsection \<open>The categories an owner may choose\<close>

record CategoryOptionRecord =
  optionSlug :: string
  optionName :: string
  optionAttributes :: "CategoryAttribute list"
  optionTransport :: "CategoryTransportOption list"
  optionVersion :: int

definition toOption :: "string \<Rightarrow> CategoryVersionRow \<Rightarrow> CategoryStoreError + CategoryOptionRecord" where
  "toOption slug v =
    rbind (asAttributes (cv_attributes v) slug) (\<lambda>attributes.
    rbind (asTransportOptions (cv_transportOptions v) slug) (\<lambda>options.
      Inr \<lparr>optionSlug = slug, optionName = cv_name v, optionAttributes = attributes, optionTransport = options,
           optionVersion = cv_versionNumber v\<rparr>))"

definition findOption :: "string \<Rightarrow> ListingDb \<Rightarrow> ListingFault + CategoryOptionRecord option" where
  "findOption slug db =
    (case category_by_slug slug (catalogue db) of
       None \<Rightarrow> Inr None
     | Some c \<Rightarrow>
         (case latest_version (cat_id c) (catalogue db) of
            None \<Rightarrow> Inr None
          | Some v \<Rightarrow> of_category (rbind (toOption slug v) (\<lambda>o'. Inr (Some o')))))"

definition listOptions :: "nat \<Rightarrow> ListingDb \<Rightarrow> ListingFault + CategoryOptionRecord list" where
  "listOptions limit db =
    rbind (rmap (\<lambda>c. case latest_version (cat_id c) (catalogue db) of
                       None \<Rightarrow> Inr None
                     | Some v \<Rightarrow> of_category (rbind (toOption (cat_slug c) v) (\<lambda>o'. Inr (Some o'))))
             (take limit (sort_key cat_createdAt (category_rows (catalogue db))))) (\<lambda>found.
      Inr (List.map_filter id found))"

definition findCategoryId :: "string \<Rightarrow> ListingDb \<Rightarrow> string option" where
  "findCategoryId slug db = map_option cat_id (category_by_slug slug (catalogue db))"

definition listCategoryNames :: "nat \<Rightarrow> ListingDb \<Rightarrow> (string \<times> string) list" where
  "listCategoryNames limit db =
    List.map_filter (\<lambda>c. map_option (\<lambda>v. (cat_slug c, cv_name v)) (latest_version (cat_id c) (catalogue db)))
      (take limit (sort_key cat_createdAt (category_rows (catalogue db))))"

end
