(* ===== verification/Listing_Media.thy ===== *)
theory Listing_Media
  imports Listing_Store
begin

section \<open>Photographs of a listing\<close>

text \<open>
  \<^verbatim>\<open>apps/api/src/catalogue/listing-media.service.ts\<close> with its store (\<^verbatim>\<open>prisma-listing-media-store.ts\<close>), the checks an upload
  passes before it is encoded (\<^verbatim>\<open>prepare-image.ts\<close>) and the signing of the images that are shown
  (\<^verbatim>\<open>listing-image-signer.ts\<close>). The image library is the parameter \<open>sharp\<close>. The object store is the parameter
  \<open>storage\<close>, which says of each key whether writing or deleting it succeeds in this call; the keys it holds are the
  \<open>bucket\<close> of the state. \<open>race\<close> is what other calls do between two steps of this one.
\<close>

subsection \<open>Preparing an upload\<close>

type_synonym Buffer = "char list"

datatype ListingMediaRefusal = TooManyBytes | TooManyPixels | UnsupportedFormat | NotAnImage | TooManyPhotographs | StorageUnavailable

definition LISTING_MEDIA_LIMIT :: nat where "LISTING_MEDIA_LIMIT = 10"
definition MAX_INPUT_BYTES :: nat where "MAX_INPUT_BYTES = 15 * 1024 * 1024"
definition MAX_INPUT_PIXELS :: int where "MAX_INPUT_PIXELS = 50000000"
definition DISPLAY_MAX_EDGE :: int where "DISPLAY_MAX_EDGE = 1600"
definition THUMBNAIL_MAX_EDGE :: int where "THUMBNAIL_MAX_EDGE = 400"
definition OUTPUT_CONTENT_TYPE :: string where "OUTPUT_CONTENT_TYPE = ''image/webp''"
definition DISPLAY_QUALITY :: int where "DISPLAY_QUALITY = 82"
definition THUMBNAIL_QUALITY :: int where "THUMBNAIL_QUALITY = 75"
definition SIGNED_URL_TTL_SECONDS :: int where "SIGNED_URL_TTL_SECONDS = 15 * 60"

definition ACCEPTED_INPUT_FORMATS :: "string list" where
  "ACCEPTED_INPUT_FORMATS = [''jpeg'', ''png'', ''webp'', ''gif'', ''heif'', ''tiff'']"

record Metadata =
  meta_format :: "string option"
  meta_width :: "int option"
  meta_height :: "int option"

record ImageRendition =
  rendition :: Buffer
  renditionWidth :: int
  renditionHeight :: int
  renditionSize :: int

record Sharp =
  metadata :: "Buffer \<Rightarrow> Metadata option"
  render :: "Buffer \<Rightarrow> int \<Rightarrow> int \<Rightarrow> (Buffer \<times> int \<times> int) option"
  sha256 :: "Buffer \<Rightarrow> string"

record PreparedImage =
  preparedType :: string
  preparedDisplay :: ImageRendition
  preparedThumbnail :: ImageRendition
  preparedHash :: string
  sourceFormat :: string

definition readFormat :: "Sharp \<Rightarrow> Buffer \<Rightarrow> ListingMediaRefusal + string" where
  "readFormat sharp input =
    (case metadata sharp input of
       None \<Rightarrow> Inl NotAnImage
     | Some m \<Rightarrow>
         (case meta_format m of
            None \<Rightarrow> Inl UnsupportedFormat
          | Some format \<Rightarrow>
              if format \<notin> set ACCEPTED_INPUT_FORMATS then Inl UnsupportedFormat
              else (case (meta_width m, meta_height m) of
                      (Some w, Some h) \<Rightarrow>
                        if w < 1 \<or> h < 1 then Inl NotAnImage
                        else if w * h > MAX_INPUT_PIXELS then Inl TooManyPixels
                        else Inr format
                    | _ \<Rightarrow> Inl NotAnImage)))"

definition encode_image :: "Sharp \<Rightarrow> Buffer \<Rightarrow> int \<Rightarrow> int \<Rightarrow> ListingMediaRefusal + ImageRendition" where
  "encode_image sharp input maxEdge quality =
    (case render sharp input maxEdge quality of
       None \<Rightarrow> Inl NotAnImage
     | Some (bytes, w, h) \<Rightarrow> Inr \<lparr>rendition = bytes, renditionWidth = w, renditionHeight = h, renditionSize = int (length bytes)\<rparr>)"

definition prepareImage :: "Sharp \<Rightarrow> Buffer \<Rightarrow> ListingMediaRefusal + PreparedImage" where
  "prepareImage sharp input =
    (if length input > MAX_INPUT_BYTES then Inl TooManyBytes
     else if input = [] then Inl NotAnImage
     else
       rbind (readFormat sharp input) (\<lambda>format.
       rbind (encode_image sharp input DISPLAY_MAX_EDGE DISPLAY_QUALITY) (\<lambda>display.
       rbind (encode_image sharp input THUMBNAIL_MAX_EDGE THUMBNAIL_QUALITY) (\<lambda>thumbnail.
         Inr \<lparr>preparedType = OUTPUT_CONTENT_TYPE, preparedDisplay = display, preparedThumbnail = thumbnail,
              preparedHash = sha256 sharp (rendition display), sourceFormat = format\<rparr>))))"

subsection \<open>The object store and the signing of images\<close>

datatype PutOutcome = PutStored | PutUnavailable | PutDefect

record ObjectStore =
  put_outcome :: "string \<Rightarrow> PutOutcome"
  delete_fails :: "string \<Rightarrow> bool"
  signedUrl :: "string \<Rightarrow> int \<Rightarrow> string"

record ListingMediaImage =
  mediaUrl :: string
  mediaWidth :: int
  mediaHeight :: int

record PublicListingMedia =
  shownId :: string
  shownDisplay :: ListingMediaImage
  shownThumbnail :: ListingMediaImage

record OwnerListingMedia = PublicListingMedia +
  shownPosition :: int

definition signOne :: "ObjectStore \<Rightarrow> ListingImageRecord \<Rightarrow> ListingMediaImage" where
  "signOne storage img =
    \<lparr>mediaUrl = signedUrl storage (imageKey img) SIGNED_URL_TTL_SECONDS, mediaWidth = imageWidth img, mediaHeight = imageHeight img\<rparr>"

definition sign_image :: "ObjectStore \<Rightarrow> ListingImageRecord option \<Rightarrow> ListingMediaImage option" where
  "sign_image storage img = map_option (signOne storage) img"

definition signAll :: "ObjectStore \<Rightarrow> PublicListingMediaRecord list \<Rightarrow> PublicListingMedia list" where
  "signAll storage media = map (\<lambda>m. \<lparr>shownId = publicMediaId m, shownDisplay = signOne storage (displayImage m),
     shownThumbnail = signOne storage (thumbnailImage m)\<rparr>) media"

definition sign_owned :: "ObjectStore \<Rightarrow> MediaRow list \<Rightarrow> OwnerListingMedia list" where
  "sign_owned storage media = map (\<lambda>m.
     \<lparr>shownId = media_id m,
      shownDisplay = \<lparr>mediaUrl = signedUrl storage (media_displayKey m) SIGNED_URL_TTL_SECONDS,
                      mediaWidth = media_width m, mediaHeight = media_height m\<rparr>,
      shownThumbnail = \<lparr>mediaUrl = signedUrl storage (media_thumbnailKey m) SIGNED_URL_TTL_SECONDS,
                        mediaWidth = media_thumbnailWidth m, mediaHeight = media_thumbnailHeight m\<rparr>,
      shownPosition = media_position m\<rparr>) media"

subsection \<open>The store\<close>

record NewListingMedia =
  newMediaListing :: string
  newDisplayKey :: string
  newThumbnailKey :: string
  newImage :: PreparedImage

record MediaEnv =
  newKeyId :: string
  newMediaId :: string
  mediaNow :: int

definition inOwnersOrder :: "MediaRow list \<Rightarrow> MediaRow list" where
  "inOwnersOrder rows = sort_key media_position (sort_key media_createdAt (sort_key media_id rows))"

definition media_listFor :: "string \<Rightarrow> ListingDb \<Rightarrow> MediaRow list" where
  "media_listFor i db = inOwnersOrder (filter (\<lambda>m. media_listingId m = i) (media_rows db))"

definition listForListings :: "string list \<Rightarrow> ListingDb \<Rightarrow> MediaRow list" where
  "listForListings ids db = (if ids = [] then [] else inOwnersOrder (filter (\<lambda>m. media_listingId m \<in> set ids) (media_rows db)))"

definition next_position :: "string \<Rightarrow> ListingDb \<Rightarrow> int" where
  "next_position i db = (let ps = map media_position (filter (\<lambda>m. media_listingId m = i) (media_rows db)) in
     if ps = [] then 0 else foldr max ps (hd ps) + 1)"

datatype MediaError = MediaRefused ListingMediaRefusal | StorageDefect | MediaStoreFailed ListingFault

type_synonym 'a media_action = "(ListingDb, MediaError, 'a) action"

definition media_append :: "(ListingDb \<Rightarrow> ListingDb) \<Rightarrow> MediaEnv \<Rightarrow> NewListingMedia \<Rightarrow> MediaRow media_action" where
  "media_append race env media =
    await (reading (next_position (newMediaListing media))) (\<lambda>position.
    await (\<lambda>db. (Inr (), race db)) (\<lambda>_.
    atomically (\<lambda>db.
      let p = newImage media;
          m = \<lparr>media_id = newMediaId env, media_listingId = newMediaListing media, media_position = position,
               media_displayKey = newDisplayKey media, media_thumbnailKey = newThumbnailKey media,
               media_contentType = preparedType p, media_byteSize = renditionSize (preparedDisplay p),
               media_width = renditionWidth (preparedDisplay p), media_height = renditionHeight (preparedDisplay p),
               media_thumbnailWidth = renditionWidth (preparedThumbnail p), media_thumbnailHeight = renditionHeight (preparedThumbnail p),
               media_sha256 = preparedHash p, media_moderationState = DEFAULT_MODERATION_STATE, media_createdAt = mediaNow env\<rparr> in
      if listing_by_id (newMediaListing media) db = None then Inl (MediaStoreFailed RowNotFound)
      else if newMediaId env \<in> media_id ` set (media_rows db) then Inl (MediaStoreFailed ListingCheckFailed)
      else Inr (db\<lparr>media_rows := media_rows db @ [m]\<rparr>, m))))"

definition media_remove :: "string \<Rightarrow> string \<Rightarrow> MediaRow option media_action" where
  "media_remove i mediaId = atomically (\<lambda>db.
    case find (\<lambda>m. media_id m = mediaId \<and> media_listingId m = i) (media_rows db) of
      None \<Rightarrow> Inr (db, None)
    | Some m \<Rightarrow> Inr (db\<lparr>media_rows := filter (\<lambda>x. media_id x \<noteq> media_id m) (media_rows db)\<rparr>, Some m))"

definition place_at :: "string \<Rightarrow> nat \<times> string \<Rightarrow> MediaRow list \<Rightarrow> MediaRow list" where
  "place_at i = (\<lambda>(position, mediaId) rows.
     map (\<lambda>m. if media_id m = mediaId \<and> media_listingId m = i then m\<lparr>media_position := int position\<rparr> else m) rows)"

definition media_reorder :: "string \<Rightarrow> string list \<Rightarrow> ListingDb \<Rightarrow> ListingDb" where
  "media_reorder i mediaIds db = db\<lparr>media_rows := fold (place_at i) (enumerate 0 mediaIds) (media_rows db)\<rparr>"

definition media_deleteFor :: "string list \<Rightarrow> ListingDb \<Rightarrow> ListingDb" where
  "media_deleteFor ids db = db\<lparr>media_rows := filter (\<lambda>m. media_listingId m \<notin> set ids) (media_rows db)\<rparr>"

subsection \<open>The service\<close>

definition objectKey :: "string \<Rightarrow> string \<Rightarrow> string \<Rightarrow> string" where
  "objectKey i mediaId rendition' = ''listings/'' @ i @ ''/'' @ mediaId @ ''/'' @ rendition' @ ''.webp''"

definition put_object :: "ObjectStore \<Rightarrow> string \<Rightarrow> unit media_action" where
  "put_object storage key db =
    (case put_outcome storage key of
       PutStored \<Rightarrow> (Inr (), db\<lparr>bucket := List.insert key (bucket db)\<rparr>)
     | PutUnavailable \<Rightarrow> (Inl (MediaRefused StorageUnavailable), db)
     | PutDefect \<Rightarrow> (Inl StorageDefect, db))"

text \<open>A key that cannot be deleted is logged and passed over.\<close>

definition delete_object :: "ObjectStore \<Rightarrow> string \<Rightarrow> ListingDb \<Rightarrow> ListingDb" where
  "delete_object storage key db = (if delete_fails storage key then db else db\<lparr>bucket := removeAll key (bucket db)\<rparr>)"

definition discard :: "ObjectStore \<Rightarrow> MediaRow list \<Rightarrow> ListingDb \<Rightarrow> ListingDb" where
  "discard storage media db = fold (\<lambda>m d. delete_object storage (media_thumbnailKey m) (delete_object storage (media_displayKey m) d)) media db"

definition media_list :: "ObjectStore \<Rightarrow> string \<Rightarrow> string \<Rightarrow> OwnerListingMedia list option media_action" where
  "media_list storage i owner =
    reading (\<lambda>db. if \<not> existsOwnedBy i owner db then None else Some (sign_owned storage (media_listFor i db)))"

definition add_media ::
  "(ListingDb \<Rightarrow> ListingDb) \<Rightarrow> (ListingDb \<Rightarrow> ListingDb) \<Rightarrow> Sharp \<Rightarrow> ObjectStore \<Rightarrow> MediaEnv \<Rightarrow> string \<Rightarrow> string \<Rightarrow> Buffer
    \<Rightarrow> OwnerListingMedia option media_action" where
  "add_media race1 race2 sharp storage env i owner bytes =
    await (reading (existsOwnedBy i owner)) (\<lambda>owned.
    if \<not> owned then done_with None
    else
      await (reading (media_listFor i)) (\<lambda>existing.
      if length existing \<ge> LISTING_MEDIA_LIMIT then throw (MediaRefused TooManyPhotographs)
      else
        await (pure_step (map_sum MediaRefused id (prepareImage sharp bytes))) (\<lambda>prepared.
        let displayKey = objectKey i (newKeyId env) ''display''; thumbnailKey = objectKey i (newKeyId env) ''thumbnail'' in
        await (put_object storage displayKey) (\<lambda>_.
        await (put_object storage thumbnailKey) (\<lambda>_.
        await (\<lambda>db. (Inr (), race1 db)) (\<lambda>_.
        await (media_append race2 env \<lparr>newMediaListing = i, newDisplayKey = displayKey, newThumbnailKey = thumbnailKey,
            newImage = prepared\<rparr>) (\<lambda>m.
          done_with (Some (hd (sign_owned storage [m]))))))))))"

definition remove_media :: "ObjectStore \<Rightarrow> string \<Rightarrow> string \<Rightarrow> string \<Rightarrow> bool option media_action" where
  "remove_media storage i owner mediaId =
    await (reading (existsOwnedBy i owner)) (\<lambda>owned.
    if \<not> owned then done_with None
    else
      await (media_remove i mediaId) (\<lambda>removed.
      case removed of
        None \<Rightarrow> done_with (Some False)
      | Some m \<Rightarrow> await (\<lambda>db. (Inr (), discard storage [m] db)) (\<lambda>_. done_with (Some True))))"

definition reorder_media :: "ObjectStore \<Rightarrow> string \<Rightarrow> string \<Rightarrow> string list \<Rightarrow> OwnerListingMedia list option media_action" where
  "reorder_media storage i owner mediaIds =
    await (reading (existsOwnedBy i owner)) (\<lambda>owned.
    if \<not> owned then done_with None
    else
      await (reading (media_listFor i)) (\<lambda>existing.
      let held = remdups (map media_id existing); asked = remdups mediaIds in
      if length asked = length mediaIds \<and> length held = length asked \<and> list_all (\<lambda>x. x \<in> set asked) held
      then await (\<lambda>db. (Inr (), media_reorder i mediaIds db)) (\<lambda>_. reading (\<lambda>db. Some (sign_owned storage (media_listFor i db))))
      else throw (MediaRefused NotAnImage)))"

definition eraseForListings :: "ObjectStore \<Rightarrow> string list \<Rightarrow> ListingDb \<Rightarrow> ListingDb" where
  "eraseForListings storage ids db =
    (let media = listForListings ids db in
     if media = [] then db else media_deleteFor ids (discard storage media db))"

subsection \<open>The order an owner asked for\<close>

lemma media_id_place [simp]: "map media_id (place_at i kp rows) = map media_id rows"
  by (auto simp: place_at_def split: prod.splits)

lemma place_at_other: "filter (\<lambda>m. media_listingId m \<noteq> i) (place_at i kp rows) = filter (\<lambda>m. media_listingId m \<noteq> i) rows"
  by (cases kp) (induction rows, auto simp: place_at_def)

lemma fold_place_other:
  "filter (\<lambda>m. media_listingId m \<noteq> i) (fold (place_at i) kps rows) = filter (\<lambda>m. media_listingId m \<noteq> i) rows"
  by (induction kps arbitrary: rows) (simp_all add: place_at_other)

definition placed :: "string \<Rightarrow> (nat \<times> string) list \<Rightarrow> MediaRow \<Rightarrow> MediaRow" where
  "placed i kps m = fold (\<lambda>(k, x) m. if media_id m = x \<and> media_listingId m = i then m\<lparr>media_position := int k\<rparr> else m) kps m"

lemma fold_place_map: "fold (place_at i) kps rows = map (placed i kps) rows"
proof (induction kps arbitrary: rows)
  case Nil
  then show ?case by (simp add: placed_def id_def [symmetric])
next
  case (Cons kp kps)
  then show ?case by (cases kp) (simp add: placed_def place_at_def)
qed

lemma placed_id [simp]: "media_id (placed i kps m) = media_id m" "media_listingId (placed i kps m) = media_listingId m"
  unfolding placed_def by (induction kps arbitrary: m) (auto split: prod.splits)

lemma placed_other: "media_id m \<notin> snd ` set kps \<Longrightarrow> placed i kps m = m"
  unfolding placed_def by (induction kps arbitrary: m) (auto split: prod.splits)

lemma placed_position:
  assumes "distinct (map snd kps)" "(k, media_id m) \<in> set kps" "media_listingId m = i"
  shows "media_position (placed i kps m) = int k"
  using assms
proof (induction kps arbitrary: m)
  case (Cons kp kps)
  obtain k' x where kp: "kp = (k', x)" by (cases kp)
  have step: "placed i (kp # kps) m = placed i kps (if media_id m = x \<and> media_listingId m = i then m\<lparr>media_position := int k'\<rparr> else m)"
    by (simp add: placed_def kp)
  show ?case
  proof (cases "media_id m = x")
    case True
    then have "media_id m \<notin> snd ` set kps" using Cons.prems(1) by (auto simp: kp)
    moreover have "k = k'" using Cons.prems(1,2) True by (force simp: kp)
    ultimately show ?thesis using True Cons.prems(3) by (simp add: step placed_other)
  next
    case False
    then have "(k, media_id m) \<in> set kps" using Cons.prems(2) by (auto simp: kp)
    then show ?thesis using False Cons.IH [of m] Cons.prems by (simp add: step)
  qed
qed simp

lemma set_inOwnersOrder [simp]: "set (inOwnersOrder rows) = set rows"
  by (simp add: inOwnersOrder_def)

lemma inOwnersOrder_strictly: "distinct (map media_position rows) \<Longrightarrow> strictly media_position (inOwnersOrder rows)"
  unfolding inOwnersOrder_def by (rule strictly_sort_key) (simp add: distinct_map)

lemma same_set_iff:
  "length (remdups ids) = length ids \<and> length (remdups hs) = length (remdups ids) \<and> list_all (\<lambda>x. x \<in> set (remdups ids)) (remdups hs)
     \<longleftrightarrow> distinct ids \<and> set hs = set ids"
proof -
  have "set hs = set ids" if "length (remdups hs) = length (remdups ids)" "set hs \<subseteq> set ids"
    using that by (intro card_subset_eq) (auto simp: length_remdups_card_conv)
  then show ?thesis by (auto simp: list_all_iff length_remdups_card_conv distinct_card card_distinct)
qed

lemma reorder_shown:
  assumes ids: "distinct (map media_id (media_rows db))" and d: "distinct mediaIds"
    and same: "media_id ` {m \<in> set (media_rows db). media_listingId m = i} = set mediaIds"
  shows "map media_id (media_listFor i (media_reorder i mediaIds db)) = mediaIds"
proof -
  let ?kps = "enumerate 0 mediaIds" and ?mine = "filter (\<lambda>m. media_listingId m = i) (media_rows db)"
  have dk: "distinct (map snd ?kps)" using d by simp
  define row where "row x = placed i ?kps (the (find (\<lambda>m. media_id m = x) ?mine))" for x
  have dm: "distinct (map media_id ?mine)" using ids by (simp add: distinct_map_filter)
  have found: "row (media_id m) = placed i ?kps m" if "m \<in> set ?mine" for m
    using that find_distinct [OF dm, of m] by (simp add: row_def)
  have at: "row (mediaIds ! k) \<in> placed i ?kps ` set ?mine \<and> media_id (row (mediaIds ! k)) = mediaIds ! k
      \<and> media_position (row (mediaIds ! k)) = int k" if "k < length mediaIds" for k
  proof -
    have "mediaIds ! k \<in> media_id ` set ?mine" using same that by (metis nth_mem set_filter)
    then obtain m where m: "m \<in> set ?mine" "media_id m = mediaIds ! k" by auto
    have "(k, media_id m) \<in> set ?kps" using that m by (auto simp: in_set_enumerate_eq)
    then have "media_position (placed i ?kps m) = int k" using placed_position [OF dk, of k m i] m by simp
    then show ?thesis using found [OF m(1)] m by auto
  qed
  have mine: "filter (\<lambda>m. media_listingId m = i) (media_rows (media_reorder i mediaIds db)) = map (placed i ?kps) ?mine"
    by (simp add: media_reorder_def fold_place_map filter_map comp_def)
  let ?new = "map (placed i ?kps) ?mine" and ?asked = "map row mediaIds"
  have set: "set ?asked = set ?new"
  proof -
    have "row x \<in> set ?new" if "x \<in> set mediaIds" for x using at that by (metis in_set_conv_nth list.set_map)
    moreover have "placed i ?kps m \<in> set ?asked" if "m \<in> set ?mine" for m
      using found [OF that] same that by (metis (no_types, lifting) image_eqI list.set_map mem_Collect_eq set_filter)
    ultimately show ?thesis by auto
  qed
  have positions: "map media_position ?asked = map int [0..<length mediaIds]"
    using at by (intro nth_equalityI) auto
  have named: "map media_id ?asked = mediaIds" using at by (intro nth_equalityI) auto
  have asked: "strictly media_position ?asked"
    using sorted_wrt_map [of "(<)" media_position ?asked] unfolding positions by (simp add: sorted_wrt_map)
  have "distinct (map media_position ?new)"
  proof -
    have "distinct (map media_id ?new)" using dm by (simp add: comp_def)
    then have "distinct ?new" by (rule distinct_map [THEN iffD1, THEN conjunct1])
    moreover have "distinct ?asked" using d named by (metis distinct_map)
    ultimately have "mset ?new = mset ?asked" using set set_eq_iff_mset_eq_distinct by blast
    then have "mset (map media_position ?new) = mset (map media_position ?asked)" by (metis mset_map)
    moreover have "distinct (map media_position ?asked)" unfolding positions by (simp add: distinct_map)
    ultimately show ?thesis using mset_eq_imp_distinct_iff by blast
  qed
  then have "strictly media_position (inOwnersOrder ?new)"
    by (rule inOwnersOrder_strictly)
  then have "inOwnersOrder ?new = ?asked" using strictly_unique [OF _ asked] set by simp
  then show ?thesis using named by (simp add: media_listFor_def mine)
qed

text \<open>
Reordering the photographs of a listing succeeds exactly when the request names each of them once, and then they are
shown in the order asked for; anything else is refused and changes nothing, and no other listing's photographs move.\<close>
theorem reorder_shows_asked_order:
  assumes "distinct (map media_id (media_rows db))" "existsOwnedBy i owner db"
  shows "(case reorder_media storage i owner mediaIds db of
       (Inr (Some shown), db') \<Rightarrow> distinct mediaIds \<and> set mediaIds = media_id ` {m \<in> set (media_rows db). media_listingId m = i}
         \<and> map shownId shown = mediaIds \<and> shown = sign_owned storage (media_listFor i db')
         \<and> filter (\<lambda>m. media_listingId m \<noteq> i) (media_rows db') = filter (\<lambda>m. media_listingId m \<noteq> i) (media_rows db)
     | (r, db') \<Rightarrow> db' = db \<and> r = Inl (MediaRefused NotAnImage)
         \<and> \<not> (distinct mediaIds \<and> set mediaIds = media_id ` {m \<in> set (media_rows db). media_listingId m = i}))"
proof -
  let ?held = "map media_id (media_listFor i db)"
  have held: "set ?held = media_id ` {m \<in> set (media_rows db). media_listingId m = i}" by (simp add: media_listFor_def)
  have shown: "map shownId (sign_owned storage ms) = map media_id ms" for ms by (simp add: sign_owned_def comp_def)
  show ?thesis
  proof (cases "distinct mediaIds \<and> set ?held = set mediaIds")
    case True
    then have "map media_id (media_listFor i (media_reorder i mediaIds db)) = mediaIds"
      using reorder_shown [OF assms(1)] held by simp
    then show ?thesis
      using True assms(2) same_set_iff [of mediaIds ?held] held
      by (auto simp: reorder_media_def await_def action_defs Let_def shown media_reorder_def fold_place_other)
  next
    case False
    then show ?thesis
      using assms(2) same_set_iff [of mediaIds ?held] held
      by (auto simp: reorder_media_def await_def action_defs Let_def)
  qed
qed

subsection \<open>Erasing photographs\<close>

lemma delete_object_simps [simp]:
  "media_rows (delete_object storage key db) = media_rows db" "listing_rows (delete_object storage key db) = listing_rows db"
  "location_rows (delete_object storage key db) = location_rows db" "catalogue (delete_object storage key db) = catalogue db"
  "set (bucket (delete_object storage key db)) = set (bucket db) - (if delete_fails storage key then {} else {key})"
  by (simp_all add: delete_object_def)

lemma discard_simps [simp]:
  "media_rows (discard storage media db) = media_rows db" "listing_rows (discard storage media db) = listing_rows db"
  "location_rows (discard storage media db) = location_rows db" "catalogue (discard storage media db) = catalogue db"
  unfolding discard_def by (induction media arbitrary: db) simp_all

definition keys_of :: "MediaRow list \<Rightarrow> string set" where
  "keys_of media = media_displayKey ` set media \<union> media_thumbnailKey ` set media"

lemma discard_bucket: "set (bucket (discard storage media db)) = set (bucket db) - {k \<in> keys_of media. \<not> delete_fails storage k}"
  unfolding discard_def by (induction media arbitrary: db) (auto simp: keys_of_def)

lemma keys_inOwnersOrder [simp]: "keys_of (inOwnersOrder media) = keys_of media"
  by (simp add: keys_of_def)

abbreviation media_of :: "string list \<Rightarrow> ListingDb \<Rightarrow> MediaRow list" where
  "media_of ids db \<equiv> filter (\<lambda>m. media_listingId m \<in> set ids) (media_rows db)"

lemma erase_media_simps [simp]:
  "listing_rows (eraseForListings storage ids db) = listing_rows db" "location_rows (eraseForListings storage ids db) = location_rows db"
  "catalogue (eraseForListings storage ids db) = catalogue db"
  "media_rows (eraseForListings storage ids db) = filter (\<lambda>m. media_listingId m \<notin> set ids) (media_rows db)"
proof -
  show "media_rows (eraseForListings storage ids db) = filter (\<lambda>m. media_listingId m \<notin> set ids) (media_rows db)"
  proof (cases "listForListings ids db = []")
    case True
    then have "media_of ids db = []" by (auto simp: listForListings_def inOwnersOrder_def set_empty [symmetric] simp del: set_empty split: if_splits)
    then show ?thesis using True by (auto simp: eraseForListings_def filter_empty_conv filter_id_conv)
  qed (simp add: eraseForListings_def Let_def media_deleteFor_def)
qed (simp_all add: eraseForListings_def Let_def media_deleteFor_def)

lemma erase_media_bucket:
  "set (bucket (eraseForListings storage ids db)) = set (bucket db) - {k \<in> keys_of (media_of ids db). \<not> delete_fails storage k}"
proof (cases "listForListings ids db = []")
  case True
  then have "media_of ids db = []" by (auto simp: listForListings_def inOwnersOrder_def set_empty [symmetric] simp del: set_empty split: if_splits)
  then have "keys_of (media_of ids db) = {}" by (simp add: keys_of_def)
  then show ?thesis using True by (simp add: eraseForListings_def)
next
  case False
  then show ?thesis by (auto simp: eraseForListings_def Let_def media_deleteFor_def discard_bucket listForListings_def split: if_splits)
qed

text \<open>When an object cannot be deleted its row goes all the same: the bytes stay, nothing names them and erasing again does not find them.\<close>

lemma failed_delete_orphans_bytes:
  assumes "m \<in> set (media_rows db)" "media_listingId m \<in> set ids" "media_displayKey m \<in> set (bucket db)"
    and "delete_fails storage (media_displayKey m)" and "media_displayKey m \<notin> keys_of (filter (\<lambda>m. media_listingId m \<notin> set ids) (media_rows db))"
  shows "media_displayKey m \<in> set (bucket (eraseForListings storage' ids (eraseForListings storage ids db)))
    \<and> media_displayKey m \<notin> keys_of (media_rows (eraseForListings storage ids db))"
proof -
  have "media_of ids (eraseForListings storage ids db) = []" by (simp add: filter_empty_conv)
  then have none: "keys_of (media_of ids (eraseForListings storage ids db)) = {}" by (simp add: keys_of_def)
  have "media_displayKey m \<in> set (bucket (eraseForListings storage ids db))" using assms(3,4) by (simp add: erase_media_bucket)
  then show ?thesis using assms(5) none by (simp add: erase_media_bucket)
qed

text \<open>An upload whose thumbnail cannot be stored leaves its display image in the bucket, and no row names it.\<close>

lemma failed_upload_orphans_bytes:
  assumes "existsOwnedBy i owner db" "length (media_listFor i db) < LISTING_MEDIA_LIMIT" "prepareImage sharp bytes = Inr p"
    and "put_outcome storage (objectKey i (newKeyId env) ''display'') = PutStored"
    and "put_outcome storage (objectKey i (newKeyId env) ''thumbnail'') = PutUnavailable"
  shows "add_media race1 race2 sharp storage env i owner bytes db =
    (Inl (MediaRefused StorageUnavailable), db\<lparr>bucket := List.insert (objectKey i (newKeyId env) ''display'') (bucket db)\<rparr>)"
  using assms by (simp add: add_media_def await_def action_defs Let_def put_object_def)

subsection \<open>An example\<close>

definition split_detail :: "string \<Rightarrow> EncryptedDetail" where
  "split_detail s = (let n = length (takeWhile ((=) CHR ''x'') s); rest = drop (Suc n) s in
     \<lparr>detailLine1 = take n rest, detailLine2 = (case drop n rest of [] \<Rightarrow> None | _ # l \<Rightarrow> Some l)\<rparr>)"

definition plain_encryptor :: FieldEncryptor where
  "plain_encryptor = \<lparr>encrypt = (\<lambda>d i. replicate (length (detailLine1 d)) (CHR ''x'') @ CHR ''|'' # detailLine1 d @
       (case detailLine2 d of None \<Rightarrow> [] | Some l \<Rightarrow> CHR ''!'' # l)),
     decrypt = (\<lambda>s i. Some (split_detail s))\<rparr>"

definition shop_row :: ListingRow where
  "shop_row = \<lparr>l_id = ''l1'', l_ownerId = ''olive'', l_categoryId = ''c1'', l_categoryVersionId = ''v1'', l_title = ''Drill'',
     l_description = ''A good drill'', l_replacementAmount = 20000, l_replacementCurrency = GBP, l_daily = Some 1500, l_weekend = None,
     l_weekly = None, l_rateCurrency = GBP, l_attributes = example_values, l_transport = Some CarBoot, l_twoPersonLift = False,
     l_outwardCode = Some ''SW1A'', l_town = Some ''London'', l_status = Draft, l_moderationState = Approved, l_moderationReason = None,
     l_moderatedById = None, l_moderatedAt = None, l_createdAt = 1, l_updatedAt = 1\<rparr>"

definition shop_address :: PostalAddress where
  "shop_address = \<lparr>line1 = ''1 High Street'', line2 = None, town = ''London'', postcode = ''SW1A 1AA''\<rparr>"

definition shop_point :: LocatedListingPoint where
  "shop_point = fuzzedAt \<lparr>latitude = 515 / 10, longitude = - 1 / 10\<rparr> \<lparr>bearingDegrees = 90, distanceMetres = 700\<rparr>"

definition shop_listings :: ListingDb where
  "shop_listings = \<lparr>catalogue = shop_db, listing_rows = [shop_row],
     location_rows = [\<lparr>loc_listingId = ''l1'', loc_postcode = ''SW1A 1AA'', loc_detail = seal plain_encryptor ''l1'' shop_address,
       loc_point = Some shop_point\<rparr>], media_rows = [], bucket = []\<rparr>"

definition shop_storage :: ObjectStore where
  "shop_storage = \<lparr>put_outcome = (\<lambda>_. PutStored), delete_fails = (\<lambda>_. False), signedUrl = (\<lambda>k t. k)\<rparr>"

definition shop_photo :: "string \<Rightarrow> int \<Rightarrow> MediaRow" where
  "shop_photo i p = \<lparr>media_id = i, media_listingId = ''l1'', media_position = p, media_displayKey = i @ ''d'', media_thumbnailKey = i @ ''t'',
     media_contentType = OUTPUT_CONTENT_TYPE, media_byteSize = 1, media_width = 1600, media_height = 900, media_thumbnailWidth = 400,
     media_thumbnailHeight = 225, media_sha256 = [], media_moderationState = Approved, media_createdAt = 1\<rparr>"

theorem reorder_shows_asked_order_witness:
  "\<exists>shown db'. reorder_media shop_storage ''l1'' ''olive'' [''p2'', ''p1'']
       (shop_listings\<lparr>media_rows := [shop_photo ''p1'' 0, shop_photo ''p2'' 1]\<rparr>) = (Inr (Some shown), db')
     \<and> map shownId shown = [''p2'', ''p1'']"
proof -
  let ?db = "shop_listings\<lparr>media_rows := [shop_photo ''p1'' 0, shop_photo ''p2'' 1]\<rparr>"
  have d: "distinct (map media_id (media_rows ?db))" "existsOwnedBy ''l1'' ''olive'' ?db"
    by (simp_all add: shop_photo_def existsOwnedBy_def owned_listing_def shop_listings_def shop_row_def)
  have "{m \<in> set (media_rows ?db). media_listingId m = ''l1''} = set (media_rows ?db)" by (auto simp: shop_photo_def)
  then have "set [''p2'', ''p1''] = media_id ` {m \<in> set (media_rows ?db). media_listingId m = ''l1''}" by (simp add: shop_photo_def insert_commute)
  then show ?thesis
    using reorder_shows_asked_order [OF d, where storage = shop_storage and mediaIds = "[''p2'', ''p1'']"]
    by (cases "reorder_media shop_storage ''l1'' ''olive'' [''p2'', ''p1''] ?db") (auto split: sum.splits option.splits)
qed

end
