(* ===== verification/Listings.thy ===== *)
theory Listings
  imports Listing_Media
begin

section \<open>The listings service\<close>

text \<open>
  \<^verbatim>\<open>apps/api/src/catalogue/listings.service.ts\<close>: creating, editing, publishing, pausing, moderating, reading, exporting and
  erasing listings. Its collaborators are the members of \<open>ListingDeps\<close>: the locator, the publication switch, the
  owner statuses, the encryptor and the object store as this call finds them. \<open>race\<close> is what other calls do to the
  database between two awaited steps of this one; with \<open>id\<close> calls follow one another.
\<close>

subsection \<open>Writing\<close>

record ListingDeps =
  fieldEncryptor :: FieldEncryptor
  locator_locate :: "string \<Rightarrow> GeocodeFailure + LocatedListingPoint option"
  locator_relocate :: "string \<Rightarrow> StoredFuzzOffset \<Rightarrow> GeocodeFailure + LocatedListingPoint option"
  isPublicationEnabled :: bool
  findOwnerStatus :: "string \<Rightarrow> OwnerStatus option"
  objectStore :: ObjectStore
  listingEnv :: ListingEnv

record SubmittedListingEdit =
  sub_title :: string
  sub_description :: string
  sub_replacementValue :: Money
  sub_attributes :: json
  sub_transport :: "TransportRequirement option"
  sub_twoPersonLift :: bool
  sub_rates :: ListingRateCard
  sub_location :: "PostalAddress option"
  sub_versionNumber :: int

record SubmittedListing = SubmittedListingEdit +
  sub_ownerId :: string
  sub_categorySlug :: string

definition others :: "(ListingDb \<Rightarrow> ListingDb) \<Rightarrow> unit listing_action" where
  "others race db = (Inr (), race db)"

text \<open>What both forms are checked for, against the configuration about to be pinned.\<close>

definition check_form :: "string \<Rightarrow> CategoryOptionRecord \<Rightarrow> 'a SubmittedListingEdit_scheme \<Rightarrow> ListingError + ListingAttributeValues" where
  "check_form slug category submitted =
    (if optionVersion category \<noteq> sub_versionNumber submitted
     then Inl (CategoryChanged slug (sub_versionNumber submitted) (optionVersion category))
     else
       rbind (map_sum AttributeValuesInvalid id (validateAttributeValues (optionAttributes category) (sub_attributes submitted))) (\<lambda>vals.
       case sub_transport submitted of
         None \<Rightarrow> Inr vals
       | Some t \<Rightarrow> if offersTransportRequirement (optionTransport category) t then Inr vals else Inl (TransportNotOffered t)))"

definition createDraft :: "(ListingDb \<Rightarrow> ListingDb) \<Rightarrow> ListingDeps \<Rightarrow> SubmittedListing \<Rightarrow> ListingRecord listing_action" where
  "createDraft race deps submitted =
    await (lookup_listing (findOption (sub_categorySlug submitted))) (\<lambda>found.
    case found of
      None \<Rightarrow> throw (UnknownCategory (sub_categorySlug submitted))
    | Some category \<Rightarrow>
        await (pure_step (check_form (sub_categorySlug submitted) category submitted)) (\<lambda>vals.
        await (pure_step (map_sum LocatorFailed id
            (case sub_location submitted of None \<Rightarrow> Inr None | Some a \<Rightarrow> locator_locate deps (postcode a)))) (\<lambda>point.
        await (others race) (\<lambda>_.
        store_createDraft (fieldEncryptor deps) (listingEnv deps)
          \<lparr>draftOwnerId = sub_ownerId submitted, draftCategorySlug = sub_categorySlug submitted, draftTitle = sub_title submitted,
           draftDescription = sub_description submitted, draftReplacementValue = sub_replacementValue submitted,
           draftAttributes = vals, draftTransport = sub_transport submitted, draftTwoPersonLift = sub_twoPersonLift submitted,
           draftRates = sub_rates submitted, draftLocation = sub_location submitted, draftPoint = point,
           draftVersionNumber = optionVersion category\<rparr>))))"

definition editedLocation :: "ListingDeps \<Rightarrow> ListingRecord \<Rightarrow> string \<Rightarrow> PostalAddress option \<Rightarrow> CollectionLocationEdit listing_action" where
  "editedLocation deps listing owner submitted =
    (case submitted of
       None \<Rightarrow> done_with Cleared
     | Some a \<Rightarrow>
         if map_option postcode (lr_location listing) = Some (postcode a) \<and> lr_isLocated listing then done_with (AddressOnly a)
         else
           await (reading (findFuzzOffset (lr_id listing) owner)) (\<lambda>offset.
           await (pure_step (map_sum LocatorFailed id
               (case offset of None \<Rightarrow> locator_locate deps (postcode a) | Some off \<Rightarrow> locator_relocate deps (postcode a) off))) (\<lambda>point.
             done_with (Relocated a point))))"

fun willBeLocated :: "CollectionLocationEdit \<Rightarrow> bool" where
  "willBeLocated Cleared = False"
| "willBeLocated (AddressOnly a) = True"
| "willBeLocated (Relocated a p) = (p \<noteq> None)"

definition edited_candidate ::
  "ListingDeps \<Rightarrow> string \<Rightarrow> CategoryOptionRecord \<Rightarrow> 'a SubmittedListingEdit_scheme \<Rightarrow> ListingAttributeValues \<Rightarrow> CollectionLocationEdit
    \<Rightarrow> PublicationCandidate" where
  "edited_candidate deps owner category submitted vals location =
    \<lparr>candidateDescription = sub_description submitted, candidateAttributes = vals, candidateQuestions = optionAttributes category,
     candidateTransportOptions = optionTransport category, candidateTransport = sub_transport submitted,
     candidateRates = sub_rates submitted, hasCollectionLocation = (location \<noteq> Cleared),
     candidateLocated = willBeLocated location, candidateOwnerStatus = findOwnerStatus deps owner\<rparr>"

definition edit :: "(ListingDb \<Rightarrow> ListingDb) \<Rightarrow> ListingDeps \<Rightarrow> string \<Rightarrow> string \<Rightarrow> SubmittedListingEdit \<Rightarrow> ListingRecord option listing_action" where
  "edit race deps i owner submitted =
    await (findOwnedBy (fieldEncryptor deps) i owner) (\<lambda>found.
    case found of
      None \<Rightarrow> done_with None
    | Some listing \<Rightarrow>
        await (lookup_listing (findOption (lr_categorySlug listing))) (\<lambda>option'.
        case option' of
          None \<Rightarrow> throw (UnknownCategory (lr_categorySlug listing))
        | Some category \<Rightarrow>
            await (pure_step (check_form (lr_categorySlug listing) category submitted)) (\<lambda>vals.
            await (editedLocation deps listing owner (sub_location submitted)) (\<lambda>location.
            await (if lr_status listing = Published
                   then (case publicationBlockers (edited_candidate deps owner category submitted vals location) of
                           [] \<Rightarrow> done_with () | bs \<Rightarrow> throw (PublishedIncomplete bs))
                   else done_with ()) (\<lambda>_.
            await (others race) (\<lambda>_.
            update_listing (fieldEncryptor deps) (listingEnv deps) i owner
              \<lparr>editTitle = sub_title submitted, editDescription = sub_description submitted,
               editReplacementValue = sub_replacementValue submitted, editAttributes = vals, editTransport = sub_transport submitted,
               editTwoPersonLift = sub_twoPersonLift submitted, editRates = sub_rates submitted, editLocation = location,
               editVersionNumber = optionVersion category\<rparr>))))))"

definition refuseIllegalTransition :: "ListingTransition \<Rightarrow> ListingStatus \<Rightarrow> ListingError + unit" where
  "refuseIllegalTransition transition from =
    (case transitionRefusal transition from of None \<Rightarrow> Inr () | Some refusal \<Rightarrow> Inl (TransitionRefused refusal))"

definition record_candidate :: "ListingRecord \<Rightarrow> OwnerStatus option \<Rightarrow> PublicationCandidate" where
  "record_candidate listing status =
    \<lparr>candidateDescription = lr_description listing, candidateAttributes = lr_attributes listing,
     candidateQuestions = lr_questions listing, candidateTransportOptions = lr_transportOptions listing,
     candidateTransport = lr_transport listing, candidateRates = lr_rates listing,
     hasCollectionLocation = (lr_location listing \<noteq> None), candidateLocated = lr_isLocated listing, candidateOwnerStatus = status\<rparr>"

definition publish :: "(ListingDb \<Rightarrow> ListingDb) \<Rightarrow> ListingDeps \<Rightarrow> string \<Rightarrow> string \<Rightarrow> ListingRecord option listing_action" where
  "publish race deps i owner =
    (if \<not> isPublicationEnabled deps then throw PublicationSuspended
     else
       await (findOwnedBy (fieldEncryptor deps) i owner) (\<lambda>found.
       case found of
         None \<Rightarrow> done_with None
       | Some listing \<Rightarrow>
           await (pure_step (refuseIllegalTransition Publish (lr_status listing))) (\<lambda>_.
           await (case publicationBlockers (record_candidate listing (findOwnerStatus deps owner)) of
                    [] \<Rightarrow> done_with () | bs \<Rightarrow> throw (NotPublishable bs)) (\<lambda>_.
           await (others race) (\<lambda>_. store_publish (fieldEncryptor deps) (listingEnv deps) i owner)))))"

definition pause :: "(ListingDb \<Rightarrow> ListingDb) \<Rightarrow> ListingDeps \<Rightarrow> string \<Rightarrow> string \<Rightarrow> ListingRecord option listing_action" where
  "pause race deps i owner =
    await (findOwnedBy (fieldEncryptor deps) i owner) (\<lambda>found.
    case found of
      None \<Rightarrow> done_with None
    | Some listing \<Rightarrow>
        await (pure_step (refuseIllegalTransition Pause (lr_status listing))) (\<lambda>_.
        await (others race) (\<lambda>_. store_pause (fieldEncryptor deps) (listingEnv deps) i owner)))"

record AuditableModeration =
  auditedState :: ModerationState
  auditedReason :: "string option"

definition moderationAuditable :: "ListingRecord \<Rightarrow> AuditableModeration" where
  "moderationAuditable listing = \<lparr>auditedState = lr_moderationState listing, auditedReason = lr_moderationReason listing\<rparr>"

definition audit_listing :: "(AuditableModeration \<Rightarrow> string) \<Rightarrow> CatalogueEnv \<Rightarrow> AuditableModeration RecordChange \<Rightarrow> unit listing_action" where
  "audit_listing digest env change db =
    (Inr (), db\<lparr>catalogue := (catalogue db)\<lparr>audit_rows :=
       record_change digest (newAuditId env) (catalogueNow env) change (audit_rows (catalogue db))\<rparr>\<rparr>)"

definition moderate ::
  "(ListingDb \<Rightarrow> ListingDb) \<Rightarrow> (AuditableModeration \<Rightarrow> string) \<Rightarrow> CatalogueEnv \<Rightarrow> ListingDeps \<Rightarrow> Actor \<Rightarrow> string \<Rightarrow> ModerationState \<Rightarrow> string option
    \<Rightarrow> ListingRecord option listing_action" where
  "moderate race digest env deps actor i state given =
    (let reason = (case given of None \<Rightarrow> [] | Some r \<Rightarrow> trim r) in
     if moderationRequiresReason state \<and> reason = [] then throw (ModerationReasonRequired state)
     else
       await (findForModeration (fieldEncryptor deps) i) (\<lambda>found.
       case found of
         None \<Rightarrow> done_with None
       | Some before \<Rightarrow>
           await (others race) (\<lambda>_.
           await (store_moderate (fieldEncryptor deps)
               \<lparr>decisionListingId = i, decisionState = state, decisionReason = (if reason = [] then None else Some reason),
                moderatorId = actorUserId actor, decidedAt = catalogueNow env\<rparr>) (\<lambda>written.
           case written of
             None \<Rightarrow> done_with None
           | Some after \<Rightarrow>
               await (audit_listing digest env \<lparr>changeActor = Some actor, changeAction = ListingModerated, changeTargetType = ''listing'',
                   changeTargetId = lr_id after, changeBefore = Some (moderationAuditable before),
                   changeAfter = Some (moderationAuditable after), changeReason = (if reason = [] then None else Some reason)\<rparr>) (\<lambda>_.
                 done_with (Some after))))))"

subsection \<open>Reading\<close>

record PublicListingView =
  viewListing :: PublicListingRecord
  viewOwnerStatus :: OwnerStatus
  viewMedia :: "PublicListingMedia list"

definition findPublic :: "ListingDeps \<Rightarrow> string \<Rightarrow> ListingDb \<Rightarrow> ListingFault + PublicListingView option" where
  "findPublic deps i db =
    rbind (findPublished i db) (\<lambda>found.
    case found of
      None \<Rightarrow> Inr None
    | Some listing \<Rightarrow>
        if findOwnerStatus deps (pl_ownerId listing) \<noteq> Some PrivateOwner then Inr None
        else Inr (Some \<lparr>viewListing = listing, viewOwnerStatus = PrivateOwner,
                        viewMedia = signAll (objectStore deps) (pl_media listing)\<rparr>))"

definition findQuotable :: "ListingDeps \<Rightarrow> string \<Rightarrow> ListingDb \<Rightarrow> ListingFault + QuotableListing option" where
  "findQuotable deps i db =
    rbind (store_findQuotable i db) (\<lambda>found.
    case found of
      None \<Rightarrow> Inr None
    | Some listing \<Rightarrow> if findOwnerStatus deps (quotableOwnerId listing) \<noteq> Some PrivateOwner then Inr None else Inr (Some listing))"

definition OWNED_LISTING_LIMIT :: nat where "OWNED_LISTING_LIMIT = 200"
definition EXPORTED_LISTING_LIMIT :: nat where "EXPORTED_LISTING_LIMIT = 1000"

definition listOwned :: "ListingDeps \<Rightarrow> string \<Rightarrow> ListingDb \<Rightarrow> ListingFault + ListingRecord Page" where
  "listOwned deps owner db =
    rbind (listOwnedBy (fieldEncryptor deps) owner (probe OWNED_LISTING_LIMIT) db) (\<lambda>rows. Inr (fitTo rows OWNED_LISTING_LIMIT))"

definition categoryOptions :: "ListingDb \<Rightarrow> ListingFault + CategoryOptionRecord list" where
  "categoryOptions db =
    rbind (listOptions (probe CATEGORY_LIST_LIMIT) db) (\<lambda>rows. Inr (items (fitTo rows CATEGORY_LIST_LIMIT)))"

definition publicCategories :: "ListingDb \<Rightarrow> (string \<times> string) list" where
  "publicCategories db = items (fitTo (listCategoryNames (probe CATEGORY_LIST_LIMIT) db) CATEGORY_LIST_LIMIT)"

definition resolveSearchCategory :: "string \<Rightarrow> ListingDb \<Rightarrow> ListingError + string" where
  "resolveSearchCategory slug db = (case findCategoryId slug db of None \<Rightarrow> Inl (UnknownCategory slug) | Some i \<Rightarrow> Inr i)"

record ExportedListing =
  exportedId :: string
  exportedTitle :: string
  exportedCreatedAt :: int
  exportedLocation :: "PostalAddress option"

definition exportFor :: "ListingDeps \<Rightarrow> string \<Rightarrow> ListingDb \<Rightarrow> ListingFault + ExportedListing Page" where
  "exportFor deps owner db =
    rbind (listOwnedBy (fieldEncryptor deps) owner (probe EXPORTED_LISTING_LIMIT) db) (\<lambda>rows.
      let page = fitTo rows EXPORTED_LISTING_LIMIT in
      Inr \<lparr>items = map (\<lambda>r. \<lparr>exportedId = lr_id r, exportedTitle = lr_title r, exportedCreatedAt = lr_createdAt r,
             exportedLocation = lr_location r\<rparr>) (items page), truncated = truncated page\<rparr>)"

subsection \<open>Erasing\<close>

text \<open>\<open>bdb\<close> is the booking table when the references are asked for, \<open>bdb'\<close> when the rows are deleted.\<close>

definition listings_eraseFor :: "BookingDb \<Rightarrow> BookingDb \<Rightarrow> ListingDeps \<Rightarrow> Actor \<Rightarrow> unit listing_action" where
  "listings_eraseFor bdb bdb' deps actor =
    await (reading (listIdsOwnedBy (actorUserId actor))) (\<lambda>owned.
    let booked = findBookedListings owned bdb in
    await (\<lambda>db. (Inr (), eraseForListings (objectStore deps) owned db)) (\<lambda>_.
    eraseOwnedBy (\<lambda>i. list_ex (\<lambda>b. bk_listingId b = i) (booking_rows bdb')) (actorUserId actor) booked))"

end
