(* ===== verification/Listings_Safety.thy ===== *)
theory Listings_Safety
  imports Listings
begin

section \<open>What is published, and what the public learns\<close>

text \<open>
  The invariant of the listing tables and the theorems about the service: a listing goes public only through the
  publication gate and stays complete while it is public, moderation hides it with a reason, an address is never
  read by a public question, the fuzz offset survives edits, and erasing an account removes what it must.
\<close>

subsection \<open>The invariant of the tables\<close>

definition readable :: "FieldEncryptor \<Rightarrow> bool" where
  "readable encryptor \<longleftrightarrow> (\<forall>d i. decrypt encryptor (encrypt encryptor d i) i = Some d)"

definition pinned_ok :: "ListingDb \<Rightarrow> ListingRow \<Rightarrow> bool" where
  "pinned_ok db r \<longleftrightarrow> (\<exists>v \<in> set (version_rows (catalogue db)). cv_id v = l_categoryVersionId r \<and> cv_categoryId v = l_categoryId r)"

definition location_ok :: "FieldEncryptor \<Rightarrow> LocationRow \<Rightarrow> bool" where
  "location_ok encryptor loc \<longleftrightarrow> location_checks loc \<and> decrypt encryptor (loc_detail loc) (loc_listingId loc) \<noteq> None"

definition listing_inv :: "FieldEncryptor \<Rightarrow> ListingDb \<Rightarrow> bool" where
  "listing_inv encryptor db \<longleftrightarrow> cat_inv (catalogue db) \<and> distinct (map l_id (listing_rows db)) \<and>
     (\<forall>r \<in> set (listing_rows db). listing_checks r \<and> pinned_ok db r) \<and>
     (\<forall>loc \<in> set (location_rows db). location_ok encryptor loc)"

text \<open>What a listing needs before strangers may see it, read off its row and the version it is pinned to.\<close>

definition complete :: "ListingDb \<Rightarrow> ListingRow \<Rightarrow> bool" where
  "complete db r \<longleftrightarrow> trim (l_description r) \<noteq> [] \<and> l_daily r \<noteq> None \<and> isLocated db (l_id r) \<and>
     (\<exists>v. version_by_id (l_categoryVersionId r) db = Some v \<and> (cv_transportOptions v = [] \<or> l_transport r \<noteq> None) \<and>
        (\<forall>a \<in> set (cv_attributes v). required a \<longrightarrow> is_answered (l_attributes r) (attributeKey a)))"

lemma blockers_none_iff:
  "publicationBlockers c = [] \<longleftrightarrow> trim (candidateDescription c) \<noteq> [] \<and>
     (\<forall>a \<in> set (candidateQuestions c). required a \<longrightarrow> is_answered (candidateAttributes c) (attributeKey a)) \<and>
     (candidateTransportOptions c = [] \<or> candidateTransport c \<noteq> None) \<and> daily (candidateRates c) \<noteq> None \<and>
     candidateOwnerStatus c = Some PrivateOwner \<and> hasCollectionLocation c \<and> candidateLocated c"
  by (auto simp: publicationBlockers_def filter_empty_conv split: option.splits OwnerStatus.splits)

lemma find_cong_distinct: "distinct (map f xs) \<Longrightarrow> x \<in> set xs \<Longrightarrow> P x \<Longrightarrow> find (\<lambda>y. f y = f x \<and> P y) xs = Some x"
  by (induction xs) auto

lemma owned_mem: "owned_listing i owner db = Some r \<Longrightarrow> r \<in> set (listing_rows db) \<and> l_id r = i \<and> l_ownerId r = owner"
  unfolding owned_listing_def by (drule find_Some_mem) auto

lemma by_id_mem: "listing_by_id i db = Some r \<Longrightarrow> r \<in> set (listing_rows db) \<and> l_id r = i"
  unfolding listing_by_id_def by (drule find_Some_mem) auto

lemma location_of_mem: "location_of i db = Some loc \<Longrightarrow> loc \<in> set (location_rows db) \<and> loc_listingId loc = i"
  unfolding location_of_def by (drule find_Some_mem) auto

lemma asMoney_int4: "int4 n \<Longrightarrow> asMoney n c what = Inr \<lparr>amount = n, currency = c\<rparr>"
  by (simp add: asMoney_def money_int safe_int_def int4_def abs_less_iff)

lemma asRate_bounds: "rate_in_bounds a \<Longrightarrow> asRate r a = Inr (map_option (\<lambda>n. \<lparr>amount = n, currency = l_rateCurrency r\<rparr>) a)"
  by (cases a) (simp_all add: asRate_def rate_in_bounds_def asMoney_int4 int4_def)

lemma latest_version_mem:
  assumes "latest_version c db = Some v"
  shows "v \<in> set (version_rows db)"
proof -
  have "v \<in> set (sort_key (\<lambda>v. - cv_versionNumber v) (filter (\<lambda>v. cv_categoryId v = c) (version_rows db)))"
    using assms unfolding latest_version_def by (simp only: split: list.splits) (auto simp del: set_sort)
  then show ?thesis by simp
qed

lemma pinned_reads:
  assumes "listing_inv encryptor db" "r \<in> set (listing_rows db)"
  obtains c v w where "pinned_version db r = Inr (c, v, w)" "version_by_id (l_categoryVersionId r) db = Some v" "version_ok v"
    "c \<in> set (category_rows (catalogue db))" "cat_id c = l_categoryId r" "latest_version (l_categoryId r) (catalogue db) = Some w"
    "version_ok w" "cv_categoryId w = l_categoryId r"
proof -
  have inv: "cat_inv (catalogue db)" using assms(1) by (simp add: listing_inv_def)
  obtain v where v: "v \<in> set (version_rows (catalogue db))" "cv_id v = l_categoryVersionId r" "cv_categoryId v = l_categoryId r"
    using assms by (auto simp: listing_inv_def pinned_ok_def)
  have found: "version_by_id (l_categoryVersionId r) db = Some v"
    using inv v unfolding version_by_id_def by (intro find_distinct) (auto simp: cat_inv_def)
  have ok: "version_ok v" "cv_categoryId v \<in> cat_id ` set (category_rows (catalogue db))" using inv v(1) by (auto simp: cat_inv_def)
  then obtain c where c: "c \<in> set (category_rows (catalogue db))" "cat_id c = l_categoryId r" using v(3) by auto
  have cat: "category_by_id (cv_categoryId v) db = Some c"
    using inv c v(3) unfolding category_by_id_def by (intro find_distinct) (auto simp: cat_inv_def)
  obtain w where w: "latest_version (cat_id c) (catalogue db) = Some w" "w \<in> set (versions_of (cat_id c) (catalogue db))"
    using latest_number [OF inv c(1)] by blast
  then have "version_ok w" "cv_categoryId w = l_categoryId r" using inv c(2) by (auto simp: cat_inv_def versions_of_def)
  moreover have "pinned_version db r = Inr (c, v, w)" using found cat w(1) by (simp add: pinned_version_def)
  ultimately show thesis using that found ok(1) c w(1) by simp
qed

lemma version_ok_parts:
  assumes "version_ok v"
  shows "asAttributes (cv_attributes v) what = Inr (cv_attributes v)" "asTransportOptions (cv_transportOptions v) what = Inr (cv_transportOptions v)"
    "\<exists>d. asDamageSecurity v what = Inr d" "asFeePolicy_listing v what = Inr (asFeePolicy v)"
  using assms
  by (auto simp: version_ok_def asAttributes_def asTransportOptions_def asDamageSecurity_def version_checks_def damage_security_is_complete_def
      asFeePolicy_listing_def asFeePolicy_def asMoney_int4 split: option.splits)

lemma toLocation_reads:
  assumes "listing_inv encryptor db"
  obtains a where "toLocation encryptor db r = Inr a" "(a = None) = (location_of (l_id r) db = None)"
    "map_option postcode a = map_option loc_postcode (location_of (l_id r) db)"
proof (cases "location_of (l_id r) db")
  case (Some loc)
  then have "location_ok encryptor loc" "loc_listingId loc = l_id r" using assms location_of_mem by (auto simp: listing_inv_def)
  then obtain d where "decrypt encryptor (loc_detail loc) (l_id r) = Some d" by (auto simp: location_ok_def)
  then show thesis using that Some by (simp add: toLocation_def)
qed (simp add: that toLocation_def)

lemma isLocated_has: "isLocated db i \<Longrightarrow> location_of i db \<noteq> None"
  by (auto simp: isLocated_def split: option.splits)

lemma record_reads:
  assumes inv: "listing_inv encryptor db" and r: "r \<in> set (listing_rows db)"
  obtains rec c where "toRecord_listing encryptor db r = Inr rec" "lr_id rec = l_id r" "lr_ownerId rec = l_ownerId r"
    "lr_status rec = l_status r" "lr_moderationState rec = l_moderationState r" "lr_moderationReason rec = l_moderationReason r"
    "lr_isLocated rec = isLocated db (l_id r)" "map_option postcode (lr_location rec) = map_option loc_postcode (location_of (l_id r) db)"
    "c \<in> set (category_rows (catalogue db))" "cat_id c = l_categoryId r" "lr_categorySlug rec = cat_slug c"
    "\<And>status. publicationBlockers (record_candidate rec status) = [] \<longleftrightarrow> complete db r \<and> status = Some PrivateOwner"
proof -
  obtain c v w where v: "pinned_version db r = Inr (c, v, w)" "version_by_id (l_categoryVersionId r) db = Some v" "version_ok v"
    "c \<in> set (category_rows (catalogue db))" "cat_id c = l_categoryId r" "version_ok w"
    by (rule pinned_reads [OF inv r])
  obtain d where d: "asDamageSecurity w (l_id r) = Inr d" using version_ok_parts(3) [OF v(6)] by blast
  obtain a where a: "toLocation encryptor db r = Inr a" "(a = None) = (location_of (l_id r) db = None)"
    "map_option postcode a = map_option loc_postcode (location_of (l_id r) db)"
    by (rule toLocation_reads [OF inv])
  have checks: "listing_checks r" using inv r by (simp add: listing_inv_def)
  define card where "card = \<lparr>daily = map_option (\<lambda>n. \<lparr>amount = n, currency = l_rateCurrency r\<rparr>) (l_daily r),
    weekend = map_option (\<lambda>n. \<lparr>amount = n, currency = l_rateCurrency r\<rparr>) (l_weekend r),
    weekly = map_option (\<lambda>n. \<lparr>amount = n, currency = l_rateCurrency r\<rparr>) (l_weekly r)\<rparr>"
  have rates: "asRateCard r = Inr card" using checks by (simp add: asRateCard_def listing_checks_def asRate_bounds card_def)
  have worth: "asMoney (l_replacementAmount r) (l_replacementCurrency r) (l_id r)
      = Inr \<lparr>amount = l_replacementAmount r, currency = l_replacementCurrency r\<rparr>"
    using checks by (simp add: listing_checks_def asMoney_int4)
  define rec where "rec = \<lparr>lr_id = l_id r, lr_ownerId = l_ownerId r, lr_categorySlug = cat_slug c, lr_categoryName = cv_name v,
    lr_versionNumber = cv_versionNumber v, lr_questions = cv_attributes v, lr_feePolicy = asFeePolicy w, lr_damageSecurity = d,
    lr_transportOptions = cv_transportOptions v, lr_title = l_title r, lr_description = l_description r,
    lr_replacementValue = \<lparr>amount = l_replacementAmount r, currency = l_replacementCurrency r\<rparr>,
    lr_rates = card, lr_attributes = l_attributes r, lr_transport = l_transport r, lr_twoPersonLift = l_twoPersonLift r,
    lr_location = a, lr_isLocated = isLocated db (l_id r), lr_status = l_status r,
    lr_moderationState = l_moderationState r, lr_moderationReason = l_moderationReason r,
    lr_createdAt = l_createdAt r, lr_updatedAt = l_updatedAt r\<rparr>"
  have "toRecord_listing encryptor db r = Inr rec"
    by (simp add: toRecord_listing_def v(1) version_ok_parts [OF v(3)] version_ok_parts(4) [OF v(6)] d rates worth a(1) rec_def)
  moreover have "publicationBlockers (record_candidate rec status) = [] \<longleftrightarrow> complete db r \<and> status = Some PrivateOwner" for status
    using a(2) isLocated_has [of db "l_id r"]
    by (auto simp: blockers_none_iff record_candidate_def rec_def complete_def v(2) card_def)
  ultimately show thesis using that [of rec c] v(4,5) a(3) by (simp add: rec_def)
qed

lemma findOwnedBy_reads:
  assumes "listing_inv encryptor db"
  shows "findOwnedBy encryptor i owner db = (case owned_listing i owner db of
     None \<Rightarrow> (Inr None, db) | Some r \<Rightarrow> (map_sum StoreFault Some (toRecord_listing encryptor db r), db))"
  by (cases "owned_listing i owner db"; cases "toRecord_listing encryptor db (the (owned_listing i owner db))")
    (auto simp: findOwnedBy_def lookup_listing_def read_row_def)

subsection \<open>Publishing\<close>

definition touch_row :: "string \<Rightarrow> (ListingRow \<Rightarrow> ListingRow) \<Rightarrow> ListingDb \<Rightarrow> ListingDb" where
  "touch_row i f db = db\<lparr>listing_rows := map (\<lambda>r. if l_id r = i then f r else r) (listing_rows db)\<rparr>"

text \<open>Rows of one owner with one id are the rows with that id.\<close>

lemma owned_only:
  assumes "distinct (map l_id (listing_rows db))" "owned_listing i owner db = Some r" "x \<in> set (listing_rows db)"
  shows "l_id x = i \<and> l_ownerId x = owner \<longleftrightarrow> x = r" "l_id x = i \<longleftrightarrow> x = r"
  using owned_mem [OF assms(2)] distinct_map_unique [OF assms(1)] assms(3) by auto

lemma update_owned:
  assumes "distinct (map l_id (listing_rows db))" "owned_listing i owner db = Some r" "listing_checks (f r)"
  shows "update_rows (\<lambda>r. l_id r = i \<and> l_ownerId r = owner) f db = Inr (touch_row i f db)"
proof -
  have "filter (\<lambda>x. l_id x = i \<and> l_ownerId x = owner) (listing_rows db) = filter (\<lambda>x. x = r) (listing_rows db)"
    "map (\<lambda>x. if l_id x = i \<and> l_ownerId x = owner then f x else x) (listing_rows db) = map (\<lambda>x. if l_id x = i then f x else x) (listing_rows db)"
    using owned_only [OF assms(1,2)] by (auto intro: filter_cong)
  then show ?thesis using assms(3) by (simp add: update_rows_def touch_row_def list_all_iff)
qed

lemma touch_row_simps [simp]:
  "catalogue (touch_row i f db) = catalogue db" "location_rows (touch_row i f db) = location_rows db"
  "media_rows (touch_row i f db) = media_rows db" "bucket (touch_row i f db) = bucket db"
  "location_of j (touch_row i f db) = location_of j db" "isLocated (touch_row i f db) j = isLocated db j"
  "version_by_id v (touch_row i f db) = version_by_id v db" "pinned_ok (touch_row i f db) r = pinned_ok db r"
  "set (listing_rows (touch_row i f db)) = (\<lambda>r. if l_id r = i then f r else r) ` set (listing_rows db)"
  by (simp_all add: touch_row_def location_of_def isLocated_def version_by_id_def pinned_ok_def)

lemma touch_owned:
  assumes "distinct (map l_id (listing_rows db))" "owned_listing i owner db = Some r" "l_id (f r) = i" "l_ownerId (f r) = owner"
  shows "owned_listing i owner (touch_row i f db) = Some (f r)" "map l_id (listing_rows (touch_row i f db)) = map l_id (listing_rows db)"
proof -
  have r: "r \<in> set (listing_rows db)" "l_id r = i" using owned_mem [OF assms(2)] by auto
  show ids: "map l_id (listing_rows (touch_row i f db)) = map l_id (listing_rows db)"
    using owned_only(2) [OF assms(1,2)] assms(3) r(2) by (auto simp: touch_row_def)
  have "f r \<in> set (listing_rows (touch_row i f db))" using r by force
  then show "owned_listing i owner (touch_row i f db) = Some (f r)"
    using find_cong_distinct [of l_id "listing_rows (touch_row i f db)" "f r" "\<lambda>r. l_ownerId r = owner"] assms ids
    by (simp add: owned_listing_def)
qed

lemma touch_inv:
  assumes "listing_inv encryptor db" "owned_listing i owner db = Some r" "l_id (f r) = i" "l_ownerId (f r) = owner"
    and "listing_checks (f r)" "pinned_ok db (f r)"
  shows "listing_inv encryptor (touch_row i f db)"
proof -
  have d: "distinct (map l_id (listing_rows db))" using assms(1) by (simp add: listing_inv_def)
  show ?thesis
    using assms touch_owned(2) [of db i owner r f] d owned_only(2) [OF d assms(2)] by (auto simp: listing_inv_def)
qed

lemma write_status_run:
  assumes "listing_inv encryptor db" "owned_listing i owner db = Some r"
  shows "write_status status env i owner db = (Inr True, touch_row i (\<lambda>r. r\<lparr>l_status := status, l_updatedAt := listingNow env\<rparr>) db)"
proof -
  have "listing_checks r" "distinct (map l_id (listing_rows db))" using assms owned_mem by (auto simp: listing_inv_def)
  moreover from this have "listing_checks (r\<lparr>l_status := status, l_updatedAt := listingNow env\<rparr>)" by (simp add: listing_checks_def)
  ultimately show ?thesis using assms(2) by (simp add: write_status_def atomically_def update_owned)
qed

abbreviation set_status :: "ListingStatus \<Rightarrow> ListingDeps \<Rightarrow> ListingRow \<Rightarrow> ListingRow" where
  "set_status status deps r \<equiv> r\<lparr>l_status := status, l_updatedAt := listingNow (listingEnv deps)\<rparr>"

lemma set_status_inv:
  assumes "listing_inv encryptor db" "owned_listing i owner db = Some r"
  shows "listing_inv encryptor (touch_row i (set_status status deps) db)"
proof -
  have "listing_checks r" "pinned_ok db r" "l_id r = i" "l_ownerId r = owner" using assms owned_mem by (auto simp: listing_inv_def)
  then show ?thesis by (intro touch_inv [OF assms]) (auto simp: listing_checks_def pinned_ok_def)
qed

lemma status_written:
  assumes inv: "listing_inv encryptor db" and r: "owned_listing i owner db = Some r"
  obtains rec where "await (write_status status (listingEnv deps) i owner) (\<lambda>found. if \<not> found then done_with None else findOwnedBy encryptor i owner) db
      = (Inr (Some rec), touch_row i (set_status status deps) db)" "lr_id rec = i" "lr_status rec = status" "lr_moderationState rec = l_moderationState r"
proof -
  let ?db = "touch_row i (set_status status deps) db" and ?r = "set_status status deps r"
  have inv': "listing_inv encryptor ?db" by (rule set_status_inv [OF inv r])
  have d: "distinct (map l_id (listing_rows db))" using inv by (simp add: listing_inv_def)
  have r': "owned_listing i owner ?db = Some ?r" using owned_mem [OF r] by (intro touch_owned(1) [OF d r]) auto
  then have mem: "?r \<in> set (listing_rows ?db)" using owned_mem by blast
  obtain rec where rec: "toRecord_listing encryptor ?db ?r = Inr rec" "lr_id rec = l_id ?r" "lr_status rec = l_status ?r"
      "lr_moderationState rec = l_moderationState ?r"
    by (rule record_reads [OF inv' mem]) blast
  show thesis
    using that [of rec] rec r' write_status_run [OF inv r, of status "listingEnv deps"] findOwnedBy_reads [OF inv', of i owner] owned_mem [OF r]
    by (simp add: await_def)
qed

lemma publishing_run:
  assumes "listing_inv (fieldEncryptor deps) db"
  shows "(\<not> isPublicationEnabled deps \<longrightarrow> publish id deps i owner db = (Inl PublicationSuspended, db))
    \<and> (isPublicationEnabled deps \<longrightarrow> (case owned_listing i owner db of
         None \<Rightarrow> publish id deps i owner db = (Inr None, db)
       | Some r \<Rightarrow>
           if complete db r \<and> findOwnerStatus deps owner = Some PrivateOwner
           then (\<exists>rec. publish id deps i owner db = (Inr (Some rec), touch_row i (set_status Published deps) db)
                 \<and> lr_id rec = i \<and> lr_status rec = Published)
           else (\<exists>bs. bs \<noteq> [] \<and> publish id deps i owner db = (Inl (NotPublishable bs), db))))"
proof (cases "owned_listing i owner db")
  case None
  then show ?thesis
    using findOwnedBy_reads [OF assms, of i owner] by (auto simp: publish_def await_def action_defs)
next
  case (Some r)
  obtain rec where rec: "toRecord_listing (fieldEncryptor deps) db r = Inr rec"
    "\<And>status. publicationBlockers (record_candidate rec status) = [] \<longleftrightarrow> complete db r \<and> status = Some PrivateOwner"
    by (rule record_reads [OF assms conjunct1 [OF owned_mem [OF Some]]]) blast
  have found: "findOwnedBy (fieldEncryptor deps) i owner db = (Inr (Some rec), db)"
    using findOwnedBy_reads [OF assms] Some rec(1) by simp
  have legal: "refuseIllegalTransition Publish s = Inr ()" for s
    by (cases s) (simp_all add: refuseIllegalTransition_def transitionRefusal_def canTransition_listing_def)
  show ?thesis
  proof (cases "publicationBlockers (record_candidate rec (findOwnerStatus deps owner))")
    case Nil
    then have "complete db r \<and> findOwnerStatus deps owner = Some PrivateOwner" using rec(2) by simp
    moreover obtain after where "store_publish (fieldEncryptor deps) (listingEnv deps) i owner db
        = (Inr (Some after), touch_row i (set_status Published deps) db)" "lr_id after = i" "lr_status after = Published"
      unfolding store_publish_def by (rule status_written [OF assms Some, of Published deps]) blast
    ultimately show ?thesis using Some Nil
      by (auto simp: publish_def await_def action_defs found legal others_def)
  next
    case (Cons b bs)
    then have "\<not> (complete db r \<and> findOwnerStatus deps owner = Some PrivateOwner)"
      using rec(2) [of "findOwnerStatus deps owner"] by simp
    then show ?thesis using Some Cons by (auto simp: publish_def await_def action_defs found legal)
  qed
qed


subsection \<open>Editing\<close>

lemma seal_readable: "readable encryptor \<Longrightarrow> decrypt encryptor (seal encryptor i a) i \<noteq> None"
  by (simp add: readable_def seal_def)

lemma writeLocation_rows:
  assumes "writeLocation encryptor i e db = Inr db'"
  shows "listing_rows db' = listing_rows db" "catalogue db' = catalogue db" "media_rows db' = media_rows db" "bucket db' = bucket db"
  using assms by (auto simp: writeLocation_def Let_def split: CollectionLocationEdit.splits if_splits)

lemma location_keyed: "location_of i db = Some loc \<Longrightarrow> loc_listingId loc = i"
  using location_of_mem by blast

lemma writeLocation_of:
  assumes "writeLocation encryptor i e db = Inr db'"
  shows "location_of j db' = (if j \<noteq> i then location_of j db else
    case e of Cleared \<Rightarrow> None
    | AddressOnly a \<Rightarrow> map_option (\<lambda>l. l\<lparr>loc_postcode := postcode a, loc_detail := seal encryptor i a\<rparr>) (location_of i db)
    | Relocated a p \<Rightarrow> Some \<lparr>loc_listingId = i, loc_postcode = postcode a, loc_detail = seal encryptor i a, loc_point = p\<rparr>)"
  using assms
proof (cases e)
  case (AddressOnly a)
  let ?f = "\<lambda>r. if loc_listingId r = i then r\<lparr>loc_postcode := postcode a, loc_detail := seal encryptor i a\<rparr> else r"
  have "location_of j db' = map_option ?f (location_of j db)"
    using assms AddressOnly by (auto simp: writeLocation_def location_of_def find_map_key split: if_splits)
  then show ?thesis using AddressOnly location_keyed [of j db] by (cases "location_of j db") auto
next
  case (Relocated a p)
  let ?new = "\<lparr>loc_listingId = i, loc_postcode = postcode a, loc_detail = seal encryptor i a, loc_point = p\<rparr>"
  show ?thesis
  proof (cases "location_of i db")
    case None
    then have "location_rows db' = location_rows db @ [?new]" using assms Relocated by (auto simp: writeLocation_def Let_def split: if_splits)
    then show ?thesis using None Relocated by (auto simp: location_of_def find_append_key split: option.splits)
  next
    case (Some l)
    then have "location_rows db' = map (\<lambda>r. if loc_listingId r = i then ?new else r) (location_rows db)"
      using assms Relocated by (auto simp: writeLocation_def Let_def split: if_splits)
    then have "location_of j db' = map_option (\<lambda>r. if loc_listingId r = i then ?new else r) (location_of j db)"
      by (simp add: location_of_def find_map_key)
    then show ?thesis using Some Relocated location_keyed [of j db] by (cases "location_of j db") auto
  qed
qed (auto simp: writeLocation_def location_of_def find_filter_key)

lemma writeLocation_ok:
  assumes "writeLocation encryptor i e db = Inr db'" "readable encryptor" "\<And>loc. loc \<in> set (location_rows db) \<Longrightarrow> location_ok encryptor loc"
    and "loc \<in> set (location_rows db')"
  shows "location_ok encryptor loc"
  using assms seal_readable [OF assms(2), of i]
  by (auto simp: writeLocation_def Let_def location_ok_def location_checks_def split: CollectionLocationEdit.splits if_splits)

lemma writeLocation_located:
  assumes "writeLocation encryptor i e db = Inr db'" "\<And>a. e = AddressOnly a \<Longrightarrow> isLocated db i"
  shows "isLocated db' j = (if j = i then willBeLocated e else isLocated db j)"
  using writeLocation_of [OF assms(1), of j] assms(2)
  by (cases e) (auto simp: isLocated_def split: option.splits)

lemma write_edit_cases:
  assumes inv: "listing_inv encryptor db" and run: "write_edit encryptor env i owner e db = (res, db')"
  shows "(db' = db \<and> res \<noteq> Inr True) \<or> (\<exists>r w place. res = Inr True \<and> owned_listing i owner db = Some r
     \<and> latest_version (l_categoryId r) (catalogue db) = Some w \<and> cv_versionNumber w = editVersionNumber e
     \<and> publishableLocationColumns (editLocation e) = Inr place \<and> listing_checks (apply_edit (listingNow env) (cv_id w) e place r)
     \<and> writeLocation encryptor i (editLocation e) (touch_row i (apply_edit (listingNow env) (cv_id w) e place) db) = Inr db')"
proof (cases "owned_listing i owner db")
  case (Some r)
  have d: "distinct (map l_id (listing_rows db))" using inv by (simp add: listing_inv_def)
  have upd: "listing_checks (f r) \<and> db1 = touch_row i f db"
    if "update_rows (\<lambda>r. l_id r = i \<and> l_ownerId r = owner) f db = Inr db1" for f db1
  proof -
    have "listing_checks (f r)"
      using that owned_mem [OF Some] by (auto simp: update_rows_def list_all_iff split: if_splits)
    then show ?thesis using that update_owned [OF d Some, of f] by simp
  qed
  show ?thesis
    using run Some
    by (auto simp: write_edit_def atomically_def result_simps split: option.splits if_splits sum.splits prod.splits dest!: upd)
qed (use run in \<open>auto simp: write_edit_def atomically_def\<close>)

lemma findOwnedBy_state [simp]: "snd (findOwnedBy encryptor i owner db) = db"
  by (simp add: findOwnedBy_def lookup_listing_def)

lemma update_listing_state: "snd (update_listing encryptor env i owner e db) = snd (write_edit encryptor env i owner e db)"
  by (cases "write_edit encryptor env i owner e db"; cases "fst (write_edit encryptor env i owner e db)")
    (auto simp: update_listing_def await_def done_with_def)

lemma findOption_reads:
  assumes "cat_inv (catalogue db)" "c \<in> set (category_rows (catalogue db))" "latest_version (cat_id c) (catalogue db) = Some w" "version_ok w"
  shows "findOption (cat_slug c) db = Inr (Some \<lparr>optionSlug = cat_slug c, optionName = cv_name w, optionAttributes = cv_attributes w,
    optionTransport = cv_transportOptions w, optionVersion = cv_versionNumber w\<rparr>)"
proof -
  have "category_by_slug (cat_slug c) (catalogue db) = Some c"
    using assms(1,2) unfolding category_by_slug_def by (intro find_distinct) (auto simp: cat_inv_def)
  then show ?thesis using assms(3) version_ok_parts [OF assms(4)] by (simp add: findOption_def toOption_def)
qed

text \<open>What an edit has established about a listing before it writes.\<close>

definition edit_plan ::
  "ListingDeps \<Rightarrow> string \<Rightarrow> SubmittedListingEdit \<Rightarrow> ListingDb \<Rightarrow> ListingRow \<Rightarrow> CategoryVersionRow \<Rightarrow> ListingAttributeValues \<Rightarrow> CollectionLocationEdit \<Rightarrow> bool" where
  "edit_plan deps owner submitted db r w vals location \<longleftrightarrow>
     latest_version (l_categoryId r) (catalogue db) = Some w \<and> version_ok w \<and> cv_categoryId w = l_categoryId r \<and>
     validateAttributeValues (cv_attributes w) (sub_attributes submitted) = Inr vals \<and>
     (location = Cleared \<longleftrightarrow> sub_location submitted = None) \<and>
     (\<forall>a. location = AddressOnly a \<longrightarrow> sub_location submitted = Some a \<and> isLocated db (l_id r) \<and> map_option loc_postcode (location_of (l_id r) db) = Some (postcode a)) \<and>
     (\<forall>a p. location = Relocated a p \<longrightarrow> sub_location submitted = Some a \<and> (case findFuzzOffset (l_id r) owner db of
        None \<Rightarrow> locator_locate deps (postcode a) = Inr p | Some off \<Rightarrow> locator_relocate deps (postcode a) off = Inr p)) \<and>
     (l_status r = Published \<longrightarrow> trim (sub_description submitted) \<noteq> [] \<and> daily (sub_rates submitted) \<noteq> None \<and> willBeLocated location \<and>
        (cv_transportOptions w = [] \<or> sub_transport submitted \<noteq> None) \<and>
        (\<forall>a \<in> set (cv_attributes w). required a \<longrightarrow> is_answered vals (attributeKey a)))"

abbreviation planned_edit ::
  "SubmittedListingEdit \<Rightarrow> CategoryVersionRow \<Rightarrow> ListingAttributeValues \<Rightarrow> CollectionLocationEdit \<Rightarrow> ListingEdit" where
  "planned_edit submitted w vals location \<equiv>
     \<lparr>editTitle = sub_title submitted, editDescription = sub_description submitted,
      editReplacementValue = sub_replacementValue submitted, editAttributes = vals, editTransport = sub_transport submitted,
      editTwoPersonLift = sub_twoPersonLift submitted, editRates = sub_rates submitted, editLocation = location,
      editVersionNumber = cv_versionNumber w\<rparr>"

lemma editedLocation_run:
  obtains res where "editedLocation deps listing owner submitted db = (res, db)"
    "\<forall>loc. res = Inr loc \<longrightarrow> (loc = Cleared \<longleftrightarrow> submitted = None) \<and>
       (\<forall>a. loc = AddressOnly a \<longrightarrow> submitted = Some a \<and> lr_isLocated listing \<and> map_option postcode (lr_location listing) = Some (postcode a)) \<and>
       (\<forall>a p. loc = Relocated a p \<longrightarrow> submitted = Some a \<and> (case findFuzzOffset (lr_id listing) owner db of
          None \<Rightarrow> locator_locate deps (postcode a) = Inr p | Some off \<Rightarrow> locator_relocate deps (postcode a) off = Inr p))"
proof (cases submitted)
  case None
  then show thesis by (intro that [of "Inr Cleared"]) (auto simp: editedLocation_def done_with_def)
next
  case (Some a)
  show thesis
  proof (cases "map_option postcode (lr_location listing) = Some (postcode a) \<and> lr_isLocated listing")
    case True
    then show thesis using Some by (intro that [of "Inr (AddressOnly a)"]) (auto simp: editedLocation_def done_with_def)
  next
    case False
    let ?p = "case findFuzzOffset (lr_id listing) owner db of None \<Rightarrow> locator_locate deps (postcode a)
        | Some off \<Rightarrow> locator_relocate deps (postcode a) off"
    have run: "editedLocation deps listing owner submitted db = (map_sum LocatorFailed (Relocated a) ?p, db)"
      unfolding Some editedLocation_def option.case(2) if_not_P [OF False] by (cases ?p) (simp_all add: await_def action_defs)
    show thesis by (rule that [OF run]) (auto simp: Some result_simps split: option.splits)
  qed
qed

lemma check_form_ok:
  assumes "check_form slug category submitted = Inr vals"
  shows "optionVersion category = sub_versionNumber submitted"
    "validateAttributeValues (optionAttributes category) (sub_attributes submitted) = Inr vals"
  using assms by (auto simp: check_form_def result_simps split: if_splits option.splits)

lemma edit_cases:
  assumes inv: "listing_inv (fieldEncryptor deps) db" and db'_def: "db' = snd (edit id deps i owner submitted db)"
  shows "db' = db \<or> (\<exists>r w vals location place. owned_listing i owner db = Some r \<and> edit_plan deps owner submitted db r w vals location
     \<and> publishableLocationColumns location = Inr place
     \<and> listing_checks (apply_edit (listingNow (listingEnv deps)) (cv_id w) (planned_edit submitted w vals location) place r)
     \<and> writeLocation (fieldEncryptor deps) i location
         (touch_row i (apply_edit (listingNow (listingEnv deps)) (cv_id w) (planned_edit submitted w vals location) place) db) = Inr db')"
proof (cases "owned_listing i owner db")
  case None
  then show ?thesis using findOwnedBy_reads [OF inv, of i owner] by (simp add: db'_def edit_def await_def done_with_def)
next
  case (Some r)
  have mem: "r \<in> set (listing_rows db)" and i: "l_id r = i" using owned_mem [OF Some] by auto
  obtain rec c where rec: "toRecord_listing (fieldEncryptor deps) db r = Inr rec" "lr_id rec = l_id r" "lr_status rec = l_status r"
    "lr_isLocated rec = isLocated db (l_id r)" "map_option postcode (lr_location rec) = map_option loc_postcode (location_of (l_id r) db)"
    "c \<in> set (category_rows (catalogue db))" "cat_id c = l_categoryId r" "lr_categorySlug rec = cat_slug c"
    by (rule record_reads [OF inv mem]) blast
  obtain w where w: "latest_version (l_categoryId r) (catalogue db) = Some w" "version_ok w" "cv_categoryId w = l_categoryId r"
    by (rule pinned_reads [OF inv mem]) blast
  have found: "findOwnedBy (fieldEncryptor deps) i owner db = (Inr (Some rec), db)" using findOwnedBy_reads [OF inv] Some rec(1) by simp
  let ?cat = "\<lparr>optionSlug = cat_slug c, optionName = cv_name w, optionAttributes = cv_attributes w,
    optionTransport = cv_transportOptions w, optionVersion = cv_versionNumber w\<rparr>"
  have option: "lookup_listing (findOption (lr_categorySlug rec)) db = (Inr (Some ?cat), db)"
    using findOption_reads [of db c w] inv rec(6,7,8) w by (simp add: lookup_listing_def listing_inv_def)
  note start = db'_def edit_def await_def action_defs others_def found option
  show ?thesis
  proof (cases "check_form (lr_categorySlug rec) ?cat submitted")
    case (Inl e)
    then show ?thesis by (simp add: start)
  next
    case (Inr vals)
    note form = check_form_ok [OF Inr, simplified]
    obtain res where res: "editedLocation deps rec owner (sub_location submitted) db = (res, db)"
      "\<forall>loc. res = Inr loc \<longrightarrow> (loc = Cleared \<longleftrightarrow> sub_location submitted = None) \<and>
       (\<forall>a. loc = AddressOnly a \<longrightarrow> sub_location submitted = Some a \<and> lr_isLocated rec \<and> map_option postcode (lr_location rec) = Some (postcode a)) \<and>
       (\<forall>a p. loc = Relocated a p \<longrightarrow> sub_location submitted = Some a \<and> (case findFuzzOffset (lr_id rec) owner db of
          None \<Rightarrow> locator_locate deps (postcode a) = Inr p | Some off \<Rightarrow> locator_relocate deps (postcode a) off = Inr p))"
      by (rule editedLocation_run [of deps rec owner "sub_location submitted" db])
    show ?thesis
    proof (cases res)
      case (Inl e)
      then show ?thesis using Inr res(1) by (simp add: start)
    next
      case loc: (Inr location)
      let ?b = "publicationBlockers (edited_candidate deps owner ?cat submitted vals location)"
      show ?thesis
      proof (cases "l_status r = Published \<and> ?b \<noteq> []")
        case True
        then show ?thesis using Inr res(1) loc rec(3) by (auto simp: start split: list.splits)
      next
        case False
        let ?e = "planned_edit submitted w vals location"
        have "l_status r = Published \<Longrightarrow> ?b = []" using False by blast
        then have plan: "edit_plan deps owner submitted db r w vals location"
          using res(2) [rule_format, OF loc] w form rec(2,4,5) by (auto simp: edit_plan_def blockers_none_iff edited_candidate_def)
        have "db' = snd (update_listing (fieldEncryptor deps) (listingEnv deps) i owner ?e db)"
          using False Inr res(1) loc rec(3) by (auto simp: start split: list.splits)
        then have db': "db' = snd (write_edit (fieldEncryptor deps) (listingEnv deps) i owner ?e db)" by (simp add: update_listing_state)
        show ?thesis
          using write_edit_cases [OF inv, of "listingEnv deps" i owner ?e "fst (write_edit (fieldEncryptor deps) (listingEnv deps) i owner ?e db)" db']
            plan Some w(1) by (auto simp: db')
      qed
    qed
  qed
qed

subsection \<open>A published listing stays complete\<close>

definition published_complete :: "ListingDb \<Rightarrow> bool" where
  "published_complete db \<longleftrightarrow> (\<forall>r \<in> set (listing_rows db). l_status r = Published \<longrightarrow> complete db r)"

abbreviation sound :: "FieldEncryptor \<Rightarrow> ListingDb \<Rightarrow> bool" where
  "sound encryptor db \<equiv> listing_inv encryptor db \<and> published_complete db"

lemma complete_transfer:
  assumes "complete db r" "\<And>v. version_by_id (l_categoryVersionId r) db = Some v \<Longrightarrow> version_by_id (l_categoryVersionId r) db' = Some v"
    and "isLocated db (l_id r) \<Longrightarrow> isLocated db' (l_id r)"
  shows "complete db' r"
  using assms by (auto simp: complete_def)

lemma touch_complete [simp]: "complete (touch_row i f db) r = complete db r"
  by (simp add: complete_def)

lemma touch_published_complete:
  assumes "published_complete db" "distinct (map l_id (listing_rows db))" "owned_listing i owner db = Some r"
    and "l_status (f r) = Published \<Longrightarrow> complete db (f r)"
  shows "published_complete (touch_row i f db)"
  using assms(1,4) owned_only(2) [OF assms(2,3)] by (auto simp: published_complete_def)

lemma complete_status [simp]: "complete db (set_status status deps r) = complete db r"
  by (simp add: complete_def)

lemma publish_sound:
  assumes "sound (fieldEncryptor deps) db"
  shows "sound (fieldEncryptor deps) (snd (publish id deps i owner db))"
proof (cases "\<exists>r. isPublicationEnabled deps \<and> owned_listing i owner db = Some r \<and> complete db r \<and> findOwnerStatus deps owner = Some PrivateOwner")
  case True
  then obtain r where r: "owned_listing i owner db = Some r" "complete db r" by blast
  have "snd (publish id deps i owner db) = touch_row i (set_status Published deps) db"
    using True publishing_run [of deps db i owner] assms r by auto
  then show ?thesis
    using assms set_status_inv [OF _ r(1)] touch_published_complete [OF _ _ r(1), of "set_status Published deps"] r(2)
    by (simp add: listing_inv_def [of _ db])
next
  case False
  then have "snd (publish id deps i owner db) = db"
    using publishing_run [of deps db i owner] assms by (cases "isPublicationEnabled deps"; cases "owned_listing i owner db") auto
  then show ?thesis using assms by simp
qed

lemma pause_state:
  assumes "listing_inv (fieldEncryptor deps) db"
  shows "snd (pause id deps i owner db) = db \<or>
    (\<exists>r. owned_listing i owner db = Some r \<and> snd (pause id deps i owner db) = touch_row i (set_status Paused deps) db)"
proof (cases "owned_listing i owner db")
  case None
  then show ?thesis using findOwnedBy_reads [OF assms, of i owner] by (simp add: pause_def await_def done_with_def)
next
  case (Some r)
  obtain after where "store_pause (fieldEncryptor deps) (listingEnv deps) i owner db
      = (Inr (Some after), touch_row i (set_status Paused deps) db)"
    unfolding store_pause_def by (rule status_written [OF assms Some, of Paused deps]) blast
  then show ?thesis
    using Some findOwnedBy_reads [OF assms, of i owner]
    by (cases "toRecord_listing (fieldEncryptor deps) db r"; cases "refuseIllegalTransition Pause (lr_status (projr (toRecord_listing (fieldEncryptor deps) db r)))")
      (auto simp: pause_def await_def action_defs others_def)
qed

lemma pause_sound:
  assumes "sound (fieldEncryptor deps) db"
  shows "sound (fieldEncryptor deps) (snd (pause id deps i owner db))"
  using pause_state [OF conjunct1 [OF assms], of i owner]
proof (elim disjE exE conjE)
  fix r
  assume r: "owned_listing i owner db = Some r" "snd (pause id deps i owner db) = touch_row i (set_status Paused deps) db"
  then show ?thesis
    using assms set_status_inv [OF _ r(1)] touch_published_complete [OF _ _ r(1), of "set_status Paused deps"]
    by (simp add: listing_inv_def [of _ db])
qed (use assms in auto)

text \<open>The row an edit writes, and what the tables hold after it.\<close>

lemma edit_effect:
  assumes inv: "listing_inv (fieldEncryptor deps) db" and enc: "readable (fieldEncryptor deps)"
    and db': "db' = snd (edit id deps i owner submitted db)" "db' \<noteq> db"
  obtains r w vals location f where "owned_listing i owner db = Some r" "edit_plan deps owner submitted db r w vals location"
    "l_id (f r) = i" "l_status (f r) = l_status r" "l_categoryVersionId (f r) = cv_id w" "version_by_id (cv_id w) db = Some w"
    "l_description (f r) = sub_description submitted" "l_daily (f r) = map_option amount (daily (sub_rates submitted))"
    "l_transport (f r) = sub_transport submitted" "l_attributes (f r) = vals"
    "writeLocation (fieldEncryptor deps) i location (touch_row i f db) = Inr db'" "listing_inv (fieldEncryptor deps) db'" "l_ownerId (f r) = owner"
proof -
  let ?enc = "fieldEncryptor deps"
  have cat: "cat_inv (catalogue db)" using inv by (simp add: listing_inv_def)
  obtain r w vals location place where r: "owned_listing i owner db = Some r" and plan: "edit_plan deps owner submitted db r w vals location"
    and checks: "listing_checks (apply_edit (listingNow (listingEnv deps)) (cv_id w) (planned_edit submitted w vals location) place r)"
    and loc: "writeLocation ?enc i location
       (touch_row i (apply_edit (listingNow (listingEnv deps)) (cv_id w) (planned_edit submitted w vals location) place) db) = Inr db'"
    using edit_cases [OF inv db'(1)] db'(2) by blast
  define f where "f = apply_edit (listingNow (listingEnv deps)) (cv_id w) (planned_edit submitted w vals location) place"
  note loc = loc [folded f_def] and checks = checks [folded f_def] and f = f_def apply_edit_def with_rates_def
  have ri: "l_id r = i" "l_ownerId r = owner" using owned_mem [OF r] by auto
  have w: "w \<in> set (version_rows (catalogue db))" "cv_categoryId w = l_categoryId r"
    using plan latest_version_mem by (auto simp: edit_plan_def)
  have found: "version_by_id (cv_id w) db = Some w"
    using cat w(1) unfolding version_by_id_def by (intro find_distinct) (auto simp: cat_inv_def)
  have "listing_inv ?enc (touch_row i f db)"
    using touch_inv [OF inv r, of f] checks w ri by (simp add: pinned_ok_def f) blast
  then have "listing_inv ?enc db'"
    using writeLocation_ok [OF loc enc] by (auto simp: listing_inv_def writeLocation_rows [OF loc] pinned_ok_def)
  then show thesis using that [OF r plan, of f] found loc ri by (simp add: f)
qed

lemma edit_sound:
  assumes sound: "sound (fieldEncryptor deps) db" and enc: "readable (fieldEncryptor deps)"
  shows "sound (fieldEncryptor deps) (snd (edit id deps i owner submitted db))"
proof -
  define db' where "db' = snd (edit id deps i owner submitted db)"
  have inv: "listing_inv (fieldEncryptor deps) db" and d: "distinct (map l_id (listing_rows db))"
    using sound by (auto simp: listing_inv_def)
  have "sound (fieldEncryptor deps) db'"
  proof (cases "db' = db")
    case False
    obtain r w vals location f where r: "owned_listing i owner db = Some r" and plan: "edit_plan deps owner submitted db r w vals location"
      and f: "l_id (f r) = i" "l_status (f r) = l_status r" "l_categoryVersionId (f r) = cv_id w" "version_by_id (cv_id w) db = Some w"
        "l_description (f r) = sub_description submitted" "l_daily (f r) = map_option amount (daily (sub_rates submitted))"
        "l_transport (f r) = sub_transport submitted" "l_attributes (f r) = vals"
      and loc: "writeLocation (fieldEncryptor deps) i location (touch_row i f db) = Inr db'" and inv': "listing_inv (fieldEncryptor deps) db'"
      by (rule edit_effect [OF inv enc db'_def False]) blast
    note kept = writeLocation_rows [OF loc]
    have vids: "version_by_id v db' = version_by_id v db" for v by (simp add: version_by_id_def kept)
    have located: "isLocated db' j = (if j = i then willBeLocated location else isLocated db j)" for j
      using writeLocation_located [OF loc] plan owned_mem [OF r] by (auto simp: edit_plan_def)
    have mine: "complete db' (f r)" if "l_status r = Published"
      using plan that f by (auto simp: complete_def vids located edit_plan_def)
    have others: "complete db' x" if "x \<in> set (listing_rows db)" "x \<noteq> r" "l_status x = Published" for x
      using that sound owned_only(2) [OF d r that(1)] complete_transfer [of db x db'] vids located
      by (auto simp: published_complete_def)
    have "l_status x = Published \<longrightarrow> complete db' x" if x: "x \<in> set (listing_rows db')" for x
    proof -
      obtain y where y: "y \<in> set (listing_rows db)" "x = (if l_id y = i then f y else y)" using x by (auto simp: kept)
      then show ?thesis using mine others [OF y(1)] owned_only(2) [OF d r y(1)] f(2) by (cases "y = r") auto
    qed
    then show ?thesis using inv' by (simp add: published_complete_def)
  qed (use sound in simp)
  then show ?thesis by (simp add: db'_def)
qed

subsection \<open>Moderating\<close>

abbreviation decide :: "ModerationState \<Rightarrow> string option \<Rightarrow> string \<Rightarrow> int \<Rightarrow> ListingRow \<Rightarrow> ListingRow" where
  "decide state reason moderator now r \<equiv> r\<lparr>l_moderationState := state, l_moderationReason := reason,
     l_moderatedById := Some moderator, l_moderatedAt := Some now, l_updatedAt := now\<rparr>"

definition given_reason :: "string option \<Rightarrow> string option" where
  "given_reason given = (let reason = (case given of None \<Rightarrow> [] | Some r \<Rightarrow> trim r) in if reason = [] then None else Some reason)"

text \<open>Trimming strips everything the table's check strips, so a trimmed reason that is not empty passes it.\<close>

lemma btrim_empty: "btrim s = [] \<Longrightarrow> c \<in> set s \<Longrightarrow> c = CHR '' ''"
proof -
  assume "btrim s = []" "c \<in> set s"
  then have "\<forall>d \<in> set (dropWhile ((=) CHR '' '') s). CHR '' '' = d" by (simp add: btrim_def dropWhile_eq_Nil_conv)
  moreover have "c \<in> set (takeWhile ((=) CHR '' '') s @ dropWhile ((=) CHR '' '') s)" using \<open>c \<in> set s\<close> by simp
  ultimately show ?thesis by (metis Un_iff set_append set_takeWhileD)
qed

lemma btrim_trim: "trim s \<noteq> [] \<Longrightarrow> btrim (trim s) \<noteq> []"
proof
  assume "trim s \<noteq> []" "btrim (trim s) = []"
  then have "list_all is_space (trim s)" using btrim_empty [of "trim s"] by (force simp: list_all_iff is_space_def)
  then show False using \<open>trim s \<noteq> []\<close> trim_empty_iff [of "trim s"] by simp
qed

lemma trim_idem_nonempty: "given_reason given = Some r \<Longrightarrow> btrim r \<noteq> []"
  by (auto simp: given_reason_def Let_def btrim_trim split: option.splits if_splits)

lemma by_id_only:
  assumes "distinct (map l_id (listing_rows db))" "listing_by_id i db = Some r" "x \<in> set (listing_rows db)"
  shows "l_id x = i \<longleftrightarrow> x = r"
  using by_id_mem [OF assms(2)] distinct_map_unique [OF assms(1)] assms(3) by auto

lemma by_id_owned:
  assumes "distinct (map l_id (listing_rows db))"
  shows "listing_by_id i db = Some r \<longleftrightarrow> owned_listing i (l_ownerId r) db = Some r"
proof
  assume r: "listing_by_id i db = Some r"
  then show "owned_listing i (l_ownerId r) db = Some r"
    using by_id_mem [OF r] find_cong_distinct [OF assms, of r "\<lambda>x. l_ownerId x = l_ownerId r"] by (simp add: owned_listing_def)
next
  assume "owned_listing i (l_ownerId r) db = Some r"
  then show "listing_by_id i db = Some r"
    using owned_mem [of i "l_ownerId r" db r] unfolding listing_by_id_def by (intro find_distinct [OF assms]) auto
qed

lemma write_moderation_run:
  assumes inv: "listing_inv encryptor db" and r: "listing_by_id i db = Some r" and "listing_checks (decide state reason moderator now r)"
  shows "write_moderation \<lparr>decisionListingId = i, decisionState = state, decisionReason = reason, moderatorId = moderator, decidedAt = now\<rparr> db
    = (Inr True, touch_row i (decide state reason moderator now) db)"
proof -
  have d: "distinct (map l_id (listing_rows db))" using inv by (simp add: listing_inv_def)
  have "list_all (\<lambda>x. listing_checks (decide state reason moderator now x)) (filter (\<lambda>x. l_id x = i) (listing_rows db))"
    using by_id_only [OF d r] assms(3) by (auto simp: list_all_iff)
  then show ?thesis using r by (simp add: write_moderation_def atomically_def update_rows_def touch_row_def)
qed

lemma audit_listing_inv [simp]:
  "listing_inv encryptor (db\<lparr>catalogue := (catalogue db)\<lparr>audit_rows := x\<rparr>\<rparr>) = listing_inv encryptor db"
  "published_complete (db\<lparr>catalogue := (catalogue db)\<lparr>audit_rows := x\<rparr>\<rparr>) = published_complete db"
  by (simp_all add: listing_inv_def published_complete_def complete_def pinned_ok_def cat_inv_def versions_of_def version_by_id_def
      isLocated_def location_of_def)

lemma findForModeration_reads:
  "findForModeration encryptor i db = (case listing_by_id i db of
     None \<Rightarrow> (Inr None, db) | Some r \<Rightarrow> (map_sum StoreFault Some (toRecord_listing encryptor db r), db))"
  by (cases "listing_by_id i db"; cases "toRecord_listing encryptor db (the (listing_by_id i db))")
    (auto simp: findForModeration_def lookup_listing_def read_row_def)

lemma decide_checks:
  assumes "listing_checks r" "state = Approved \<or> given_reason given \<noteq> None"
  shows "listing_checks (decide state (given_reason given) moderator now r)"
  using assms trim_idem_nonempty by (auto simp: listing_checks_def)

lemma moderate_alt:
  "moderate race digest env deps actor i state given =
    (if moderationRequiresReason state \<and> given_reason given = None then throw (ModerationReasonRequired state)
     else
       await (findForModeration (fieldEncryptor deps) i) (\<lambda>found.
       case found of
         None \<Rightarrow> done_with None
       | Some before \<Rightarrow>
           await (others race) (\<lambda>_.
           await (store_moderate (fieldEncryptor deps)
               \<lparr>decisionListingId = i, decisionState = state, decisionReason = given_reason given,
                moderatorId = actorUserId actor, decidedAt = catalogueNow env\<rparr>) (\<lambda>written.
           case written of
             None \<Rightarrow> done_with None
           | Some after \<Rightarrow>
               await (audit_listing digest env \<lparr>changeActor = Some actor, changeAction = ListingModerated, changeTargetType = ''listing'',
                   changeTargetId = lr_id after, changeBefore = Some (moderationAuditable before),
                   changeAfter = Some (moderationAuditable after), changeReason = given_reason given\<rparr>) (\<lambda>_.
                 done_with (Some after))))))"
  unfolding moderate_def given_reason_def Let_def by (simp only: if_split_eq1 option.distinct simp_thms split: if_split)

lemma moderate_run:
  assumes inv: "listing_inv (fieldEncryptor deps) db" and r: "listing_by_id i db = Some r"
    and ok: "state = Approved \<or> given_reason given \<noteq> None"
  obtains before after where "moderate id digest env deps actor i state given db = (Inr (Some after),
      (let db1 = touch_row i (decide state (given_reason given) (actorUserId actor) (catalogueNow env)) db in
       db1\<lparr>catalogue := (catalogue db)\<lparr>audit_rows := audit_rows (catalogue db) @
         [audit_entry digest (newAuditId env) (catalogueNow env) \<lparr>changeActor = Some actor, changeAction = ListingModerated,
           changeTargetType = ''listing'', changeTargetId = i, changeBefore = Some (moderationAuditable before),
           changeAfter = Some (moderationAuditable after), changeReason = given_reason given\<rparr>]\<rparr>\<rparr>))"
    "moderationAuditable before = \<lparr>auditedState = l_moderationState r, auditedReason = l_moderationReason r\<rparr>"
    "moderationAuditable after = \<lparr>auditedState = state, auditedReason = given_reason given\<rparr>" "lr_id after = i"
    "listing_inv (fieldEncryptor deps) (touch_row i (decide state (given_reason given) (actorUserId actor) (catalogueNow env)) db)"
proof -
  let ?f = "decide state (given_reason given) (actorUserId actor) (catalogueNow env)"
  let ?db = "touch_row i ?f db"
  have d: "distinct (map l_id (listing_rows db))" using inv by (simp add: listing_inv_def)
  have mem: "r \<in> set (listing_rows db)" and i: "l_id r = i" using by_id_mem [OF r] by auto
  have own: "owned_listing i (l_ownerId r) db = Some r" using by_id_owned [OF d] r by simp
  have checks: "listing_checks (?f r)" using inv mem ok by (intro decide_checks) (auto simp: listing_inv_def)
  have pin: "pinned_ok db (?f r)" using inv mem by (simp add: listing_inv_def pinned_ok_def)
  have inv': "listing_inv (fieldEncryptor deps) ?db"
    using touch_inv [OF inv own, of ?f] checks i pin by simp
  have own': "owned_listing i (l_ownerId r) ?db = Some (?f r)" "distinct (map l_id (listing_rows ?db))"
    using touch_owned [OF d own, of ?f] i d by auto
  then have r': "listing_by_id i ?db = Some (?f r)" using by_id_owned [OF own'(2)] by simp
  obtain before where b: "toRecord_listing (fieldEncryptor deps) db r = Inr before" "lr_moderationState before = l_moderationState r"
    "lr_moderationReason before = l_moderationReason r"
    by (rule record_reads [OF inv mem]) blast
  obtain after where a: "toRecord_listing (fieldEncryptor deps) ?db (?f r) = Inr after" "lr_id after = l_id (?f r)"
    "lr_moderationState after = l_moderationState (?f r)" "lr_moderationReason after = l_moderationReason (?f r)"
    by (rule record_reads [OF inv' conjunct1 [OF by_id_mem [OF r']]]) blast
  have store: "store_moderate (fieldEncryptor deps) \<lparr>decisionListingId = i, decisionState = state, decisionReason = given_reason given,
      moderatorId = actorUserId actor, decidedAt = catalogueNow env\<rparr> db = (Inr (Some after), ?db)"
    using write_moderation_run [OF inv r checks] findForModeration_reads [of "fieldEncryptor deps" i ?db] r' a(1)
    by (simp add: store_moderate_def await_def)
  have "\<not> (moderationRequiresReason state \<and> given_reason given = None)" using ok by (auto simp: moderationRequiresReason_def)
  then have "moderate id digest env deps actor i state given db = (Inr (Some after), ?db\<lparr>catalogue := (catalogue db)\<lparr>audit_rows :=
      audit_rows (catalogue db) @ [audit_entry digest (newAuditId env) (catalogueNow env) \<lparr>changeActor = Some actor, changeAction = ListingModerated,
        changeTargetType = ''listing'', changeTargetId = i, changeBefore = Some (moderationAuditable before),
        changeAfter = Some (moderationAuditable after), changeReason = given_reason given\<rparr>]\<rparr>\<rparr>)"
    using store r b(1) a(2) i
    by (simp add: moderate_alt await_def action_defs findForModeration_reads others_def audit_listing_def record_change_def)
  then show thesis using that [of after before] b a i inv' by (simp add: moderationAuditable_def)
qed

lemma moderate_state:
  assumes inv: "listing_inv (fieldEncryptor deps) db"
  shows "snd (moderate id digest env deps actor i state given db) = db \<or>
    (\<exists>r x f. listing_by_id i db = Some r \<and> (\<forall>r. l_status (f r) = l_status r \<and> l_id (f r) = l_id r \<and> (complete db (f r) = complete db r)) \<and>
       listing_inv (fieldEncryptor deps) (touch_row i f db) \<and>
       snd (moderate id digest env deps actor i state given db) = (touch_row i f db)\<lparr>catalogue := (catalogue db)\<lparr>audit_rows := x\<rparr>\<rparr>)"
proof (cases "listing_by_id i db")
  case None
  then show ?thesis by (simp add: moderate_alt await_def action_defs findForModeration_reads)
next
  case (Some r)
  show ?thesis
  proof (cases "state = Approved \<or> given_reason given \<noteq> None")
    case True
    let ?f = "decide state (given_reason given) (actorUserId actor) (catalogueNow env)"
    obtain x where "snd (moderate id digest env deps actor i state given db) = (touch_row i ?f db)\<lparr>catalogue := (catalogue db)\<lparr>audit_rows := x\<rparr>\<rparr>"
      "listing_inv (fieldEncryptor deps) (touch_row i ?f db)"
      by (rule moderate_run [OF inv Some True, of digest env actor]) (metis snd_conv)
    then show ?thesis using Some by (intro disjI2 exI [of _ r] exI [of _ x] exI [of _ ?f]) (auto simp: complete_def)
  next
    case False
    then show ?thesis by (simp add: moderate_alt moderationRequiresReason_def throw_def)
  qed
qed

lemma moderate_sound:
  assumes "sound (fieldEncryptor deps) db"
  shows "sound (fieldEncryptor deps) (snd (moderate id digest env deps actor i state given db))"
  using moderate_state [OF conjunct1 [OF assms], of digest env actor i state given]
proof (elim disjE exE conjE)
  fix r x f
  assume f: "\<forall>r. l_status (f r) = l_status r \<and> l_id (f r) = l_id r \<and> (complete db (f r) = complete db r)"
    and inv: "listing_inv (fieldEncryptor deps) (touch_row i f db)"
    and db': "snd (moderate id digest env deps actor i state given db) = (touch_row i f db)\<lparr>catalogue := (catalogue db)\<lparr>audit_rows := x\<rparr>\<rparr>"
  have "published_complete (touch_row i f db)" using assms f by (auto simp: published_complete_def)
  then show ?thesis using audit_listing_inv [where db = "touch_row i f db"] inv by (simp add: db')
qed (use assms in auto)

subsection \<open>Drafting\<close>

lemma insert_listing_sound:
  assumes "sound encryptor db" "insert_listing r db = Inr db1" "pinned_ok db r" "l_status r \<noteq> Published"
  shows "sound encryptor db1"
  using assms
  by (auto simp: insert_listing_def listing_inv_def published_complete_def complete_def pinned_ok_def version_by_id_def isLocated_def
      location_of_def split: if_splits)

lemma insert_location_sound:
  assumes "sound encryptor db" "readable encryptor"
    and ins: "insert_location \<lparr>loc_listingId = i, loc_postcode = p, loc_detail = seal encryptor i a, loc_point = pt\<rparr> db = Inr db'"
  shows "sound encryptor db'"
proof -
  let ?l = "\<lparr>loc_listingId = i, loc_postcode = p, loc_detail = seal encryptor i a, loc_point = pt\<rparr>"
  have db': "db' = db\<lparr>location_rows := location_rows db @ [?l]\<rparr>" and ok: "location_checks ?l"
    using ins by (auto simp: insert_location_def split: if_splits)
  have "isLocated db j \<Longrightarrow> isLocated db' j" for j
    by (auto simp: isLocated_def location_of_def db' find_append_key split: option.splits)
  then have "published_complete db'"
    using assms(1) complete_transfer [of db _ db'] by (auto simp: published_complete_def db' version_by_id_def)
  moreover have "listing_inv encryptor db'"
    using assms(1) ok seal_readable [OF assms(2)] by (auto simp: listing_inv_def db' location_ok_def pinned_ok_def)
  ultimately show ?thesis by simp
qed

lemma store_createDraft_sound:
  assumes sound: "sound encryptor db" and enc: "readable encryptor"
  shows "sound encryptor (snd (store_createDraft encryptor env draft db))"
proof (cases "fst (store_createDraft encryptor env draft db)")
  case (Inl e)
  then show ?thesis using sound by (auto simp: store_createDraft_def atomically_def split: option.splits if_splits sum.splits prod.splits)
next
  case (Inr rec)
  then obtain c w code db1 where c: "category_by_slug (draftCategorySlug draft) (catalogue db) = Some c"
    and w: "latest_version (cat_id c) (catalogue db) = Some w"
    and ins: "insert_listing (new_listing_row env (cat_id c) (cv_id w) draft code) db = Inr db1"
    and loc: "(case draftLocation draft of None \<Rightarrow> Inr db1 | Some a \<Rightarrow> insert_location \<lparr>loc_listingId = newListingId env, loc_postcode = postcode a,
        loc_detail = seal encryptor (newListingId env) a, loc_point = draftPoint draft\<rparr> db1) = Inr (snd (store_createDraft encryptor env draft db))"
    by (auto simp: store_createDraft_def atomically_def result_simps Let_def new_listing_row_def with_rates_def
        split: option.splits if_splits sum.splits prod.splits)
  have cat: "cat_inv (catalogue db)" using sound by (simp add: listing_inv_def)
  obtain v where "latest_version (cat_id c) (catalogue db) = Some v" "v \<in> set (versions_of (cat_id c) (catalogue db))"
    using latest_number [OF cat conjunct1 [OF category_by_slug_mem [OF c]]] by blast
  then have "w \<in> set (version_rows (catalogue db))" "cv_categoryId w = cat_id c" using w by (auto simp: versions_of_def)
  then have s1: "sound encryptor db1"
    by (intro insert_listing_sound [OF sound ins]) (auto simp: pinned_ok_def new_listing_row_def with_rates_def)
  show ?thesis
  proof (cases "draftLocation draft")
    case None
    then have "db1 = snd (store_createDraft encryptor env draft db)" using loc by simp
    then show ?thesis using s1 by simp
  next
    case (Some a)
    show ?thesis by (rule insert_location_sound [OF s1 enc loc [unfolded Some option.case]])
  qed
qed

lemma createDraft_sound:
  assumes "sound (fieldEncryptor deps) db" "readable (fieldEncryptor deps)"
  shows "sound (fieldEncryptor deps) (snd (createDraft id deps submitted db))"
proof -
  have "snd (createDraft id deps submitted db) = db \<or> (\<exists>draft. snd (createDraft id deps submitted db)
      = snd (store_createDraft (fieldEncryptor deps) (listingEnv deps) draft db))"
    unfolding createDraft_def
    by (cases "findOption (sub_categorySlug submitted) db")
      (auto simp: await_def lookup_listing_def action_defs others_def split: option.splits sum.splits)
  then show ?thesis using assms store_createDraft_sound [OF assms, of "listingEnv deps"] by (elim disjE exE) auto
qed

subsection \<open>Every sequence of calls\<close>

lemma catalogue_sound:
  assumes "sound encryptor db" "cat_keeps (catalogue db) cat'"
  shows "sound encryptor (db\<lparr>catalogue := cat'\<rparr>)"
proof -
  let ?db = "db\<lparr>catalogue := cat'\<rparr>"
  have keeps: "cat_inv cat'" and vs: "\<exists>vs. version_rows cat' = version_rows (catalogue db) @ vs"
    using assms by (auto simp: listing_inv_def cat_keeps_def)
  have "version_by_id i db = Some v \<Longrightarrow> version_by_id i ?db = Some v" for i v
    using vs by (auto simp: version_by_id_def intro: find_prefix)
  moreover have "isLocated ?db j = isLocated db j" for j by (simp add: isLocated_def location_of_def)
  ultimately have "published_complete ?db"
    using assms(1) complete_transfer [of db _ ?db] by (auto simp: published_complete_def)
  moreover have "pinned_ok db r \<Longrightarrow> pinned_ok ?db r" for r using vs by (auto simp: pinned_ok_def)
  then have "listing_inv encryptor ?db" using assms(1) keeps by (auto simp: listing_inv_def)
  ultimately show ?thesis by simp
qed

text \<open>The calls of owners and administrators, one after the other, whatever each of them returns.\<close>

inductive listing_step :: "FieldEncryptor \<Rightarrow> ListingDb \<Rightarrow> ListingDb \<Rightarrow> bool" for encryptor where
  drafts: "fieldEncryptor deps = encryptor \<Longrightarrow> listing_step encryptor db (snd (createDraft id deps submitted db))"
| edits: "fieldEncryptor deps = encryptor \<Longrightarrow> listing_step encryptor db (snd (edit id deps i owner changed db))"
| publishes: "fieldEncryptor deps = encryptor \<Longrightarrow> listing_step encryptor db (snd (publish id deps i owner db))"
| pauses: "fieldEncryptor deps = encryptor \<Longrightarrow> listing_step encryptor db (snd (pause id deps i owner db))"
| moderates: "fieldEncryptor deps = encryptor \<Longrightarrow>
    listing_step encryptor db (snd (moderate id digest env deps actor i state given db))"
| creates_category: "categoryConfigurationSchema raw acknowledged = Some configuration \<Longrightarrow>
    listing_step encryptor db (db\<lparr>catalogue := snd (createCategory digest' env actor slug configuration reason (catalogue db))\<rparr>)"
| reconfigures: "categoryConfigurationSchema raw acknowledged = Some configuration \<Longrightarrow>
    listing_step encryptor db (db\<lparr>catalogue := snd (reconfigure id id digest' env actor slug configuration reason (catalogue db))\<rparr>)"
| adds_photograph: "listing_step encryptor db (snd (add_media id id sharp storage menv i owner bytes db))"
| removes_photograph: "listing_step encryptor db (snd (remove_media storage i owner mediaId db))"
| reorders_photographs: "listing_step encryptor db (snd (reorder_media storage i owner mediaIds db))"

definition media_only :: "ListingDb \<Rightarrow> ListingDb \<Rightarrow> bool" where
  "media_only db db' \<longleftrightarrow> listing_rows db' = listing_rows db \<and> location_rows db' = location_rows db \<and> catalogue db' = catalogue db"

lemma media_only_rel: "reflp media_only" "transp media_only"
  by (auto simp: media_only_def intro!: reflpI transpI)

lemma media_only_sound: "media_only db db' \<Longrightarrow> sound encryptor db' = sound encryptor db"
  by (simp add: media_only_def listing_inv_def published_complete_def complete_def pinned_ok_def version_by_id_def isLocated_def location_of_def)

lemmas media_stable = stable_simple [OF media_only_rel(1)] stable_await [OF media_only_rel(2)] stable_if stable_option

lemma media_steps:
  "stable media_only (add_media id id sharp storage menv i owner bytes)" "stable media_only (remove_media storage i owner mediaId)"
  "stable media_only (reorder_media storage i owner mediaIds)"
proof -
  have put: "stable media_only (put_object storage k)" for k
    by (auto simp: stable_def put_object_def media_only_def split: PutOutcome.splits)
  have append: "stable media_only (media_append id env m)" for env m
    unfolding media_append_def
    by (intro media_stable stable_atomically media_only_rel) (auto simp: stable_def media_only_def Let_def split: if_splits)
  have remove: "stable media_only (media_remove i m)" for m
    unfolding media_remove_def
    by (intro stable_atomically media_only_rel) (auto simp: media_only_def split: option.splits)
  have plain: "stable media_only (\<lambda>db. (Inr (), f db))" if "\<And>db. media_only db (f db)" for f :: "ListingDb \<Rightarrow> ListingDb"
    using that by (simp add: stable_def)
  show "stable media_only (add_media id id sharp storage menv i owner bytes)"
    unfolding add_media_def Let_def by (intro media_stable put append plain) (simp_all add: media_only_def)
  show "stable media_only (remove_media storage i owner mediaId)"
    unfolding remove_media_def by (intro media_stable remove plain) (simp add: media_only_def)
  show "stable media_only (reorder_media storage i owner mediaIds)"
    unfolding reorder_media_def Let_def by (intro media_stable plain) (simp add: media_only_def media_reorder_def)
qed

lemma listing_step_sound:
  assumes "listing_step encryptor db db'" "sound encryptor db" "readable encryptor"
  shows "sound encryptor db'"
  using assms
proof (induction rule: listing_step.cases)
  case (creates_category raw acknowledged configuration db0 digest' env actor slug reason)
  show ?case
    unfolding creates_category
    by (rule catalogue_sound [OF _ createCategory_keeps [OF categoryConfigurationSchema_parsed]]) (use creates_category in auto)
next
  case (reconfigures raw acknowledged configuration db0 digest' env actor slug reason)
  have "cat_keeps db (id db)" for db using cat_keeps_refl by (simp add: reflp_def)
  then show ?case
    unfolding reconfigures
    by (intro catalogue_sound reconfigure_keeps categoryConfigurationSchema_parsed) (use reconfigures in auto)
qed (use createDraft_sound edit_sound publish_sound pause_sound moderate_sound media_only_sound [OF stableD [OF media_steps(1)]]
    media_only_sound [OF stableD [OF media_steps(2)]] media_only_sound [OF stableD [OF media_steps(3)]] in auto)


subsection \<open>An example\<close>

lemma plain_encryptor_readable: "readable plain_encryptor"
proof -
  have "takeWhile ((=) CHR ''x'') (replicate n (CHR ''x'') @ CHR ''|'' # t) = replicate n (CHR ''x'')" for n t
    by (induction n) auto
  moreover have "drop (Suc n) (replicate n (CHR ''x'') @ CHR ''|'' # t) = t" for n t by (induction n) auto
  ultimately show ?thesis
    by (auto simp: readable_def plain_encryptor_def split_detail_def Let_def split: option.splits)
qed

definition shop_deps :: ListingDeps where
  "shop_deps = \<lparr>fieldEncryptor = plain_encryptor, locator_locate = locate example_geocoder (\<lambda>low high. low),
     locator_relocate = relocate example_geocoder, isPublicationEnabled = True, findOwnerStatus = (\<lambda>_. Some PrivateOwner),
     objectStore = shop_storage, listingEnv = \<lparr>newListingId = ''l2'', listingNow = 2\<rparr>\<rparr>"

lemma shop_rows [simp]:
  "listing_rows shop_listings = [shop_row]" "catalogue shop_listings = shop_db" "fieldEncryptor shop_deps = plain_encryptor"
  "owned_listing ''l1'' ''olive'' shop_listings = Some shop_row" "listing_by_id ''l1'' shop_listings = Some shop_row"
  "l_status shop_row = Draft" "l_id shop_row = ''l1''"
  by (simp_all add: shop_listings_def shop_deps_def owned_listing_def listing_by_id_def shop_row_def)

lemma shop_version: "version_by_id ''v1'' shop_listings = Some (version_row (shop_env ''1'' 1) ''c1'' 1 shop_config ''ada'')"
  "latest_version ''c1'' shop_db = Some (version_row (shop_env ''1'' 1) ''c1'' 1 shop_config ''ada'')"
  by (simp_all add: version_by_id_def latest_version_def shop_db_rows version_row_def shop_env_def)

lemma shop_inv: "listing_inv plain_encryptor shop_listings"
proof -
  have "location_ok plain_encryptor loc" if "loc \<in> set (location_rows shop_listings)" for loc
    using that by (auto simp: location_ok_def shop_listings_def location_checks_def shop_point_def fuzzedAt_def Let_def plain_encryptor_def)
  moreover have "listing_checks shop_row" by (simp add: listing_checks_def shop_row_def rate_in_bounds_def int4_def)
  moreover have "pinned_ok shop_listings shop_row"
    by (simp add: pinned_ok_def shop_db_rows shop_row_def version_row_def shop_env_def)
  ultimately show ?thesis using shop_db_inv by (simp add: listing_inv_def)
qed

lemma shop_located: "isLocated shop_listings ''l1''"
  by (simp add: isLocated_def location_of_def shop_listings_def)

lemma shop_complete: "complete shop_listings shop_row"
proof -
  have "trim ''A good drill'' \<noteq> []" by (rule notI) (simp add: trim_empty_iff is_space_def)
  then show ?thesis
    using shop_located shop_version(1)
    by (auto simp: complete_def shop_row_def version_row_def shop_config_def example_questions_def example_values_def is_answered_def)
qed



end
