(* ===== verification/Listings_Public.thy ===== *)
theory Listings_Public
  imports Listings_Safety
begin

section \<open>What the public may learn of a listing\<close>

text \<open>
  Only a listing that is published and approved, of an owner who is a private person, answers a public question; what is
  answered does not depend on the address; moderation takes a listing out of sight and says why; an edit keeps the fuzz
  offset a listing was first placed with; and erasing an account removes its addresses and photographs.
\<close>

subsection \<open>Visibility\<close>

lemma visible_mem: "visible_listing i db = Some r \<Longrightarrow> r \<in> set (listing_rows db) \<and> l_id r = i \<and> isPubliclyVisible (l_status r) (l_moderationState r)"
  unfolding visible_listing_def by (drule find_Some_mem) (auto simp: PUBLICLY_VISIBLE_def isPubliclyVisible_def)

lemma visible_None:
  "(\<And>r. r \<in> set (listing_rows db) \<Longrightarrow> l_id r = i \<Longrightarrow> \<not> isPubliclyVisible (l_status r) (l_moderationState r)) \<Longrightarrow> visible_listing i db = None"
  by (auto simp: visible_listing_def find_None_all PUBLICLY_VISIBLE_def isPubliclyVisible_def)

lemma findPublished_row:
  assumes "findPublished i db = Inr (Some l)"
  shows "\<exists>r. visible_listing i db = Some r \<and> pl_id l = l_id r \<and> pl_ownerId l = l_ownerId r"
  using assms by (auto simp: findPublished_def result_simps split: option.splits)

lemma findQuotable_row:
  assumes "store_findQuotable i db = Inr (Some l)"
  shows "\<exists>r. visible_listing i db = Some r \<and> quotableId l = l_id r \<and> quotableOwnerId l = l_ownerId r"
  using assms by (auto simp: store_findQuotable_def result_simps split: option.splits)

text \<open>
C26: A listing answers a public question, whether to be shown or to be quoted for, only if it is published, approved by the
moderators and offered by an owner who has declared to be a private person.\<close>
theorem public_only_visible:
  "(findPublic deps i db = Inr (Some view) \<longrightarrow>
      (\<exists>r \<in> set (listing_rows db). l_id r = i \<and> pl_id (viewListing view) = i \<and> isPubliclyVisible (l_status r) (l_moderationState r)
         \<and> pl_ownerId (viewListing view) = l_ownerId r \<and> findOwnerStatus deps (l_ownerId r) = Some PrivateOwner))
   \<and> (findQuotable deps i db = Inr (Some quotable) \<longrightarrow>
      (\<exists>r \<in> set (listing_rows db). l_id r = i \<and> quotableId quotable = i \<and> isPubliclyVisible (l_status r) (l_moderationState r)
         \<and> quotableOwnerId quotable = l_ownerId r \<and> findOwnerStatus deps (l_ownerId r) = Some PrivateOwner))"
proof (intro conjI impI)
  assume "findPublic deps i db = Inr (Some view)"
  then have "findPublished i db = Inr (Some (viewListing view)) \<and> findOwnerStatus deps (pl_ownerId (viewListing view)) = Some PrivateOwner"
    by (auto simp: findPublic_def result_simps split: option.splits if_splits)
  then show "\<exists>r \<in> set (listing_rows db). l_id r = i \<and> pl_id (viewListing view) = i \<and> isPubliclyVisible (l_status r) (l_moderationState r)
      \<and> pl_ownerId (viewListing view) = l_ownerId r \<and> findOwnerStatus deps (l_ownerId r) = Some PrivateOwner"
    using findPublished_row [of i db "viewListing view"] visible_mem [of i db] by force
next
  assume "findQuotable deps i db = Inr (Some quotable)"
  then have "store_findQuotable i db = Inr (Some quotable) \<and> findOwnerStatus deps (quotableOwnerId quotable) = Some PrivateOwner"
    by (auto simp: findQuotable_def result_simps split: option.splits if_splits)
  then show "\<exists>r \<in> set (listing_rows db). l_id r = i \<and> quotableId quotable = i \<and> isPubliclyVisible (l_status r) (l_moderationState r)
      \<and> quotableOwnerId quotable = l_ownerId r \<and> findOwnerStatus deps (l_ownerId r) = Some PrivateOwner"
    using findQuotable_row [of i db quotable] visible_mem [of i db] by force
qed

lemma card_reads:
  assumes "listing_checks r"
  obtains card where "asRateCard r = Inr card"
  using assms that by (simp add: asRateCard_def listing_checks_def asRate_bounds)

lemma public_reads:
  assumes inv: "listing_inv encryptor db" and r: "visible_listing i db = Some r" and place: "l_outwardCode r = Some code" "l_town r = Some t"
  obtains l where "findPublished i db = Inr (Some l)" "pl_id l = l_id r" "pl_ownerId l = l_ownerId r" "pl_outwardCode l = code" "pl_town l = t"
proof -
  have mem: "r \<in> set (listing_rows db)" using visible_mem [OF r] by blast
  then have checks: "listing_checks r" using inv by (simp add: listing_inv_def)
  obtain c v w where v: "pinned_version db r = Inr (c, v, w)" "version_ok v" "version_ok w" by (rule pinned_reads [OF inv mem]) blast
  obtain d where d: "asDamageSecurity w (l_id r) = Inr d" using version_ok_parts(3) [OF v(3)] by blast
  obtain card where card: "asRateCard r = Inr card" by (rule card_reads [OF checks])
  have worth: "\<exists>m. asMoney (l_replacementAmount r) (l_replacementCurrency r) (l_id r) = Inr m"
    using checks by (simp add: listing_checks_def asMoney_int4)
  show thesis
    using that r place v(1) version_ok_parts(1,2) [OF v(2)] version_ok_parts(4) [OF v(3)] d card worth
    by (auto simp: findPublished_def)
qed

theorem public_only_visible_witness:
  "\<exists>view. findPublic shop_deps ''l1'' (snd (publish id shop_deps ''l1'' ''olive'' shop_listings)) = Inr (Some view)
     \<and> pl_id (viewListing view) = ''l1'' \<and> pl_ownerId (viewListing view) = ''olive''"
proof -
  let ?r = "set_status Published shop_deps shop_row" and ?db = "snd (publish id shop_deps ''l1'' ''olive'' shop_listings)"
  have db: "?db = touch_row ''l1'' (set_status Published shop_deps) shop_listings"
    using publishing_run [of shop_deps shop_listings "''l1''" "''olive''"] shop_inv shop_complete by (auto simp: shop_deps_def)
  have "listing_inv plain_encryptor ?db" using publish_sound [of shop_deps shop_listings] shop_inv by (simp add: published_complete_def)
  moreover have "visible_listing ''l1'' ?db = Some ?r"
    unfolding db by (simp add: visible_listing_def touch_row_def PUBLICLY_VISIBLE_def) (simp add: shop_row_def)
  moreover have "l_outwardCode ?r = Some ''SW1A''" "l_town ?r = Some ''London''" "l_ownerId ?r = ''olive''" by (simp_all add: shop_row_def)
  ultimately obtain l where l: "findPublished ''l1'' ?db = Inr (Some l)" using public_reads by metis
  then obtain view where v: "findPublic shop_deps ''l1'' ?db = Inr (Some view)" by (auto simp: findPublic_def shop_deps_def)
  then have "pl_id (viewListing view) = ''l1'' \<and> (\<exists>r \<in> set (listing_rows ?db). pl_ownerId (viewListing view) = l_ownerId r)"
    using public_only_visible [of shop_deps "''l1''" ?db view] by blast
  moreover have "l_ownerId r = ''olive''" if "r \<in> set (listing_rows ?db)" for r using that by (auto simp: db shop_row_def split: if_splits)
  ultimately show ?thesis using v by auto
qed

subsection \<open>Moderation\<close>

lemma hidden_from_public:
  assumes "\<And>r. r \<in> set (listing_rows db) \<Longrightarrow> l_id r = i \<Longrightarrow> l_moderationState r \<noteq> Approved"
  shows "findPublic deps i db = Inr None" "findQuotable deps i db = Inr None"
  using visible_None [of db i] assms
  by (auto simp: findPublic_def findQuotable_def findPublished_def store_findQuotable_def isPubliclyVisible_def)

text \<open>
C27: A moderator takes a listing out of view only with a reason. Without one nothing changes; with one the decision, its
reason and its author are written, the trail gains exactly one entry with the digests before and after, the owner's own
publication status stays what it was, and while the state is not approved the listing answers no public question.\<close>
theorem moderation_hides:
  assumes inv: "listing_inv (fieldEncryptor deps) db" and r: "listing_by_id i db = Some r"
  shows "(state \<noteq> Approved \<and> given_reason given = None \<longrightarrow>
        moderate id digest env deps actor i state given db = (Inl (ModerationReasonRequired state), db))
    \<and> (state = Approved \<or> given_reason given \<noteq> None \<longrightarrow>
        (\<exists>after db' e. moderate id digest env deps actor i state given db = (Inr (Some after), db')
          \<and> listing_by_id i db' = Some (decide state (given_reason given) (actorUserId actor) (catalogueNow env) r)
          \<and> audit_rows (catalogue db') = audit_rows (catalogue db) @ [e]
          \<and> auditAction e = ListingModerated \<and> auditTargetId e = i \<and> auditReason e = given_reason given
          \<and> auditActorId e = Some (actorUserId actor)
          \<and> beforeHash e = Some (digest \<lparr>auditedState = l_moderationState r, auditedReason = l_moderationReason r\<rparr>)
          \<and> afterHash e = Some (digest \<lparr>auditedState = state, auditedReason = given_reason given\<rparr>)
          \<and> (state \<noteq> Approved \<longrightarrow> findPublic deps i db' = Inr None \<and> findQuotable deps i db' = Inr None)))"
proof (intro conjI impI)
  assume "state \<noteq> Approved \<and> given_reason given = None"
  then show "moderate id digest env deps actor i state given db = (Inl (ModerationReasonRequired state), db)"
    by (simp add: moderate_alt moderationRequiresReason_def throw_def)
next
  assume ok: "state = Approved \<or> given_reason given \<noteq> None"
  let ?f = "decide state (given_reason given) (actorUserId actor) (catalogueNow env)"
  obtain before after where run: "moderate id digest env deps actor i state given db = (Inr (Some after),
      (let db1 = touch_row i ?f db in db1\<lparr>catalogue := (catalogue db)\<lparr>audit_rows := audit_rows (catalogue db) @
         [audit_entry digest (newAuditId env) (catalogueNow env) \<lparr>changeActor = Some actor, changeAction = ListingModerated,
           changeTargetType = ''listing'', changeTargetId = i, changeBefore = Some (moderationAuditable before),
           changeAfter = Some (moderationAuditable after), changeReason = given_reason given\<rparr>]\<rparr>\<rparr>))"
    and b: "moderationAuditable before = \<lparr>auditedState = l_moderationState r, auditedReason = l_moderationReason r\<rparr>"
    and a: "moderationAuditable after = \<lparr>auditedState = state, auditedReason = given_reason given\<rparr>"
    by (rule moderate_run [OF inv r ok, of digest env actor])
  define e where "e = audit_entry digest (newAuditId env) (catalogueNow env) \<lparr>changeActor = Some actor, changeAction = ListingModerated,
    changeTargetType = ''listing'', changeTargetId = i, changeBefore = Some (moderationAuditable before),
    changeAfter = Some (moderationAuditable after), changeReason = given_reason given\<rparr>"
  define db' where "db' = (touch_row i ?f db)\<lparr>catalogue := (catalogue db)\<lparr>audit_rows := audit_rows (catalogue db) @ [e]\<rparr>\<rparr>"
  have m: "moderate id digest env deps actor i state given db = (Inr (Some after), db')" by (simp add: run db'_def e_def Let_def)
  have rows: "listing_rows db' = listing_rows (touch_row i ?f db)" by (simp add: db'_def)
  have d: "distinct (map l_id (listing_rows db))" using inv by (simp add: listing_inv_def)
  have hid: "l_moderationState x = state" if x: "x \<in> set (listing_rows db')" and i: "l_id x = i" for x
  proof -
    obtain y where y: "x = (if l_id y = i then ?f y else y)" using x unfolding rows touch_row_simps by blast
    then have "l_id y = i" using i by (cases "l_id y = i") simp_all
    then show ?thesis using y by simp
  qed
  have own: "owned_listing i (l_ownerId r) db = Some r" using by_id_owned [OF d] r by simp
  have "owned_listing i (l_ownerId r) (touch_row i ?f db) = Some (?f r)" "distinct (map l_id (listing_rows (touch_row i ?f db)))"
    using touch_owned [OF d own, of ?f] conjunct2 [OF by_id_mem [OF r]] d by simp_all
  then have found: "listing_by_id i db' = Some (?f r)"
    using by_id_owned [of "touch_row i ?f db" i "?f r"] by (simp add: listing_by_id_def rows)
  have "findPublic deps i db' = Inr None \<and> findQuotable deps i db' = Inr None" if "state \<noteq> Approved"
    using hidden_from_public [of db' i deps] hid that by metis
  moreover have "audit_rows (catalogue db') = audit_rows (catalogue db) @ [e]" by (simp add: db'_def)
  ultimately show "\<exists>after db' e. moderate id digest env deps actor i state given db = (Inr (Some after), db')
      \<and> listing_by_id i db' = Some (?f r) \<and> audit_rows (catalogue db') = audit_rows (catalogue db) @ [e]
      \<and> auditAction e = ListingModerated \<and> auditTargetId e = i \<and> auditReason e = given_reason given
      \<and> auditActorId e = Some (actorUserId actor)
      \<and> beforeHash e = Some (digest \<lparr>auditedState = l_moderationState r, auditedReason = l_moderationReason r\<rparr>)
      \<and> afterHash e = Some (digest \<lparr>auditedState = state, auditedReason = given_reason given\<rparr>)
      \<and> (state \<noteq> Approved \<longrightarrow> findPublic deps i db' = Inr None \<and> findQuotable deps i db' = Inr None)"
    using m found by (intro exI [of _ after] exI [of _ db'] exI [of _ e]) (simp add: e_def audit_entry_def b a)
qed

theorem moderation_hides_witness:
  "\<exists>after db'. moderate id (\<lambda>m. case auditedReason m of None \<Rightarrow> [] | Some r \<Rightarrow> r) (shop_env ''9'' 9) shop_deps shop_admin ''l1'' Rejected
       (Some '' unsafe '') shop_listings = (Inr (Some after), db')
     \<and> findPublic shop_deps ''l1'' db' = Inr None"
proof -
  have reason: "given_reason (Some '' unsafe '') = Some ''unsafe''" by code_simp
  show ?thesis
    using moderation_hides [of shop_deps shop_listings "''l1''" shop_row Rejected "Some '' unsafe ''"
        "\<lambda>m. case auditedReason m of None \<Rightarrow> [] | Some r \<Rightarrow> r" "shop_env ''9'' 9" shop_admin]
    by (simp add: reason shop_inv) blast
qed

subsection \<open>The fuzz offset\<close>

text \<open>What the listings service relies on of the service that places a postcode.\<close>

locale listing_locator =
  fixes place :: "string \<Rightarrow> GeocodeFailure + LocatedListingPoint option"
    and replace :: "string \<Rightarrow> StoredFuzzOffset \<Rightarrow> GeocodeFailure + LocatedListingPoint option"
    and drawn :: StoredFuzzOffset
  assumes place_draws: "place p = Inr (Some l) \<Longrightarrow> offset_of l = drawn"
    and replace_keeps: "replace p offset = Inr (Some l) \<Longrightarrow> offset_of l = offset"
    and same_postcodes: "place p = Inr None \<longleftrightarrow> replace p offset = Inr None"

lemma findFuzzOffset_written:
  assumes loc: "writeLocation encryptor i e (touch_row i f db) = Inr db'" and r: "owned_listing i owner db = Some r"
    and d: "distinct (map l_id (listing_rows db))" and f: "l_id (f r) = i" "l_ownerId (f r) = owner"
  shows "findFuzzOffset i owner db' = (case e of Cleared \<Rightarrow> None | AddressOnly a \<Rightarrow> findFuzzOffset i owner db
     | Relocated a p \<Rightarrow> map_option offset_of p)"
proof -
  have "owned_listing i owner db' = owned_listing i owner (touch_row i f db)"
    by (simp add: owned_listing_def writeLocation_rows [OF loc])
  also have "\<dots> = Some (f r)" using touch_owned(1) [OF d r, of f] f by simp
  finally show ?thesis
    using writeLocation_of [OF loc, of i] r
    by (auto simp: findFuzzOffset_def split: CollectionLocationEdit.splits) (cases "location_of i db"; simp)
qed

context listing_locator
begin

lemma edit_offset:
  assumes inv: "listing_inv (fieldEncryptor deps) db" and enc: "readable (fieldEncryptor deps)"
    and deps: "locator_locate deps = place" "locator_relocate deps = replace"
    and run: "db' = snd (edit id deps i owner submitted db)" "db' \<noteq> db"
  shows "case sub_location submitted of None \<Rightarrow> findFuzzOffset i owner db' = None
    | Some a \<Rightarrow> (case findFuzzOffset i owner db of
        Some offset \<Rightarrow> findFuzzOffset i owner db' = Some offset \<or> findFuzzOffset i owner db' = None \<and> place (postcode a) = Inr None
      | None \<Rightarrow> findFuzzOffset i owner db' = Some drawn \<or> findFuzzOffset i owner db' = None \<and> place (postcode a) = Inr None)"
proof -
  have d: "distinct (map l_id (listing_rows db))" using inv by (simp add: listing_inv_def)
  obtain r w vals location f where r: "owned_listing i owner db = Some r" and plan: "edit_plan deps owner submitted db r w vals location"
    and f: "l_id (f r) = i" "l_ownerId (f r) = owner"
    and loc: "writeLocation (fieldEncryptor deps) i location (touch_row i f db) = Inr db'"
    by (rule edit_effect [OF inv enc run]) blast
  note off = findFuzzOffset_written [OF loc r d f]
  have ri: "l_id r = i" using owned_mem [OF r] by blast
  show ?thesis
  proof (cases location)
    case (Relocated a p)
    then show ?thesis
      using plan off ri place_draws replace_keeps same_postcodes
      by (cases p) (auto simp: edit_plan_def deps split: option.splits)
  next
    case (AddressOnly a)
    then have "sub_location submitted = Some a" "isLocated db i" using plan ri by (auto simp: edit_plan_def)
    moreover from this have "findFuzzOffset i owner db \<noteq> None" using r by (auto simp: findFuzzOffset_def isLocated_def split: option.splits)
    ultimately show ?thesis using off AddressOnly by auto
  qed (use plan off in \<open>auto simp: edit_plan_def\<close>)
qed

end

interpretation location_service: listing_locator "locate geocoder randomInt" "relocate geocoder" "createFuzzOffset randomInt"
  for geocoder randomInt
proof
  fix p l offset
  show "locate geocoder randomInt p = Inr (Some l) \<Longrightarrow> offset_of l = createFuzzOffset randomInt" by (auto dest: locate_SomeD)
  show "relocate geocoder p offset = Inr (Some l) \<Longrightarrow> offset_of l = offset" by (auto dest: relocate_SomeD)
  show "locate geocoder randomInt p = Inr None \<longleftrightarrow> relocate geocoder p offset = Inr None"
    by (auto simp: locate_def relocate_def result_simps)
qed

text \<open>
Saving a listing keeps the offset its published point was made with. Whatever else an owner edits, as long as the
listing keeps an address the stored offset after the edit is the one before it, whether the postcode moved or not; it is
lost only when the new postcode cannot be placed.\<close>
theorem edit_keeps_offset:
  assumes inv: "listing_inv (fieldEncryptor deps) db" and enc: "readable (fieldEncryptor deps)"
    and deps: "locator_locate deps = locate geocoder randomInt" "locator_relocate deps = relocate geocoder"
    and off: "findFuzzOffset i owner db = Some offset" and address: "sub_location submitted = Some a"
  shows "findFuzzOffset i owner (snd (edit id deps i owner submitted db)) = Some offset
    \<or> findFuzzOffset i owner (snd (edit id deps i owner submitted db)) = None \<and> locate geocoder randomInt (postcode a) = Inr None"
proof (cases "snd (edit id deps i owner submitted db) = db")
  case False
  then show ?thesis using location_service.edit_offset [OF inv enc deps refl False] off address by simp
qed (use off in simp)

text \<open>
The offset is drawn again all the same. An owner who saves a listing without an address and then saves the address
again has the listing placed with a newly drawn offset, so that a second point around the same address is published; the
service describes the offset as drawn once and reused for ever.\<close>
theorem cleared_offset_redrawn:
  assumes inv: "listing_inv (fieldEncryptor deps) db" and enc: "readable (fieldEncryptor deps)"
    and deps: "locator_locate deps = locate geocoder randomInt" "locator_relocate deps = relocate geocoder"
    and cleared: "db1 = snd (edit id deps i owner first db)" "db1 \<noteq> db" "sub_location first = None"
    and again: "db2 = snd (edit id deps i owner second db1)" "db2 \<noteq> db1" "sub_location second = Some a"
    and placed: "locate geocoder randomInt (postcode a) \<noteq> Inr None"
  shows "findFuzzOffset i owner db1 = None \<and> findFuzzOffset i owner db2 = Some (createFuzzOffset randomInt)"
proof -
  have inv1: "listing_inv (fieldEncryptor deps) db1" by (rule edit_effect [OF inv enc cleared(1,2)]) blast
  have none: "findFuzzOffset i owner db1 = None"
    using location_service.edit_offset [OF inv enc deps cleared(1,2)] cleared(3) by simp
  then show ?thesis
    using location_service.edit_offset [OF inv1 enc deps again(1,2)] again(3) placed by simp
qed

subsection \<open>Edits that go through\<close>

lemma edit_goes_through:
  assumes inv: "listing_inv (fieldEncryptor deps) db" and r: "owned_listing i owner db = Some r" "l_status r \<noteq> Published"
    and w: "latest_version (l_categoryId r) (catalogue db) = Some w" "sub_versionNumber submitted = cv_versionNumber w"
    and vals: "validateAttributeValues (cv_attributes w) (sub_attributes submitted) = Inr vals"
    and transport: "pred_option (offersTransportRequirement (cv_transportOptions w)) (sub_transport submitted)"
    and loc: "sub_location submitted = None \<and> location = Cleared \<or>
      (\<exists>a p. sub_location submitted = Some a \<and> location = Relocated a p \<and> \<not> isLocated db i
        \<and> findFuzzOffset i owner db = None \<and> locator_locate deps (postcode a) = Inr p)"
    and cols: "publishableLocationColumns location = Inr place"
    and row: "listing_checks (apply_edit (listingNow (listingEnv deps)) (cv_id w) (planned_edit submitted w vals location) place r)"
    and wrote: "writeLocation (fieldEncryptor deps) i location
      (touch_row i (apply_edit (listingNow (listingEnv deps)) (cv_id w) (planned_edit submitted w vals location) place) db) = Inr db'"
  shows "snd (edit id deps i owner submitted db) = db'"
proof -
  let ?e = "planned_edit submitted w vals location"
  have d: "distinct (map l_id (listing_rows db))" using inv by (simp add: listing_inv_def)
  have mem: "r \<in> set (listing_rows db)" and i: "l_id r = i" "l_ownerId r = owner" using owned_mem [OF r(1)] by auto
  obtain rec c where rec: "toRecord_listing (fieldEncryptor deps) db r = Inr rec" "lr_id rec = l_id r" "lr_status rec = l_status r"
    "lr_isLocated rec = isLocated db (l_id r)" "c \<in> set (category_rows (catalogue db))" "cat_id c = l_categoryId r" "lr_categorySlug rec = cat_slug c"
    by (rule record_reads [OF inv mem]) blast
  obtain w' where "latest_version (l_categoryId r) (catalogue db) = Some w'" "version_ok w'" by (rule pinned_reads [OF inv mem]) blast
  then have wok: "version_ok w" using w(1) by simp
  have found: "findOwnedBy (fieldEncryptor deps) i owner db = (Inr (Some rec), db)" using findOwnedBy_reads [OF inv] r(1) rec(1) by simp
  let ?cat = "\<lparr>optionSlug = cat_slug c, optionName = cv_name w, optionAttributes = cv_attributes w,
    optionTransport = cv_transportOptions w, optionVersion = cv_versionNumber w\<rparr>"
  have option: "lookup_listing (findOption (lr_categorySlug rec)) db = (Inr (Some ?cat), db)"
    using findOption_reads [of db c w] inv rec(5,6,7) w(1) wok by (simp add: lookup_listing_def listing_inv_def)
  have form: "check_form (lr_categorySlug rec) ?cat submitted = Inr vals"
    using w(2) vals transport by (cases "sub_transport submitted") (simp_all add: check_form_def)
  have edited: "editedLocation deps rec owner (sub_location submitted) db = (Inr location, db)"
    using loc rec(2,4) i(1) by (auto simp: editedLocation_def await_def action_defs)
  have written: "write_edit (fieldEncryptor deps) (listingEnv deps) i owner ?e db = (Inr True, db')"
    using r(1) w(1) cols wrote update_owned [OF d r(1), of "apply_edit (listingNow (listingEnv deps)) (cv_id w) ?e place"] row
    by (simp add: write_edit_def atomically_def)
  show ?thesis
    using r(2) rec(3)
    by (simp add: edit_def await_def found option form edited action_defs others_def)
      (simp add: update_listing_def await_def written)
qed

definition shop_edit :: "PostalAddress option \<Rightarrow> SubmittedListingEdit" where
  "shop_edit address = \<lparr>sub_title = ''Drill'', sub_description = ''A good drill'', sub_replacementValue = \<lparr>amount = 20000, currency = GBP\<rparr>,
     sub_attributes = example_answers, sub_transport = Some CarBoot, sub_twoPersonLift = False,
     sub_rates = \<lparr>daily = Some \<lparr>amount = 1500, currency = GBP\<rparr>, weekend = None, weekly = None\<rparr>, sub_location = address, sub_versionNumber = 1\<rparr>"

lemma example_validates: "validateAttributeValues example_questions example_answers = Inr example_values"
  by code_simp

definition shop_without :: ListingDb where
  "shop_without = snd (edit id shop_deps ''l1'' ''olive'' (shop_edit None) shop_listings)"

lemma shop_without_rows:
  "owned_listing ''l1'' ''olive'' shop_without = Some (shop_row\<lparr>l_outwardCode := None, l_town := None, l_updatedAt := 2\<rparr>)"
  "location_rows shop_without = []" "catalogue shop_without = shop_db"
proof -
  let ?v = "version_row (shop_env ''1'' 1) ''c1'' 1 shop_config ''ada''"
  let ?f = "apply_edit 2 (cv_id ?v) (planned_edit (shop_edit None) ?v example_values Cleared) (None, None)"
  have r: "?f shop_row = shop_row\<lparr>l_outwardCode := None, l_town := None, l_updatedAt := 2\<rparr>"
    by (simp add: apply_edit_def with_rates_def shop_edit_def shop_row_def version_row_def shop_env_def rateCurrency_def)
  have "snd (edit id shop_deps ''l1'' ''olive'' (shop_edit None) shop_listings) = (touch_row ''l1'' ?f shop_listings)\<lparr>location_rows := []\<rparr>"
  proof (rule edit_goes_through [where r = shop_row and w = ?v and vals = example_values and location = Cleared and place = "(None, None)"])
    show "listing_checks (apply_edit (listingNow (listingEnv shop_deps)) (cv_id ?v) (planned_edit (shop_edit None) ?v example_values Cleared) (None, None) shop_row)"
      using r by (simp add: shop_deps_def listing_checks_def) (simp add: shop_row_def rate_in_bounds_def int4_def)
    show "latest_version (l_categoryId shop_row) (catalogue shop_listings) = Some ?v" using shop_version(2) by (simp add: shop_row_def)
    show "validateAttributeValues (cv_attributes ?v) (sub_attributes (shop_edit None)) = Inr example_values"
      using example_validates by (simp add: version_row_def shop_config_def shop_edit_def)
    show "writeLocation (fieldEncryptor shop_deps) ''l1'' Cleared
        (touch_row ''l1'' (apply_edit (listingNow (listingEnv shop_deps)) (cv_id ?v) (planned_edit (shop_edit None) ?v example_values Cleared) (None, None)) shop_listings)
      = Inr ((touch_row ''l1'' ?f shop_listings)\<lparr>location_rows := []\<rparr>)"
      by (simp add: writeLocation_def shop_deps_def shop_listings_def touch_row_def)
  qed (simp_all add: shop_inv shop_edit_def version_row_def shop_config_def example_transport_def offersTransportRequirement_def
      publishableLocationColumns_def)
  then have w: "shop_without = (touch_row ''l1'' ?f shop_listings)\<lparr>location_rows := []\<rparr>" by (simp add: shop_without_def)
  show "owned_listing ''l1'' ''olive'' shop_without = Some (shop_row\<lparr>l_outwardCode := None, l_town := None, l_updatedAt := 2\<rparr>)"
    unfolding r [symmetric] w by (simp add: owned_listing_def touch_row_def apply_edit_def with_rates_def) (simp add: shop_row_def)
  show "location_rows shop_without = []" "catalogue shop_without = shop_db" by (simp_all add: w)
qed

lemma shop_offset: "findFuzzOffset ''l1'' ''olive'' shop_listings = Some \<lparr>bearingDegrees = 90, distanceMetres = 700\<rparr>"
  by (simp add: findFuzzOffset_def location_of_def) (simp add: shop_listings_def shop_point_def)

lemma shop_locator: "locator_locate shop_deps = locate example_geocoder (\<lambda>low high. low)" "locator_relocate shop_deps = relocate example_geocoder"
  by (simp_all add: shop_deps_def)

lemma example_places: "locate example_geocoder r p \<noteq> Inr None"
  by (simp add: locate_def geocodeQuietly_def example_geocoder_def)

theorem edit_keeps_offset_witness:
  "findFuzzOffset ''l1'' ''olive'' (snd (edit id shop_deps ''l1'' ''olive'' (shop_edit (Some (shop_address\<lparr>postcode := ''EC1A 1BB''\<rparr>))) shop_listings))
    = Some \<lparr>bearingDegrees = 90, distanceMetres = 700\<rparr>"
  using edit_keeps_offset [OF _ _ shop_locator shop_offset, of "shop_edit (Some (shop_address\<lparr>postcode := ''EC1A 1BB''\<rparr>))"]
    shop_inv plain_encryptor_readable example_places by (simp add: shop_edit_def)

lemma shop_without_changed: "shop_without \<noteq> shop_listings"
proof
  assume "shop_without = shop_listings"
  then have "location_rows shop_listings = []" using shop_without_rows(2) by simp
  then show False by (simp add: shop_listings_def)
qed

lemma shop_without_inv: "listing_inv plain_encryptor shop_without"
  using edit_sound [of shop_deps shop_listings "''l1''" "''olive''" "shop_edit None"] shop_inv plain_encryptor_readable
  by (simp add: shop_without_def published_complete_def)

definition shop_again :: ListingDb where
  "shop_again = snd (edit id shop_deps ''l1'' ''olive'' (shop_edit (Some shop_address)) shop_without)"

lemma shop_again_changed: "shop_again \<noteq> shop_without"
proof -
  let ?v = "version_row (shop_env ''1'' 1) ''c1'' 1 shop_config ''ada''" and ?r = "shop_row\<lparr>l_outwardCode := None, l_town := None, l_updatedAt := 2\<rparr>"
  let ?pt = "fuzzedAt \<lparr>latitude = 515 / 10, longitude = - 1 / 10\<rparr> (createFuzzOffset (\<lambda>low high. low))"
  let ?loc = "Relocated shop_address (Some ?pt)" and ?place = "(Some ''SW1A'', Some ''London'')"
  let ?f = "apply_edit (listingNow (listingEnv shop_deps)) (cv_id ?v) (planned_edit (shop_edit (Some shop_address)) ?v example_values ?loc) ?place"
  let ?new = "\<lparr>loc_listingId = ''l1'', loc_postcode = ''SW1A 1AA'', loc_detail = seal plain_encryptor ''l1'' shop_address, loc_point = Some ?pt\<rparr>"
  have code: "outwardCode ''SW1A 1AA'' = Inr ''SW1A''" by code_simp
  have "location_checks ?new"
    by (simp add: location_checks_def fuzzedAt_def Let_def createFuzzOffset_def MINIMUM_FUZZ_METRES_def)
  then have wrote: "writeLocation (fieldEncryptor shop_deps) ''l1'' ?loc (touch_row ''l1'' ?f shop_without)
      = Inr ((touch_row ''l1'' ?f shop_without)\<lparr>location_rows := [?new]\<rparr>)"
    using shop_without_rows(2) by (simp add: writeLocation_def location_of_def shop_address_def)
  have eq: "shop_again = (touch_row ''l1'' ?f shop_without)\<lparr>location_rows := [?new]\<rparr>"
    unfolding shop_again_def
  proof (rule edit_goes_through [OF _ shop_without_rows(1) _ _ _ _ _ _ _ _ wrote])
    show "listing_checks (?f ?r)"
      by (simp add: apply_edit_def with_rates_def shop_edit_def listing_checks_def) (simp add: shop_row_def rate_in_bounds_def int4_def)
    show "latest_version (l_categoryId ?r) (catalogue shop_without) = Some ?v"
      using shop_version(2) by (simp add: shop_without_rows(3)) (simp add: shop_row_def)
    show "validateAttributeValues (cv_attributes ?v) (sub_attributes (shop_edit (Some shop_address))) = Inr example_values"
      using example_validates by (simp add: version_row_def shop_config_def shop_edit_def)
    show "publishableLocationColumns ?loc = Inr ?place"
      using code by (simp add: publishableLocationColumns_def outward_def shop_address_def)
    have "\<not> isLocated shop_without ''l1''" "findFuzzOffset ''l1'' ''olive'' shop_without = None"
      using shop_without_rows by (simp_all add: isLocated_def location_of_def findFuzzOffset_def)
    moreover have "locator_locate shop_deps (postcode shop_address) = Inr (Some ?pt)"
      by (simp add: shop_deps_def locate_def geocodeQuietly_def example_geocoder_def Point.truncate_def)
    ultimately show "sub_location (shop_edit (Some shop_address)) = None \<and> ?loc = Cleared \<or>
      (\<exists>a p. sub_location (shop_edit (Some shop_address)) = Some a \<and> ?loc = Relocated a p \<and> \<not> isLocated shop_without ''l1''
        \<and> findFuzzOffset ''l1'' ''olive'' shop_without = None \<and> locator_locate shop_deps (postcode a) = Inr p)"
      by (simp add: shop_edit_def)
  qed (simp_all add: shop_without_inv shop_edit_def version_row_def shop_config_def example_transport_def offersTransportRequirement_def)
  have "location_rows shop_again \<noteq> []" unfolding eq by simp
  then show ?thesis using shop_without_rows(2) by metis
qed

theorem cleared_offset_redrawn_witness:
  "findFuzzOffset ''l1'' ''olive'' shop_listings = Some \<lparr>bearingDegrees = 90, distanceMetres = 700\<rparr>
   \<and> findFuzzOffset ''l1'' ''olive'' shop_again = Some \<lparr>bearingDegrees = 0, distanceMetres = 500\<rparr>"
proof -
  have "findFuzzOffset ''l1'' ''olive'' shop_without = None
      \<and> findFuzzOffset ''l1'' ''olive'' shop_again = Some (createFuzzOffset (\<lambda>low high. low))"
    by (rule cleared_offset_redrawn [OF _ _ shop_locator shop_without_def shop_without_changed _ shop_again_def shop_again_changed])
      (use shop_inv plain_encryptor_readable example_places in \<open>simp_all add: shop_edit_def\<close>)
  then show ?thesis using shop_offset by (simp add: createFuzzOffset_def MINIMUM_FUZZ_METRES_def)
qed

subsection \<open>Publishing does not look again\<close>

text \<open>
The checks of publishing read the listing once and the write that follows checks nothing again. If another call of the
owner, an edit in a second tab, makes the listing incomplete in between, the incomplete listing is published all the
same.\<close>
theorem publish_does_not_recheck:
  assumes inv: "listing_inv (fieldEncryptor deps) db" "listing_inv (fieldEncryptor deps) (race db)"
    and gate: "isPublicationEnabled deps" "findOwnerStatus deps owner = Some PrivateOwner"
    and before: "owned_listing i owner db = Some r" "complete db r"
    and between: "owned_listing i owner (race db) = Some r'" "\<not> complete (race db) r'"
  shows "\<exists>rec db'. publish race deps i owner db = (Inr (Some rec), db') \<and> lr_status rec = Published \<and> \<not> published_complete db'"
proof -
  obtain rec where rec: "toRecord_listing (fieldEncryptor deps) db r = Inr rec"
    "\<And>status. publicationBlockers (record_candidate rec status) = [] \<longleftrightarrow> complete db r \<and> status = Some PrivateOwner"
    by (rule record_reads [OF inv(1) conjunct1 [OF owned_mem [OF before(1)]]]) blast
  have found: "findOwnedBy (fieldEncryptor deps) i owner db = (Inr (Some rec), db)"
    using findOwnedBy_reads [OF inv(1)] before(1) rec(1) by simp
  have legal: "refuseIllegalTransition Publish s = Inr ()" for s
    by (cases s) (simp_all add: refuseIllegalTransition_def transitionRefusal_def canTransition_listing_def)
  have ok: "publicationBlockers (record_candidate rec (findOwnerStatus deps owner)) = []" using rec(2) before(2) gate(2) by simp
  obtain after where after: "store_publish (fieldEncryptor deps) (listingEnv deps) i owner (race db)
      = (Inr (Some after), touch_row i (set_status Published deps) (race db))" "lr_status after = Published"
    unfolding store_publish_def by (rule status_written [OF inv(2) between(1), of Published deps]) blast
  have "set_status Published deps r' \<in> set (listing_rows (touch_row i (set_status Published deps) (race db)))"
    using owned_mem [OF between(1)] by force
  moreover have "\<not> complete (touch_row i (set_status Published deps) (race db)) (set_status Published deps r')"
    "l_status (set_status Published deps r') = Published" using between(2) by simp_all
  ultimately have "\<not> published_complete (touch_row i (set_status Published deps) (race db))"
    unfolding published_complete_def by blast
  moreover have "publish race deps i owner db = (Inr (Some after), touch_row i (set_status Published deps) (race db))"
    using gate(1) ok after(1) by (simp add: publish_def await_def action_defs found legal others_def)
  ultimately show ?thesis using after(2) by blast
qed

theorem publish_does_not_recheck_witness:
  "\<exists>rec db'. publish (\<lambda>db. snd (edit id shop_deps ''l1'' ''olive'' (shop_edit None) db)) shop_deps ''l1'' ''olive'' shop_listings = (Inr (Some rec), db')
     \<and> lr_status rec = Published \<and> \<not> published_complete db'"
proof (rule publish_does_not_recheck [where r = shop_row and r' = "shop_row\<lparr>l_outwardCode := None, l_town := None, l_updatedAt := 2\<rparr>"])
  show "owned_listing ''l1'' ''olive'' (snd (edit id shop_deps ''l1'' ''olive'' (shop_edit None) shop_listings))
      = Some (shop_row\<lparr>l_outwardCode := None, l_town := None, l_updatedAt := 2\<rparr>)"
    using shop_without_rows(1) by (simp add: shop_without_def)
  show "\<not> complete (snd (edit id shop_deps ''l1'' ''olive'' (shop_edit None) shop_listings)) (shop_row\<lparr>l_outwardCode := None, l_town := None, l_updatedAt := 2\<rparr>)"
    using shop_without_rows(2) by (simp add: complete_def isLocated_def location_of_def shop_without_def)
qed (use shop_inv shop_without_inv shop_complete in \<open>simp_all add: shop_without_def\<close>, simp_all add: shop_deps_def)

subsection \<open>Erasing an account\<close>

abbreviation is_booked :: "BookingDb \<Rightarrow> string \<Rightarrow> bool" where
  "is_booked bdb i \<equiv> \<exists>b \<in> set (booking_rows bdb). bk_listingId b = i"

abbreviation owned_ids :: "Actor \<Rightarrow> ListingDb \<Rightarrow> string set" where
  "owned_ids actor db \<equiv> set (listIdsOwnedBy (actorUserId actor) db)"

lemma set_findBookedListings: "set (findBookedListings ids bdb) = {i \<in> set ids. is_booked bdb i}"
  by (auto simp: findBookedListings_def)

lemma set_listIds: "set (listIdsOwnedBy owner db) = {l_id r |r. r \<in> set (listing_rows db) \<and> l_ownerId r = owner}"
  by (auto simp: listIdsOwnedBy_def)

text \<open>
Erasing an account removes every address and every photograph of its listings and every listing nobody has booked; a
booked listing stays without its address, and nothing of another owner is touched. A photograph's bytes stay only where
the object store refused to delete them. A booking made after the references were read makes the erasure fail with the
listings and addresses still there.\<close>
theorem account_erased:
  "(\<exists>db'. listings_eraseFor bdb bdb deps actor db = (Inr (), db')
      \<and> listing_rows db' = filter (\<lambda>r. l_ownerId r \<noteq> actorUserId actor \<or> is_booked bdb (l_id r)) (listing_rows db)
      \<and> location_rows db' = filter (\<lambda>loc. loc_listingId loc \<notin> owned_ids actor db) (location_rows db)
      \<and> media_rows db' = filter (\<lambda>m. media_listingId m \<notin> owned_ids actor db) (media_rows db)
      \<and> set (bucket db') = set (bucket db) -
          {k \<in> keys_of (filter (\<lambda>m. media_listingId m \<in> owned_ids actor db) (media_rows db)). \<not> delete_fails (objectStore deps) k}
      \<and> catalogue db' = catalogue db)
    \<and> (\<forall>i \<in> owned_ids actor db. is_booked bdb' i \<and> \<not> is_booked bdb i \<longrightarrow>
        (\<exists>db'. listings_eraseFor bdb bdb' deps actor db = (Inl (StoreFault ReferencedRow), db')
          \<and> listing_rows db' = listing_rows db \<and> location_rows db' = location_rows db))"
proof (intro conjI ballI impI)
  let ?me = "actorUserId actor" and ?ids = "listIdsOwnedBy (actorUserId actor) db"
  let ?db = "eraseForListings (objectStore deps) ?ids db" and ?keep = "findBookedListings ?ids bdb"
  have run: "listings_eraseFor bdb x deps actor db = eraseOwnedBy (\<lambda>i. list_ex (\<lambda>b. bk_listingId b = i) (booking_rows x)) ?me ?keep ?db" for x
    by (simp add: listings_eraseFor_def await_def reading_def Let_def)
  have keep: "l_id r \<in> set ?keep \<longleftrightarrow> is_booked bdb (l_id r)" if "r \<in> set (listing_rows db)" "l_ownerId r = ?me" for r
    using that by (auto simp: set_findBookedListings set_listIds)
  let ?gone = "\<lambda>r. l_ownerId r = ?me \<and> l_id r \<notin> set ?keep"
  have none: "\<not> list_ex (\<lambda>r. ?gone r \<and> list_ex (\<lambda>b. bk_listingId b = l_id r) (booking_rows bdb)) (listing_rows ?db)"
    using keep by (auto simp: list_ex_iff)
  have split: "x \<notin> set ?keep \<and> x \<notin> l_id ` set (filter ?gone (listing_rows db)) \<longleftrightarrow> x \<notin> owned_ids actor db" for x
    by (auto simp: set_findBookedListings set_listIds)
  have left: "filter (\<lambda>r. \<not> ?gone r) (listing_rows db)
      = filter (\<lambda>r. l_ownerId r \<noteq> ?me \<or> is_booked bdb (l_id r)) (listing_rows db)"
    using keep by (intro filter_cong) auto
  have media: "filter (\<lambda>m. media_listingId m \<notin> l_id ` set (filter ?gone (listing_rows db))) (filter (\<lambda>m. media_listingId m \<notin> owned_ids actor db) (media_rows db))
      = filter (\<lambda>m. media_listingId m \<notin> owned_ids actor db) (media_rows db)"
    unfolding filter_filter by (intro filter_cong) (auto simp: set_listIds)
  show "\<exists>db'. listings_eraseFor bdb bdb deps actor db = (Inr (), db')
      \<and> listing_rows db' = filter (\<lambda>r. l_ownerId r \<noteq> ?me \<or> is_booked bdb (l_id r)) (listing_rows db)
      \<and> location_rows db' = filter (\<lambda>loc. loc_listingId loc \<notin> owned_ids actor db) (location_rows db)
      \<and> media_rows db' = filter (\<lambda>m. media_listingId m \<notin> owned_ids actor db) (media_rows db)
      \<and> set (bucket db') = set (bucket db) -
          {k \<in> keys_of (filter (\<lambda>m. media_listingId m \<in> owned_ids actor db) (media_rows db)). \<not> delete_fails (objectStore deps) k}
      \<and> catalogue db' = catalogue db"
    unfolding run eraseOwnedBy_def atomically_def Let_def if_not_P [OF none]
    using media left split by (simp add: erase_media_bucket)
  fix i
  assume i: "i \<in> owned_ids actor db" and race: "is_booked bdb' i \<and> \<not> is_booked bdb i"
  then obtain r where "r \<in> set (listing_rows db)" "l_ownerId r = ?me" "l_id r = i" by (auto simp: set_listIds)
  then have "list_ex (\<lambda>r. ?gone r \<and> list_ex (\<lambda>b. bk_listingId b = l_id r) (booking_rows bdb')) (listing_rows ?db)"
    using race by (auto simp: list_ex_iff set_findBookedListings)
  then show "\<exists>db'. listings_eraseFor bdb bdb' deps actor db = (Inl (StoreFault ReferencedRow), db')
      \<and> listing_rows db' = listing_rows db \<and> location_rows db' = location_rows db"
    unfolding run eraseOwnedBy_def atomically_def Let_def by simp
qed

definition no_bookings :: BookingDb where
  "no_bookings = \<lparr>booking_rows = [], event_rows = [], quote_rows = [], block_rows = [], listing_owner = (\<lambda>_. None)\<rparr>"

theorem account_erased_witness:
  "\<exists>db'. listings_eraseFor no_bookings no_bookings shop_deps (shop_admin\<lparr>actorUserId := ''olive''\<rparr>) shop_listings = (Inr (), db')
     \<and> listing_rows db' = [] \<and> location_rows db' = []"
proof -
  let ?me = "shop_admin\<lparr>actorUserId := ''olive''\<rparr>"
  obtain db' where run: "listings_eraseFor no_bookings no_bookings shop_deps ?me shop_listings = (Inr (), db')"
    and rows: "listing_rows db' = filter (\<lambda>r. l_ownerId r \<noteq> actorUserId ?me \<or> is_booked no_bookings (l_id r)) (listing_rows shop_listings)"
      "location_rows db' = filter (\<lambda>loc. loc_listingId loc \<notin> owned_ids ?me shop_listings) (location_rows shop_listings)"
    using account_erased [of no_bookings shop_deps ?me shop_listings no_bookings] by blast
  have "owned_ids ?me shop_listings = {''l1''}" by (simp add: listIdsOwnedBy_def) (simp add: shop_row_def)
  then have "listing_rows db' = []" "location_rows db' = []"
    using rows by (simp_all add: no_bookings_def) (simp_all add: shop_row_def shop_listings_def)
  then show ?thesis using run by blast
qed

end
