(* ===== verification/Listing_Search.thy ===== *)
theory Listing_Search
  imports Listings_Public
begin

section \<open>Searching near a postcode\<close>

text \<open>
  The search a renter starts from: the query contract (\<^verbatim>\<open>packages/contracts/src/search.ts\<close>), the query over the listing
  and booking tables (\<^verbatim>\<open>apps/api/src/search-location/prisma-listing-search.ts\<close>) and \<^verbatim>\<open>searchNearby\<close> of the listings
  service. The spatial functions of the database are the parameters \<open>stDistance\<close> and \<open>stDWithin\<close>, the text search the
  parameter \<open>textMatch\<close>, the calendar and the geocoder parameters as before. A range of the database overlaps another only
  if neither is empty.
\<close>

subsection \<open>The query\<close>

definition SEARCH_RADII_MILES :: "int list" where "SEARCH_RADII_MILES = [5, 10, 20, 50, 100]"
definition DEFAULT_SEARCH_RADIUS_MILES :: int where "DEFAULT_SEARCH_RADIUS_MILES = 5"
definition SEARCH_PAGE_SIZE :: nat where "SEARCH_PAGE_SIZE = 24"
definition FIRST_SEARCH_PAGE :: nat where "FIRST_SEARCH_PAGE = 1"
definition MAX_SEARCH_PAGE :: nat where "MAX_SEARCH_PAGE = 20"
definition SEARCH_RESULT_LIMIT :: nat where "SEARCH_RESULT_LIMIT = SEARCH_PAGE_SIZE"

fun after_radius :: "int list \<Rightarrow> int \<Rightarrow> int option" where
  "after_radius (x # y # zs) radius = (if x = radius then Some y else after_radius (y # zs) radius)"
| "after_radius _ radius = None"

definition widerRadius :: "int \<Rightarrow> int option" where
  "widerRadius radius = after_radius SEARCH_RADII_MILES radius"

definition resultsToSkip :: "nat \<Rightarrow> nat" where
  "resultsToSkip page = (page - FIRST_SEARCH_PAGE) * SEARCH_PAGE_SIZE"

definition nextSearchPage :: "nat \<Rightarrow> nat option" where
  "nextSearchPage page = (if MAX_SEARCH_PAGE \<le> page then None else Some (page + 1))"

definition previousSearchPage :: "nat \<Rightarrow> nat option" where
  "previousSearchPage page = (if page \<le> FIRST_SEARCH_PAGE then None else Some (page - 1))"

record ListingSearchQuery =
  q_postcode :: string
  q_radiusMiles :: int
  q_page :: nat
  q_category :: "string option"
  q_keyword :: "string option"
  q_dates :: "(string \<times> string) option"

datatype DateProblem = GiveBothDates | LastDayBeforeFirst | HireTooLong

definition searchDatesSchema :: "Calendar \<Rightarrow> string option \<Rightarrow> string option \<Rightarrow> DateProblem + (string \<times> string) option" where
  "searchDatesSchema cal from to =
    (case (from, to) of
       (None, None) \<Rightarrow> Inr None
     | (Some f, Some t) \<Rightarrow>
         if t < f then Inl LastDayBeforeFirst
         else if rentalDayCount cal (startOfLocalDay cal f) (startOfLocalDay cal t) PLATFORM_TIME_ZONE + 1 > MAX_MAXIMUM_RENTAL_DAYS then Inl HireTooLong
         else Inr (Some (f, t))
     | _ \<Rightarrow> Inl GiveBothDates)"

subsection \<open>The query over the tables\<close>

record NearbySearch =
  originPostcode :: string
  radiusMiles :: int
  searchCategoryId :: "string option"
  searchKeyword :: "string option"
  searchDates :: "(string \<times> string) option"
  windowLimit :: nat
  windowOffset :: nat

record NearbyListing =
  nearbyId :: string
  nearbyDistance :: DistanceBucket

record Spatial =
  stDistance :: "Point \<Rightarrow> Point \<Rightarrow> rat"
  stDWithin :: "Point \<Rightarrow> Point \<Rightarrow> rat \<Rightarrow> bool"
  textMatch :: "ListingRow \<Rightarrow> string \<Rightarrow> bool"

datatype SearchFault = SearchGeocode GeocodeFailure | EmptyRange | SearchStore ListingFault | SearchRefused ListingError

definition range_overlaps :: "int \<Rightarrow> int \<Rightarrow> int \<Rightarrow> int \<Rightarrow> bool" where
  "range_overlaps s e s' e' \<longleftrightarrow> s < e \<and> s' < e' \<and> s < e' \<and> s' < e"

definition freeForDates :: "BookingDb \<Rightarrow> string \<Rightarrow> int \<Rightarrow> int \<Rightarrow> bool" where
  "freeForDates bdb i s e \<longleftrightarrow>
     \<not> list_ex (\<lambda>b. bl_listingId b = i \<and> range_overlaps (bl_startAt b) (bl_endAt b) s e) (block_rows bdb) \<and>
     \<not> list_ex (\<lambda>b. bk_listingId b = i \<and> bk_state b \<in> set CALENDAR_OCCUPYING_STATES \<and> range_overlaps (bk_startAt b) (bk_endAt b) s e) (booking_rows bdb)"

record DistanceRow =
  rowListingId :: string
  rowMetres :: rat

text \<open>One row of the join, if the listing is visible and matches every condition.\<close>

definition distance_row ::
  "Spatial \<Rightarrow> Point \<Rightarrow> NearbySearch \<Rightarrow> (int \<times> int) option \<Rightarrow> BookingDb \<Rightarrow> ListingDb \<Rightarrow> LocationRow \<Rightarrow> DistanceRow option" where
  "distance_row geo origin search period bdb db loc =
    (case (listing_by_id (loc_listingId loc) db, loc_point loc) of
       (Some l, Some p) \<Rightarrow>
         if l_status l = Published \<and> l_moderationState l = Approved
            \<and> (case searchCategoryId search of None \<Rightarrow> True | Some c \<Rightarrow> l_categoryId l = c)
            \<and> (case searchKeyword search of None \<Rightarrow> True | Some k \<Rightarrow> textMatch geo l k)
            \<and> (case period of None \<Rightarrow> True | Some (s, e) \<Rightarrow> freeForDates bdb (l_id l) s e)
            \<and> stDWithin geo (published_point p) origin (milesToMetres (radiusMiles search))
         then Some \<lparr>rowListingId = l_id l, rowMetres = stDistance geo (published_point p) origin\<rparr> else None
     | _ \<Rightarrow> None)"

definition all_matches :: "Spatial \<Rightarrow> Point \<Rightarrow> NearbySearch \<Rightarrow> (int \<times> int) option \<Rightarrow> BookingDb \<Rightarrow> ListingDb \<Rightarrow> DistanceRow list" where
  "all_matches geo origin search period bdb db =
    sort_key rowMetres (sort_key rowListingId (List.map_filter (distance_row geo origin search period bdb db) (location_rows db)))"

definition toNearbyListing :: "DistanceRow \<Rightarrow> NearbyListing" where
  "toNearbyListing row = \<lparr>nearbyId = rowListingId row, nearbyDistance = bucketDistance (rowMetres row)\<rparr>"

definition findWithin ::
  "Calendar \<Rightarrow> PostcodeGeocoder \<Rightarrow> Spatial \<Rightarrow> NearbySearch \<Rightarrow> BookingDb \<Rightarrow> ListingDb \<Rightarrow> SearchFault + NearbyListing Page option" where
  "findWithin cal geocoder geo search bdb db =
    rbind (map_sum SearchGeocode id (geocodeQuietly geocoder (originPostcode search))) (\<lambda>origin.
    case origin of
      None \<Rightarrow> Inr None
    | Some o' \<Rightarrow>
        let period = map_option (\<lambda>(f, t). periodFromLocalDates cal f t) (searchDates search) in
        if pred_option (\<lambda>(s, e). s \<le> e) period then
          let page = fitTo (take (probe (windowLimit search)) (drop (windowOffset search) (all_matches geo o' search period bdb db))) (windowLimit search) in
          Inr (Some \<lparr>items = map toNearbyListing (items page), truncated = truncated page\<rparr>)
        else Inl EmptyRange)"

subsection \<open>The service\<close>

record NearbyListingView =
  nearbyListing :: PublicListingSummaryRecord
  nearbyOwnerStatus :: OwnerStatus
  nearbyBucket :: DistanceBucket
  nearbyThumbnail :: "ListingMediaImage option"

definition near_view :: "ListingDeps \<Rightarrow> PublicListingSummaryRecord list \<Rightarrow> NearbyListing \<Rightarrow> NearbyListingView option" where
  "near_view deps summaries match =
    (case find (\<lambda>s. ps_id s = nearbyId match) (rev summaries) of
       None \<Rightarrow> None
     | Some listing \<Rightarrow>
         if findOwnerStatus deps (ps_ownerId listing) \<noteq> Some PrivateOwner then None
         else Some \<lparr>nearbyListing = listing, nearbyOwnerStatus = PrivateOwner, nearbyBucket = nearbyDistance match,
                    nearbyThumbnail = sign_image (objectStore deps) (ps_thumbnail listing)\<rparr>)"

text \<open>\<open>db'\<close> is the database the summaries are read from, after the proximity query has read \<open>db\<close>.\<close>

definition nearby_search :: "ListingSearchQuery \<Rightarrow> string option \<Rightarrow> NearbySearch" where
  "nearby_search search catId = \<lparr>originPostcode = q_postcode search, radiusMiles = q_radiusMiles search, searchCategoryId = catId,
     searchKeyword = q_keyword search, searchDates = q_dates search, windowLimit = SEARCH_RESULT_LIMIT,
     windowOffset = resultsToSkip (q_page search)\<rparr>"

definition searchNearby ::
  "Calendar \<Rightarrow> PostcodeGeocoder \<Rightarrow> Spatial \<Rightarrow> ListingDeps \<Rightarrow> ListingSearchQuery \<Rightarrow> BookingDb \<Rightarrow> ListingDb \<Rightarrow> ListingDb
    \<Rightarrow> SearchFault + NearbyListingView Page option" where
  "searchNearby cal geocoder geo deps search bdb db db' =
    rbind (map_sum SearchRefused id (case q_category search of None \<Rightarrow> Inr None | Some slug \<Rightarrow> rbind (resolveSearchCategory slug db) (\<lambda>c. Inr (Some c)))) (\<lambda>catId.
    rbind (findWithin cal geocoder geo (nearby_search search catId) bdb db) (\<lambda>found.
    case found of
      None \<Rightarrow> Inr None
    | Some page \<Rightarrow>
        rbind (map_sum SearchStore id (findPublishedSummaries (map nearbyId (items page)) db')) (\<lambda>summaries.
          Inr (Some \<lparr>items = List.map_filter (near_view deps summaries) (items page), truncated = truncated page\<rparr>))))"

datatype ListingSearchOutcome = SearchFound | BeyondEnd | SearchEmpty

definition searchOutcome :: "nat \<Rightarrow> nat \<Rightarrow> ListingSearchOutcome" where
  "searchOutcome resultCount pageNumber =
    (if 0 < resultCount then SearchFound else if FIRST_SEARCH_PAGE < pageNumber then BeyondEnd else SearchEmpty)"

subsection \<open>Pages\<close>

lemma chunks: "concat (map (\<lambda>k. take m (drop ((k - 1) * m) xs)) [1..<Suc n]) = take (n * m) xs"
proof (induction n)
  case (Suc n)
  have "take (Suc n * m) xs = take (n * m) xs @ take m (drop (n * m) xs)" by (metis add.commute mult_Suc take_add)
  then show ?case using Suc by simp
qed simp

definition search_page :: "Calendar \<Rightarrow> PostcodeGeocoder \<Rightarrow> Spatial \<Rightarrow> NearbySearch \<Rightarrow> BookingDb \<Rightarrow> ListingDb \<Rightarrow> nat \<Rightarrow> NearbyListing Page" where
  "search_page cal geocoder geo search bdb db n =
    the (projr (findWithin cal geocoder geo (search\<lparr>windowLimit := SEARCH_RESULT_LIMIT, windowOffset := resultsToSkip n\<rparr>) bdb db))"

abbreviation search_period :: "Calendar \<Rightarrow> NearbySearch \<Rightarrow> (int \<times> int) option" where
  "search_period cal search \<equiv> map_option (\<lambda>(f, t). periodFromLocalDates cal f t) (searchDates search)"

lemma distance_row_window [simp]:
  "distance_row geo origin (search\<lparr>windowLimit := a, windowOffset := b\<rparr>) period bdb db = distance_row geo origin search period bdb db"
  by (rule ext) (simp add: distance_row_def split: option.splits)

lemma search_page_run:
  assumes "geocodeQuietly geocoder (originPostcode search) = Inr (Some origin)" "pred_option (\<lambda>(s, e). s \<le> e) (search_period cal search)"
  shows "findWithin cal geocoder geo (search\<lparr>windowLimit := SEARCH_RESULT_LIMIT, windowOffset := resultsToSkip n\<rparr>) bdb db
      = Inr (Some (search_page cal geocoder geo search bdb db n))"
    "items (search_page cal geocoder geo search bdb db n)
      = map toNearbyListing (take SEARCH_PAGE_SIZE (drop ((n - 1) * SEARCH_PAGE_SIZE) (all_matches geo origin search (search_period cal search) bdb db)))"
    "truncated (search_page cal geocoder geo search bdb db n)
      \<longleftrightarrow> (n - 1) * SEARCH_PAGE_SIZE + SEARCH_PAGE_SIZE < length (all_matches geo origin search (search_period cal search) bdb db)"
  using assms
  by (auto simp: search_page_def findWithin_def Let_def all_matches_def fitTo_probe SEARCH_RESULT_LIMIT_def resultsToSkip_def FIRST_SEARCH_PAGE_def)

definition search_hit :: "Spatial \<Rightarrow> Point \<Rightarrow> NearbySearch \<Rightarrow> (int \<times> int) option \<Rightarrow> BookingDb \<Rightarrow> ListingDb \<Rightarrow> string \<Rightarrow> rat \<Rightarrow> bool" where
  "search_hit geo origin search period bdb db i metres \<longleftrightarrow>
    (\<exists>loc \<in> set (location_rows db). \<exists>l p. listing_by_id (loc_listingId loc) db = Some l \<and> loc_point loc = Some p \<and> l_id l = i
       \<and> isPubliclyVisible (l_status l) (l_moderationState l)
       \<and> (\<forall>c. searchCategoryId search = Some c \<longrightarrow> l_categoryId l = c) \<and> (\<forall>k. searchKeyword search = Some k \<longrightarrow> textMatch geo l k)
       \<and> (\<forall>s e. period = Some (s, e) \<longrightarrow> freeForDates bdb i s e)
       \<and> stDWithin geo (published_point p) origin (milesToMetres (radiusMiles search)) \<and> metres = stDistance geo (published_point p) origin)"

lemma distance_row_Some:
  "distance_row geo origin search period bdb db loc = Some row \<longleftrightarrow>
    (\<exists>l p. listing_by_id (loc_listingId loc) db = Some l \<and> loc_point loc = Some p \<and> l_id l = rowListingId row
       \<and> isPubliclyVisible (l_status l) (l_moderationState l)
       \<and> (\<forall>c. searchCategoryId search = Some c \<longrightarrow> l_categoryId l = c) \<and> (\<forall>k. searchKeyword search = Some k \<longrightarrow> textMatch geo l k)
       \<and> (\<forall>s e. period = Some (s, e) \<longrightarrow> freeForDates bdb (rowListingId row) s e)
       \<and> stDWithin geo (published_point p) origin (milesToMetres (radiusMiles search)) \<and> rowMetres row = stDistance geo (published_point p) origin)"
  by (cases row) (auto simp: distance_row_def isPubliclyVisible_def split: option.splits if_splits)

lemma set_map_filter_eq: "set (List.map_filter f xs) = {y. \<exists>x \<in> set xs. f x = Some y}"
  by (induction xs) (auto simp: List.map_filter_simps split: option.splits)

lemma set_all_matches:
  "row \<in> set (all_matches geo origin search period bdb db) \<longleftrightarrow> search_hit geo origin search period bdb db (rowListingId row) (rowMetres row)"
  by (auto simp: all_matches_def set_map_filter_eq distance_row_Some search_hit_def)


subsection \<open>What a result promises\<close>

lemma range_overlaps_overlaps: "s < e \<Longrightarrow> s' < e' \<Longrightarrow> range_overlaps s e s' e' = overlaps s' e' s e"
  by (auto simp: range_overlaps_def overlaps_def)

lemma free_is_available:
  assumes "freeForDates bdb i s e" "s < e" "\<forall>b \<in> set (block_rows bdb). bl_startAt b < bl_endAt b"
    and "\<forall>b \<in> set (booking_rows bdb). bk_startAt b < bk_endAt b"
  shows "reasonUnavailable i s e bdb = None"
  using assms by (auto simp: reasonUnavailable_def freeForDates_def list_ex_iff find_None_all range_overlaps_overlaps)

lemma summary_row:
  assumes "findPublishedSummaries ids db = Inr summaries" "s \<in> set summaries"
  shows "\<exists>r \<in> set (listing_rows db). ps_id s = l_id r \<and> ps_ownerId s = l_ownerId r \<and> isPubliclyVisible (l_status r) (l_moderationState r)"
proof -
  let ?rows = "filter (\<lambda>r. l_id r \<in> set ids \<and> PUBLICLY_VISIBLE r) (listing_rows db)"
  obtain found where f: "rmap (summary_of db) ?rows = Inr found" "summaries = List.map_filter id found"
    using assms(1) by (auto simp: findPublishedSummaries_def result_simps)
  have "Some s \<in> set found" using assms(2) f(2) by (auto simp: set_map_filter_eq)
  moreover have "map Inr found = map (summary_of db) ?rows" by (rule rmap_Inr_map [OF f(1)])
  ultimately obtain r where r: "r \<in> set ?rows" "summary_of db r = Inr (Some s)"
    by (metis (no_types, lifting) image_iff list.set_map)
  then have "ps_id s = l_id r \<and> ps_ownerId s = l_ownerId r"
    by (auto simp: summary_of_def result_simps split: option.splits)
  then show ?thesis using r(1) by (auto simp: PUBLICLY_VISIBLE_def isPubliclyVisible_def)
qed

lemma searchNearby_run:
  assumes "searchNearby cal geocoder geo deps search bdb db db' = Inr (Some page)" "view \<in> set (items page)"
  obtains origin catId ids summaries row where "geocodeQuietly geocoder (q_postcode search) = Inr (Some origin)"
    "findPublishedSummaries ids db' = Inr summaries" "nearbyListing view \<in> set summaries"
    "findOwnerStatus deps (ps_ownerId (nearbyListing view)) = Some PrivateOwner"
    "row \<in> set (all_matches geo origin (nearby_search search catId) (search_period cal (nearby_search search catId)) bdb db)"
    "rowListingId row = ps_id (nearbyListing view)" "nearbyBucket view = bucketDistance (rowMetres row)"
proof -
  obtain catId near summaries where near: "findWithin cal geocoder geo (nearby_search search catId) bdb db = Inr (Some near)"
    and sums: "findPublishedSummaries (map nearbyId (items near)) db' = Inr summaries"
    and page: "items page = List.map_filter (near_view deps summaries) (items near)"
    using assms(1) by (auto simp: searchNearby_def result_simps split: option.splits)
  define ns where "ns = nearby_search search catId"
  obtain origin where o': "geocodeQuietly geocoder (originPostcode ns) = Inr (Some origin)" "pred_option (\<lambda>(s, e). s \<le> e) (search_period cal ns)"
    using near by (auto simp: ns_def findWithin_def result_simps Let_def split: option.splits if_splits)
  have win: "ns\<lparr>windowLimit := SEARCH_RESULT_LIMIT, windowOffset := resultsToSkip (q_page search)\<rparr> = ns" by (simp add: ns_def nearby_search_def)
  have np: "near = search_page cal geocoder geo ns bdb db (q_page search)"
    using search_page_run(1) [OF o', of geo "q_page search" bdb db] near unfolding win by (simp add: ns_def)
  obtain m where m: "m \<in> set (items near)" "near_view deps summaries m = Some view"
    using assms(2) page by (auto simp: set_map_filter_eq)
  have v: "nearbyListing view \<in> set summaries" "ps_id (nearbyListing view) = nearbyId m"
    "findOwnerStatus deps (ps_ownerId (nearbyListing view)) = Some PrivateOwner" "nearbyBucket view = nearbyDistance m"
    using m(2) by (auto simp: near_view_def split: option.splits if_splits dest!: find_Some_mem)
  obtain row where row: "row \<in> set (all_matches geo origin ns (search_period cal ns) bdb db)" "m = toNearbyListing row"
    using m(1) unfolding np search_page_run(2) [OF o'] by (auto dest: in_set_takeD in_set_dropD)
  have "originPostcode ns = q_postcode search" by (simp add: ns_def nearby_search_def)
  then show thesis
    using that [OF _ sums v(1,3) row(1) [unfolded ns_def]] o'(1) v(2,4) row(2) by (simp add: toNearbyListing_def)
qed

text \<open>
C22: A search result keeps its promise. Every listing a search shows is published, approved and of a private owner when it
is read, and when dates were given neither a block nor a booking that occupies the calendar stands against them: a quote
for those dates is not refused as taken.\<close>
theorem search_results_available:
  assumes found: "searchNearby cal geocoder geo deps search bdb db db' = Inr (Some page)" "view \<in> set (items page)"
    and periods: "\<forall>b \<in> set (block_rows bdb). bl_startAt b < bl_endAt b" "\<forall>b \<in> set (booking_rows bdb). bk_startAt b < bk_endAt b"
  shows "(\<exists>r \<in> set (listing_rows db'). l_id r = ps_id (nearbyListing view) \<and> isPubliclyVisible (l_status r) (l_moderationState r)
      \<and> findOwnerStatus deps (l_ownerId r) = Some PrivateOwner)
    \<and> (\<forall>f t s e. q_dates search = Some (f, t) \<and> periodFromLocalDates cal f t = (s, e) \<and> s < e \<longrightarrow>
        reasonUnavailable (ps_id (nearbyListing view)) s e bdb = None)"
proof -
  obtain origin catId ids summaries row where s: "findPublishedSummaries ids db' = Inr summaries"
    and v: "nearbyListing view \<in> set summaries" "findOwnerStatus deps (ps_ownerId (nearbyListing view)) = Some PrivateOwner"
    and row: "row \<in> set (all_matches geo origin (nearby_search search catId) (search_period cal (nearby_search search catId)) bdb db)"
      "rowListingId row = ps_id (nearbyListing view)"
    by (rule searchNearby_run [OF found]) blast
  have "reasonUnavailable (ps_id (nearbyListing view)) s e bdb = None"
    if "q_dates search = Some (f, t)" "periodFromLocalDates cal f t = (s, e)" "s < e" for f t s e
  proof (rule free_is_available [OF _ that(3) periods])
    show "freeForDates bdb (ps_id (nearbyListing view)) s e" using row that(1,2) by (auto simp: set_all_matches search_hit_def nearby_search_def)
  qed
  then show ?thesis using summary_row [OF s v(1)] v(2) by force
qed

subsection \<open>What nobody learns\<close>

text \<open>Two databases that differ only in what an address is: postcode, street lines, true coordinates and offset.\<close>

definition same_in_public :: "ListingDb \<Rightarrow> ListingDb \<Rightarrow> bool" where
  "same_in_public db1 db2 \<longleftrightarrow> catalogue db1 = catalogue db2 \<and> listing_rows db1 = listing_rows db2 \<and> media_rows db1 = media_rows db2 \<and>
     list_all2 (\<lambda>a b. loc_listingId a = loc_listingId b \<and> map_option published_point (loc_point a) = map_option published_point (loc_point b))
       (location_rows db1) (location_rows db2)"

lemma distance_row_public:
  assumes "listing_rows db1 = listing_rows db2" "loc_listingId a = loc_listingId b"
    and "map_option published_point (loc_point a) = map_option published_point (loc_point b)"
  shows "distance_row geo origin search period bdb db1 a = distance_row geo origin search period bdb db2 b"
  using assms by (cases "loc_point a"; cases "loc_point b") (auto simp: distance_row_def listing_by_id_def split: option.splits)

lemma map_filter_list_all2:
  assumes "list_all2 R xs ys" "\<And>x y. R x y \<Longrightarrow> f x = g y"
  shows "List.map_filter f xs = List.map_filter g ys"
  using assms(1) by (induction rule: list_all2_induct) (auto simp: List.map_filter_simps assms(2) split: option.splits)

lemma all_matches_public:
  assumes "same_in_public db1 db2"
  shows "all_matches geo origin search period bdb db1 = all_matches geo origin search period bdb db2"
proof -
  have "list_all2 (\<lambda>a b. loc_listingId a = loc_listingId b \<and> map_option published_point (loc_point a) = map_option published_point (loc_point b))
      (location_rows db1) (location_rows db2)" and rows: "listing_rows db1 = listing_rows db2"
    using assms by (simp_all add: same_in_public_def)
  then have "List.map_filter (distance_row geo origin search period bdb db1) (location_rows db1)
      = List.map_filter (distance_row geo origin search period bdb db2) (location_rows db2)"
    by (elim map_filter_list_all2) (simp add: distance_row_public [OF rows])
  then show ?thesis by (simp only: all_matches_def)
qed

lemma reads_public:
  assumes "same_in_public db1 db2"
  shows "pinned_version db1 = pinned_version db2" "public_media i db1 = public_media i db2" "visible_listing i db1 = visible_listing i db2"
    "findPublished i db1 = findPublished i db2" "store_findQuotable i db1 = store_findQuotable i db2" "summary_of db1 = summary_of db2"
proof -
  have c: "catalogue db1 = catalogue db2" using assms by (simp add: same_in_public_def)
  show p: "pinned_version db1 = pinned_version db2"
    by (intro ext) (simp only: pinned_version_def version_by_id_def category_by_id_def c)
  have m: "public_media j db1 = public_media j db2" for j using assms by (simp add: public_media_def same_in_public_def)
  then show "public_media i db1 = public_media i db2" .
  show v: "visible_listing i db1 = visible_listing i db2" using assms by (simp add: visible_listing_def same_in_public_def)
  show "findPublished i db1 = findPublished i db2" "store_findQuotable i db1 = store_findQuotable i db2"
    by (simp_all only: findPublished_def store_findQuotable_def p m v)
  show "summary_of db1 = summary_of db2" by (intro ext) (simp only: summary_of_def p m)
qed

text \<open>
C10: No public answer depends on an address. If two databases agree on everything but the postcodes, the street lines, the
true coordinates and the offsets of the listings, then showing a listing, quoting for it, the list of categories and every
search, whatever its radius, dates, keyword and page, answer the same on both.\<close>
theorem public_answers_hide_address:
  assumes "same_in_public db1 db2" "same_in_public db1' db2'"
  shows "findPublic deps i db1 = findPublic deps i db2 \<and> findQuotable deps i db1 = findQuotable deps i db2
    \<and> publicCategories db1 = publicCategories db2
    \<and> searchNearby cal geocoder geo deps search bdb db1 db1' = searchNearby cal geocoder geo deps search bdb db2 db2'"
proof -
  have cats: "catalogue db1 = catalogue db2" "listing_rows db1' = listing_rows db2'" using assms by (auto simp: same_in_public_def)
  have within: "findWithin cal geocoder geo ns bdb db1 = findWithin cal geocoder geo ns bdb db2" for ns
    by (simp only: findWithin_def all_matches_public [OF assms(1)])
  have sums: "findPublishedSummaries ids db1' = findPublishedSummaries ids db2'" for ids
    by (simp only: findPublishedSummaries_def reads_public(6) [OF assms(2)] cats(2))
  show ?thesis
    by (simp only: findPublic_def findQuotable_def publicCategories_def listCategoryNames_def searchNearby_def resolveSearchCategory_def
        findCategoryId_def reads_public(4,5) [OF assms(1)] cats within sums)
qed


subsection \<open>An example\<close>

definition flat_map :: Spatial where
  "flat_map = \<lparr>stDistance = (\<lambda>p q. 1000), stDWithin = (\<lambda>p q r. 1000 \<le> r), textMatch = (\<lambda>l k. True)\<rparr>"

definition shop_query :: ListingSearchQuery where
  "shop_query = \<lparr>q_postcode = ''SW1A 1AA'', q_radiusMiles = 5, q_page = 1, q_category = None, q_keyword = None,
     q_dates = Some (''2026-03-02'', ''2026-03-03'')\<rparr>"

definition open_shop :: ListingDb where
  "open_shop = touch_row ''l1'' (set_status Published shop_deps) shop_listings"

lemma shop_geocoded:
  "geocodeQuietly example_geocoder ''SW1A 1AA'' = Inr (Some \<lparr>latitude = 515 / 10, longitude = - 1 / 10\<rparr>)"
  by (simp add: geocodeQuietly_def example_geocoder_def Point.truncate_def)


definition march :: Calendar where
  "march = \<lparr>startOfLocalDay = (\<lambda>d. if d = ''2026-03-02'' then 1772409600000 else 1772582400000), addLocalDays = (\<lambda>d n. ''2026-03-04''),
     toLocalDateString = (\<lambda>t. ''2026-03-02''), rentalDayCount = (\<lambda>s e z. (e - s) div 86400000), weekdayOf = (\<lambda>d. 1)\<rparr>"

lemma march_period: "periodFromLocalDates march ''2026-03-02'' ''2026-03-03'' = (1772409600000, 1772582400000)"
  by (simp add: periodFromLocalDates_def march_def)

lemma shop_within:
  "pred_option (\<lambda>(s, e). s \<le> e) (search_period march (nearby_search shop_query None))"
  "geocodeQuietly example_geocoder (originPostcode (nearby_search shop_query None)) = Inr (Some \<lparr>latitude = 515 / 10, longitude = - 1 / 10\<rparr>)"
  by (simp_all add: nearby_search_def shop_query_def march_period shop_geocoded)

lemma open_shop_rows:
  "listing_rows open_shop = [set_status Published shop_deps shop_row]" "location_rows open_shop = location_rows shop_listings"
  "listing_by_id ''l1'' open_shop = Some (set_status Published shop_deps shop_row)"
  by (simp_all add: open_shop_def touch_row_def listing_by_id_def)

lemma five_miles: "1000 \<le> milesToMetres 5" by code_simp

lemma shop_hits:
  "all_matches flat_map origin (nearby_search shop_query None) (Some (1772409600000, 1772582400000)) no_bookings open_shop
     = [\<lparr>rowListingId = ''l1'', rowMetres = 1000\<rparr>]"
proof -
  have "distance_row flat_map origin (nearby_search shop_query None) (Some (1772409600000, 1772582400000)) no_bookings open_shop loc
      = Some \<lparr>rowListingId = ''l1'', rowMetres = 1000\<rparr>" if "loc \<in> set (location_rows shop_listings)" for loc
    using that by (auto simp: distance_row_def shop_listings_def open_shop_rows nearby_search_def shop_query_def flat_map_def
        freeForDates_def no_bookings_def five_miles) (simp_all add: shop_row_def)
  then show ?thesis by (simp add: all_matches_def open_shop_rows) (simp add: shop_listings_def List.map_filter_simps)
qed


lemma summary_reads:
  assumes inv: "listing_inv encryptor db" and mem: "r \<in> set (listing_rows db)" and place: "l_outwardCode r = Some code" "l_town r = Some t"
  obtains s where "summary_of db r = Inr (Some s)" "ps_id s = l_id r" "ps_ownerId s = l_ownerId r"
proof -
  have checks: "listing_checks r" using inv mem by (simp add: listing_inv_def)
  obtain c v w where v: "pinned_version db r = Inr (c, v, w)" "version_ok w" by (rule pinned_reads [OF inv mem]) blast
  obtain card where card: "asRateCard r = Inr card" by (rule card_reads [OF checks])
  show thesis using that place v(1) version_ok_parts(1,2,4) [OF v(2)] card by (auto simp: summary_of_def)
qed

lemma shop_search_runs:
  "\<exists>page view. searchNearby march example_geocoder flat_map shop_deps shop_query no_bookings open_shop open_shop = Inr (Some page)
     \<and> view \<in> set (items page) \<and> ps_id (nearbyListing view) = ''l1''"
proof -
  let ?s = "nearby_search shop_query None" and ?r = "set_status Published shop_deps shop_row"
  have period: "search_period march ?s = Some (1772409600000, 1772582400000)" by (simp add: nearby_search_def shop_query_def march_period)
  have win: "?s\<lparr>windowLimit := SEARCH_RESULT_LIMIT, windowOffset := resultsToSkip 1\<rparr> = ?s" by (simp add: nearby_search_def shop_query_def)
  define page where "page = search_page march example_geocoder flat_map ?s no_bookings open_shop 1"
  have within: "findWithin march example_geocoder flat_map ?s no_bookings open_shop = Inr (Some page)"
    using search_page_run(1) [OF shop_within(2,1), of flat_map 1 no_bookings open_shop] by (simp only: win page_def)
  have near: "items page = [\<lparr>nearbyId = ''l1'', nearbyDistance = bucketDistance 1000\<rparr>]"
    using search_page_run(2) [OF shop_within(2,1), of flat_map no_bookings open_shop 1]
    by (simp add: page_def period shop_hits toNearbyListing_def SEARCH_PAGE_SIZE_def)
  have "snd (publish id shop_deps ''l1'' ''olive'' shop_listings) = open_shop"
    using publishing_run [of shop_deps shop_listings "''l1''" "''olive''"] shop_inv shop_complete by (auto simp: open_shop_def shop_deps_def)
  then have "listing_inv plain_encryptor open_shop"
    using publish_sound [of shop_deps shop_listings "''l1''" "''olive''"] shop_inv by (simp add: published_complete_def)
  moreover have "l_outwardCode ?r = Some ''SW1A''" "l_town ?r = Some ''London''" by (simp_all add: shop_row_def)
  ultimately obtain s where s: "summary_of open_shop ?r = Inr (Some s)" "ps_id s = ''l1''"
    using summary_reads [of plain_encryptor open_shop ?r] by (force simp: open_shop_rows)
  have "PUBLICLY_VISIBLE ?r" by (simp add: PUBLICLY_VISIBLE_def) (simp add: shop_row_def)
  then have "findPublishedSummaries [''l1''] open_shop = Inr [s]"
    using s(1) by (simp add: findPublishedSummaries_def open_shop_rows List.map_filter_simps)
  then show ?thesis
    using s(2) by (simp add: searchNearby_def shop_query_def [THEN arg_cong [where f = q_category]] within near near_view_def shop_deps_def List.map_filter_simps)
qed

theorem search_results_available_witness:
  "\<exists>page view. searchNearby march example_geocoder flat_map shop_deps shop_query no_bookings open_shop open_shop = Inr (Some page)
     \<and> view \<in> set (items page) \<and> reasonUnavailable (ps_id (nearbyListing view)) 1772409600000 1772582400000 no_bookings = None"
proof -
  obtain page view where run: "searchNearby march example_geocoder flat_map shop_deps shop_query no_bookings open_shop open_shop = Inr (Some page)"
      "view \<in> set (items page)" using shop_search_runs by blast
  have "reasonUnavailable (ps_id (nearbyListing view)) 1772409600000 1772582400000 no_bookings = None"
    using search_results_available [OF run] march_period by (simp add: no_bookings_def shop_query_def)
  then show ?thesis using run by blast
qed

definition moved_shop :: ListingDb where
  "moved_shop = open_shop\<lparr>location_rows := map (\<lambda>loc. loc\<lparr>loc_postcode := ''N1 9GU'', loc_detail := ''another''\<rparr>) (location_rows open_shop)\<rparr>"

theorem public_answers_hide_address_witness:
  "moved_shop \<noteq> open_shop \<and> findPublic shop_deps ''l1'' open_shop = findPublic shop_deps ''l1'' moved_shop
   \<and> searchNearby march example_geocoder flat_map shop_deps shop_query no_bookings open_shop open_shop
     = searchNearby march example_geocoder flat_map shop_deps shop_query no_bookings moved_shop moved_shop"
proof -
  have "location_rows moved_shop \<noteq> location_rows open_shop"
    by (simp add: moved_shop_def open_shop_rows) (simp add: shop_listings_def)
  moreover have "same_in_public open_shop moved_shop" by (simp add: same_in_public_def moved_shop_def list_all2_map2 list_all2_same)
  ultimately show ?thesis using public_answers_hide_address [of open_shop moved_shop open_shop moved_shop] by auto
qed

end
