(* ===== verification/Identity_Store.thy ===== *)
theory Identity_Store
  imports Audit_Trail
begin

section \<open>Accounts, approvals, deliveries and sign-ins\<close>

text \<open>
  The tables of the identity module and the operations over them: the mirrored users and the ledger of deliveries
  (\<^verbatim>\<open>apps/api/src/identity/prisma-identity-store.ts\<close>), the proposals that need a second administrator
  (\<^verbatim>\<open>prisma-admin-approval-store.ts\<close>, \<^verbatim>\<open>admin-approval.ts\<close>) and the sign-ins (\<^verbatim>\<open>prisma-authentication-events.ts\<close>). A column of
  type \<^verbatim>\<open>uuid\<close> compares its value and not its spelling, which is lower case once stored. The case folding of a
  \<^verbatim>\<open>citext\<close> column is the database's: the field \<open>citext\<close> of the environment. The state is extensible, so that the modules
  that hold personal data can be put beside it.
\<close>

subsection \<open>Identifiers and addresses\<close>

definition is_hex :: "char \<Rightarrow> bool" where
  "is_hex c \<longleftrightarrow> is_digit c \<or> c \<in> set ''abcdefABCDEF''"

definition ascii_lower :: "char \<Rightarrow> char" where
  "ascii_lower c = (if 65 \<le> (of_char c :: nat) \<and> (of_char c :: nat) \<le> 90 then char_of ((of_char c :: nat) + 32) else c)"

definition lower :: "string \<Rightarrow> string" where
  "lower s = map ascii_lower s"

lemma lower_idem [simp]: "lower (lower s) = lower s"
  by (simp add: lower_def ascii_lower_def)

definition uuid_dashes :: "bool list" where
  "uuid_dashes = replicate 8 False @ [True] @ replicate 4 False @ [True] @ replicate 4 False @ [True] @ replicate 4 False @ [True] @ replicate 12 False"

definition isUuid :: "string \<Rightarrow> bool" where
  "isUuid s \<longleftrightarrow> list_all2 (\<lambda>dash c. if dash then c = CHR ''-'' else is_hex c) uuid_dashes s"

fun split_on :: "char \<Rightarrow> string \<Rightarrow> string list" where
  "split_on d [] = [[]]"
| "split_on d (c # cs) = (if c = d then [] # split_on d cs else (case split_on d cs of w # ws \<Rightarrow> (c # w) # ws | [] \<Rightarrow> [[c]]))"

definition v4_segment :: "string \<Rightarrow> bool" where
  "v4_segment s \<longleftrightarrow> s \<noteq> [] \<and> list_all is_digit s \<and> length s \<le> 3 \<and> digits_value s \<le> 255 \<and> (hd s = CHR ''0'' \<longrightarrow> length s = 1)"

definition is_ipv4 :: "string \<Rightarrow> bool" where
  "is_ipv4 s \<longleftrightarrow> length (split_on CHR ''.'' s) = 4 \<and> list_all v4_segment (split_on CHR ''.'' s)"

definition v6_segment :: "string \<Rightarrow> bool" where
  "v6_segment s \<longleftrightarrow> s \<noteq> [] \<and> list_all is_hex s \<and> length s \<le> 4"

text \<open>How many groups a colon-separated list stands for, an IPv4 tail counting two; \<open>None\<close> when it is not one.\<close>

fun v6_groups :: "string list \<Rightarrow> nat option" where
  "v6_groups [] = Some 0"
| "v6_groups [s] = (if v6_segment s then Some 1 else if is_ipv4 s then Some 2 else None)"
| "v6_groups (s # ss) = (if v6_segment s then map_option Suc (v6_groups ss) else None)"

definition v6_side :: "string \<Rightarrow> nat option" where
  "v6_side s = (if s = [] then Some 0 else v6_groups (split_on CHR '':'' s))"

fun split_gap :: "string \<Rightarrow> (string \<times> string) option" where
  "split_gap (a # b # cs) = (if a = CHR '':'' \<and> b = CHR '':'' then Some ([], cs)
     else map_option (\<lambda>(l, r). (a # l, r)) (split_gap (b # cs)))"
| "split_gap _ = None"

definition v6_address :: "string \<Rightarrow> bool" where
  "v6_address s \<longleftrightarrow>
    (case split_gap s of
       None \<Rightarrow> v6_groups (split_on CHR '':'' s) = Some 8
     | Some (l, r) \<Rightarrow>
         (case (v6_side l, v6_side r) of
            (Some m, Some n) \<Rightarrow> m + n \<le> 7 \<and> (\<not> is_ipv4 (last (split_on CHR '':'' l)))
          | _ \<Rightarrow> False))"

definition zone_char :: "char \<Rightarrow> bool" where
  "zone_char c \<longleftrightarrow> is_digit c \<or> ascii_lower c \<in> set ''abcdefghijklmnopqrstuvwxyz'' \<or> c \<in> set ''-.:''"

definition is_ipv6 :: "string \<Rightarrow> bool" where
  "is_ipv6 s \<longleftrightarrow>
    (let address = takeWhile (\<lambda>c. c \<noteq> CHR ''%'') s; rest = dropWhile (\<lambda>c. c \<noteq> CHR ''%'') s in
     v6_address address \<and> (rest = [] \<or> (tl rest \<noteq> [] \<and> list_all zone_char (tl rest))))"

definition validIpOrNull :: "string option \<Rightarrow> string option" where
  "validIpOrNull v = Option.bind v (\<lambda>s. if is_ipv4 (trim s) \<or> is_ipv6 (trim s) then Some (trim s) else None)"

subsection \<open>The tables\<close>

datatype UserRole = USER | ADMIN

record MirroredUser =
  accountId :: string
  clerkUserId :: string
  userEmail :: string
  userRole :: UserRole
  deletedAt :: "int option"
  deletionRequestedAt :: "int option"
  suspendedAt :: "int option"
  suspensionReason :: "string option"
  userCreatedAt :: int

record UserRow = MirroredUser +
  suspendedById :: "string option"

definition toMirroredUser :: "UserRow \<Rightarrow> MirroredUser" where
  "toMirroredUser r = MirroredUser.truncate r"

record WebhookRow =
  hookProvider :: string
  hookExternalId :: string
  hookEventType :: string
  hookProcessedAt :: "int option"

datatype AuthenticationEventType = SessionStarted | SessionEnded | SessionRemoved | SessionRevoked

record SessionActivity =
  activityIp :: "string option"
  browserName :: "string option"
  browserVersion :: "string option"
  deviceType :: "string option"
  isMobile :: "bool option"

definition NO_SESSION_ACTIVITY :: SessionActivity where
  "NO_SESSION_ACTIVITY = \<lparr>activityIp = None, browserName = None, browserVersion = None, deviceType = None, isMobile = None\<rparr>"

record RecordedAuthenticationEvent =
  authEventId :: string
  clerkSessionId :: string
  authEvent :: AuthenticationEventType
  authOccurredAt :: int
  authActivity :: SessionActivity

record AuthenticationRow = RecordedAuthenticationEvent +
  authUserId :: string

datatype ApprovableAction = RoleChanged (changedUserId: string) (changedRole: UserRole)

record ApprovalDates =
  approvalId :: string
  approvalTargetType :: string
  approvalTargetId :: string
  proposedById :: string
  proposedReason :: string
  proposedAt :: int
  expiresAt :: int
  approvedById :: "string option"
  approvedReason :: "string option"
  approvedAt :: "int option"
  cancelledById :: "string option"
  cancelledReason :: "string option"
  cancelledAt :: "int option"

record AdminApproval = ApprovalDates +
  approvalAction :: ApprovableAction

record ApprovalRow = ApprovalDates +
  actionText :: string
  actionPayload :: json

record IdentityDb =
  user_rows :: "UserRow list"
  webhook_rows :: "WebhookRow list"
  auth_rows :: "AuthenticationRow list"
  approval_rows :: "ApprovalRow list"
  trail_rows :: "AuditRow list"

record IdentityEnv =
  newUserId :: string
  newAuthEventId :: string
  newApprovalId :: string
  newTrailId :: string
  identityNow :: int
  laterNow :: int
  citext :: "string \<Rightarrow> string"

datatype ApprovalState = ApprovalPending | ApprovalApproved | ApprovalCancelled | ApprovalExpired

datatype ApprovalRefusal = SelfSuspension | NoSuchAccount | AccountWasDeleted | AlreadySuspended | NotSuspended | AlreadyHasRole UserRole
  | LastAdministrator | OwnProposal | NoSuchProposal | AccountNoLongerExists

datatype IdentityError = AccountDeleted | ApprovalRefused ApprovalRefusal | ApprovalConflict "ApprovalState option" | UserConflict
  | RowMissing | ForeignKey | CheckViolated | MalformedId | MalformedApproval string | EraserFailed

type_synonym ('z, 'a) identity_action = "('z IdentityDb_scheme, IdentityError, 'a) action"

text \<open>What other requests do to the tables between two statements of this one.\<close>

definition meanwhile :: "('s \<Rightarrow> 's) \<Rightarrow> ('s, 'e, unit) action" where
  "meanwhile race s = (Inr (), race s)"

subsection \<open>Users\<close>

definition user_by_id :: "string \<Rightarrow> 'z IdentityDb_scheme \<Rightarrow> UserRow option" where
  "user_by_id i db = find (\<lambda>u. accountId u = lower i) (user_rows db)"

definition findByClerkUserId :: "string \<Rightarrow> 'z IdentityDb_scheme \<Rightarrow> MirroredUser option" where
  "findByClerkUserId c db = map_option toMirroredUser (find (\<lambda>u. clerkUserId u = c) (user_rows db))"

definition findById :: "string \<Rightarrow> 'z IdentityDb_scheme \<Rightarrow> MirroredUser option" where
  "findById i db = (if isUuid i then map_option toMirroredUser (user_by_id i db) else None)"

definition new_user :: "IdentityEnv \<Rightarrow> string \<Rightarrow> string \<Rightarrow> UserRow" where
  "new_user env c e = \<lparr>accountId = lower (newUserId env), clerkUserId = c, userEmail = e, userRole = USER, deletedAt = None,
     deletionRequestedAt = None, suspendedAt = None, suspensionReason = None, userCreatedAt = identityNow env, suspendedById = None\<rparr>"

definition unique_violation :: "IdentityEnv \<Rightarrow> UserRow \<Rightarrow> UserRow list \<Rightarrow> bool" where
  "unique_violation env u rows \<longleftrightarrow>
     list_ex (\<lambda>r. accountId r = accountId u \<or> clerkUserId r = clerkUserId u \<or> citext env (userEmail r) = citext env (userEmail u)) rows"

definition upsert :: "('z IdentityDb_scheme \<Rightarrow> 'z IdentityDb_scheme) \<Rightarrow> IdentityEnv \<Rightarrow> string \<Rightarrow> string \<Rightarrow> ('z, MirroredUser \<times> bool) identity_action" where
  "upsert race env c e =
    await (reading (findByClerkUserId c)) (\<lambda>existing.
    case existing of
      Some u \<Rightarrow> done_with (u, False)
    | None \<Rightarrow>
        await (meanwhile race) (\<lambda>_ db.
          if unique_violation env (new_user env c e) (user_rows db)
          then (case findByClerkUserId c db of Some raced \<Rightarrow> (Inr (raced, False), db) | None \<Rightarrow> (Inl UserConflict, db))
          else (Inr (toMirroredUser (new_user env c e), True), db\<lparr>user_rows := user_rows db @ [new_user env c e]\<rparr>)))"

definition countAdministrators :: "'z IdentityDb_scheme \<Rightarrow> nat" where
  "countAdministrators db = length (filter (\<lambda>u. userRole u = ADMIN \<and> deletedAt u = None \<and> suspendedAt u = None) (user_rows db))"

definition set_user :: "string \<Rightarrow> (UserRow \<Rightarrow> UserRow) \<Rightarrow> 'z IdentityDb_scheme \<Rightarrow> 'z IdentityDb_scheme" where
  "set_user i f db = db\<lparr>user_rows := map (\<lambda>u. if accountId u = lower i then f u else u) (user_rows db)\<rparr>"

record Suspension =
  suspendAt :: int
  suspendBy :: string
  suspendReason :: string

definition suspension_columns :: "Suspension option \<Rightarrow> UserRow \<Rightarrow> UserRow" where
  "suspension_columns s u = u\<lparr>suspendedAt := map_option suspendAt s, suspendedById := map_option suspendBy s,
     suspensionReason := map_option suspendReason s\<rparr>"

definition setSuspension :: "string \<Rightarrow> Suspension option \<Rightarrow> ('z, MirroredUser) identity_action" where
  "setSuspension i s = atomically (\<lambda>db.
    case user_by_id i db of
      None \<Rightarrow> Inl RowMissing
    | Some u \<Rightarrow>
        if (case s of None \<Rightarrow> True | Some x \<Rightarrow> user_by_id (suspendBy x) db \<noteq> None)
        then Inr (set_user i (suspension_columns s) db, toMirroredUser (suspension_columns s u)) else Inl ForeignKey)"

record UserChanges =
  newEmail :: "string option"
  newDeletedAt :: "int option"
  newDeletionRequestedAt :: "int option"

definition new_or :: "'a option \<Rightarrow> 'a \<Rightarrow> 'a" where
  "new_or new old = (case new of None \<Rightarrow> old | Some x \<Rightarrow> x)"

definition changed_columns :: "UserChanges \<Rightarrow> UserRow \<Rightarrow> UserRow" where
  "changed_columns changes u = u\<lparr>userEmail := new_or (newEmail changes) (userEmail u),
     deletedAt := new_or (map_option Some (newDeletedAt changes)) (deletedAt u),
     deletionRequestedAt := new_or (map_option Some (newDeletionRequestedAt changes)) (deletionRequestedAt u)\<rparr>"

definition update_user :: "IdentityEnv \<Rightarrow> string \<Rightarrow> UserChanges \<Rightarrow> ('z, MirroredUser) identity_action" where
  "update_user env i changes = atomically (\<lambda>db.
    case user_by_id i db of
      None \<Rightarrow> Inl RowMissing
    | Some u \<Rightarrow>
        if list_ex (\<lambda>r. accountId r \<noteq> accountId u \<and> citext env (userEmail r) = citext env (userEmail (changed_columns changes u))) (user_rows db)
        then Inl UserConflict
        else Inr (set_user i (changed_columns changes) db, toMirroredUser (changed_columns changes u)))"

subsection \<open>Deliveries\<close>

definition claim :: "string \<Rightarrow> string \<Rightarrow> string \<Rightarrow> ('z, bool) identity_action" where
  "claim provider externalId eventType db =
    (if list_ex (\<lambda>w. hookProvider w = provider \<and> hookExternalId w = externalId) (webhook_rows db) then (Inr False, db)
     else (Inr True, db\<lparr>webhook_rows := webhook_rows db @
       [\<lparr>hookProvider = provider, hookExternalId = externalId, hookEventType = eventType, hookProcessedAt = None\<rparr>]\<rparr>))"

definition markProcessed :: "IdentityEnv \<Rightarrow> string \<Rightarrow> string \<Rightarrow> ('z, unit) identity_action" where
  "markProcessed env provider externalId db =
    (if list_ex (\<lambda>w. hookProvider w = provider \<and> hookExternalId w = externalId) (webhook_rows db)
     then (Inr (), db\<lparr>webhook_rows := map (\<lambda>w. if hookProvider w = provider \<and> hookExternalId w = externalId
             then w\<lparr>hookProcessedAt := Some (laterNow env)\<rparr> else w) (webhook_rows db)\<rparr>)
     else (Inl RowMissing, db))"

subsection \<open>Sign-ins\<close>

record AuthenticationEventRecord =
  eventUserId :: string
  eventSessionId :: string
  eventKind :: AuthenticationEventType
  eventOccurredAt :: int
  eventActivity :: SessionActivity

definition record_sign_in :: "IdentityEnv \<Rightarrow> AuthenticationEventRecord \<Rightarrow> ('z, unit) identity_action" where
  "record_sign_in env event db =
    (if list_ex (\<lambda>a. clerkSessionId a = eventSessionId event \<and> authEvent a = eventKind event) (auth_rows db) then (Inr (), db)
     else if user_by_id (eventUserId event) db = None then (Inl ForeignKey, db)
     else (Inr (), db\<lparr>auth_rows := auth_rows db @
       [\<lparr>authEventId = newAuthEventId env, clerkSessionId = eventSessionId event, authEvent = eventKind event,
         authOccurredAt = eventOccurredAt event,
         authActivity = (eventActivity event)\<lparr>activityIp := validIpOrNull (activityIp (eventActivity event))\<rparr>,
         authUserId = eventUserId event\<rparr>]\<rparr>))"

definition sign_ins_for :: "string \<Rightarrow> nat \<Rightarrow> 'z IdentityDb_scheme \<Rightarrow> RecordedAuthenticationEvent list" where
  "sign_ins_for userId limit db =
    map RecordedAuthenticationEvent.truncate (take limit (sort_key (\<lambda>a. - authOccurredAt a) (filter (\<lambda>a. authUserId a = userId) (auth_rows db))))"

definition eraseActivity :: "string \<Rightarrow> ('z, unit) identity_action" where
  "eraseActivity userId db =
    (Inr (), db\<lparr>auth_rows := map (\<lambda>a. if authUserId a = userId then a\<lparr>authActivity := NO_SESSION_ACTIVITY\<rparr> else a) (auth_rows db)\<rparr>)"

subsection \<open>Proposals\<close>

definition APPROVAL_WINDOW_HOURS :: int where "APPROVAL_WINDOW_HOURS = 24"

definition approvalState :: "'z ApprovalDates_scheme \<Rightarrow> int \<Rightarrow> ApprovalState" where
  "approvalState a now =
    (if approvedAt a \<noteq> None then ApprovalApproved
     else if cancelledAt a \<noteq> None then ApprovalCancelled
     else if expiresAt a \<le> now then ApprovalExpired else ApprovalPending)"

definition role_name :: "UserRole \<Rightarrow> string" where
  "role_name r = (case r of ADMIN \<Rightarrow> ''ADMIN'' | USER \<Rightarrow> ''USER'')"

definition toPayload :: "ApprovableAction \<Rightarrow> json" where
  "toPayload a = JObject [(''userId'', JString (changedUserId a)), (''role'', JString (role_name (changedRole a)))]"

definition json_member :: "string \<Rightarrow> json \<Rightarrow> json option" where
  "json_member k j = (case j of JObject kvs \<Rightarrow> map_of (rev kvs) k | _ \<Rightarrow> None)"

definition toAction :: "string \<Rightarrow> json \<Rightarrow> IdentityError + ApprovableAction" where
  "toAction action payload =
    (if action \<noteq> ''role.changed'' then Inl (MalformedApproval action)
     else case (json_member ''userId'' payload, json_member ''role'' payload) of
       (Some (JString u), Some (JString r)) \<Rightarrow>
         if r = ''ADMIN'' then Inr (RoleChanged u ADMIN) else if r = ''USER'' then Inr (RoleChanged u USER) else Inl (MalformedApproval action)
     | _ \<Rightarrow> Inl (MalformedApproval action))"

definition toApproval :: "ApprovalRow \<Rightarrow> IdentityError + AdminApproval" where
  "toApproval r = rbind (toAction (actionText r) (actionPayload r)) (\<lambda>a.
     Inr (ApprovalDates.extend (ApprovalDates.truncate r) (AdminApproval.fields a)))"

definition approval_checks :: "ApprovalRow \<Rightarrow> bool" where
  "approval_checks r \<longleftrightarrow>
     approvedById r \<noteq> Some (proposedById r)
     \<and> (approvedById r = None \<and> approvedAt r = None \<and> approvedReason r = None
        \<or> approvedById r \<noteq> None \<and> approvedAt r \<noteq> None \<and> approvedReason r \<noteq> None)
     \<and> (cancelledById r = None \<and> cancelledAt r = None \<and> cancelledReason r = None
        \<or> cancelledById r \<noteq> None \<and> cancelledAt r \<noteq> None \<and> cancelledReason r \<noteq> None)
     \<and> (approvedAt r = None \<or> cancelledAt r = None)"

record ProposeApproval =
  proposeAction :: ApprovableAction
  proposeTargetType :: string
  proposeTargetId :: string
  proposeById :: string
  proposeReason :: string
  proposeExpiresAt :: int

definition approval_row :: "IdentityEnv \<Rightarrow> ProposeApproval \<Rightarrow> ApprovalRow" where
  "approval_row env p = \<lparr>approvalId = newApprovalId env, approvalTargetType = proposeTargetType p,
     approvalTargetId = lower (proposeTargetId p), proposedById = proposeById p, proposedReason = proposeReason p,
     proposedAt = laterNow env, expiresAt = proposeExpiresAt p, approvedById = None, approvedReason = None, approvedAt = None,
     cancelledById = None, cancelledReason = None, cancelledAt = None,
     actionText = ''role.changed'', actionPayload = toPayload (proposeAction p)\<rparr>"

definition propose :: "IdentityEnv \<Rightarrow> ProposeApproval \<Rightarrow> ('z, AdminApproval) identity_action" where
  "propose env p = atomically (\<lambda>db.
    if \<not> isUuid (proposeTargetId p) then Inl MalformedId
    else if user_by_id (proposeById p) db = None then Inl ForeignKey
    else if list_ex (\<lambda>r. approvalId r = newApprovalId env) (approval_rows db) then Inl CheckViolated
    else rbind (toApproval (approval_row env p)) (\<lambda>a.
      Inr (db\<lparr>approval_rows := approval_rows db @ [approval_row env p]\<rparr>, a)))"

definition approval_by_id :: "string \<Rightarrow> 'z IdentityDb_scheme \<Rightarrow> ApprovalRow option" where
  "approval_by_id i db = find (\<lambda>r. approvalId r = lower i) (approval_rows db)"

definition find_approval :: "string \<Rightarrow> 'z IdentityDb_scheme \<Rightarrow> IdentityError + AdminApproval option" where
  "find_approval i db =
    (if \<not> isUuid i then Inl MalformedId
     else case approval_by_id i db of None \<Rightarrow> Inr None | Some r \<Rightarrow> map_sum id Some (toApproval r))"

definition listPending :: "int \<Rightarrow> nat \<Rightarrow> 'z IdentityDb_scheme \<Rightarrow> IdentityError + AdminApproval list" where
  "listPending now limit db =
    rmap toApproval (take limit (sort_key (\<lambda>r. - proposedAt r)
      (filter (\<lambda>r. approvedAt r = None \<and> cancelledAt r = None \<and> now < expiresAt r) (approval_rows db))))"

record ApprovalDecision =
  decisionApprovalId :: string
  decisionById :: string
  approvalDecisionReason :: string
  decisionAt :: int

text \<open>\<open>updateMany\<close>: the rows that match are written, the constraints checked, and the row read again.\<close>

definition update_approvals ::
  "ApprovalDecision \<Rightarrow> (ApprovalRow \<Rightarrow> bool) \<Rightarrow> (ApprovalRow \<Rightarrow> ApprovalRow) \<Rightarrow> 'z IdentityDb_scheme \<Rightarrow> IdentityError + 'z IdentityDb_scheme \<times> AdminApproval" where
  "update_approvals d pred f db =
    (let hit = (\<lambda>r. approvalId r = lower (decisionApprovalId d) \<and> pred r);
         rows = map (\<lambda>r. if hit r then f r else r) (approval_rows db) in
     if \<not> isUuid (decisionApprovalId d) then Inl MalformedId
     else if \<not> list_ex hit (approval_rows db) then Inl (ApprovalConflict None)
     else if user_by_id (decisionById d) db = None then Inl ForeignKey
     else if \<not> list_all approval_checks rows then Inl CheckViolated
     else case find (\<lambda>r. approvalId r = lower (decisionApprovalId d)) rows of
       None \<Rightarrow> Inl RowMissing
     | Some r \<Rightarrow> rbind (toApproval r) (\<lambda>a. Inr (db\<lparr>approval_rows := rows\<rparr>, a)))"

definition apply_action :: "ApprovableAction \<Rightarrow> 'z IdentityDb_scheme \<Rightarrow> IdentityError + 'z IdentityDb_scheme" where
  "apply_action a db =
    (if \<not> isUuid (changedUserId a) then Inl MalformedId
     else if user_by_id (changedUserId a) db = None then Inl RowMissing
     else Inr (set_user (changedUserId a) (\<lambda>u. u\<lparr>userRole := changedRole a\<rparr>) db))"

definition approveAndApply :: "ApprovalDecision \<Rightarrow> ('z, AdminApproval) identity_action" where
  "approveAndApply d = atomically (\<lambda>db.
    rbind (update_approvals d
        (\<lambda>r. approvedAt r = None \<and> cancelledAt r = None \<and> decisionAt d < expiresAt r \<and> proposedById r \<noteq> decisionById d)
        (\<lambda>r. r\<lparr>approvedById := Some (decisionById d), approvedReason := Some (approvalDecisionReason d), approvedAt := Some (decisionAt d)\<rparr>) db)
      (\<lambda>(db1, a). rbind (apply_action (approvalAction a) db1) (\<lambda>db2. Inr (db2, a))))"

definition cancel_approval :: "ApprovalDecision \<Rightarrow> ('z, AdminApproval) identity_action" where
  "cancel_approval d = atomically
    (update_approvals d (\<lambda>r. approvedAt r = None \<and> cancelledAt r = None)
       (\<lambda>r. r\<lparr>cancelledById := Some (decisionById d), cancelledReason := Some (approvalDecisionReason d), cancelledAt := Some (decisionAt d)\<rparr>))"

end
