(* ===== verification/Identity.thy ===== *)
theory Identity
  imports Identity_Store
begin

section \<open>The identity services\<close>

text \<open>
  The mirror of the identity provider (\<^verbatim>\<open>apps/api/src/identity/identity.service.ts\<close>), deletion (\<^verbatim>\<open>account-erasure.ts\<close>), what a
  person may ask about the own account (\<^verbatim>\<open>account-data.service.ts\<close>), suspension (\<^verbatim>\<open>account-admin.service.ts\<close>,
  \<^verbatim>\<open>last-administrator.ts\<close>) and role changes by two administrators (\<^verbatim>\<open>role-approval.service.ts\<close>). The modules that hold
  personal data are reached through ports: the parameters \<open>eraser\<close> and \<open>sources\<close>. The keyed hash of the trail is the
  parameter \<open>digest\<close>. Where a method reads and later writes, \<open>race\<close> is what other requests did in between.
\<close>

subsection \<open>What is recorded\<close>

record AuditableAccount =
  auditableId :: string
  auditableEmail :: string
  auditableRole :: UserRole
  auditableSuspended :: bool

definition auditableAccount :: "MirroredUser \<Rightarrow> AuditableAccount" where
  "auditableAccount u = \<lparr>auditableId = accountId u, auditableEmail = userEmail u, auditableRole = userRole u,
     auditableSuspended = (suspendedAt u \<noteq> None)\<rparr>"

text \<open>The target of an entry is a \<^verbatim>\<open>uuid\<close> column.\<close>

definition record_account :: "('a \<Rightarrow> string) \<Rightarrow> IdentityEnv \<Rightarrow> 'a RecordChange \<Rightarrow> ('z, unit) identity_action" where
  "record_account digest env change db =
    (if isUuid (changeTargetId change)
     then (Inr (), db\<lparr>trail_rows := record_change digest (newTrailId env) (laterNow env) (change\<lparr>changeTargetId := lower (changeTargetId change)\<rparr>) (trail_rows db)\<rparr>)
     else (Inl MalformedId, db))"

definition account_change :: "Actor option \<Rightarrow> AuditAction \<Rightarrow> string \<Rightarrow> string option \<Rightarrow> MirroredUser option \<Rightarrow> MirroredUser option \<Rightarrow> AuditableAccount RecordChange" where
  "account_change actor action target reason before after =
    \<lparr>changeActor = actor, changeAction = action, changeTargetType = ''user'', changeTargetId = target,
     changeBefore = map_option auditableAccount before, changeAfter = map_option auditableAccount after, changeReason = reason\<rparr>"

subsection \<open>The mirror\<close>

record VerifiedSession =
  sessionClerkUserId :: string
  verifiedSessionId :: string
  sessionEmail :: string
  secondFactorAgeMinutes :: "number option"

definition catching_conflict :: "('z, 'a) identity_action \<Rightarrow> ('z, 'a option) identity_action" where
  "catching_conflict m db =
    (case m db of (Inl e, db') \<Rightarrow> ((if e = UserConflict then Inr None else Inl e), db') | (Inr x, db') \<Rightarrow> (Inr (Some x), db'))"

definition correctEmail ::
  "('z IdentityDb_scheme \<Rightarrow> 'z IdentityDb_scheme) \<Rightarrow> (AuditableAccount \<Rightarrow> string) \<Rightarrow> IdentityEnv \<Rightarrow> MirroredUser \<Rightarrow> string \<Rightarrow> Actor option \<Rightarrow> ('z, MirroredUser) identity_action" where
  "correctEmail race digest env user email actor =
    (if userEmail user = email then done_with user
     else
       await (meanwhile race) (\<lambda>_.
       await (catching_conflict (update_user env (accountId user) \<lparr>newEmail = Some email, newDeletedAt = None, newDeletionRequestedAt = None\<rparr>)) (\<lambda>written.
       case written of
         None \<Rightarrow> done_with user
       | Some corrected \<Rightarrow>
           await (record_account digest env (account_change actor AccountEmailChanged (accountId user) None (Some user) (Some corrected)))
             (\<lambda>_. done_with corrected))))"

definition resolveSession ::
  "('z IdentityDb_scheme \<Rightarrow> 'z IdentityDb_scheme) \<Rightarrow> (AuditableAccount \<Rightarrow> string) \<Rightarrow> IdentityEnv \<Rightarrow> VerifiedSession \<Rightarrow> string option
    \<Rightarrow> ('z, MirroredUser) identity_action" where
  "resolveSession race digest env session ip =
    await (upsert race env (sessionClerkUserId session) (sessionEmail session)) (\<lambda>(user, created).
    let actor = Some \<lparr>actorUserId = accountId user, actorIpAddress = ip, actorSessionId = Some (verifiedSessionId session)\<rparr> in
    await (if created then record_account digest env (account_change actor AccountProvisioned (accountId user) None None (Some user)) else done_with ()) (\<lambda>_.
    if deletedAt user \<noteq> None then throw AccountDeleted
    else correctEmail race digest env user (sessionEmail session) actor))"

definition findActiveById :: "string \<Rightarrow> 'z IdentityDb_scheme \<Rightarrow> MirroredUser option" where
  "findActiveById i db =
    (case findById i db of
       None \<Rightarrow> None
     | Some user \<Rightarrow> if deletedAt user \<noteq> None \<or> suspendedAt user \<noteq> None then None else Some user)"

datatype IdentityEvent = UserUpserted string string | UserDeleted string
  | SessionRecorded string string AuthenticationEventType int SessionActivity

definition event_type :: "IdentityEvent \<Rightarrow> string" where
  "event_type e = (case e of UserUpserted _ _ \<Rightarrow> ''user.upserted'' | UserDeleted _ \<Rightarrow> ''user.deleted'' | SessionRecorded _ _ _ _ _ \<Rightarrow> ''session.recorded'')"

definition CLERK_PROVIDER :: string where "CLERK_PROVIDER = ''clerk''"

subsection \<open>Deletion\<close>

definition tombstoneEmail :: "string \<Rightarrow> string" where
  "tombstoneEmail i = ''deleted+'' @ i @ ''@deleted.invalid''"

definition eraseAndTombstone ::
  "(AuditableAccount \<Rightarrow> string) \<Rightarrow> (Actor \<Rightarrow> ('z, unit) identity_action) \<Rightarrow> IdentityEnv \<Rightarrow> MirroredUser \<Rightarrow> Actor \<Rightarrow> ('z, unit) identity_action" where
  "eraseAndTombstone digest eraser env user actor =
    await (eraser actor) (\<lambda>_.
    await (eraseActivity (accountId user)) (\<lambda>_.
    await (update_user env (accountId user) \<lparr>newEmail = Some (tombstoneEmail (accountId user)), newDeletedAt = Some (laterNow env),
        newDeletionRequestedAt = Some (laterNow env)\<rparr>) (\<lambda>deleted.
      record_account digest env (account_change (Some actor) AccountDeletionRequested (accountId user) None (Some user) (Some deleted)))))"

definition requestDeletion ::
  "(AuditableAccount \<Rightarrow> string) \<Rightarrow> (Actor \<Rightarrow> ('z, unit) identity_action) \<Rightarrow> IdentityEnv \<Rightarrow> Actor \<Rightarrow> ('z, unit) identity_action" where
  "requestDeletion digest eraser env actor =
    await (reading (findById (actorUserId actor))) (\<lambda>found.
    case found of
      None \<Rightarrow> done_with ()
    | Some user \<Rightarrow> if deletedAt user \<noteq> None then done_with () else eraseAndTombstone digest eraser env user actor)"

subsection \<open>Events of the provider\<close>

definition recordAuthenticationEvent ::
  "IdentityEnv \<Rightarrow> string \<Rightarrow> string \<Rightarrow> AuthenticationEventType \<Rightarrow> int \<Rightarrow> SessionActivity \<Rightarrow> ('z, unit) identity_action" where
  "recordAuthenticationEvent env clerk session kind occurred activity =
    await (reading (findByClerkUserId clerk)) (\<lambda>found.
    case found of
      None \<Rightarrow> done_with ()
    | Some user \<Rightarrow> record_sign_in env \<lparr>eventUserId = accountId user, eventSessionId = session, eventKind = kind, eventOccurredAt = occurred,
        eventActivity = activity\<rparr>)"

definition apply_event ::
  "('z IdentityDb_scheme \<Rightarrow> 'z IdentityDb_scheme) \<Rightarrow> (AuditableAccount \<Rightarrow> string) \<Rightarrow> (Actor \<Rightarrow> ('z, unit) identity_action) \<Rightarrow> IdentityEnv
    \<Rightarrow> IdentityEvent \<Rightarrow> ('z, unit) identity_action" where
  "apply_event race digest eraser env event =
    (case event of
       SessionRecorded clerk session kind occurred activity \<Rightarrow> recordAuthenticationEvent env clerk session kind occurred activity
     | UserUpserted clerk email \<Rightarrow>
         await (upsert race env clerk email) (\<lambda>(user, created).
         await (if created then record_account digest env (account_change None AccountProvisioned (accountId user) None None (Some user)) else done_with ()) (\<lambda>_.
         if deletedAt user \<noteq> None then done_with ()
         else await (correctEmail race digest env user email None) (\<lambda>_. done_with ())))
     | UserDeleted clerk \<Rightarrow>
         await (reading (findByClerkUserId clerk)) (\<lambda>found.
         case found of
           None \<Rightarrow> done_with ()
         | Some user \<Rightarrow>
             if deletedAt user \<noteq> None then done_with ()
             else eraseAndTombstone digest eraser env user
               \<lparr>actorUserId = accountId user, actorIpAddress = None, actorSessionId = None\<rparr>))"

definition applyEvent ::
  "('z IdentityDb_scheme \<Rightarrow> 'z IdentityDb_scheme) \<Rightarrow> (AuditableAccount \<Rightarrow> string) \<Rightarrow> (Actor \<Rightarrow> ('z, unit) identity_action) \<Rightarrow> IdentityEnv
    \<Rightarrow> string \<Rightarrow> IdentityEvent \<Rightarrow> ('z, bool) identity_action" where
  "applyEvent race digest eraser env externalId event =
    await (claim CLERK_PROVIDER externalId (event_type event)) (\<lambda>claimed.
    if \<not> claimed then done_with False
    else
      await (apply_event race digest eraser env event) (\<lambda>_.
      await (markProcessed env CLERK_PROVIDER externalId) (\<lambda>_. done_with True)))"

subsection \<open>What a person may ask\<close>

definition EXPORTED_SIGN_IN_LIMIT :: nat where "EXPORTED_SIGN_IN_LIMIT = 500"
definition DEFAULT_SIGN_IN_LIMIT :: int where "DEFAULT_SIGN_IN_LIMIT = 50"
definition MAX_SIGN_IN_LIMIT :: int where "MAX_SIGN_IN_LIMIT = 200"

definition boundedSignInLimit :: "number \<Rightarrow> nat" where
  "boundedSignInLimit limit = nat (boundedLimit limit \<lparr>fallback = DEFAULT_SIGN_IN_LIMIT, max_limit = MAX_SIGN_IN_LIMIT\<rparr>)"

definition signInsFor :: "string \<Rightarrow> number \<Rightarrow> 'z IdentityDb_scheme \<Rightarrow> RecordedAuthenticationEvent list" where
  "signInsFor userId limit db = sign_ins_for userId (boundedSignInLimit limit) db"

record ('p, 'l, 'b, 'z) ExportSources =
  profileSource :: "string \<Rightarrow> 'z IdentityDb_scheme \<Rightarrow> IdentityError + 'p"
  listingSource :: "string \<Rightarrow> 'z IdentityDb_scheme \<Rightarrow> IdentityError + 'l Page"
  bookingSource :: "string \<Rightarrow> 'z IdentityDb_scheme \<Rightarrow> IdentityError + 'b Page"

record ('p, 'l, 'b) DataExport =
  exportedAt :: int
  exportedAccount :: MirroredUser
  exportedProfile :: 'p
  exportedActivity :: "ActivityRecord Page"
  exportedSignIns :: "RecordedAuthenticationEvent Page"
  exportedListings :: "'l Page"
  exportedBookings :: "'b Page"

definition account_exportFor ::
  "(AuditableAccount \<Rightarrow> string) \<Rightarrow> ('p, 'l, 'b, 'z) ExportSources \<Rightarrow> IdentityEnv \<Rightarrow> Actor \<Rightarrow> ('z, ('p, 'l, 'b) DataExport option) identity_action" where
  "account_exportFor digest sources env actor db =
    (case findById (actorUserId actor) db of
       None \<Rightarrow> (Inr None, db)
     | Some user \<Rightarrow>
         await (pure_step (rbind (profileSource sources (accountId user) db) (\<lambda>p.
                rbind (listingSource sources (accountId user) db) (\<lambda>l.
                rbind (bookingSource sources (accountId user) db) (\<lambda>b. Inr (p, l, b)))))) (\<lambda>(p, l, b).
         await (record_account digest env (account_change (Some actor) AccountExported (accountId user) None None None)) (\<lambda>_.
           done_with (Some \<lparr>exportedAt = laterNow env, exportedAccount = user, exportedProfile = p,
             exportedActivity = exportActivityFor (accountId user) (trail_rows db),
             exportedSignIns = fitTo (sign_ins_for (accountId user) (probe EXPORTED_SIGN_IN_LIMIT) db) EXPORTED_SIGN_IN_LIMIT,
             exportedListings = l, exportedBookings = b\<rparr>))) db)"

subsection \<open>Administering an account\<close>

record 'p AdminUserView =
  viewedAccount :: MirroredUser
  viewedProfile :: 'p

definition adminViewFor ::
  "(AuditableAccount \<Rightarrow> string) \<Rightarrow> (string \<Rightarrow> 'z IdentityDb_scheme \<Rightarrow> 'p) \<Rightarrow> IdentityEnv \<Rightarrow> Actor \<Rightarrow> string \<Rightarrow> string
    \<Rightarrow> ('z, 'p AdminUserView option) identity_action" where
  "adminViewFor digest summaryFor env actor userId reason =
    await (record_account digest env (account_change (Some actor) AdminUserViewed userId (Some reason) None None)) (\<lambda>_.
    reading (\<lambda>db. map_option (\<lambda>user. \<lparr>viewedAccount = user, viewedProfile = summaryFor (accountId user) db\<rparr>) (findById userId db)))"

definition refuseIfLastAdministrator :: "MirroredUser \<Rightarrow> UserRole option \<Rightarrow> ('z, unit) identity_action" where
  "refuseIfLastAdministrator target becomingRole =
    (if becomingRole = Some ADMIN then done_with ()
     else if userRole target \<noteq> ADMIN then done_with ()
     else await (reading countAdministrators) (\<lambda>n.
       if n \<le> 1 then throw (ApprovalRefused LastAdministrator) else done_with ()))"

definition requireSuspendable :: "Actor \<Rightarrow> string \<Rightarrow> bool \<Rightarrow> ('z, MirroredUser) identity_action" where
  "requireSuspendable actor userId selfAllowed =
    (if \<not> selfAllowed \<and> userId = actorUserId actor then throw (ApprovalRefused SelfSuspension)
     else await (reading (findById userId)) (\<lambda>found.
       case found of
         None \<Rightarrow> throw (ApprovalRefused NoSuchAccount)
       | Some target \<Rightarrow> if deletedAt target \<noteq> None then throw (ApprovalRefused AccountWasDeleted) else done_with target))"

definition suspend ::
  "('z IdentityDb_scheme \<Rightarrow> 'z IdentityDb_scheme) \<Rightarrow> (AuditableAccount \<Rightarrow> string) \<Rightarrow> IdentityEnv \<Rightarrow> Actor \<Rightarrow> string \<Rightarrow> string
    \<Rightarrow> ('z, MirroredUser) identity_action" where
  "suspend race digest env actor userId reason =
    await (requireSuspendable actor userId False) (\<lambda>target.
    if suspendedAt target \<noteq> None then throw (ApprovalRefused AlreadySuspended)
    else
      await (refuseIfLastAdministrator target None) (\<lambda>_.
      await (meanwhile race) (\<lambda>_.
      await (setSuspension (accountId target) (Some \<lparr>suspendAt = identityNow env, suspendBy = actorUserId actor, suspendReason = reason\<rparr>)) (\<lambda>suspended.
      await (record_account digest env (account_change (Some actor) AccountSuspended (accountId target) (Some reason) (Some target) (Some suspended))) (\<lambda>_.
        done_with suspended)))))"

definition reinstate ::
  "('z IdentityDb_scheme \<Rightarrow> 'z IdentityDb_scheme) \<Rightarrow> (AuditableAccount \<Rightarrow> string) \<Rightarrow> IdentityEnv \<Rightarrow> Actor \<Rightarrow> string \<Rightarrow> string
    \<Rightarrow> ('z, MirroredUser) identity_action" where
  "reinstate race digest env actor userId reason =
    await (requireSuspendable actor userId True) (\<lambda>target.
    if suspendedAt target = None then throw (ApprovalRefused NotSuspended)
    else
      await (meanwhile race) (\<lambda>_.
      await (setSuspension (accountId target) None) (\<lambda>reinstated.
      await (record_account digest env (account_change (Some actor) AccountReinstated (accountId target) (Some reason) (Some target) (Some reinstated))) (\<lambda>_.
        done_with reinstated))))"

subsection \<open>Role changes\<close>

definition addHours :: "int \<Rightarrow> int \<Rightarrow> int" where
  "addHours instant hours = instant + hours * 3600000"

definition proposeRoleChange ::
  "(AuditableAccount \<Rightarrow> string) \<Rightarrow> IdentityEnv \<Rightarrow> Actor \<Rightarrow> string \<Rightarrow> UserRole \<Rightarrow> string \<Rightarrow> ('z, AdminApproval) identity_action" where
  "proposeRoleChange digest env actor userId role reason =
    await (reading (findById userId)) (\<lambda>found.
    case found of
      None \<Rightarrow> throw (ApprovalRefused NoSuchAccount)
    | Some target \<Rightarrow>
        if deletedAt target \<noteq> None then throw (ApprovalRefused AccountWasDeleted)
        else if userRole target = role then throw (ApprovalRefused (AlreadyHasRole role))
        else
          await (refuseIfLastAdministrator target (Some role)) (\<lambda>_.
          await (propose env \<lparr>proposeAction = RoleChanged userId role, proposeTargetType = ''user'', proposeTargetId = userId,
              proposeById = actorUserId actor, proposeReason = reason, proposeExpiresAt = addHours (identityNow env) APPROVAL_WINDOW_HOURS\<rparr>) (\<lambda>proposal.
          await (record_account digest env (account_change (Some actor) AdminApprovalProposed userId (Some reason) None None)) (\<lambda>_.
            done_with proposal))))"

definition requirePending :: "IdentityEnv \<Rightarrow> string \<Rightarrow> ('z, AdminApproval) identity_action" where
  "requirePending env i db =
    (case find_approval i db of
       Inl e \<Rightarrow> (Inl e, db)
     | Inr None \<Rightarrow> (Inl (ApprovalRefused NoSuchProposal), db)
     | Inr (Some proposal) \<Rightarrow>
         if approvalState proposal (identityNow env) \<noteq> ApprovalPending
         then (Inl (ApprovalConflict (Some (approvalState proposal (identityNow env)))), db) else (Inr proposal, db))"

definition approve ::
  "('z IdentityDb_scheme \<Rightarrow> 'z IdentityDb_scheme) \<Rightarrow> (AuditableAccount \<Rightarrow> string) \<Rightarrow> IdentityEnv \<Rightarrow> Actor \<Rightarrow> string \<Rightarrow> string
    \<Rightarrow> ('z, AdminApproval) identity_action" where
  "approve race digest env actor i reason =
    await (requirePending env i) (\<lambda>proposal.
    if proposedById proposal = actorUserId actor then throw (ApprovalRefused OwnProposal)
    else
      await (reading (findById (changedUserId (approvalAction proposal)))) (\<lambda>found.
      case found of
        None \<Rightarrow> throw (ApprovalRefused AccountNoLongerExists)
      | Some target \<Rightarrow>
          if deletedAt target \<noteq> None then throw (ApprovalRefused AccountNoLongerExists)
          else
            await (refuseIfLastAdministrator target (Some (changedRole (approvalAction proposal)))) (\<lambda>_.
            await (meanwhile race) (\<lambda>_.
            await (approveAndApply \<lparr>decisionApprovalId = i, decisionById = actorUserId actor, approvalDecisionReason = reason, decisionAt = laterNow env\<rparr>) (\<lambda>approved.
            await (record_account digest env (account_change (Some actor) AdminApprovalGranted (changedUserId (approvalAction proposal)) (Some reason)
                (Some target) (Some (target\<lparr>userRole := changedRole (approvalAction proposal)\<rparr>)))) (\<lambda>_.
              done_with approved))))))"

definition cancelApproval ::
  "('z IdentityDb_scheme \<Rightarrow> 'z IdentityDb_scheme) \<Rightarrow> (AuditableAccount \<Rightarrow> string) \<Rightarrow> IdentityEnv \<Rightarrow> Actor \<Rightarrow> string \<Rightarrow> string
    \<Rightarrow> ('z, AdminApproval) identity_action" where
  "cancelApproval race digest env actor i reason =
    await (requirePending env i) (\<lambda>proposal.
    await (meanwhile race) (\<lambda>_.
    await (cancel_approval \<lparr>decisionApprovalId = i, decisionById = actorUserId actor, approvalDecisionReason = reason, decisionAt = laterNow env\<rparr>) (\<lambda>cancelled.
    await (record_account digest env (account_change (Some actor) AdminApprovalCancelled (changedUserId (approvalAction proposal)) (Some reason) None None)) (\<lambda>_.
      done_with cancelled))))"

definition listPendingApprovals :: "IdentityEnv \<Rightarrow> nat \<Rightarrow> 'z IdentityDb_scheme \<Rightarrow> IdentityError + AdminApproval list" where
  "listPendingApprovals env limit db = listPending (identityNow env) limit db"

end
