(* ===== verification/Identity_Safety.thy ===== *)
theory Identity_Safety
  imports Identity
begin

section \<open>Two administrators, one mirror and a deletion that lasts\<close>

text \<open>
  What the identity services guarantee over every sequence of calls. The locale \<open>account_relation\<close> states what a relation
  between two states has to allow; its lemmas show once that every method then stays inside the relation, whatever
  other requests do in between, and the properties interpret it.
\<close>

subsection \<open>Steps that leave accounts and proposals alone\<close>

definition quiet :: "'z IdentityDb_scheme \<Rightarrow> 'z IdentityDb_scheme \<Rightarrow> bool" where
  "quiet s s' \<longleftrightarrow> user_rows s' = user_rows s \<and> approval_rows s' = approval_rows s"

text \<open>What the modules that hold personal data promise: the tables of accounts are not theirs.\<close>

definition minds_own_tables :: "(Actor \<Rightarrow> ('z, unit) identity_action) \<Rightarrow> bool" where
  "minds_own_tables eraser \<longleftrightarrow> (\<forall>actor db. user_rows (snd (eraser actor db)) = user_rows db \<and> approval_rows (snd (eraser actor db)) = approval_rows db
     \<and> webhook_rows (snd (eraser actor db)) = webhook_rows db \<and> auth_rows (snd (eraser actor db)) = auth_rows db)"

lemma quiet_steps:
  "stable quiet (record_account digest env change)" "stable quiet (eraseActivity i)" "stable quiet (record_sign_in env event)"
  "stable quiet (claim provider externalId eventType)" "stable quiet (markProcessed env provider externalId)"
  by (auto simp: stable_def quiet_def record_account_def eraseActivity_def record_sign_in_def claim_def markProcessed_def)

lemma eraser_quiet: "minds_own_tables eraser \<Longrightarrow> stable quiet (eraser actor)"
  by (auto simp: stable_def quiet_def minds_own_tables_def)

lemma stable_catching: "stable R m \<Longrightarrow> stable R (catching_conflict m)"
  by (auto simp: stable_def catching_conflict_def split: prod.splits sum.splits) (metis snd_conv)+

lemma requirePending_quiet: "snd (requirePending env i db) = db"
  by (auto simp: requirePending_def split: sum.splits option.splits)

locale account_relation =
  fixes R :: "'z IdentityDb_scheme \<Rightarrow> 'z IdentityDb_scheme \<Rightarrow> bool"
  assumes refl: "reflp R" and trans: "transp R" and quiet_R: "quiet s s' \<Longrightarrow> R s s'"
    and provision: "\<not> unique_violation env (new_user env c e) (user_rows db) \<Longrightarrow> R db (db\<lparr>user_rows := user_rows db @ [new_user env c e]\<rparr>)"
    and column: "(\<And>u. accountId (f u) = accountId u \<and> userRole (f u) = userRole u \<and> clerkUserId (f u) = clerkUserId u) \<Longrightarrow> R db (set_user i f db)"
    and proposal: "\<not> list_ex (\<lambda>r. approvalId r = newApprovalId env) (approval_rows db) \<Longrightarrow> R db (db\<lparr>approval_rows := approval_rows db @ [approval_row env p]\<rparr>)"
    and approval: "R db (snd (approveAndApply d db))"
    and cancellation: "R db (snd (cancel_approval d db))"
begin

lemma stable_quiet: "stable quiet m \<Longrightarrow> stable R m"
  by (simp add: stable_def quiet_R)

lemmas stable_steps = stable_simple [OF refl] stable_await [OF trans] stable_if stable_option stable_prod
lemmas stable_quiet_steps = quiet_steps [THEN stable_quiet]

lemma stable_pending: "stable R (requirePending env i)"
  using refl by (simp add: stable_def requirePending_quiet reflp_def)

lemma stable_meanwhile: "(\<And>s. R s (race s)) \<Longrightarrow> stable R (meanwhile race)"
  by (simp add: stable_def meanwhile_def)

lemma stable_upsert:
  assumes "\<And>s. R s (race s)"
  shows "stable R (upsert race env c e)"
  unfolding upsert_def
  by (intro stable_steps stable_meanwhile assms)
    (use refl in \<open>auto simp: stable_def provision reflp_def split: option.splits\<close>)

lemma stable_setSuspension: "stable R (setSuspension i s)"
  unfolding setSuspension_def
  by (intro stable_atomically refl) (auto split: option.splits if_splits intro!: column simp: suspension_columns_def)

lemma stable_update: "stable R (update_user env i changes)"
  unfolding update_user_def
  by (intro stable_atomically refl) (auto split: option.splits if_splits intro!: column simp: changed_columns_def)

lemma stable_propose: "stable R (propose env p)"
  unfolding propose_def
  by (intro stable_atomically refl) (auto simp: result_simps proposal split: if_splits)

lemma stable_correctEmail:
  assumes "\<And>s. R s (race s)"
  shows "stable R (correctEmail race digest env user email actor)"
  unfolding correctEmail_def by (intro stable_steps stable_quiet_steps stable_meanwhile stable_catching stable_update assms)

lemma stable_eraseAndTombstone:
  assumes "minds_own_tables eraser"
  shows "stable R (eraseAndTombstone digest eraser env user actor)"
  unfolding eraseAndTombstone_def by (intro stable_quiet [OF eraser_quiet [OF assms]] stable_steps stable_quiet_steps stable_update)

lemma stable_approveAndApply: "stable R (approveAndApply d)" "stable R (cancel_approval d)"
  by (simp_all add: stable_def approval cancellation)

lemma stable_last: "stable R (refuseIfLastAdministrator target role)" "stable R (requireSuspendable actor i b)"
  unfolding refuseIfLastAdministrator_def requireSuspendable_def by (intro stable_steps)+

lemmas stable_parts = stable_steps stable_quiet_steps stable_update stable_propose stable_setSuspension stable_approveAndApply stable_last stable_pending

lemma stable_apply_event:
  assumes "\<And>s. R s (race s)" "minds_own_tables eraser"
  shows "stable R (apply_event race digest eraser env event)"
  unfolding apply_event_def recordAuthenticationEvent_def
  by (cases event; simp only: IdentityEvent.case;
      intro stable_parts stable_upsert stable_correctEmail stable_eraseAndTombstone assms)

lemma stable_mirror:
  assumes "\<And>s. R s (race s)" "minds_own_tables eraser"
  shows "stable R (resolveSession race digest env session ip)"
    "stable R (applyEvent race digest eraser env externalId event)"
    "stable R (requestDeletion digest eraser env actor)"
  unfolding resolveSession_def applyEvent_def requestDeletion_def Let_def
  by (intro stable_parts stable_upsert stable_correctEmail stable_eraseAndTombstone stable_apply_event assms)+

lemma stable_administration:
  assumes "\<And>s. R s (race s)"
  shows "stable R (suspend race digest env actor i reason)"
    "stable R (reinstate race digest env actor i reason)"
    "stable R (proposeRoleChange digest env actor i role reason)"
    "stable R (approve race digest env actor i reason)"
    "stable R (cancelApproval race digest env actor i reason)"
    "stable R (adminViewFor digest summaryFor env actor i reason)"
  unfolding suspend_def reinstate_def proposeRoleChange_def approve_def cancelApproval_def adminViewFor_def
  by (intro stable_parts stable_meanwhile assms)+

end

subsection \<open>Every sequence of calls\<close>

text \<open>One method of the module runs; while it runs, others may have run.\<close>

inductive identity_step :: "(Actor \<Rightarrow> ('z, unit) identity_action) \<Rightarrow> 'z IdentityDb_scheme \<Rightarrow> 'z IdentityDb_scheme \<Rightarrow> bool"
  for eraser where
  resolves: "(\<And>x. (identity_step eraser)\<^sup>*\<^sup>* x (race x)) \<Longrightarrow> identity_step eraser s (snd (resolveSession race digest env session ip s))"
| receives: "(\<And>x. (identity_step eraser)\<^sup>*\<^sup>* x (race x)) \<Longrightarrow> identity_step eraser s (snd (applyEvent race digest eraser env externalId event s))"
| deletes: "identity_step eraser s (snd (requestDeletion digest eraser env actor s))"
| suspends: "(\<And>x. (identity_step eraser)\<^sup>*\<^sup>* x (race x)) \<Longrightarrow> identity_step eraser s (snd (suspend race digest env actor i reason s))"
| reinstates: "(\<And>x. (identity_step eraser)\<^sup>*\<^sup>* x (race x)) \<Longrightarrow> identity_step eraser s (snd (reinstate race digest env actor i reason s))"
| proposes: "identity_step eraser s (snd (proposeRoleChange digest env actor i role reason s))"
| approves: "(\<And>x. (identity_step eraser)\<^sup>*\<^sup>* x (race x)) \<Longrightarrow> identity_step eraser s (snd (approve race digest env actor i reason s))"
| cancels: "(\<And>x. (identity_step eraser)\<^sup>*\<^sup>* x (race x)) \<Longrightarrow> identity_step eraser s (snd (cancelApproval race digest env actor i reason s))"
| views: "identity_step eraser s (snd (adminViewFor digest (\<lambda>_ _. ()) env actor i reason s))"

context account_relation
begin

lemma rtranclp_R: "(\<lambda>x y. Q x y \<and> R x y)\<^sup>*\<^sup>* s s' \<Longrightarrow> R s s'"
proof (induction rule: rtranclp_induct)
  case base
  then show ?case using refl by (simp add: reflp_def)
next
  case (step y z)
  then show ?case using trans by (blast dest: transpD)
qed

lemma step_R:
  assumes "identity_step eraser s s'" "minds_own_tables eraser"
  shows "R s s'"
  using assms(1)
proof induction
  case (resolves race s digest env session ip)
  show ?case by (rule stableD, rule stable_mirror(1) [OF _ assms(2)]) (blast intro: rtranclp_R resolves)
next
  case (receives race s digest env externalId event)
  show ?case by (rule stableD, rule stable_mirror(2) [OF _ assms(2)]) (blast intro: rtranclp_R receives)
next
  case (deletes s digest env actor)
  show ?case by (rule stableD, rule stable_mirror(3) [where race = id, OF _ assms(2)]) (use refl in \<open>simp add: reflp_def\<close>)
next
  case (suspends race s digest env actor i reason)
  show ?case by (rule stableD, rule stable_administration(1)) (blast intro: rtranclp_R suspends)
next
  case (reinstates race s digest env actor i reason)
  show ?case by (rule stableD, rule stable_administration(2)) (blast intro: rtranclp_R reinstates)
next
  case (proposes s digest env actor i role reason)
  show ?case by (rule stableD, rule stable_administration(3) [where race = id]) (use refl in \<open>simp add: reflp_def\<close>)
next
  case (approves race s digest env actor i reason)
  show ?case by (rule stableD, rule stable_administration(4)) (blast intro: rtranclp_R approves)
next
  case (cancels race s digest env actor i reason)
  show ?case by (rule stableD, rule stable_administration(5)) (blast intro: rtranclp_R cancels)
next
  case (views s digest env actor i reason)
  show ?case by (rule stableD, rule stable_administration(6) [where race = id]) (use refl in \<open>simp add: reflp_def\<close>)
qed

lemma steps_R:
  assumes "(identity_step eraser)\<^sup>*\<^sup>* s s'" "minds_own_tables eraser"
  shows "R s s'"
  using assms(1)
proof (induction rule: rtranclp_induct)
  case base
  then show ?case using refl by (simp add: reflp_def)
next
  case (step y z)
  then show ?case using trans step_R [OF _ assms(2)] by (blast dest: transpD)
qed

end

subsection \<open>Two administrators\<close>

definition role_in :: "'z IdentityDb_scheme \<Rightarrow> string \<Rightarrow> UserRole" where
  "role_in db i = (case find (\<lambda>u. accountId u = i) (user_rows db) of None \<Rightarrow> USER | Some u \<Rightarrow> userRole u)"

definition approved_by_two :: "string \<Rightarrow> UserRole \<Rightarrow> ApprovalRow \<Rightarrow> bool" where
  "approved_by_two i role r \<longleftrightarrow>
     (\<exists>b t a. approvedById r = Some b \<and> b \<noteq> proposedById r \<and> approvedAt r = Some t \<and> t < expiresAt r \<and> cancelledAt r = None
        \<and> toAction (actionText r) (actionPayload r) = Inr a \<and> lower (changedUserId a) = i \<and> changedRole a = role)"

definition role_rule :: "'z IdentityDb_scheme \<Rightarrow> 'z IdentityDb_scheme \<Rightarrow> bool" where
  "role_rule s s' \<longleftrightarrow> distinct (map approvalId (approval_rows s)) \<longrightarrow>
     distinct (map approvalId (approval_rows s'))
     \<and> (\<forall>r \<in> set (approval_rows s). approvedAt r \<noteq> None \<longrightarrow> r \<in> set (approval_rows s'))
     \<and> (\<forall>i. role_in s' i = role_in s i \<or> (\<exists>r \<in> set (approval_rows s'). r \<notin> set (approval_rows s) \<and> approved_by_two i (role_in s' i) r))"

lemma approved_decided: "approved_by_two i role r \<Longrightarrow> approvedAt r \<noteq> None"
  by (auto simp: approved_by_two_def)

lemma role_rule_trans: "transp role_rule"
proof (rule transpI)
  fix s1 s2 s3 :: "'z IdentityDb_scheme"
  assume a: "role_rule s1 s2" and b: "role_rule s2 s3"
  show "role_rule s1 s3"
    unfolding role_rule_def
  proof (intro impI)
    assume d: "distinct (map approvalId (approval_rows s1))"
    have two: "role_in s3 i = role_in s1 i \<or> (\<exists>r \<in> set (approval_rows s3). r \<notin> set (approval_rows s1) \<and> approved_by_two i (role_in s3 i) r)" for i
      using a b d unfolding role_rule_def by (metis approved_decided)
    show "distinct (map approvalId (approval_rows s3))
     \<and> (\<forall>r \<in> set (approval_rows s1). approvedAt r \<noteq> None \<longrightarrow> r \<in> set (approval_rows s3))
     \<and> (\<forall>i. role_in s3 i = role_in s1 i \<or> (\<exists>r \<in> set (approval_rows s3). r \<notin> set (approval_rows s1) \<and> approved_by_two i (role_in s3 i) r))"
      using a b d two unfolding role_rule_def by blast
  qed
qed

lemma role_in_set_user:
  assumes "\<And>u. accountId (f u) = accountId u"
  shows "role_in (set_user i f db) j = (case find (\<lambda>u. accountId u = j) (user_rows db) of None \<Rightarrow> USER
     | Some u \<Rightarrow> userRole (if j = lower i then f u else u))"
proof -
  have "find (\<lambda>u. accountId u = j) (user_rows (set_user i f db))
      = map_option (\<lambda>u. if accountId u = lower i then f u else u) (find (\<lambda>u. accountId u = j) (user_rows db))"
    using assms by (simp add: set_user_def find_map_key)
  then show ?thesis by (auto simp: role_in_def split: option.splits dest: find_Some_mem)
qed

lemma role_in_set_role:
  "role_in (set_user j (\<lambda>u. u\<lparr>userRole := role\<rparr>) db) i = role_in db i
    \<or> i = lower j \<and> role_in (set_user j (\<lambda>u. u\<lparr>userRole := role\<rparr>) db) i = role"
  by (subst (1 2) role_in_set_user) (auto simp: role_in_def split: option.splits)

lemma role_in_approvals: "role_in (db\<lparr>approval_rows := rows\<rparr>) i = role_in db i"
  by (simp add: role_in_def)

text \<open>What one decision writes.\<close>

lemma update_approvals_run:
  assumes "update_approvals d pred f db = Inr (db', a)" "distinct (map approvalId (approval_rows db))" "\<And>r. approvalId (f r) = approvalId r"
  obtains r where "r \<in> set (approval_rows db)" "approvalId r = lower (decisionApprovalId d)" "pred r" "approval_checks (f r)"
    "db' = db\<lparr>approval_rows := map (\<lambda>x. if x = r then f x else x) (approval_rows db)\<rparr>" "toApproval (f r) = Inr a"
proof -
  let ?hit = "\<lambda>r. approvalId r = lower (decisionApprovalId d) \<and> pred r" and ?rows = "map (\<lambda>r. if approvalId r = lower (decisionApprovalId d) \<and> pred r then f r else r) (approval_rows db)"
  obtain r where r: "r \<in> set (approval_rows db)" "?hit r"
    using assms(1) by (auto simp: update_approvals_def Let_def list_ex_iff split: if_splits)
  have only: "?hit x \<longleftrightarrow> x = r" if "x \<in> set (approval_rows db)" for x
    using distinct_map_unique [OF assms(2) that r(1)] r(2) by auto
  have rows: "?rows = map (\<lambda>x. if x = r then f x else x) (approval_rows db)" by (rule map_cong) (simp_all add: only)
  have "find (\<lambda>x. approvalId x = lower (decisionApprovalId d)) ?rows
      = map_option (\<lambda>r. if approvalId r = lower (decisionApprovalId d) \<and> pred r then f r else r) (find (\<lambda>x. approvalId x = lower (decisionApprovalId d)) (approval_rows db))"
    using assms(3) by (intro find_map_key) simp
  also have "\<dots> = Some (f r)" using find_distinct [OF assms(2) r(1)] r(2) by simp
  finally have found: "find (\<lambda>x. approvalId x = lower (decisionApprovalId d)) ?rows = Some (f r)" .
  have "db' = db\<lparr>approval_rows := ?rows\<rparr>" "toApproval (f r) = Inr a" "list_all approval_checks ?rows"
    using assms(1) found by (auto simp: update_approvals_def Let_def result_simps split: if_splits)
  then show thesis using that [OF r(1)] r rows by (auto simp: list_all_iff)
qed

lemma toApproval_action: "toApproval r = Inr a \<Longrightarrow> toAction (actionText r) (actionPayload r) = Inr (approvalAction a)"
  by (auto simp: toApproval_def result_simps ApprovalDates.defs AdminApproval.defs)

lemma decided_rows:
  assumes "distinct (map approvalId (approval_rows db))" "r \<in> set (approval_rows db)" "approvedAt r = None" "approvalId (f r) = approvalId r"
  shows "distinct (map approvalId (map (\<lambda>x. if x = r then f x else x) (approval_rows db)))"
    "\<forall>x \<in> set (approval_rows db). approvedAt x \<noteq> None \<longrightarrow> x \<in> set (map (\<lambda>x. if x = r then f x else x) (approval_rows db))"
proof -
  have "map approvalId (map (\<lambda>x. if x = r then f x else x) (approval_rows db)) = map approvalId (approval_rows db)"
    using assms(4) by simp
  then show "distinct (map approvalId (map (\<lambda>x. if x = r then f x else x) (approval_rows db)))" using assms(1) by metis
  show "\<forall>x \<in> set (approval_rows db). approvedAt x \<noteq> None \<longrightarrow> x \<in> set (map (\<lambda>x. if x = r then f x else x) (approval_rows db))"
    using assms(3) by force
qed

lemma role_rule_cancel: "role_rule db (snd (cancel_approval d db))"
  unfolding role_rule_def
proof (intro impI)
  assume dist: "distinct (map approvalId (approval_rows db))"
  show "distinct (map approvalId (approval_rows (snd (cancel_approval d db))))
     \<and> (\<forall>r \<in> set (approval_rows db). approvedAt r \<noteq> None \<longrightarrow> r \<in> set (approval_rows (snd (cancel_approval d db))))
     \<and> (\<forall>i. role_in (snd (cancel_approval d db)) i = role_in db i \<or> (\<exists>r \<in> set (approval_rows (snd (cancel_approval d db))).
          r \<notin> set (approval_rows db) \<and> approved_by_two i (role_in (snd (cancel_approval d db)) i) r))"
  proof (cases "cancel_approval d db")
    case (Pair res db')
    show ?thesis
    proof (cases res)
      case (Inl e)
      then have "db' = db" using Pair by (auto simp: cancel_approval_def atomically_def split: sum.splits)
      then show ?thesis using Pair dist by simp
    next
      case (Inr a)
      then obtain r where r: "r \<in> set (approval_rows db)" "approvedAt r = None"
        and db': "db' = db\<lparr>approval_rows := map (\<lambda>x. if x = r then x\<lparr>cancelledById := Some (decisionById d),
             cancelledReason := Some (approvalDecisionReason d), cancelledAt := Some (decisionAt d)\<rparr> else x) (approval_rows db)\<rparr>"
        using Pair unfolding cancel_approval_def
        by (auto simp: atomically_def split: sum.splits prod.splits elim!: update_approvals_run [OF _ dist])
      show ?thesis using decided_rows [OF dist r] by (simp add: Pair db' role_in_def)
    qed
  qed
qed

lemma approveAndApply_run:
  assumes "approveAndApply d db = (Inr a, db')" "distinct (map approvalId (approval_rows db))"
  obtains r r' where "r \<in> set (approval_rows db)" "approvedAt r = None" "cancelledAt r = None" "approvalId r = lower (decisionApprovalId d)"
    "r' = r\<lparr>approvedById := Some (decisionById d), approvedReason := Some (approvalDecisionReason d), approvedAt := Some (decisionAt d)\<rparr>"
    "decisionAt d < expiresAt r" "proposedById r \<noteq> decisionById d" "toApproval r' = Inr a" "isUuid (changedUserId (approvalAction a))"
    "user_by_id (changedUserId (approvalAction a)) db \<noteq> None"
    "db' = set_user (changedUserId (approvalAction a)) (\<lambda>u. u\<lparr>userRole := changedRole (approvalAction a)\<rparr>)
       (db\<lparr>approval_rows := map (\<lambda>x. if x = r then r' else x) (approval_rows db)\<rparr>)"
proof -
  let ?f = "\<lambda>r :: ApprovalRow. r\<lparr>approvedById := Some (decisionById d), approvedReason := Some (approvalDecisionReason d), approvedAt := Some (decisionAt d)\<rparr>"
  let ?p = "\<lambda>r :: ApprovalRow. approvedAt r = None \<and> cancelledAt r = None \<and> decisionAt d < expiresAt r \<and> proposedById r \<noteq> decisionById d"
  obtain db1 where up: "update_approvals d ?p ?f db = Inr (db1, a)" and ap: "apply_action (approvalAction a) db1 = Inr db'"
    using assms(1) by (auto simp: approveAndApply_def atomically_def result_simps split: sum.splits prod.splits)
  obtain r where r: "r \<in> set (approval_rows db)" "approvalId r = lower (decisionApprovalId d)" "?p r"
    and db1: "db1 = db\<lparr>approval_rows := map (\<lambda>x. if x = r then ?f x else x) (approval_rows db)\<rparr>" and a: "toApproval (?f r) = Inr a"
    by (rule update_approvals_run [OF up assms(2)]) simp_all
  have rows: "map (\<lambda>x. if x = r then ?f x else x) (approval_rows db) = map (\<lambda>x. if x = r then ?f r else x) (approval_rows db)" by simp
  show thesis
    by (rule that [of r "?f r"]) (use r a ap db1 rows in \<open>auto simp: apply_action_def user_by_id_def split: if_splits\<close>)
qed

lemma role_rule_approve: "role_rule db (snd (approveAndApply d db))"
  unfolding role_rule_def
proof (intro impI)
  assume dist: "distinct (map approvalId (approval_rows db))"
  obtain res db' where run: "approveAndApply d db = (res, db')" by (cases "approveAndApply d db")
  show "distinct (map approvalId (approval_rows (snd (approveAndApply d db))))
     \<and> (\<forall>r \<in> set (approval_rows db). approvedAt r \<noteq> None \<longrightarrow> r \<in> set (approval_rows (snd (approveAndApply d db))))
     \<and> (\<forall>i. role_in (snd (approveAndApply d db)) i = role_in db i \<or> (\<exists>r \<in> set (approval_rows (snd (approveAndApply d db))).
          r \<notin> set (approval_rows db) \<and> approved_by_two i (role_in (snd (approveAndApply d db)) i) r))"
  proof (cases res)
    case (Inl e)
    then have "db' = db" using run by (auto simp: approveAndApply_def atomically_def split: sum.splits)
    then show ?thesis using run dist by simp
  next
    case (Inr a)
    obtain r r' where r: "r \<in> set (approval_rows db)" "approvedAt r = None" "cancelledAt r = None"
      and r': "r' = r\<lparr>approvedById := Some (decisionById d), approvedReason := Some (approvalDecisionReason d), approvedAt := Some (decisionAt d)\<rparr>"
      and ok: "decisionAt d < expiresAt r" "proposedById r \<noteq> decisionById d" "toApproval r' = Inr a"
      and db': "db' = set_user (changedUserId (approvalAction a)) (\<lambda>u. u\<lparr>userRole := changedRole (approvalAction a)\<rparr>)
         (db\<lparr>approval_rows := map (\<lambda>x. if x = r then r' else x) (approval_rows db)\<rparr>)"
      by (rule approveAndApply_run [OF run [unfolded Inr] dist]) blast
    let ?rows = "map (\<lambda>x. if x = r then r' else x) (approval_rows db)" and ?i = "lower (changedUserId (approvalAction a))"
    have rows: "approval_rows db' = ?rows" by (simp add: db' set_user_def)
    have keep: "distinct (map approvalId ?rows)" "\<forall>x \<in> set (approval_rows db). approvedAt x \<noteq> None \<longrightarrow> x \<in> set ?rows"
      using decided_rows [OF dist r(1,2), of "\<lambda>_. r'"] by (simp_all add: r')
    have mem: "r' \<in> set ?rows" using r(1) by force
    have new: "r' \<notin> set (approval_rows db)"
    proof
      assume "r' \<in> set (approval_rows db)"
      then have "r = r'" by (rule distinct_map_unique [OF dist r(1)]) (simp add: r')
      moreover have "approvedAt r' \<noteq> None" by (simp add: r')
      ultimately show False using r(2) by simp
    qed
    have two: "approved_by_two ?i (changedRole (approvalAction a)) r'"
      using toApproval_action [OF ok(3)] ok(1,2) r(3) by (simp add: approved_by_two_def r')
    have "role_in db' i = role_in db i \<or> (\<exists>r \<in> set ?rows. r \<notin> set (approval_rows db) \<and> approved_by_two i (role_in db' i) r)" for i
    proof (cases "role_in db' i = role_in db i")
      case False
      then have e: "i = ?i" "role_in db' i = changedRole (approvalAction a)"
        using role_in_set_role [of "changedUserId (approvalAction a)" "changedRole (approvalAction a)" "db\<lparr>approval_rows := ?rows\<rparr>" i]
        unfolding db' role_in_approvals by blast+
      have "approved_by_two i (role_in db' i) r'" unfolding e(2) unfolding e(1) by (rule two)
      then show ?thesis using mem new by (intro disjI2 bexI [of _ r'] conjI)
    qed simp
    then show ?thesis using keep unfolding run snd_conv rows by blast
  qed
qed

interpretation roles: account_relation role_rule
proof
  show "reflp role_rule" by (simp add: reflp_def role_rule_def)
  show "transp role_rule" by (rule role_rule_trans)
  show "role_rule s s'" if "quiet s s'" for s s' :: "'z IdentityDb_scheme"
    using that by (simp add: role_rule_def quiet_def role_in_def)
  show "role_rule db (db\<lparr>user_rows := user_rows db @ [new_user env c e]\<rparr>)"
    if "\<not> unique_violation env (new_user env c e) (user_rows db)" for db :: "'z IdentityDb_scheme" and env c e
    by (simp add: role_rule_def role_in_def find_append new_user_def split: option.splits)
  show "role_rule db (set_user i f db)"
    if "\<And>u. accountId (f u) = accountId u \<and> userRole (f u) = userRole u \<and> clerkUserId (f u) = clerkUserId u" for db :: "'z IdentityDb_scheme" and i f
  proof -
    have "role_in (set_user i f db) j = role_in db j" for j
      using that by (subst role_in_set_user) (auto simp: role_in_def split: option.splits)
    then show ?thesis by (simp add: role_rule_def set_user_def)
  qed
  show "role_rule db (db\<lparr>approval_rows := approval_rows db @ [approval_row env p]\<rparr>)"
    if "\<not> list_ex (\<lambda>r. approvalId r = newApprovalId env) (approval_rows db)" for db :: "'z IdentityDb_scheme" and env p
    using that by (auto simp: role_rule_def role_in_def approval_row_def list_ex_iff)
  show "role_rule db (snd (approveAndApply d db))" for db :: "'z IdentityDb_scheme" and d by (rule role_rule_approve)
  show "role_rule db (snd (cancel_approval d db))" for db :: "'z IdentityDb_scheme" and d by (rule role_rule_cancel)
qed

text \<open>
C7: A role changes only with two administrators. Over every sequence of calls of the module, with other calls interleaved
between the reads and the writes of each, an account has the role it had before, or a proposal of exactly that role for
exactly that account was approved in between, before it expired, by somebody other than the person who proposed it.\<close>
theorem role_changes_need_two:
  assumes "(identity_step eraser)\<^sup>*\<^sup>* db db'" "minds_own_tables eraser" "distinct (map approvalId (approval_rows db))"
  shows "role_in db' i = role_in db i
    \<or> (\<exists>r \<in> set (approval_rows db'). r \<notin> set (approval_rows db) \<and> approved_by_two i (role_in db' i) r)"
  using roles.steps_R [OF assms(1,2)] assms(3) unfolding role_rule_def by blast

subsection \<open>Deliveries are applied once\<close>

definition claimed :: "string \<Rightarrow> 'z IdentityDb_scheme \<Rightarrow> bool" where
  "claimed x db \<longleftrightarrow> list_ex (\<lambda>w. hookProvider w = CLERK_PROVIDER \<and> hookExternalId w = x) (webhook_rows db)"

definition same_hooks :: "'z IdentityDb_scheme \<Rightarrow> 'z IdentityDb_scheme \<Rightarrow> bool" where
  "same_hooks s s' \<longleftrightarrow> webhook_rows s' = webhook_rows s"

lemma same_hooks_rel: "reflp same_hooks" "transp same_hooks"
  by (auto simp: same_hooks_def reflp_def transp_def)

lemmas hook_steps = stable_simple [OF same_hooks_rel(1)] stable_await [OF same_hooks_rel(2)] stable_if stable_option stable_prod

lemma hook_parts:
  "stable same_hooks (record_account digest env change)" "stable same_hooks (eraseActivity i)" "stable same_hooks (record_sign_in env event)"
  "stable same_hooks (update_user env i changes)" "stable same_hooks (upsert id env c e)"
  by (auto simp: stable_def same_hooks_def record_account_def eraseActivity_def record_sign_in_def update_user_def atomically_def set_user_def
      upsert_def await_def action_defs meanwhile_def split: option.splits)

lemma correctEmail_hooks: "stable same_hooks (correctEmail id digest env user email actor)"
  unfolding correctEmail_def by (intro hook_steps hook_parts stable_catching) (simp add: stable_def meanwhile_def same_hooks_def)

lemma apply_event_hooks:
  assumes "minds_own_tables eraser"
  shows "stable same_hooks (apply_event id digest eraser env event)"
proof -
  have "stable same_hooks (eraser actor)" for actor using assms by (simp add: stable_def same_hooks_def minds_own_tables_def)
  then show ?thesis
    unfolding apply_event_def recordAuthenticationEvent_def eraseAndTombstone_def
    by (cases event; simp only: IdentityEvent.case; intro hook_steps hook_parts correctEmail_hooks)
qed

lemma claimed_keys: "claimed x db \<longleftrightarrow> (CLERK_PROVIDER, x) \<in> set (map (\<lambda>w. (hookProvider w, hookExternalId w)) (webhook_rows db))"
  unfolding claimed_def list_ex_iff set_map image_iff by (metis prod.inject)

lemma markProcessed_keys:
  "map (\<lambda>w. (hookProvider w, hookExternalId w)) (webhook_rows (snd (markProcessed env p x db)))
     = map (\<lambda>w. (hookProvider w, hookExternalId w)) (webhook_rows db)"
  by (simp add: markProcessed_def)

lemma claimed_again: "claimed x db \<Longrightarrow> applyEvent race digest eraser env x event db = (Inr False, db)"
  by (simp add: applyEvent_def claim_def claimed_def await_def done_with_def)

lemma claimed_stays:
  assumes "minds_own_tables eraser"
  shows "claimed y db \<or> y = x \<Longrightarrow> claimed y (snd (applyEvent id digest eraser env x event db))"
proof (cases "claimed x db")
  case False
  obtain r1 db1 where c: "claim CLERK_PROVIDER x (event_type event) db = (r1, db1)" by (cases "claim CLERK_PROVIDER x (event_type event) db")
  have c1: "r1 = Inr True" "claimed y db1" if "claimed y db \<or> y = x"
    using c that False by (auto simp: claim_def claimed_def list_ex_iff split: if_splits)
  obtain r2 db2 where a: "apply_event id digest eraser env event db1 = (r2, db2)" by (cases "apply_event id digest eraser env event db1")
  have c2: "claimed y db2" if "claimed y db \<or> y = x"
    using stable_run [OF apply_event_hooks [OF assms] a] c1(2) [OF that] by (simp add: claimed_def same_hooks_def)
  assume y: "claimed y db \<or> y = x"
  have "claimed y (snd (markProcessed env CLERK_PROVIDER x db2))"
    using c2 [OF y] markProcessed_keys [of env CLERK_PROVIDER x db2] by (simp add: claimed_keys)
  then show ?thesis
    using c2 [OF y] c1(1) [OF y] c a by (cases r2) (auto simp: applyEvent_def await_def done_with_def split: sum.splits prod.splits)
qed (auto simp: claimed_again)

type_synonym delivery = "IdentityEnv \<times> string \<times> IdentityEvent"

definition deliver :: "(AuditableAccount \<Rightarrow> string) \<Rightarrow> (Actor \<Rightarrow> ('z, unit) identity_action) \<Rightarrow> delivery \<Rightarrow> 'z IdentityDb_scheme \<Rightarrow> 'z IdentityDb_scheme" where
  "deliver digest eraser d db = snd (applyEvent id digest eraser (fst d) (fst (snd d)) (snd (snd d)) db)"

fun first_deliveries :: "string list \<Rightarrow> delivery list \<Rightarrow> delivery list" where
  "first_deliveries seen [] = []"
| "first_deliveries seen (d # ds) =
    (if fst (snd d) \<in> set seen then first_deliveries seen ds else d # first_deliveries (fst (snd d) # seen) ds)"

lemma deliver_first:
  assumes "minds_own_tables eraser" "\<forall>x \<in> set seen. claimed x db"
  shows "fold (deliver digest eraser) ds db = fold (deliver digest eraser) (first_deliveries seen ds) db"
  using assms(2)
proof (induction ds arbitrary: seen db)
  case (Cons d ds)
  show ?case
  proof (cases "fst (snd d) \<in> set seen")
    case True
    then have "deliver digest eraser d db = db" using Cons.prems by (simp add: deliver_def claimed_again)
    then show ?thesis using True Cons by simp
  next
    case False
    have "\<forall>x \<in> set (fst (snd d) # seen). claimed x (deliver digest eraser d db)"
      using claimed_stays [OF assms(1)] Cons.prems by (auto simp: deliver_def)
    then show ?thesis using False Cons.IH [of "fst (snd d) # seen" "deliver digest eraser d db"] by simp
  qed
qed simp

text \<open>
C12: A delivery of the provider is applied once, however often it arrives. A delivery whose identifier is already recorded is
answered as a duplicate and changes nothing, whatever it carries; and a list of deliveries, repeated in any order and with
some of them failing, leaves the module in the state that the first occurrence of each identifier leaves it in.\<close>
theorem deliveries_applied_once:
  assumes "minds_own_tables eraser"
  shows "(claimed x db \<longrightarrow> applyEvent race digest eraser env x event db = (Inr False, db))
    \<and> fold (deliver digest eraser) ds db = fold (deliver digest eraser) (first_deliveries [] ds) db"
  using deliver_first [OF assms, of "[]"] claimed_again by auto

subsection \<open>An example\<close>

definition ann :: string where "ann = ''aaaaaaaa-aaaa-4aaa-8aaa-aaaaaaaaaaaa''"
definition ben :: string where "ben = ''bbbbbbbb-bbbb-4bbb-8bbb-bbbbbbbbbbbb''"
definition cat :: string where "cat = ''cccccccc-cccc-4ccc-8ccc-cccccccccccc''"

definition person :: "string \<Rightarrow> string \<Rightarrow> UserRole \<Rightarrow> UserRow" where
  "person i name role = \<lparr>accountId = i, clerkUserId = ''user_'' @ name, userEmail = name @ ''@example.com'', userRole = role, deletedAt = None,
     deletionRequestedAt = None, suspendedAt = None, suspensionReason = None, userCreatedAt = 1, suspendedById = None\<rparr>"

definition office :: IdentityDb where
  "office = \<lparr>user_rows = [person ann ''ann'' ADMIN, person ben ''ben'' ADMIN, person cat ''cat'' USER], webhook_rows = [], auth_rows = [],
     approval_rows = [], trail_rows = []\<rparr>"

definition office_env :: "int \<Rightarrow> IdentityEnv" where
  "office_env now = \<lparr>newUserId = ''dddddddd-dddd-4ddd-8ddd-dddddddddddd'', newAuthEventId = ''e1'', newApprovalId = ''99999999-9999-4999-8999-999999999999'',
     newTrailId = ''t1'', identityNow = now, laterNow = now, citext = lower\<rparr>"

abbreviation acting :: "string \<Rightarrow> Actor" where
  "acting i \<equiv> \<lparr>actorUserId = i, actorIpAddress = None, actorSessionId = None\<rparr>"

text \<open>A digest that hashes nothing: every field with its length before it.\<close>

definition framed :: "string \<Rightarrow> string" where
  "framed s = replicate (length s) CHR ''1'' @ CHR ''0'' # s"

definition digest_of :: "AuditableAccount \<Rightarrow> string" where
  "digest_of a = (if auditableSuspended a then CHR ''s'' else CHR ''a'') # framed (role_name (auditableRole a)) @ framed (auditableId a) @ framed (auditableEmail a)"

lemma framed_eq: "framed s @ t = framed s' @ t' \<longleftrightarrow> s = s' \<and> t = t'"
proof
  assume eq: "framed s @ t = framed s' @ t'"
  have "takeWhile ((=) CHR ''1'') (framed x @ y) = replicate (length x) CHR ''1''" for x y
    by (simp add: framed_def takeWhile_append)
  then have "length s = length s'" using eq by (metis length_replicate)
  then show "s = s' \<and> t = t'" using eq by (simp add: framed_def)
qed simp

lemma digest_of_inj: "inj digest_of"
proof (rule injI)
  fix a b :: AuditableAccount assume eq: "digest_of a = digest_of b"
  have "role_name r = role_name r' \<Longrightarrow> r = r'" for r r' by (cases r; cases r') (auto simp: role_name_def)
  moreover have "framed (auditableEmail a) = framed (auditableEmail b) \<Longrightarrow> auditableEmail a = auditableEmail b"
    using framed_eq [of "auditableEmail a" "[]" "auditableEmail b" "[]"] by simp
  ultimately show "a = b" using eq by (auto simp: digest_of_def framed_eq split: if_splits intro: AuditableAccount.equality)
qed

abbreviation no_eraser :: "Actor \<Rightarrow> (unit, unit) identity_action" where
  "no_eraser \<equiv> (\<lambda>_. done_with ())"

definition promoted :: IdentityDb where
  "promoted = snd (approve id digest_of (office_env 20) (acting ben) ''99999999-9999-4999-8999-999999999999'' ''agreed''
     (snd (proposeRoleChange digest_of (office_env 10) (acting ann) cat ADMIN ''cover for leave'' office)))"

lemma office_checks: "minds_own_tables no_eraser" "role_in promoted cat = ADMIN" "role_in office cat = USER" "approval_rows office = []"
     apply (simp add: minds_own_tables_def done_with_def)
    apply code_simp
   apply code_simp
  apply (simp add: office_def)
  done

theorem role_changes_need_two_witness:
  "\<exists>r \<in> set (approval_rows promoted). approved_by_two cat ADMIN r"
proof -
  have "(identity_step no_eraser)\<^sup>*\<^sup>* office (snd (proposeRoleChange digest_of (office_env 10) (acting ann) cat ADMIN ''cover for leave'' office))"
    by (intro r_into_rtranclp proposes)
  then have "(identity_step no_eraser)\<^sup>*\<^sup>* office promoted"
    unfolding promoted_def by (rule rtranclp.rtrancl_into_rtrancl) (rule approves, simp)
  then show ?thesis using role_changes_need_two [of no_eraser office promoted cat] office_checks by auto
qed

theorem deliveries_applied_once_witness:
  "fold (deliver digest_of no_eraser) [(office_env 5, ''msg_1'', UserDeleted ''user_cat''), (office_env 6, ''msg_1'', UserDeleted ''user_ben'')] office
     = deliver digest_of no_eraser (office_env 5, ''msg_1'', UserDeleted ''user_cat'') office"
  using deliveries_applied_once [OF office_checks(1), where ds = "[(office_env 5, ''msg_1'', UserDeleted ''user_cat''), (office_env 6, ''msg_1'', UserDeleted ''user_ben'')]"
      and db = office and digest = digest_of]
  by simp

end
