(* ===== verification/Identity_Accounts.thy ===== *)
theory Identity_Accounts
  imports Identity_Safety
begin

section \<open>Administrators, suspension and deletion\<close>

text \<open>
  That somebody can always administer the platform, that a deleted account stays deleted, what a suspension and a
  deletion do, and the calls that the rules do not cover. Calls are taken one after the other here; what happens when
  two of them interleave is shown by the examples at the end.
\<close>

subsection \<open>Keys stay unique\<close>

definition ids_ok :: "string list \<Rightarrow> bool" where
  "ids_ok ids \<longleftrightarrow> distinct ids \<and> list_all (\<lambda>i. lower i = i) ids"

definition books_ok :: "'z IdentityDb_scheme \<Rightarrow> bool" where
  "books_ok db \<longleftrightarrow> ids_ok (map accountId (user_rows db)) \<and> distinct (map clerkUserId (user_rows db)) \<and> distinct (map approvalId (approval_rows db))"

definition keeps_books :: "'z IdentityDb_scheme \<Rightarrow> 'z IdentityDb_scheme \<Rightarrow> bool" where
  "keeps_books s s' \<longleftrightarrow> books_ok s \<longrightarrow> books_ok s'"

lemma user_keys_set_user:
  "(\<And>u. k (f u) = k u) \<Longrightarrow> map k (user_rows (set_user i f db)) = map k (user_rows db)"
  by (simp add: set_user_def)

lemma approval_keys_update:
  assumes "update_approvals d pred f db = Inr (db', a)" "\<And>r. approvalId (f r) = approvalId r"
  shows "map approvalId (approval_rows db') = map approvalId (approval_rows db) \<and> user_rows db' = user_rows db"
  using assms by (auto simp: update_approvals_def Let_def result_simps split: if_splits option.splits)

interpretation books: account_relation keeps_books
proof
  show "reflp keeps_books" "transp keeps_books" by (auto simp: reflp_def transp_def keeps_books_def)
  show "keeps_books s s'" if "quiet s s'" for s s' :: "'z IdentityDb_scheme"
    using that by (simp add: keeps_books_def books_ok_def quiet_def)
  show "keeps_books db (db\<lparr>user_rows := user_rows db @ [new_user env c e]\<rparr>)"
    if "\<not> unique_violation env (new_user env c e) (user_rows db)" for db :: "'z IdentityDb_scheme" and env c e
    using that by (auto simp: keeps_books_def books_ok_def ids_ok_def unique_violation_def list_ex_iff new_user_def)
  show "keeps_books db (set_user i f db)"
    if "\<And>u. accountId (f u) = accountId u \<and> userRole (f u) = userRole u \<and> clerkUserId (f u) = clerkUserId u" for db :: "'z IdentityDb_scheme" and i f
  proof -
    have "map accountId (user_rows (set_user i f db)) = map accountId (user_rows db)"
      "map clerkUserId (user_rows (set_user i f db)) = map clerkUserId (user_rows db)"
      using that by (simp_all add: user_keys_set_user)
    then show ?thesis by (simp only: keeps_books_def books_ok_def) (simp add: set_user_def)
  qed
  show "keeps_books db (db\<lparr>approval_rows := approval_rows db @ [approval_row env p]\<rparr>)"
    if "\<not> list_ex (\<lambda>r. approvalId r = newApprovalId env) (approval_rows db)" for db :: "'z IdentityDb_scheme" and env p
    using that by (auto simp: keeps_books_def books_ok_def approval_row_def list_ex_iff)
  show "keeps_books db (snd (cancel_approval d db))" for db :: "'z IdentityDb_scheme" and d
    using approval_keys_update [of d _ _ db]
    by (auto simp: cancel_approval_def atomically_def keeps_books_def books_ok_def split: sum.splits)
  show "keeps_books db (snd (approveAndApply d db))" for db :: "'z IdentityDb_scheme" and d
  proof -
    have "map k (user_rows db2) = map k (user_rows db1) \<and> approval_rows db2 = approval_rows db1"
      if "apply_action a db1 = Inr db2" "\<And>u :: UserRow. k (u\<lparr>userRole := changedRole a\<rparr>) = k u" for a and db1 db2 :: "'z IdentityDb_scheme" and k :: "UserRow \<Rightarrow> string"
      using that by (auto simp: apply_action_def set_user_def split: if_splits)
    then show ?thesis
      using approval_keys_update [of d _ _ db]
      by (fastforce simp: approveAndApply_def atomically_def keeps_books_def books_ok_def result_simps split: sum.splits)
  qed
qed

lemma books_kept: "stable keeps_books m \<Longrightarrow> books_ok s \<Longrightarrow> books_ok (snd (m s))"
  by (simp add: stable_def keeps_books_def)

subsection \<open>Somebody can administer\<close>

text \<open>One call after the other; the label says whether the call can delete an account.\<close>

inductive identity_call :: "(Actor \<Rightarrow> ('z, unit) identity_action) \<Rightarrow> bool \<Rightarrow> 'z IdentityDb_scheme \<Rightarrow> 'z IdentityDb_scheme \<Rightarrow> bool"
  for eraser where
  call_resolve: "identity_call eraser False s (snd (resolveSession id digest env session ip s))"
| call_receive: "\<not> (\<exists>c. event = UserDeleted c) \<Longrightarrow> identity_call eraser False s (snd (applyEvent id digest eraser env externalId event s))"
| call_receive_deletion: "identity_call eraser True s (snd (applyEvent id digest eraser env externalId (UserDeleted c) s))"
| call_delete: "identity_call eraser True s (snd (requestDeletion digest eraser env actor s))"
| call_suspend: "identity_call eraser False s (snd (suspend id digest env actor i reason s))"
| call_reinstate: "identity_call eraser False s (snd (reinstate id digest env actor i reason s))"
| call_propose: "identity_call eraser False s (snd (proposeRoleChange digest env actor i role reason s))"
| call_approve: "identity_call eraser False s (snd (approve id digest env actor i reason s))"
| call_cancel: "identity_call eraser False s (snd (cancelApproval id digest env actor i reason s))"
| call_view: "identity_call eraser False s (snd (adminViewFor digest (\<lambda>_ _. ()) env actor i reason s))"

lemma call_step: "identity_call eraser dl s s' \<Longrightarrow> identity_step eraser s s'"
  by (induction rule: identity_call.induct) (auto intro: identity_step.intros)

abbreviation usable :: "UserRow \<Rightarrow> bool" where
  "usable u \<equiv> userRole u = ADMIN \<and> deletedAt u = None \<and> suspendedAt u = None"

lemma filter_map_grows: "(\<And>x. P x \<Longrightarrow> P (g x)) \<Longrightarrow> length (filter P xs) \<le> length (filter P (map g xs))"
  by (induction xs) auto

lemma filter_map_loses_one:
  assumes "distinct (map k xs)" "\<And>x. k x \<noteq> i \<Longrightarrow> g x = x"
  shows "length (filter P xs) \<le> Suc (length (filter P (map g xs)))"
  using assms(1)
proof (induction xs)
  case (Cons x xs)
  show ?case
  proof (cases "k x = i")
    case True
    then have "\<forall>y \<in> set xs. k y \<noteq> i" using Cons.prems by (auto simp: image_iff)
    then have "map g xs = xs" using assms(2) by (simp add: map_idI)
    then show ?thesis by simp
  next
    case False
    then show ?thesis using Cons assms(2) by simp
  qed
qed simp

definition staffed :: "'z IdentityDb_scheme \<Rightarrow> bool" where
  "staffed db \<longleftrightarrow> books_ok db \<and> 0 < countAdministrators db"

definition keeps_staff :: "'z IdentityDb_scheme \<Rightarrow> 'z IdentityDb_scheme \<Rightarrow> bool" where
  "keeps_staff s s' \<longleftrightarrow> countAdministrators s \<le> countAdministrators s'"

lemma keeps_staff_rel: "reflp keeps_staff" "transp keeps_staff"
  by (auto simp: keeps_staff_def reflp_def transp_def)

lemmas staff_steps = stable_simple [OF keeps_staff_rel(1)] stable_await [OF keeps_staff_rel(2)] stable_if stable_option stable_prod

lemma staff_quiet: "stable quiet m \<Longrightarrow> stable keeps_staff m"
  by (simp add: stable_def quiet_def keeps_staff_def countAdministrators_def)

lemma staff_set_user: "(\<And>u. usable u \<Longrightarrow> usable (f u)) \<Longrightarrow> keeps_staff db (set_user i f db)"
  using filter_map_grows [of usable "\<lambda>u. if accountId u = lower i then f u else u" "user_rows db"]
  by (auto simp: keeps_staff_def countAdministrators_def set_user_def)

lemma staff_parts:
  "stable keeps_staff (upsert id env c e)" "newDeletedAt ch = None \<Longrightarrow> stable keeps_staff (update_user env i ch)"
  "stable keeps_staff (setSuspension i None)" "stable keeps_staff (propose env p)" "stable keeps_staff (cancel_approval d)"
  "stable keeps_staff (requirePending env i)" "stable keeps_staff (meanwhile id)"
proof -
  show "stable keeps_staff (upsert id env c e)"
    by (auto simp: stable_def upsert_def await_def action_defs meanwhile_def keeps_staff_def countAdministrators_def split: option.splits)
  show "stable keeps_staff (update_user env i ch)" if "newDeletedAt ch = None"
    unfolding update_user_def using that
    by (intro stable_atomically keeps_staff_rel) (auto split: option.splits if_splits intro!: staff_set_user simp: changed_columns_def new_or_def)
  show "stable keeps_staff (setSuspension i None)"
    unfolding setSuspension_def
    by (intro stable_atomically keeps_staff_rel) (auto split: option.splits if_splits intro!: staff_set_user simp: suspension_columns_def)
  show "stable keeps_staff (propose env p)"
    unfolding propose_def
    by (intro stable_atomically keeps_staff_rel) (auto simp: result_simps keeps_staff_def countAdministrators_def split: if_splits)
  show "stable keeps_staff (cancel_approval d)"
    unfolding cancel_approval_def
    by (intro stable_atomically keeps_staff_rel, drule approval_keys_update) (auto simp: keeps_staff_def countAdministrators_def)
  show "stable keeps_staff (requirePending env i)" "stable keeps_staff (meanwhile id)"
    by (auto simp: stable_def keeps_staff_def requirePending_quiet meanwhile_def)
qed

lemmas staff_quiet_steps = quiet_steps [THEN staff_quiet]

lemma staff_checks: "stable keeps_staff (refuseIfLastAdministrator target role)" "stable keeps_staff (requireSuspendable actor i b)"
  unfolding refuseIfLastAdministrator_def requireSuspendable_def by (intro staff_steps)+

lemma staff_correctEmail: "stable keeps_staff (correctEmail id digest env user email actor)"
  unfolding correctEmail_def by (intro staff_steps staff_quiet_steps staff_parts stable_catching) simp

lemma staff_calls:
  "stable keeps_staff (resolveSession id digest env session ip)"
  "\<not> (\<exists>c. event = UserDeleted c) \<Longrightarrow> stable keeps_staff (applyEvent id digest eraser env externalId event)"
  "stable keeps_staff (reinstate id digest env actor i reason)"
  "stable keeps_staff (proposeRoleChange digest env actor i role reason)"
  "stable keeps_staff (cancelApproval id digest env actor i reason)"
  "stable keeps_staff (adminViewFor digest summaryFor env actor i reason)"
proof -
  show "stable keeps_staff (applyEvent id digest eraser env externalId event)" if "\<not> (\<exists>c. event = UserDeleted c)"
    unfolding applyEvent_def apply_event_def recordAuthenticationEvent_def using that
    by (cases event; simp only: IdentityEvent.case; intro staff_steps staff_quiet_steps staff_parts staff_correctEmail) auto
qed (unfold resolveSession_def reinstate_def proposeRoleChange_def cancelApproval_def adminViewFor_def Let_def,
    (intro staff_steps staff_quiet_steps staff_parts staff_checks staff_correctEmail)+)

lemmas staff_bounds = staff_calls [THEN stableD, unfolded keeps_staff_def]

text \<open>The two calls that can take an administrator away check first.\<close>

lemma last_check:
  assumes "refuseIfLastAdministrator target role db = (Inr (), db')"
  shows "db' = db" "role = Some ADMIN \<or> userRole target \<noteq> ADMIN \<or> 1 < countAdministrators db"
  using assms by (auto simp: refuseIfLastAdministrator_def await_def action_defs split: if_splits)

lemma refuse_state: "snd (refuseIfLastAdministrator target role db) = db" "snd (requireSuspendable actor i b db) = db"
  by (auto simp: refuseIfLastAdministrator_def requireSuspendable_def await_def action_defs split: option.splits)

lemma findById_row: "findById i db = Some target \<Longrightarrow> \<exists>u. user_by_id i db = Some u \<and> target = toMirroredUser u"
  by (auto simp: findById_def split: if_splits)

lemma mirrored [simp]:
  "accountId (toMirroredUser u) = accountId u" "userRole (toMirroredUser u) = userRole u" "deletedAt (toMirroredUser u) = deletedAt u"
  "suspendedAt (toMirroredUser u) = suspendedAt u" "userEmail (toMirroredUser u) = userEmail u" "clerkUserId (toMirroredUser u) = clerkUserId u"
  by (simp_all add: toMirroredUser_def MirroredUser.defs)

lemma staff_one_account:
  assumes "books_ok db" "user_by_id i db = Some u" "usable u \<Longrightarrow> 1 < countAdministrators db \<or> usable (f u)" "0 < countAdministrators db"
  shows "0 < countAdministrators (set_user i f db)"
proof -
  let ?g = "\<lambda>u. if accountId u = lower i then f u else u"
  have ids: "distinct (map accountId (user_rows db))" using assms(1) by (simp add: books_ok_def ids_ok_def)
  have u: "u \<in> set (user_rows db)" "accountId u = lower i" using assms(2) by (auto simp: user_by_id_def dest: find_Some_mem)
  have only: "v = u" if "v \<in> set (user_rows db)" "accountId v = lower i" for v
    using distinct_map_unique [OF ids that(1) u(1)] that(2) u(2) by simp
  have count: "countAdministrators (set_user i f db) = length (filter usable (map ?g (user_rows db)))"
    by (simp add: countAdministrators_def set_user_def)
  show ?thesis
  proof (cases "usable u \<and> \<not> usable (f u)")
    case True
    then have "1 < length (filter usable (user_rows db))" using assms(3) unfolding countAdministrators_def by blast
    moreover have "length (filter usable (user_rows db)) \<le> Suc (length (filter usable (map ?g (user_rows db))))"
      by (rule filter_map_loses_one [OF ids, of "lower i"]) simp
    ultimately show ?thesis unfolding count by linarith
  next
    case False
    obtain v where v: "v \<in> set (user_rows db)" "usable v" using assms(4) by (auto simp: countAdministrators_def filter_empty_conv)
    have "usable (?g v)" using v(2) False only [OF v(1)] by (cases "accountId v = lower i") simp_all
    then have "?g v \<in> set (filter usable (map ?g (user_rows db)))" using v(1) by (simp only: set_filter set_map) blast
    then show ?thesis unfolding count by (rule length_pos_if_in_set)
  qed
qed

lemma is_hex_lower: "is_hex c \<Longrightarrow> is_hex (ascii_lower c)"
proof -
  have "map ascii_lower ''abcdefABCDEF'' = ''abcdefabcdef''" by code_simp
  moreover have "list_all is_hex ''abcdefabcdef''" by code_simp
  ultimately have letters: "list_all is_hex (map ascii_lower ''abcdefABCDEF'')" by simp
  assume hex: "is_hex c"
  show ?thesis
  proof (cases "is_digit c")
    case True
    then have "ascii_lower c = c" by (simp add: is_digit_def ascii_lower_def Let_def)
    then show ?thesis using hex by simp
  next
    case False
    then have "c \<in> set ''abcdefABCDEF''" using hex unfolding is_hex_def by blast
    then show ?thesis using letters unfolding list_all_iff set_map by blast
  qed
qed

lemma isUuid_lower: "isUuid i \<Longrightarrow> isUuid (lower i)"
proof -
  have dash: "ascii_lower CHR ''-'' = CHR ''-''" by code_simp
  show "isUuid i \<Longrightarrow> isUuid (lower i)"
    unfolding isUuid_def lower_def list_all2_map2 by (erule list_all2_mono) (auto simp: is_hex_lower dash split: if_splits)
qed

lemma user_by_id_mem: "user_by_id i db = Some u \<Longrightarrow> u \<in> set (user_rows db) \<and> accountId u = lower i"
  by (auto simp: user_by_id_def dest: find_Some_mem)

lemma user_by_id_account: "user_by_id i db = Some u \<Longrightarrow> user_by_id (accountId u) db = Some u"
  using user_by_id_mem [of i db u] by (simp add: user_by_id_def lower_idem)

lemma findById_account:
  assumes "findById i db = Some target"
  obtains u where "user_by_id i db = Some u" "target = toMirroredUser u" "user_by_id (accountId target) db = Some u" "isUuid (accountId target)"
    "accountId u = lower i" "lower (accountId u) = accountId u"
  using assms user_by_id_mem [of i db] user_by_id_account [of i db] isUuid_lower [of i]
  by (auto simp: findById_def lower_idem split: if_splits)

definition suspended_state :: "(AuditableAccount \<Rightarrow> string) \<Rightarrow> IdentityEnv \<Rightarrow> Actor \<Rightarrow> string \<Rightarrow> UserRow \<Rightarrow> 'z IdentityDb_scheme \<Rightarrow> 'z IdentityDb_scheme" where
  "suspended_state digest env actor reason u db =
    (let s = Some \<lparr>suspendAt = identityNow env, suspendBy = actorUserId actor, suspendReason = reason\<rparr> in
     (set_user (accountId u) (suspension_columns s) db)\<lparr>trail_rows := trail_rows db @
       [audit_entry digest (newTrailId env) (laterNow env) (account_change (Some actor) AccountSuspended (accountId u) (Some reason)
          (Some (toMirroredUser u)) (Some (toMirroredUser (suspension_columns s u))))]\<rparr>)"

lemma suspend_run:
  "suspend id digest env actor i reason db =
    (if i = actorUserId actor then (Inl (ApprovalRefused SelfSuspension), db)
     else case findById i db of
       None \<Rightarrow> (Inl (ApprovalRefused NoSuchAccount), db)
     | Some target \<Rightarrow>
         if deletedAt target \<noteq> None then (Inl (ApprovalRefused AccountWasDeleted), db)
         else if suspendedAt target \<noteq> None then (Inl (ApprovalRefused AlreadySuspended), db)
         else if userRole target = ADMIN \<and> countAdministrators db \<le> 1 then (Inl (ApprovalRefused LastAdministrator), db)
         else if user_by_id (actorUserId actor) db = None then (Inl ForeignKey, db)
         else (Inr (toMirroredUser (suspension_columns (Some \<lparr>suspendAt = identityNow env, suspendBy = actorUserId actor, suspendReason = reason\<rparr>)
                 (the (user_by_id i db)))), suspended_state digest env actor reason (the (user_by_id i db)) db))"
proof (cases "findById i db")
  case None
  then show ?thesis by (simp add: suspend_def requireSuspendable_def await_def action_defs)
next
  case (Some target)
  obtain u where u: "user_by_id i db = Some u" "target = toMirroredUser u" "user_by_id (accountId target) db = Some u" "isUuid (accountId target)"
    "lower (accountId u) = accountId u" by (rule findById_account [OF Some])
  have user: "user_by_id (accountId u) db = Some u" "isUuid (accountId u)" using u by simp_all
  show ?thesis
    by (simp add: Some u(1,2) user suspend_def requireSuspendable_def refuseIfLastAdministrator_def await_def action_defs meanwhile_def
        setSuspension_def atomically_def record_account_def account_change_def suspended_state_def record_change_def Let_def u(5) set_user_def
        suspension_columns_def)
qed

lemma suspend_staffed:
  assumes "staffed db"
  shows "staffed (snd (suspend id digest env actor i reason db))"
proof -
  have "books_ok (snd (suspend id digest env actor i reason db))"
    by (rule books_kept [OF books.stable_administration(1)]) (use assms in \<open>simp_all add: keeps_books_def staffed_def\<close>)
  moreover have "0 < countAdministrators (suspended_state digest env actor reason u db)"
    if "user_by_id i db = Some u" "\<not> (userRole u = ADMIN \<and> countAdministrators db \<le> 1)" for u
  proof -
    have "0 < countAdministrators (set_user (accountId u) f db)" for f
      using staff_one_account [OF _ user_by_id_account [OF that(1)]] that(2) assms by (auto simp: staffed_def)
    then show ?thesis by (simp add: suspended_state_def Let_def countAdministrators_def set_user_def)
  qed
  ultimately show ?thesis
    using assms by (auto simp: suspend_run staffed_def split: option.splits elim!: findById_account)
qed

lemma find_approval_row:
  assumes "find_approval i db = Inr (Some p)"
  obtains r where "r \<in> set (approval_rows db)" "approvalId r = lower i" "toApproval r = Inr p"
  using assms by (auto simp: find_approval_def approval_by_id_def result_simps split: if_splits option.splits dest: find_Some_mem)

lemma toApproval_decided:
  "toApproval (r\<lparr>approvedById := x, approvedReason := y, approvedAt := z\<rparr>) = Inr a \<Longrightarrow> toApproval r = Inr p \<Longrightarrow> approvalAction a = approvalAction p"
  by (auto simp: toApproval_def result_simps AdminApproval.defs ApprovalDates.defs)

lemma approve_effect:
  assumes "books_ok db"
  shows "user_rows (snd (approve id digest env actor i reason db)) = user_rows db
    \<or> (\<exists>a u. user_rows (snd (approve id digest env actor i reason db)) = user_rows (set_user (changedUserId a) (\<lambda>u. u\<lparr>userRole := changedRole a\<rparr>) db)
          \<and> user_by_id (changedUserId a) db = Some u \<and> deletedAt u = None
          \<and> (changedRole a = ADMIN \<or> userRole u \<noteq> ADMIN \<or> 1 < countAdministrators db))"
proof -
  obtain r1 db1 where pend: "requirePending env i db = (r1, db1)" by (cases "requirePending env i db")
  have db1: "db1 = db" using requirePending_quiet [of env i db] pend by simp
  show ?thesis
  proof (cases "\<exists>p target. r1 = Inr p \<and> proposedById p \<noteq> actorUserId actor \<and> findById (changedUserId (approvalAction p)) db = Some target
      \<and> deletedAt target = None \<and> refuseIfLastAdministrator target (Some (changedRole (approvalAction p))) db = (Inr (), db)")
    case False
    have "snd (approve id digest env actor i reason db) = db"
    proof (cases r1)
      case (Inr p)
      then show ?thesis
        using False pend db1 refuse_state(1) [of _ "Some (changedRole (approvalAction p))" db]
        by (auto simp: approve_def await_def action_defs split: option.splits sum.splits prod.splits) (metis snd_conv)+
    qed (use pend db1 in \<open>simp add: approve_def await_def\<close>)
    then show ?thesis by simp
  next
    case True
    then obtain p target where p: "r1 = Inr p" "proposedById p \<noteq> actorUserId actor" "findById (changedUserId (approvalAction p)) db = Some target"
      "deletedAt target = None" "refuseIfLastAdministrator target (Some (changedRole (approvalAction p))) db = (Inr (), db)" by blast
    obtain u where u: "user_by_id (changedUserId (approvalAction p)) db = Some u" "target = toMirroredUser u" by (rule findById_account [OF p(3)])
    define d where "d = \<lparr>decisionApprovalId = i, decisionById = actorUserId actor, approvalDecisionReason = reason, decisionAt = laterNow env\<rparr>"
    obtain r2 db2 where app: "approveAndApply d db = (r2, db2)" by (cases "approveAndApply d db")
    have rows: "user_rows (snd (approve id digest env actor i reason db)) = user_rows db2"
      using pend db1 p app
      by (auto simp: approve_def await_def action_defs meanwhile_def d_def record_account_def split: sum.splits prod.splits)
    show ?thesis
    proof (cases r2)
      case (Inl e)
      then have "db2 = db" using app by (auto simp: approveAndApply_def atomically_def split: sum.splits)
      then show ?thesis using rows by simp
    next
      case (Inr a)
      have dist: "distinct (map approvalId (approval_rows db))" using assms by (simp add: books_ok_def)
      obtain r where r: "r \<in> set (approval_rows db)" "approvalId r = lower i"
          "toApproval (r\<lparr>approvedById := Some (decisionById d), approvedReason := Some (approvalDecisionReason d), approvedAt := Some (decisionAt d)\<rparr>) = Inr a"
        and db2: "user_rows db2 = user_rows (set_user (changedUserId (approvalAction a)) (\<lambda>u. u\<lparr>userRole := changedRole (approvalAction a)\<rparr>) db)"
        by (rule approveAndApply_run [OF app [unfolded Inr] dist]) (simp add: d_def set_user_def)
      have "find_approval i db = Inr (Some p)" using pend p(1) by (auto simp: requirePending_def split: sum.splits option.splits if_splits)
      then obtain q where q: "q \<in> set (approval_rows db)" "approvalId q = lower i" "toApproval q = Inr p" by (rule find_approval_row)
      have "q = r" using distinct_map_unique [OF dist q(1) r(1)] q(2) r(2) by simp
      then have "approvalAction a = approvalAction p" using toApproval_decided [OF r(3)] q(3) by simp
      then show ?thesis
        using rows db2 u p(4) last_check(2) [OF p(5)] by (intro disjI2 exI [of _ "approvalAction p"] exI [of _ u]) simp
    qed
  qed
qed

lemma approve_staffed:
  assumes "staffed db"
  shows "staffed (snd (approve id digest env actor i reason db))"
proof -
  have books: "books_ok db" "0 < countAdministrators db" using assms by (simp_all add: staffed_def)
  have "books_ok (snd (approve id digest env actor i reason db))"
    by (rule books_kept [OF books.stable_administration(4)]) (use books in \<open>simp_all add: keeps_books_def\<close>)
  moreover have "0 < countAdministrators (snd (approve id digest env actor i reason db))"
    using approve_effect [OF books(1)]
  proof
    assume "user_rows (snd (approve id digest env actor i reason db)) = user_rows db"
    then show ?thesis using books(2) by (simp add: countAdministrators_def)
  next
    assume "\<exists>a u. user_rows (snd (approve id digest env actor i reason db)) = user_rows (set_user (changedUserId a) (\<lambda>u. u\<lparr>userRole := changedRole a\<rparr>) db)
          \<and> user_by_id (changedUserId a) db = Some u \<and> deletedAt u = None
          \<and> (changedRole a = ADMIN \<or> userRole u \<noteq> ADMIN \<or> 1 < countAdministrators db)"
    then obtain a u where a: "user_rows (snd (approve id digest env actor i reason db)) = user_rows (set_user (changedUserId a) (\<lambda>u. u\<lparr>userRole := changedRole a\<rparr>) db)"
      "user_by_id (changedUserId a) db = Some u" "changedRole a = ADMIN \<or> userRole u \<noteq> ADMIN \<or> 1 < countAdministrators db" by blast
    have "0 < countAdministrators (set_user (changedUserId a) (\<lambda>u. u\<lparr>userRole := changedRole a\<rparr>) db)"
      by (rule staff_one_account [OF books(1) a(2) _ books(2)]) (use a(3) in auto)
    then show ?thesis using a(1) by (simp add: countAdministrators_def)
  qed
  ultimately show ?thesis by (simp add: staffed_def)
qed


subsection \<open>A deleted account stays deleted\<close>

definition tombs :: "'z IdentityDb_scheme \<Rightarrow> 'z IdentityDb_scheme \<Rightarrow> bool" where
  "tombs s s' \<longleftrightarrow> (\<forall>u \<in> set (user_rows s). deletedAt u \<noteq> None \<longrightarrow>
     (\<exists>u' \<in> set (user_rows s'). accountId u' = accountId u \<and> clerkUserId u' = clerkUserId u \<and> deletedAt u' = deletedAt u \<and> userEmail u' = userEmail u))"

lemma tombs_rel: "reflp tombs" "transp tombs"
  by (auto simp: tombs_def reflp_def transp_def) metis

lemmas tomb_steps = stable_simple [OF tombs_rel(1)] stable_await [OF tombs_rel(2)] stable_if stable_option stable_prod

lemma tombs_quiet: "stable quiet m \<Longrightarrow> stable tombs m"
  by (auto simp: stable_def quiet_def tombs_def)

lemmas tomb_quiet_steps = quiet_steps [THEN tombs_quiet]

lemma tombs_set_user:
  assumes "\<And>u. u \<in> set (user_rows db) \<Longrightarrow> accountId u = lower i \<Longrightarrow> deletedAt u \<noteq> None \<Longrightarrow>
    accountId (f u) = accountId u \<and> clerkUserId (f u) = clerkUserId u \<and> deletedAt (f u) = deletedAt u \<and> userEmail (f u) = userEmail u"
  shows "tombs db (set_user i f db)"
  unfolding tombs_def
proof (intro ballI impI)
  fix u assume u: "u \<in> set (user_rows db)" "deletedAt u \<noteq> None"
  let ?u = "if accountId u = lower i then f u else u"
  have "?u \<in> set (user_rows (set_user i f db))" using u(1) by (auto simp: set_user_def)
  moreover have "accountId ?u = accountId u \<and> clerkUserId ?u = clerkUserId u \<and> deletedAt ?u = deletedAt u \<and> userEmail ?u = userEmail u"
    using assms [OF u(1) _ u(2)] by simp
  ultimately show "\<exists>u' \<in> set (user_rows (set_user i f db)). accountId u' = accountId u \<and> clerkUserId u' = clerkUserId u \<and> deletedAt u' = deletedAt u \<and> userEmail u' = userEmail u"
    by blast
qed

lemma tomb_parts:
  "stable tombs (upsert id env c e)" "stable tombs (setSuspension i s)" "stable tombs (propose env p)" "stable tombs (cancel_approval d)"
  "stable tombs (approveAndApply d)" "stable tombs (requirePending env i)" "stable tombs (meanwhile id)"
  "stable tombs (refuseIfLastAdministrator target role)" "stable tombs (requireSuspendable actor i b)"
proof -
  show "stable tombs (upsert id env c e)"
    by (auto simp: stable_def upsert_def await_def action_defs meanwhile_def tombs_def split: option.splits)
  show "stable tombs (setSuspension i s)"
    unfolding setSuspension_def
    by (intro stable_atomically tombs_rel) (auto split: option.splits if_splits intro!: tombs_set_user simp: suspension_columns_def)
  show "stable tombs (propose env p)"
    unfolding propose_def by (intro stable_atomically tombs_rel) (auto simp: result_simps tombs_def split: if_splits)
  show "stable tombs (cancel_approval d)"
    unfolding cancel_approval_def
    by (intro stable_atomically tombs_rel, drule approval_keys_update) (auto simp: tombs_def)
  show "stable tombs (approveAndApply d)"
    unfolding approveAndApply_def
  proof (intro stable_atomically tombs_rel)
    fix s s' :: "'z IdentityDb_scheme" and x
    let ?f = "\<lambda>r :: ApprovalRow. r\<lparr>approvedById := Some (decisionById d), approvedReason := Some (approvalDecisionReason d), approvedAt := Some (decisionAt d)\<rparr>"
    assume "rbind (update_approvals d (\<lambda>r. approvedAt r = None \<and> cancelledAt r = None \<and> decisionAt d < expiresAt r \<and> proposedById r \<noteq> decisionById d) ?f s)
        (\<lambda>(db1, a). rbind (apply_action (approvalAction a) db1) (\<lambda>db2. Inr (db2, a))) = Inr (s', x)"
    then obtain db1 where "update_approvals d (\<lambda>r. approvedAt r = None \<and> cancelledAt r = None \<and> decisionAt d < expiresAt r \<and> proposedById r \<noteq> decisionById d) ?f s = Inr (db1, x)"
      "apply_action (approvalAction x) db1 = Inr s'" by (auto simp: result_simps)
    then have "user_rows db1 = user_rows s" "s' = set_user (changedUserId (approvalAction x)) (\<lambda>u. u\<lparr>userRole := changedRole (approvalAction x)\<rparr>) db1"
      using approval_keys_update [of d _ ?f s db1 x] by (auto simp: apply_action_def split: if_splits)
    moreover have "tombs db1 (set_user (changedUserId (approvalAction x)) (\<lambda>u. u\<lparr>userRole := changedRole (approvalAction x)\<rparr>) db1)"
      by (rule tombs_set_user) simp
    ultimately show "tombs s s'" by (simp add: tombs_def)
  qed
  show "stable tombs (requirePending env i)" "stable tombs (meanwhile id)"
    using tombs_rel(1) by (simp_all add: stable_def requirePending_quiet meanwhile_def reflp_def)
  show "stable tombs (refuseIfLastAdministrator target role)" "stable tombs (requireSuspendable actor i b)"
    unfolding refuseIfLastAdministrator_def requireSuspendable_def by (intro tomb_steps)+
qed

text \<open>The columns of an account that is not deleted may be written.\<close>

lemma canonical: "books_ok s \<Longrightarrow> u \<in> set (user_rows s) \<Longrightarrow> lower (accountId u) = accountId u"
  by (auto simp: books_ok_def ids_ok_def list_all_iff)

lemma same_account: "books_ok s \<Longrightarrow> u \<in> set (user_rows s) \<Longrightarrow> v \<in> set (user_rows s) \<Longrightarrow> accountId u = accountId v \<Longrightarrow> u = v"
  by (rule distinct_map_unique [of accountId]) (simp_all add: books_ok_def ids_ok_def)

lemma update_live:
  assumes "books_ok s" "u \<in> set (user_rows s)" "deletedAt u = None"
  shows "tombs s (snd (update_user env (accountId u) ch s))"
proof -
  have "tombs s (set_user (accountId u) (changed_columns ch) s)"
  proof (rule tombs_set_user)
    fix w assume w: "w \<in> set (user_rows s)" "accountId w = lower (accountId u)" "deletedAt w \<noteq> None"
    then have "w = u" using same_account [OF assms(1) w(1) assms(2)] canonical [OF assms(1,2)] by simp
    then show "accountId (changed_columns ch w) = accountId w \<and> clerkUserId (changed_columns ch w) = clerkUserId w
        \<and> deletedAt (changed_columns ch w) = deletedAt w \<and> userEmail (changed_columns ch w) = userEmail w" using w(3) assms(3) by simp
  qed
  then show ?thesis
    using reflpD [OF tombs_rel(1), of s] by (simp add: update_user_def atomically_def split: option.splits)
qed

lemma tombs_run: "stable tombs m \<Longrightarrow> tombs s s1 \<Longrightarrow> tombs s (snd (m s1))"
  using transpD [OF tombs_rel(2)] stableD by metis

text \<open>After a step that stays in the relation, a continuation that does so for every result the step can have.\<close>

lemma tombs_then:
  assumes "tombs s (snd (m s))" "\<And>x s1. m s = (Inr x, s1) \<Longrightarrow> tombs s1 (snd (f x s1))"
  shows "tombs s (snd (await m f s))"
proof (cases "m s")
  case (Pair r s1)
  then show ?thesis using assms transpD [OF tombs_rel(2)] by (cases r) (auto simp: await_def)
qed

lemma tombs_then_stable: "tombs s (snd (m s)) \<Longrightarrow> (\<And>x. stable tombs (f x)) \<Longrightarrow> tombs s (snd (await m f s))"
  by (rule tombs_then) (auto intro: stableD)

lemma upsert_row:
  assumes "upsert id env c e s = (Inr (user, b), s1)"
  shows "\<exists>u \<in> set (user_rows s1). user = toMirroredUser u \<and> clerkUserId u = c"
  using assms by (auto simp: upsert_def await_def action_defs meanwhile_def findByClerkUserId_def new_user_def split: option.splits if_splits dest!: find_Some_mem)

lemma record_users: "user_rows (snd (record_account digest env change s)) = user_rows s" "approval_rows (snd (record_account digest env change s)) = approval_rows s"
  by (simp_all add: record_account_def)

lemma correctEmail_live:
  assumes "books_ok s" "u \<in> set (user_rows s)" "deletedAt u = None"
  shows "tombs s (snd (correctEmail id digest env (toMirroredUser u) email actor s))"
proof -
  have "tombs s (snd (catching_conflict (update_user env (accountId u) ch) s))" for ch
    using update_live [OF assms, of env ch] by (auto simp: catching_conflict_def split: prod.splits sum.splits)
  then have "tombs s (snd (await (catching_conflict (update_user env (accountId u) ch)) (\<lambda>written. case written of None \<Rightarrow> done_with (toMirroredUser u)
      | Some corrected \<Rightarrow> await (record_account digest env (g corrected)) (\<lambda>_. done_with corrected)) s))" for ch g
    by (rule tombs_then_stable) (intro tomb_steps tomb_quiet_steps)
  then show ?thesis
    using reflpD [OF tombs_rel(1), of s] by (simp add: correctEmail_def await_def [of "meanwhile id"] meanwhile_def action_defs)
qed

lemma erase_live:
  assumes "books_ok s" "u \<in> set (user_rows s)" "deletedAt u = None" "minds_own_tables eraser"
  shows "tombs s (snd (eraseAndTombstone digest eraser env (toMirroredUser u) actor s))"
  unfolding eraseAndTombstone_def
proof (rule tombs_then)
  show "tombs s (snd (eraser actor s))" by (rule stableD [OF tombs_quiet [OF eraser_quiet [OF assms(4)]]])
  fix x s1 assume "eraser actor s = (Inr x, s1)"
  then have s1: "user_rows s1 = user_rows s" "approval_rows s1 = approval_rows s" using assms(4) by (metis minds_own_tables_def snd_conv)+
  show "tombs s1 (snd (await (eraseActivity (accountId (toMirroredUser u))) (\<lambda>_. await (update_user env (accountId (toMirroredUser u)) \<lparr>newEmail = Some (tombstoneEmail (accountId (toMirroredUser u))),
        newDeletedAt = Some (laterNow env), newDeletionRequestedAt = Some (laterNow env)\<rparr>) (\<lambda>deleted.
      record_account digest env (account_change (Some actor) AccountDeletionRequested (accountId (toMirroredUser u)) None (Some (toMirroredUser u)) (Some deleted)))) s1))"
  proof (rule tombs_then)
    show "tombs s1 (snd (eraseActivity (accountId (toMirroredUser u)) s1))" by (rule stableD) (rule tomb_quiet_steps)
    fix y s2 assume "eraseActivity (accountId (toMirroredUser u)) s1 = (Inr y, s2)"
    then have s2: "user_rows s2 = user_rows s" "approval_rows s2 = approval_rows s" using s1 by (auto simp: eraseActivity_def)
    have "books_ok s2" "u \<in> set (user_rows s2)" using assms(1,2) s2 by (simp_all add: books_ok_def)
    then show "tombs s2 (snd (await (update_user env (accountId (toMirroredUser u)) \<lparr>newEmail = Some (tombstoneEmail (accountId (toMirroredUser u))),
        newDeletedAt = Some (laterNow env), newDeletionRequestedAt = Some (laterNow env)\<rparr>) (\<lambda>deleted.
      record_account digest env (account_change (Some actor) AccountDeletionRequested (accountId (toMirroredUser u)) None (Some (toMirroredUser u)) (Some deleted))) s2))"
      using update_live [OF _ _ assms(3)] by (intro tombs_then_stable tomb_quiet_steps) simp
  qed
qed

lemma provisioned_live:
  assumes "books_ok s" "upsert id env c e s = (Inr (user, created), s1)" "deletedAt user = None"
    "(if created then record_account digest env change else done_with ()) s1 = (Inr x, s2)"
  shows "tombs s2 (snd (correctEmail id digest env user email actor s2))"
proof -
  obtain u where u: "u \<in> set (user_rows s1)" "user = toMirroredUser u" using upsert_row [OF assms(2)] by blast
  have "books_ok s1" using books_kept [OF books.stable_upsert [where race = id] assms(1)] assms(2)
    by (metis id_apply keeps_books_def snd_conv)
  moreover have "user_rows s2 = user_rows s1" "approval_rows s2 = approval_rows s1"
    using assms(4) record_users [of digest env change s1] by (auto simp: done_with_def split: if_splits)
  ultimately have "books_ok s2" "u \<in> set (user_rows s2)" using u(1) by (simp_all add: books_ok_def)
  then show ?thesis unfolding u(2) using assms(3) u(2) by (intro correctEmail_live) simp_all
qed

lemma provision_tombs:
  assumes "books_ok s" "\<And>user s2. tombs s2 (snd (late user s2))"
    "\<And>user s2. deletedAt user = None \<Longrightarrow> tombs s2 (snd (correctEmail id digest env user email (actor user) s2)) \<Longrightarrow> tombs s2 (snd (rest user s2))"
  shows "tombs s (snd (await (upsert id env c e) (\<lambda>(user, created).
    await (if created then record_account digest env (change user) else done_with ()) (\<lambda>_. if deletedAt user \<noteq> None then late user else rest user)) s))"
proof (rule tombs_then)
  show "tombs s (snd (upsert id env c e s))" by (rule stableD) (rule tomb_parts)
  fix x s1 assume up: "upsert id env c e s = (Inr x, s1)"
  obtain user created where x: "x = (user, created)" by (cases x)
  show "tombs s1 (snd ((case x of (user, created) \<Rightarrow> await (if created then record_account digest env (change user) else done_with ())
      (\<lambda>_. if deletedAt user \<noteq> None then late user else rest user)) s1))"
    unfolding x split
  proof (rule tombs_then)
    show "tombs s1 (snd ((if created then record_account digest env (change user) else done_with ()) s1))"
      by (rule stableD) (intro tomb_steps tomb_quiet_steps)
    fix y s2 assume rec: "(if created then record_account digest env (change user) else done_with ()) s1 = (Inr y, s2)"
    show "tombs s2 (snd ((if deletedAt user \<noteq> None then late user else rest user) s2))"
    proof (cases "deletedAt user = None")
      case True
      then show ?thesis using assms(3) [OF True] provisioned_live [OF assms(1) up [unfolded x] True rec] by simp
    qed (use assms(2) in simp)
  qed
qed

lemma find_clerk_row: "findByClerkUserId c s = Some user \<Longrightarrow> \<exists>u \<in> set (user_rows s). user = toMirroredUser u"
  by (auto simp: findByClerkUserId_def dest: find_Some_mem)

lemma apply_event_tombs:
  assumes "books_ok s" "minds_own_tables eraser"
  shows "tombs s (snd (apply_event id digest eraser env event s))"
proof (cases event)
  case (UserUpserted c e)
  show ?thesis
    unfolding UserUpserted apply_event_def IdentityEvent.case
    by (rule provision_tombs [OF assms(1), where actor = "\<lambda>_. None"])
      (auto simp: done_with_def reflpD [OF tombs_rel(1)] intro!: tombs_then_stable tomb_steps)
next
  case (UserDeleted c)
  have "tombs s (snd (case findByClerkUserId c s of None \<Rightarrow> done_with () s
      | Some user \<Rightarrow> (if deletedAt user \<noteq> None then done_with () else eraseAndTombstone digest eraser env user
               \<lparr>actorUserId = accountId user, actorIpAddress = None, actorSessionId = None\<rparr>) s))"
    using find_clerk_row [of c s] erase_live [OF assms(1) _ _ assms(2)]
    by (auto simp: done_with_def reflpD [OF tombs_rel(1)] split: option.splits)
  then show ?thesis unfolding UserDeleted apply_event_def by (auto simp: await_def reading_def split: option.splits if_splits)
next
  case (SessionRecorded c sess kind at' act)
  have "stable tombs (recordAuthenticationEvent env c sess kind at' act)"
    unfolding recordAuthenticationEvent_def by (intro tomb_steps tomb_quiet_steps)
  then show ?thesis unfolding SessionRecorded apply_event_def IdentityEvent.case by (rule stableD)
qed

lemma applyEvent_tombs:
  assumes "books_ok s" "minds_own_tables eraser"
  shows "tombs s (snd (applyEvent id digest eraser env externalId event s))"
  unfolding applyEvent_def
proof (rule tombs_then)
  show "tombs s (snd (claim CLERK_PROVIDER externalId (event_type event) s))" by (rule stableD) (rule tomb_quiet_steps)
  fix claimed s1 assume "claim CLERK_PROVIDER externalId (event_type event) s = (Inr claimed, s1)"
  then have "books_ok s1" using assms(1) by (auto simp: claim_def books_ok_def split: if_splits)
  then have "tombs s1 (snd (await (apply_event id digest eraser env event) (\<lambda>_. await (markProcessed env CLERK_PROVIDER externalId) (\<lambda>_. done_with True)) s1))"
    by (intro tombs_then_stable apply_event_tombs assms(2) tomb_steps tomb_quiet_steps)
  then show "tombs s1 (snd ((if \<not> claimed then done_with False else await (apply_event id digest eraser env event)
      (\<lambda>_. await (markProcessed env CLERK_PROVIDER externalId) (\<lambda>_. done_with True))) s1))"
    by (simp add: done_with_def reflpD [OF tombs_rel(1)])
qed

lemma tomb_calls:
  "stable tombs (suspend id digest env actor i reason)" "stable tombs (reinstate id digest env actor i reason)"
  "stable tombs (proposeRoleChange digest env actor i role reason)" "stable tombs (approve id digest env actor i reason)"
  "stable tombs (cancelApproval id digest env actor i reason)" "stable tombs (adminViewFor digest summaryFor env actor i reason)"
  unfolding suspend_def reinstate_def proposeRoleChange_def approve_def cancelApproval_def adminViewFor_def
  by (intro tomb_steps tomb_quiet_steps tomb_parts)+

lemma call_tombs:
  assumes "identity_call eraser dl s s'" "books_ok s" "minds_own_tables eraser"
  shows "tombs s s'"
  using assms(1)
proof (cases rule: identity_call.cases)
  case (call_resolve digest env session ip)
  show ?thesis
    unfolding call_resolve resolveSession_def Let_def
    by (rule provision_tombs [OF assms(2), where actor = "\<lambda>user. Some \<lparr>actorUserId = accountId user, actorIpAddress = ip, actorSessionId = Some (verifiedSessionId session)\<rparr>"])
      (simp_all add: throw_def reflpD [OF tombs_rel(1)])
next
  case (call_delete digest env actor)
  have "tombs s (snd (case findById (actorUserId actor) s of None \<Rightarrow> done_with () s
      | Some user \<Rightarrow> (if deletedAt user \<noteq> None then done_with () else eraseAndTombstone digest eraser env user actor) s))"
    using erase_live [OF assms(2) _ _ assms(3)] user_by_id_mem [of "actorUserId actor" s]
    by (auto simp: done_with_def reflpD [OF tombs_rel(1)] split: option.splits elim!: findById_account)
  then show ?thesis unfolding call_delete requestDeletion_def by (auto simp: await_def reading_def split: option.splits if_splits)
next
  case (call_receive event digest env externalId)
  then show ?thesis using applyEvent_tombs assms(2,3) by simp
next
  case (call_receive_deletion digest env externalId c)
  then show ?thesis using applyEvent_tombs assms(2,3) by simp
qed (simp_all only: tomb_calls [THEN stableD])

lemma calls_tombs:
  assumes "(\<lambda>x y. \<exists>dl. identity_call eraser dl x y)\<^sup>*\<^sup>* s s'" "books_ok s" "minds_own_tables eraser"
  shows "tombs s s' \<and> books_ok s'"
  using assms(1)
proof (induction rule: rtranclp_induct)
  case base
  then show ?case using assms(2) reflpD [OF tombs_rel(1)] by simp
next
  case (step y z)
  then obtain dl where call: "identity_call eraser dl y z" by blast
  have "books_ok z" using books.step_R [OF call_step [OF call] assms(3)] step.IH by (simp add: keeps_books_def)
  then show ?case using call_tombs [OF call _ assms(3)] step.IH transpD [OF tombs_rel(2)] by blast
qed

text \<open>
C11: A deleted account stays deleted. Whatever is called afterwards, be it a late event of the provider, a sign-in with a
token that is still valid, an approval or a suspension, the row keeps the time of the deletion and the address that stands
for it, the account is active for no other module, and every session of it is refused.\<close>
theorem deleted_stays_deleted:
  assumes "(\<lambda>x y. \<exists>dl. identity_call eraser dl x y)\<^sup>*\<^sup>* db db'" "books_ok db" "minds_own_tables eraser"
    and u: "u \<in> set (user_rows db)" "deletedAt u \<noteq> None"
  shows "\<exists>u' \<in> set (user_rows db'). accountId u' = accountId u \<and> deletedAt u' = deletedAt u \<and> userEmail u' = userEmail u
    \<and> findActiveById (accountId u) db' = None
    \<and> (sessionClerkUserId session = clerkUserId u \<longrightarrow> resolveSession race digest env session ip db' = (Inl AccountDeleted, db'))"
proof -
  have "tombs db db'" and books: "books_ok db'" using calls_tombs [OF assms(1-3)] by simp_all
  then obtain u' where u': "u' \<in> set (user_rows db')" "accountId u' = accountId u" "clerkUserId u' = clerkUserId u" "deletedAt u' = deletedAt u"
    "userEmail u' = userEmail u" using u by (auto simp: tombs_def)
  have "findActiveById (accountId u) db' = None"
  proof (cases "findById (accountId u) db'")
    case (Some target)
    then obtain v where v: "user_by_id (accountId u) db' = Some v" "target = toMirroredUser v" by (rule findById_account)
    have "lower (accountId u) = accountId u" using canonical [OF books u'(1)] u'(2) by simp
    then have "v = u'" using user_by_id_mem [OF v(1)] same_account [OF books _ u'(1)] u'(2) by simp
    then show ?thesis using Some v(2) u'(4) u(2) by (simp add: findActiveById_def)
  qed (simp add: findActiveById_def)
  moreover have "resolveSession race digest env session ip db' = (Inl AccountDeleted, db')" if "sessionClerkUserId session = clerkUserId u"
  proof -
    have "distinct (map clerkUserId (user_rows db'))" using books by (simp add: books_ok_def)
    then have "find (\<lambda>v. clerkUserId v = clerkUserId u) (user_rows db') = Some u'" using find_distinct u'(1,3) by metis
    then have "findByClerkUserId (clerkUserId u) db' = Some (toMirroredUser u')" by (simp add: findByClerkUserId_def)
    then show ?thesis using that u'(4) u(2) by (auto simp: resolveSession_def upsert_def await_def action_defs Let_def)
  qed
  ultimately show ?thesis using u' by blast
qed

subsection \<open>A deletion completes\<close>

abbreviation tombstone_changes :: "IdentityEnv \<Rightarrow> string \<Rightarrow> UserChanges" where
  "tombstone_changes env i \<equiv> \<lparr>newEmail = Some (tombstoneEmail i), newDeletedAt = Some (laterNow env), newDeletionRequestedAt = Some (laterNow env)\<rparr>"

definition redacted :: "string \<Rightarrow> 'z IdentityDb_scheme \<Rightarrow> 'z IdentityDb_scheme" where
  "redacted i db = db\<lparr>auth_rows := map (\<lambda>a. if authUserId a = i then a\<lparr>authActivity := NO_SESSION_ACTIVITY\<rparr> else a) (auth_rows db)\<rparr>"

definition address_clash :: "IdentityEnv \<Rightarrow> UserRow \<Rightarrow> 'z IdentityDb_scheme \<Rightarrow> bool" where
  "address_clash env u db \<longleftrightarrow> (\<exists>r \<in> set (user_rows db). accountId r \<noteq> accountId u \<and> citext env (userEmail r) = citext env (tombstoneEmail (accountId u)))"

lemma deletion_run:
  assumes "user_by_id (actorUserId actor) db = Some u" "isUuid (actorUserId actor)" "deletedAt u = None" "minds_own_tables eraser"
    and run: "eraser actor db = (Inr (), db1)" and free: "\<not> address_clash env u db"
  shows "requestDeletion digest eraser env actor db = (Inr (),
     (set_user (accountId u) (changed_columns (tombstone_changes env (accountId u))) (redacted (accountId u) db1))\<lparr>trail_rows := trail_rows db1 @
        [audit_entry digest (newTrailId env) (laterNow env) (account_change (Some actor) AccountDeletionRequested (accountId u) None
          (Some (toMirroredUser u)) (Some (toMirroredUser (changed_columns (tombstone_changes env (accountId u)) u))))]\<rparr>)"
proof -
  have db1: "user_rows db1 = user_rows db" using assms(4) run by (metis minds_own_tables_def snd_conv)
  have id: "accountId u = lower (actorUserId actor)" using user_by_id_mem [OF assms(1)] by simp
  have u: "user_by_id (accountId u) (redacted (accountId u) db1) = Some u" "isUuid (accountId u)" "lower (accountId u) = accountId u"
    using user_by_id_account [OF assms(1)] isUuid_lower [OF assms(2)] id db1 by (simp_all add: user_by_id_def redacted_def)
  have "\<not> list_ex (\<lambda>r. accountId r \<noteq> accountId u \<and> citext env (userEmail r) = citext env (tombstoneEmail (accountId u))) (user_rows db)"
    using free by (auto simp: address_clash_def list_ex_iff)
  then have up: "update_user env (accountId u) (tombstone_changes env (accountId u)) (redacted (accountId u) db1)
      = (Inr (toMirroredUser (changed_columns (tombstone_changes env (accountId u)) u)), set_user (accountId u) (changed_columns (tombstone_changes env (accountId u))) (redacted (accountId u) db1))"
    using u(1) db1 by (simp add: update_user_def atomically_def changed_columns_def new_or_def redacted_def)
  show ?thesis
    using assms(1-3) run up u(2,3)
    by (simp add: requestDeletion_def findById_def await_def reading_def eraseAndTombstone_def eraseActivity_def redacted_def [symmetric]
        record_account_def record_change_def account_change_def) (simp add: set_user_def redacted_def)
qed

subsection \<open>Suspension\<close>

definition suspension_complete :: "UserRow \<Rightarrow> bool" where
  "suspension_complete u \<longleftrightarrow> (suspendedAt u = None \<longrightarrow> suspensionReason u = None \<and> suspendedById u = None)"


subsection \<open>Examples, and what the rules do not cover\<close>

lemma office_books: "books_ok office" "\<forall>u \<in> set (user_rows office). suspension_complete u"
   apply code_simp
  apply (simp add: office_def person_def suspension_complete_def)
  done


text \<open>The last administrator may delete the own account: that path does not count administrators.\<close>

definition one_left :: IdentityDb where
  "one_left = office\<lparr>user_rows := [person ann ''ann'' ADMIN, person cat ''cat'' USER]\<rparr>"

lemma last_administrator_may_leave:
  "countAdministrators one_left = 1"
  "fst (suspend id digest_of (office_env 5) (acting cat) ann ''x'' one_left) = Inl (ApprovalRefused LastAdministrator)"
  "fst (requestDeletion digest_of no_eraser (office_env 5) (acting ann) one_left) = Inr ()"
  "countAdministrators (snd (requestDeletion digest_of no_eraser (office_env 5) (acting ann) one_left)) = 0"
     apply code_simp
    apply code_simp
   apply code_simp
  apply code_simp
  done

text \<open>Two administrators who suspend each other at the same moment both pass the count.\<close>

definition ann_out :: IdentityDb where
  "ann_out = snd (suspend id digest_of (office_env 5) (acting ben) ann ''x'' office)"

lemma administrators_suspend_each_other:
  "countAdministrators office = 2"
  "countAdministrators (snd (suspend (\<lambda>_. ann_out) digest_of (office_env 5) (acting ann) ben ''y'' office)) = 0"
   apply code_simp
  apply code_simp
  done

text \<open>An identifier in capitals is the own account all the same, but not the same string.\<close>

lemma self_suspension_in_capitals:
  "fst (suspend id digest_of (office_env 5) (acting ann) ann ''x'' office) = Inl (ApprovalRefused SelfSuspension)"
  "map_sum id accountId (fst (suspend id digest_of (office_env 5) (acting ann) ''AAAAAAAA-AAAA-4AAA-8AAA-AAAAAAAAAAAA'' ''x'' office)) = Inr ann"
   apply code_simp
  apply code_simp
  done

text \<open>A request that read the account before it was deleted writes the new address over the tombstone.\<close>

definition cat_session :: VerifiedSession where
  "cat_session = \<lparr>sessionClerkUserId = ''user_cat'', verifiedSessionId = ''sess_1'', sessionEmail = ''cat@new.example'', secondFactorAgeMinutes = None\<rparr>"

lemma late_request_restores_address:
  "map (\<lambda>u. (userEmail u, deletedAt u)) (filter (\<lambda>u. accountId u = cat)
     (user_rows (snd (resolveSession (\<lambda>s. snd (requestDeletion digest_of no_eraser (office_env 7) (acting cat) s)) digest_of (office_env 8) cat_session None office))))
   = [(''cat@new.example'', Some 7)]"
  by code_simp

definition deleted_office :: IdentityDb where
  "deleted_office = snd (requestDeletion digest_of no_eraser (office_env 7) (acting cat) office)"

theorem deleted_stays_deleted_witness:
  "findActiveById cat deleted_office = None \<and> resolveSession id digest_of (office_env 9) cat_session None deleted_office = (Inl AccountDeleted, deleted_office)"
proof -
  have "\<exists>u \<in> set (user_rows deleted_office). accountId u = cat \<and> clerkUserId u = ''user_cat'' \<and> deletedAt u \<noteq> None" by code_simp
  then obtain u where u: "u \<in> set (user_rows deleted_office)" "accountId u = cat" "clerkUserId u = ''user_cat''" "deletedAt u \<noteq> None" by blast
  have "books_ok deleted_office" by code_simp
  then show ?thesis
    using deleted_stays_deleted [OF rtranclp.rtrancl_refl _ office_checks(1) u(1,4), of cat_session id digest_of "office_env 9" None] u(2,3)
    by (auto simp: cat_session_def)
qed


end
