(* ===== verification/Access_Guard.thy ===== *)
theory Access_Guard
  imports Identity_Accounts
begin

section \<open>Who may call what\<close>

text \<open>
  The guard of every authenticated route (\<^verbatim>\<open>apps/api/src/identity/auth.guard.ts\<close>), the reading of a verified token
  (\<^verbatim>\<open>clerk-session-verifier.ts\<close>) and the chain of proofs of a second factor (\<^verbatim>\<open>second-factor-chain.ts\<close>,
  \<^verbatim>\<open>compose-second-factor.ts\<close> and the three provers). The cryptographic check of a token is the libraries':
  the parameters \<open>verifyToken\<close> and \<open>verifyAssertion\<close>, which answer the claims of a genuine token and nothing for any other.
\<close>

subsection \<open>Headers\<close>

datatype HeaderValue = NoHeader | OneHeader string | ManyHeaders "string list"

type_synonym Headers = "string \<Rightarrow> HeaderValue"

definition header_text :: "HeaderValue \<Rightarrow> string option" where
  "header_text h = (case h of OneHeader s \<Rightarrow> Some s | _ \<Rightarrow> None)"

definition CLIENT_IP_HEADER :: string where "CLIENT_IP_HEADER = ''x-client-ip''"
definition ACCESS_ASSERTION_HEADER :: string where "ACCESS_ASSERTION_HEADER = ''cf-access-jwt-assertion''"

definition clientIpFrom :: "Headers \<Rightarrow> string option" where
  "clientIpFrom headers = validIpOrNull (header_text (headers CLIENT_IP_HEADER))"

definition bearerToken :: "HeaderValue \<Rightarrow> string option" where
  "bearerToken header =
    (case header_text header of
       None \<Rightarrow> None
     | Some s \<Rightarrow>
         (case filter (\<lambda>part. part \<noteq> []) (split_on CHR '' '' s) of
            [scheme, token] \<Rightarrow> if lower scheme = ''bearer'' then Some token else None
          | _ \<Rightarrow> None))"

subsection \<open>The session\<close>

definition secondFactorAge :: "json option \<Rightarrow> number option" where
  "secondFactorAge fva =
    (case fva of
       Some (JArray (_ # JNumber (Finite q) # _)) \<Rightarrow> if q < 0 then None else Some (Finite q)
     | _ \<Rightarrow> None)"

text \<open>A claim that has to be a string with something in it.\<close>

definition text_claim :: "string \<Rightarrow> json \<Rightarrow> string option" where
  "text_claim k claims = (case json_member k claims of Some (JString s) \<Rightarrow> if s = [] then None else Some s | _ \<Rightarrow> None)"

definition verify_session :: "(string \<Rightarrow> json option) \<Rightarrow> string \<Rightarrow> VerifiedSession option" where
  "verify_session verifyToken token =
    (case verifyToken token of
       None \<Rightarrow> None
     | Some claims \<Rightarrow>
         (case (text_claim ''sub'' claims, text_claim ''sid'' claims, text_claim ''email'' claims) of
            (Some sub, Some sid, Some email) \<Rightarrow>
              Some \<lparr>sessionClerkUserId = sub, verifiedSessionId = sid, sessionEmail = email,
                secondFactorAgeMinutes = secondFactorAge (json_member ''fva'' claims)\<rparr>
          | _ \<Rightarrow> None))"

subsection \<open>Proofs of a second factor\<close>

definition MAX_SECOND_FACTOR_AGE_MINUTES :: rat where "MAX_SECOND_FACTOR_AGE_MINUTES = 12 * 60"

record SecondFactorEvidence =
  evidenceSession :: VerifiedSession
  evidenceHeaders :: Headers

datatype ProverOutcome = ProverThrew | ProverAnswered "number option"

record AdminSecondFactor =
  proverName :: string
  bypassesSecondFactor :: bool
  ageMinutes :: "SecondFactorEvidence \<Rightarrow> ProverOutcome"

record SecondFactorAnswer =
  answerAgeMinutes :: rat
  provenBy :: string

record SecondFactorDecision =
  decisionProof :: "SecondFactorAnswer option"
  decisionAttempts :: "SecondFactorAnswer list"

definition ask_prover :: "AdminSecondFactor \<Rightarrow> SecondFactorEvidence \<Rightarrow> rat option" where
  "ask_prover prover evidence =
    (case ageMinutes prover evidence of
       ProverAnswered (Some (Finite age)) \<Rightarrow> if age < 0 then None else Some age
     | _ \<Rightarrow> None)"

fun prove_chain :: "rat \<Rightarrow> AdminSecondFactor list \<Rightarrow> SecondFactorEvidence \<Rightarrow> SecondFactorAnswer list \<Rightarrow> SecondFactorDecision" where
  "prove_chain maximumAge [] evidence attempts = \<lparr>decisionProof = None, decisionAttempts = attempts\<rparr>"
| "prove_chain maximumAge (prover # provers) evidence attempts =
    (case ask_prover prover evidence of
       None \<Rightarrow> prove_chain maximumAge provers evidence attempts
     | Some age \<Rightarrow>
         let attempt = \<lparr>answerAgeMinutes = age, provenBy = proverName prover\<rparr> in
         if age \<le> maximumAge then \<lparr>decisionProof = Some attempt, decisionAttempts = attempts @ [attempt]\<rparr>
         else prove_chain maximumAge provers evidence (attempts @ [attempt]))"

definition prove_second_factor :: "AdminSecondFactor list \<Rightarrow> SecondFactorEvidence \<Rightarrow> SecondFactorDecision" where
  "prove_second_factor provers evidence = prove_chain MAX_SECOND_FACTOR_AGE_MINUTES provers evidence []"

definition chain_bypasses :: "AdminSecondFactor list \<Rightarrow> bool" where
  "chain_bypasses provers = list_ex bypassesSecondFactor provers"

definition ClerkSecondFactor :: AdminSecondFactor where
  "ClerkSecondFactor = \<lparr>proverName = ''clerk-fva'', bypassesSecondFactor = False,
     ageMinutes = (\<lambda>evidence. ProverAnswered (secondFactorAgeMinutes (evidenceSession evidence)))\<rparr>"

definition assertionFrom :: "HeaderValue \<Rightarrow> string option" where
  "assertionFrom header = Option.bind (header_text header) (\<lambda>s.
     let token = trim s in if token = [] \<or> CHR '','' \<in> set token then None else Some token)"

definition isHumanIdentity :: "json \<Rightarrow> bool" where
  "isHumanIdentity claims \<longleftrightarrow>
     (case json_member ''common_name'' claims of None \<Rightarrow> True | Some v \<Rightarrow> v = JString [])
     \<and> text_claim ''email'' claims \<noteq> None \<and> text_claim ''sub'' claims \<noteq> None"

definition ageInMinutes :: "json option \<Rightarrow> int \<Rightarrow> number option" where
  "ageInMinutes iat now =
    (case iat of
       Some (JNumber (Finite t)) \<Rightarrow>
         let seconds = fl (of_int (now div 1000) - t) in
         if seconds < 0 then None else Some (Finite (of_int \<lfloor>fl (seconds / 60)\<rfloor>))
     | _ \<Rightarrow> None)"

definition CloudflareAccessSecondFactor :: "(string \<Rightarrow> json option) \<Rightarrow> int \<Rightarrow> AdminSecondFactor" where
  "CloudflareAccessSecondFactor verifyAssertion now = \<lparr>proverName = ''cloudflare-access'', bypassesSecondFactor = False,
     ageMinutes = (\<lambda>evidence.
       case assertionFrom (evidenceHeaders evidence ACCESS_ASSERTION_HEADER) of
         None \<Rightarrow> ProverAnswered None
       | Some token \<Rightarrow>
           (case verifyAssertion token of
              None \<Rightarrow> ProverAnswered None
            | Some claims \<Rightarrow>
                if isHumanIdentity claims then ProverAnswered (ageInMinutes (json_member ''iat'' claims) now) else ProverAnswered None))\<rparr>"

definition DevelopmentSecondFactor :: AdminSecondFactor where
  "DevelopmentSecondFactor = \<lparr>proverName = ''development-bypass'', bypassesSecondFactor = True, ageMinutes = (\<lambda>_. ProverAnswered (Some (Finite 0)))\<rparr>"

definition composeSecondFactor :: "bool \<Rightarrow> (string \<Rightarrow> json option) option \<Rightarrow> int \<Rightarrow> AdminSecondFactor list" where
  "composeSecondFactor allowWithoutSecondFactor access now =
    [ClerkSecondFactor] @ (case access of None \<Rightarrow> [] | Some verifyAssertion \<Rightarrow> [CloudflareAccessSecondFactor verifyAssertion now])
    @ (if allowWithoutSecondFactor then [DevelopmentSecondFactor] else [])"

subsection \<open>The guard\<close>

record Route =
  requiredRoles :: "UserRole list"
  allowsSuspended :: bool

datatype GuardError = Unauthorized | Forbidden | GuardFault IdentityError

record AuthenticatedRequest =
  requestUser :: MirroredUser
  requestSessionId :: string
  requestClientIp :: "string option"

definition authorise :: "AdminSecondFactor list \<Rightarrow> Route \<Rightarrow> MirroredUser \<Rightarrow> SecondFactorEvidence \<Rightarrow> GuardError + unit" where
  "authorise provers route user evidence =
    (if suspendedAt user \<noteq> None \<and> \<not> allowsSuspended route then Inl Forbidden
     else if requiredRoles route = [] then Inr ()
     else if userRole user \<notin> set (requiredRoles route) then Inl Forbidden
     else if ADMIN \<in> set (requiredRoles route) \<and> decisionProof (prove_second_factor provers evidence) = None then Inl Forbidden
     else Inr ())"

definition canActivate ::
  "('z IdentityDb_scheme \<Rightarrow> 'z IdentityDb_scheme) \<Rightarrow> (AuditableAccount \<Rightarrow> string) \<Rightarrow> IdentityEnv \<Rightarrow> (string \<Rightarrow> json option)
    \<Rightarrow> AdminSecondFactor list \<Rightarrow> Route \<Rightarrow> Headers \<Rightarrow> ('z IdentityDb_scheme, GuardError, AuthenticatedRequest) action" where
  "canActivate race digest env verifyToken provers route headers db =
    (case bearerToken (headers ''authorization'') of
       None \<Rightarrow> (Inl Unauthorized, db)
     | Some token \<Rightarrow>
         (case verify_session verifyToken token of
            None \<Rightarrow> (Inl Unauthorized, db)
          | Some session \<Rightarrow>
              (case resolveSession race digest env session (clientIpFrom headers) db of
                 (Inl AccountDeleted, db') \<Rightarrow> (Inl Unauthorized, db')
               | (Inl e, db') \<Rightarrow> (Inl (GuardFault e), db')
               | (Inr user, db') \<Rightarrow>
                   (rbind (authorise provers route user \<lparr>evidenceSession = session, evidenceHeaders = headers\<rparr>) (\<lambda>_.
                      Inr \<lparr>requestUser = user, requestSessionId = verifiedSessionId session, requestClientIp = clientIpFrom headers\<rparr>), db'))))"

subsection \<open>Only a fresh factor\<close>

lemma prove_chain_proof:
  "decisionProof (prove_chain m provers ev attempts) = (case find (\<lambda>p. \<exists>age. ask_prover p ev = Some age \<and> age \<le> m) provers of None \<Rightarrow> None
     | Some p \<Rightarrow> Some \<lparr>answerAgeMinutes = the (ask_prover p ev), provenBy = proverName p\<rparr>)"
  by (induction m provers ev attempts rule: prove_chain.induct) (auto simp: Let_def split: option.splits)

lemma clerk_asked: "ask_prover ClerkSecondFactor ev = Some age \<longleftrightarrow> secondFactorAgeMinutes (evidenceSession ev) = Some (Finite age) \<and> 0 \<le> age"
  by (auto simp: ask_prover_def ClerkSecondFactor_def split: option.splits number.splits if_splits)

definition access_age :: "(string \<Rightarrow> json option) \<Rightarrow> int \<Rightarrow> Headers \<Rightarrow> rat \<Rightarrow> bool" where
  "access_age verifyAssertion now headers age \<longleftrightarrow>
    (\<exists>token claims. assertionFrom (headers ACCESS_ASSERTION_HEADER) = Some token \<and> verifyAssertion token = Some claims
       \<and> isHumanIdentity claims \<and> ageInMinutes (json_member ''iat'' claims) now = Some (Finite age))"

lemma ageInMinutes_nonneg: "ageInMinutes iat now = Some (Finite age) \<Longrightarrow> 0 \<le> age"
  by (auto simp: ageInMinutes_def Let_def fl_nonneg split: option.splits json.splits number.splits if_splits)

lemma access_asked:
  "ask_prover (CloudflareAccessSecondFactor verifyAssertion now) ev = Some age \<longleftrightarrow> access_age verifyAssertion now (evidenceHeaders ev) age"
  by (auto simp: ask_prover_def CloudflareAccessSecondFactor_def access_age_def split: option.splits number.splits if_splits
      dest: ageInMinutes_nonneg)

lemma development_asked: "ask_prover DevelopmentSecondFactor ev = Some 0"
  by (simp add: ask_prover_def DevelopmentSecondFactor_def)

definition fresh_factor :: "(string \<Rightarrow> json option) option \<Rightarrow> int \<Rightarrow> SecondFactorEvidence \<Rightarrow> bool" where
  "fresh_factor access now ev \<longleftrightarrow>
     (\<exists>age. age \<le> 720 \<and> (secondFactorAgeMinutes (evidenceSession ev) = Some (Finite age) \<and> 0 \<le> age
        \<or> (\<exists>verifyAssertion. access = Some verifyAssertion \<and> access_age verifyAssertion now (evidenceHeaders ev) age)))"

lemma second_factor_proven:
  "decisionProof (prove_second_factor (composeSecondFactor bypass access now) ev) \<noteq> None \<longleftrightarrow> bypass \<or> fresh_factor access now ev"
proof -
  have "decisionProof (prove_second_factor provers ev) \<noteq> None \<longleftrightarrow> (\<exists>p \<in> set provers. \<exists>age. ask_prover p ev = Some age \<and> age \<le> 720)" for provers
    unfolding prove_second_factor_def prove_chain_proof MAX_SECOND_FACTOR_AGE_MINUTES_def
    by (auto simp: find_None_all split: option.splits dest!: find_Some_mem)
  then show ?thesis
    using development_asked [of ev]
    by (auto simp: composeSecondFactor_def fresh_factor_def clerk_asked access_asked split: option.splits)
qed

text \<open>The exception is asked last: when it is what admits, no real proof was good enough.\<close>

lemma bypass_only_after_real_proofs:
  assumes "decisionProof (prove_second_factor (composeSecondFactor True access now) ev) = Some answer" "fresh_factor access now ev"
  shows "provenBy answer \<noteq> proverName DevelopmentSecondFactor"
proof -
  have names: "proverName ClerkSecondFactor \<noteq> proverName DevelopmentSecondFactor"
    "proverName (CloudflareAccessSecondFactor v now) \<noteq> proverName DevelopmentSecondFactor" for v
    by (simp_all add: ClerkSecondFactor_def CloudflareAccessSecondFactor_def DevelopmentSecondFactor_def)
  have "(\<exists>age. ask_prover ClerkSecondFactor ev = Some age \<and> age \<le> 720)
      \<or> (\<exists>v age. access = Some v \<and> ask_prover (CloudflareAccessSecondFactor v now) ev = Some age \<and> age \<le> 720)"
    using assms(2) by (auto simp: fresh_factor_def clerk_asked access_asked)
  then show ?thesis
    using assms(1) names unfolding prove_second_factor_def prove_chain_proof MAX_SECOND_FACTOR_AGE_MINUTES_def composeSecondFactor_def
    by (auto split: option.splits if_splits)
qed

lemma authorise_iff:
  "authorise (composeSecondFactor bypass access now) route user ev = Inr () \<longleftrightarrow>
     (suspendedAt user = None \<or> allowsSuspended route) \<and> (requiredRoles route = [] \<or> userRole user \<in> set (requiredRoles route))
     \<and> (ADMIN \<in> set (requiredRoles route) \<longrightarrow> bypass \<or> fresh_factor access now ev)"
  using second_factor_proven [of bypass access now ev] by (auto simp: authorise_def)

lemma catching_run:
  "catching_conflict m s = (Inr x, s') \<Longrightarrow> (\<exists>y. x = Some y \<and> m s = (Inr y, s')) \<or> x = None \<and> m s = (Inl UserConflict, s')"
  by (auto simp: catching_conflict_def split: prod.splits sum.splits if_splits)

lemma update_row:
  assumes "update_user env i ch s = (Inr y, s')"
  shows "\<exists>v. user_by_id i s = Some v \<and> y = toMirroredUser (changed_columns ch v) \<and> changed_columns ch v \<in> set (user_rows s')"
  using assms user_by_id_mem [of i s]
  by (auto simp: update_user_def atomically_def set_user_def split: option.splits if_splits)

lemma conflict_state: "update_user env i ch s = (Inl e, s') \<Longrightarrow> s' = s"
  by (auto simp: update_user_def atomically_def split: option.splits if_splits)

lemma corrected_row:
  assumes "correctEmail id digest env (toMirroredUser u) email actor s = (Inr user, s')" "books_ok s" "u \<in> set (user_rows s)" "deletedAt u = None"
  shows "\<exists>v \<in> set (user_rows s'). user = toMirroredUser v \<and> clerkUserId v = clerkUserId u \<and> deletedAt v = None"
proof (cases "userEmail u = email")
  case False
  define ch where "ch = \<lparr>newEmail = Some email, newDeletedAt = None, newDeletionRequestedAt = None\<rparr>"
  have u: "user_by_id (accountId u) s = Some v \<Longrightarrow> v = u" for v
    using user_by_id_mem [of "accountId u" s v] canonical [OF assms(2,3)] same_account [OF assms(2) _ assms(3)] by simp
  obtain x s1 where x: "catching_conflict (update_user env (accountId u) ch) s = (Inr x, s1)"
    and rest: "(case x of None \<Rightarrow> done_with (toMirroredUser u) | Some corrected \<Rightarrow>
        await (record_account digest env (account_change actor AccountEmailChanged (accountId u) None (Some (toMirroredUser u)) (Some corrected))) (\<lambda>_. done_with corrected)) s1 = (Inr user, s')"
    using assms(1) False by (auto simp: correctEmail_def ch_def meanwhile_def await_Inr_iff)
  consider (new) y where "x = Some y" "update_user env (accountId u) ch s = (Inr y, s1)" | (old) "x = None" "s1 = s"
    using catching_run [OF x] conflict_state by blast
  then show ?thesis
  proof cases
    case new
    then have "user = y" "user_rows s' = user_rows s1"
      using rest record_users [of digest env _ s1] by (auto simp: await_Inr_iff done_with_def record_account_def split: if_splits)
    then show ?thesis
      using update_row [OF new(2)] u assms(4) by (auto simp: ch_def changed_columns_def new_or_def intro!: bexI [rotated])
  next
    case old
    then show ?thesis using rest assms(3,4) by (auto simp: done_with_def)
  qed
qed (use assms in \<open>auto simp: correctEmail_def done_with_def\<close>)


subsection \<open>An example\<close>

definition ann_headers :: Headers where
  "ann_headers k = (if k = ''authorization'' then OneHeader ''Bearer good'' else if k = CLIENT_IP_HEADER then OneHeader '' 192.0.2.7 '' else NoHeader)"

definition good_token :: "string \<Rightarrow> json option" where
  "good_token t = (if t = ''good'' then Some (JObject [(''sub'', JString ''user_ann''), (''sid'', JString ''sess_1''), (''email'', JString ''ann@example.com''),
     (''fva'', JArray [JNumber (Finite 3), JNumber (Finite 10)])]) else None)"

definition admin_route :: Route where
  "admin_route = \<lparr>requiredRoles = [ADMIN], allowsSuspended = False\<rparr>"

definition ann_session :: VerifiedSession where
  "ann_session = \<lparr>sessionClerkUserId = ''user_ann'', verifiedSessionId = ''sess_1'', sessionEmail = ''ann@example.com'', secondFactorAgeMinutes = Some (Finite 10)\<rparr>"


end
