(* ===== verification/Clerk_Events.thy ===== *)
theory Clerk_Events
  imports Access_Guard
begin

section \<open>Events of the identity provider\<close>

text \<open>
  The translation of a delivery of the provider into an event of the mirror (\<^verbatim>\<open>apps/api/src/identity/clerk-event-mapper.ts\<close>)
  and the reading of a user agent (\<^verbatim>\<open>user-agent.ts\<close>). The payload is a JSON object; the schemas ignore unknown keys.
\<close>

subsection \<open>User agents\<close>

fun strip_prefix :: "string \<Rightarrow> string \<Rightarrow> string option" where
  "strip_prefix [] s = Some s"
| "strip_prefix (p # ps) (c # cs) = (if p = c then strip_prefix ps cs else None)"
| "strip_prefix (p # ps) [] = None"

fun contains :: "string \<Rightarrow> string \<Rightarrow> bool" where
  "contains p [] \<longleftrightarrow> p = []"
| "contains p (c # cs) \<longleftrightarrow> strip_prefix p (c # cs) \<noteq> None \<or> contains p cs"

text \<open>The digits after the leftmost of the given words that digits follow, if what comes after them is as asked.\<close>

definition version_here :: "string list \<Rightarrow> (string \<Rightarrow> bool) \<Rightarrow> string \<Rightarrow> string option" where
  "version_here tokens follows s =
    (case List.map_filter (\<lambda>t. strip_prefix t s) tokens of
       rest # _ \<Rightarrow> if takeWhile is_digit rest \<noteq> [] \<and> follows (dropWhile is_digit rest) then Some (takeWhile is_digit rest) else None
     | [] \<Rightarrow> None)"

fun version_after :: "string list \<Rightarrow> (string \<Rightarrow> bool) \<Rightarrow> string \<Rightarrow> string option" where
  "version_after tokens follows [] = None"
| "version_after tokens follows (c # cs) =
    (case version_here tokens follows (c # cs) of Some v \<Rightarrow> Some v | None \<Rightarrow> version_after tokens follows cs)"

definition BROWSERS :: "(string \<times> string list \<times> (string \<Rightarrow> bool)) list" where
  "BROWSERS = [(''Edge'', [''Edge/'', ''EdgA/'', ''EdgiOS/'', ''Edg/''], \<lambda>_. True), (''Opera'', [''OPR/''], \<lambda>_. True),
     (''Samsung Internet'', [''SamsungBrowser/''], \<lambda>_. True), (''Firefox'', [''Firefox/'', ''FxiOS/''], \<lambda>_. True),
     (''Chrome'', [''Chrome/'', ''CriOS/''], \<lambda>_. True),
     (''Safari'', [''Version/''], \<lambda>rest. contains ''Safari/'' (takeWhile (\<lambda>c. c \<notin> {CHR 0x0A, CHR 0x0D}) rest))]"

definition PLATFORMS :: "(string \<times> string list) list" where
  "PLATFORMS = [(''Android'', [''Android'']), (''iPhone'', [''iPhone'']), (''iPad'', [''iPad'']), (''Windows'', [''Windows NT'']),
     (''macOS'', [''Macintosh'', ''Mac OS X'']), (''Linux'', [''Linux''])]"

fun first_browser :: "(string \<times> string list \<times> (string \<Rightarrow> bool)) list \<Rightarrow> string \<Rightarrow> (string \<times> string) option" where
  "first_browser [] agent = None"
| "first_browser ((name, tokens, follows) # bs) agent =
    (case version_after tokens follows agent of Some v \<Rightarrow> Some (name, v) | None \<Rightarrow> first_browser bs agent)"

definition parseUserAgent :: "string option \<Rightarrow> SessionActivity" where
  "parseUserAgent agent =
    (case agent of
       None \<Rightarrow> NO_SESSION_ACTIVITY
     | Some ua \<Rightarrow>
         if trim ua = [] then NO_SESSION_ACTIVITY
         else
           let browser = first_browser BROWSERS ua;
               device = map_option fst (find (\<lambda>(_, tokens). list_ex (\<lambda>t. contains t ua) tokens) PLATFORMS) in
           \<lparr>activityIp = None, browserName = map_option fst browser, browserVersion = map_option snd browser, deviceType = device,
            isMobile = map_option (\<lambda>_. list_ex (\<lambda>t. contains t ua) [''Mobile'', ''iPhone'', ''Android'', ''iPad'', ''Tablet'']) device\<rparr>)"

subsection \<open>Payloads\<close>

datatype MappingError = PayloadMismatch string | NoPrimaryEmail string | InvalidEpoch

definition text_field :: "string \<Rightarrow> json \<Rightarrow> string option" where
  "text_field k j = (case json_member k j of Some (JString s) \<Rightarrow> Some s | _ \<Rightarrow> None)"

text \<open>A field that may be absent or null, or else has to be text.\<close>

definition nullish_text :: "string \<Rightarrow> json \<Rightarrow> string option option" where
  "nullish_text k j = (case json_member k j of None \<Rightarrow> Some None | Some JNull \<Rightarrow> Some None | Some (JString s) \<Rightarrow> Some (Some s) | _ \<Rightarrow> None)"

record UserPayload =
  payloadId :: string
  primaryId :: "string option"
  addresses :: "(string \<times> string) list"

definition address_of :: "json \<Rightarrow> (string \<times> string) option" where
  "address_of j = (case (text_field ''id'' j, text_field ''email_address'' j) of (Some i, Some e) \<Rightarrow> Some (i, e) | _ \<Rightarrow> None)"

definition userPayloadSchema :: "json \<Rightarrow> UserPayload option" where
  "userPayloadSchema data =
    (case (text_claim ''id'' data, nullish_text ''primary_email_address_id'' data) of
       (Some i, Some p) \<Rightarrow>
         if p = Some [] then None
         else (case json_member ''email_addresses'' data of
             None \<Rightarrow> Some \<lparr>payloadId = i, primaryId = p, addresses = []\<rparr>
           | Some (JArray js) \<Rightarrow>
               if list_all (\<lambda>j. address_of j \<noteq> None) js
               then Some \<lparr>payloadId = i, primaryId = p, addresses = map (the \<circ> address_of) js\<rparr> else None
           | _ \<Rightarrow> None)
     | _ \<Rightarrow> None)"

definition primaryEmail :: "UserPayload \<Rightarrow> string option" where
  "primaryEmail payload =
    (case Option.bind (primaryId payload) (\<lambda>p. find (\<lambda>(i, _). i = p) (addresses payload)) of
       Some (_, e) \<Rightarrow> Some e
     | None \<Rightarrow> (case addresses payload of [(_, e)] \<Rightarrow> Some e | _ \<Rightarrow> None))"

text \<open>
  The type of a delivery is one of the provider's. The lookup would also find the members of \<^verbatim>\<open>Object.prototype\<close> (a type
  spelled \<^verbatim>\<open>constructor\<close>), which no event of the provider is called.
\<close>

definition SESSION_EVENTS :: "(string \<times> AuthenticationEventType) list" where
  "SESSION_EVENTS = [(''session.created'', SessionStarted), (''session.ended'', SessionEnded), (''session.removed'', SessionRemoved),
     (''session.revoked'', SessionRevoked)]"

definition fromEpochMs :: "rat \<Rightarrow> int option" where
  "fromEpochMs q = (if q = of_int \<lfloor>q\<rfloor> \<and> \<bar>q\<bar> \<le> 8640000000000000 then Some \<lfloor>q\<rfloor> else None)"

definition http_request :: "json option \<Rightarrow> string option \<times> string option" where
  "http_request attributes =
    (case attributes of
       Some j \<Rightarrow>
         (case json_member ''http_request'' j of
            Some (JObject kvs) \<Rightarrow>
              (case (nullish_text ''client_ip'' (JObject kvs), nullish_text ''user_agent'' (JObject kvs)) of
                 (Some ip, Some agent) \<Rightarrow> (ip, agent)
               | _ \<Rightarrow> (None, None))
          | _ \<Rightarrow> (None, None))
     | None \<Rightarrow> (None, None))"

definition map_session :: "string \<Rightarrow> AuthenticationEventType \<Rightarrow> json \<Rightarrow> json option \<Rightarrow> MappingError + IdentityEvent option" where
  "map_session type event data attributes =
    (case (text_claim ''id'' data, text_claim ''user_id'' data, json_member ''created_at'' data, json_member ''updated_at'' data) of
       (Some i, Some u, Some (JNumber (Finite created)), Some (JNumber (Finite updated))) \<Rightarrow>
         let (ip, agent) = http_request attributes in
         (case fromEpochMs (if event = SessionStarted then created else updated) of
            None \<Rightarrow> Inl InvalidEpoch
          | Some occurred \<Rightarrow> Inr (Some (SessionRecorded u i event occurred ((parseUserAgent agent)\<lparr>activityIp := ip\<rparr>))))
     | _ \<Rightarrow> Inl (PayloadMismatch type))"

definition mapClerkEvent :: "string \<Rightarrow> json \<Rightarrow> json option \<Rightarrow> MappingError + IdentityEvent option" where
  "mapClerkEvent type data attributes =
    (if type = ''user.created'' \<or> type = ''user.updated'' then
       (case userPayloadSchema data of
          None \<Rightarrow> Inl (PayloadMismatch type)
        | Some payload \<Rightarrow>
            (case primaryEmail payload of
               None \<Rightarrow> Inl (NoPrimaryEmail type)
             | Some email \<Rightarrow> Inr (Some (UserUpserted (payloadId payload) email))))
     else if type = ''user.deleted'' then
       (case text_claim ''id'' data of None \<Rightarrow> Inl (PayloadMismatch type) | Some i \<Rightarrow> Inr (Some (UserDeleted i)))
     else case map_of SESSION_EVENTS type of
       Some event \<Rightarrow> map_session type event data attributes
     | None \<Rightarrow> Inr None)"

subsection \<open>What an event says\<close>

text \<open>An address is taken only if the payload names it as the primary one, or if there is no other.\<close>

lemma mapped_address:
  assumes "mapClerkEvent type data attributes = Inr (Some (UserUpserted c e))"
  obtains payload where "userPayloadSchema data = Some payload" "payloadId payload = c"
    "(\<exists>p. primaryId payload = Some p \<and> (p, e) \<in> set (addresses payload)) \<or> (\<exists>i. addresses payload = [(i, e)])"
  using assms
  by (auto simp: mapClerkEvent_def map_session_def primaryEmail_def Let_def split: if_splits option.splits list.splits prod.splits json.splits number.splits
      dest!: find_Some_mem bind_eq_Some_conv [THEN iffD1])

lemma agents:
  "parseUserAgent (Some ''Mozilla/5.0 (Windows NT 10.0) Chrome/126.0 Safari/537.36 Edg/126.0'')
     = \<lparr>activityIp = None, browserName = Some ''Edge'', browserVersion = Some ''126'', deviceType = Some ''Windows'', isMobile = Some False\<rparr>"
  "parseUserAgent (Some ''Mozilla/5.0 (Macintosh) AppleWebKit/605 (KHTML) Version/17.4 Safari/605.1'')
     = \<lparr>activityIp = None, browserName = Some ''Safari'', browserVersion = Some ''17'', deviceType = Some ''macOS'', isMobile = Some False\<rparr>"
   apply code_simp
  apply code_simp
  done

end
