(* ===== verification/Field_Encryption.thy ===== *)
theory Field_Encryption
  imports Listings_Safety Clerk_Events
begin

section \<open>Encryption of a single column\<close>

text \<open>
  The envelope around an encrypted value (\<^verbatim>\<open>apps/api/src/encryption/field-encryption.ts\<close>) and what the two stores put into
  it. The cipher is that of \<^verbatim>\<open>node:crypto\<close> and a parameter: \<open>seal_with key iv context\<close> gives the tag and the
  ciphertext, \<open>open_with key iv context tag\<close> the plaintext or a failure. Text is a list of characters of Latin-1, bytes
  are characters.
\<close>

subsection \<open>Base64 and UTF-8\<close>

definition BASE64 :: string where
  "BASE64 = ''ABCDEFGHIJKLMNOPQRSTUVWXYZabcdefghijklmnopqrstuvwxyz0123456789+/''"

fun sextets :: "nat list \<Rightarrow> nat list" where
  "sextets [] = []"
| "sextets [a] = [a div 4, (a mod 4) * 16]"
| "sextets [a, b] = [a div 4, (a mod 4) * 16 + b div 16, (b mod 16) * 4]"
| "sextets (a # b # c # bs) = [a div 4, (a mod 4) * 16 + b div 16, (b mod 16) * 4 + c div 64, c mod 64] @ sextets bs"

fun octets :: "nat list \<Rightarrow> nat list" where
  "octets [] = []"
| "octets [s] = []"
| "octets [s, t] = [s * 4 + t div 16]"
| "octets [s, t, u] = [s * 4 + t div 16, (t mod 16) * 16 + u div 4]"
| "octets (s # t # u # v # ss) = [s * 4 + t div 16, (t mod 16) * 16 + u div 4, (u mod 4) * 64 + v] @ octets ss"

definition to_base64 :: "string \<Rightarrow> string" where
  "to_base64 bytes = map (nth BASE64) (sextets (map of_char bytes)) @ replicate ((3 - length bytes mod 3) mod 3) (CHR ''='')"

text \<open>Decoding stops at the first padding character.\<close>

definition sextet_of :: "char \<Rightarrow> nat" where
  "sextet_of c = length (takeWhile (\<lambda>d. d \<noteq> c) BASE64)"

definition from_base64 :: "string \<Rightarrow> string" where
  "from_base64 s = map char_of (octets (map sextet_of (takeWhile (\<lambda>c. c \<noteq> CHR ''='') s)))"

definition utf8 :: "string \<Rightarrow> string" where
  "utf8 s = concat (map (\<lambda>c. let n = of_char c :: nat in if n < 128 then [c] else [char_of (192 + n div 64), char_of (128 + n mod 64)]) s)"

text \<open>Bytes that are not the encoding of a character of Latin-1 are not produced by \<open>utf8\<close>; they read as a question mark.\<close>

fun from_utf8 :: "string \<Rightarrow> string" where
  "from_utf8 [] = []"
| "from_utf8 [c] = [if (of_char c :: nat) < 128 then c else CHR ''?'']"
| "from_utf8 (c # d # s) =
    (if (of_char c :: nat) < 128 then c # from_utf8 (d # s)
     else if (of_char c :: nat) \<in> {194, 195} \<and> (of_char d :: nat) div 64 = 2
     then char_of ((of_char c mod 4 :: nat) * 64 + of_char d mod 64) # from_utf8 s
     else CHR ''?'' # from_utf8 (d # s))"

subsection \<open>The envelope\<close>

type_synonym sealing = "string \<Rightarrow> string \<Rightarrow> string \<Rightarrow> string \<Rightarrow> string \<times> string"
type_synonym unsealing = "string \<Rightarrow> string \<Rightarrow> string \<Rightarrow> string \<Rightarrow> string \<Rightarrow> string option"

datatype EncryptionError = KeyLength nat | NotAnEnvelope | CannotDecrypt

definition KEY_BYTES :: nat where "KEY_BYTES = 32"

definition IV_BYTES :: nat where "IV_BYTES = 12"

definition encryption_key :: "string \<Rightarrow> EncryptionError + string" where
  "encryption_key base64Key =
    (let key = from_base64 base64Key in if length key \<noteq> KEY_BYTES then Inl (KeyLength (length key)) else Inr key)"

definition encrypt_field :: "sealing \<Rightarrow> string \<Rightarrow> string \<Rightarrow> string \<Rightarrow> string \<Rightarrow> string" where
  "encrypt_field seal_with key iv plaintext context =
    (let (tag, ciphertext) = seal_with key iv (utf8 context) (utf8 plaintext) in
     ''v1:'' @ to_base64 iv @ '':'' @ to_base64 tag @ '':'' @ to_base64 ciphertext)"

definition ENVELOPE :: "string \<Rightarrow> (string \<times> string \<times> string) option" where
  "ENVELOPE s =
    (case split_on (CHR '':'') s of
       [v, i, t, c] \<Rightarrow>
         if v = ''v1'' \<and> i \<noteq> [] \<and> t \<noteq> [] \<and> list_all (\<lambda>x. x \<in> set BASE64 \<or> x = CHR ''='') (i @ t @ c) then Some (i, t, c) else None
     | _ \<Rightarrow> None)"

definition decrypt_field :: "unsealing \<Rightarrow> string \<Rightarrow> string \<Rightarrow> string \<Rightarrow> EncryptionError + string" where
  "decrypt_field open_with key envelope context =
    (case ENVELOPE envelope of
       None \<Rightarrow> Inl NotAnEnvelope
     | Some (ivPart, tagPart, ciphertextPart) \<Rightarrow>
         (case open_with key (from_base64 ivPart) (utf8 context) (from_base64 tagPart) (from_base64 ciphertextPart) of
            None \<Rightarrow> Inl CannotDecrypt
          | Some plaintext \<Rightarrow> Inr (from_utf8 plaintext)))"

text \<open>What the cipher promises: unsealing undoes sealing, and only for the context that was sealed.\<close>

definition gcm_correct :: "sealing \<Rightarrow> unsealing \<Rightarrow> bool" where
  "gcm_correct seal_with open_with \<longleftrightarrow>
    (\<forall>key iv ctx p. case seal_with key iv ctx p of (tag, c) \<Rightarrow> tag \<noteq> [] \<and> open_with key iv ctx tag c = Some p)"

definition gcm_bound :: "sealing \<Rightarrow> unsealing \<Rightarrow> bool" where
  "gcm_bound seal_with open_with \<longleftrightarrow>
    (\<forall>key iv ctx ctx' p. ctx' \<noteq> ctx \<longrightarrow> (case seal_with key iv ctx p of (tag, c) \<Rightarrow> open_with key iv ctx' tag c = None))"

subsection \<open>Round trips\<close>

lemma octets_sextets: "list_all (\<lambda>b. b < 256) bs \<Longrightarrow> octets (sextets bs) = bs"
proof (induction bs rule: sextets.induct)
  case (3 a b)
  then have "b div 16 < 16" by (auto simp: less_mult_imp_div_less)
  then show ?case using 3 by simp
next
  case (4 a b c bs)
  then have "b div 16 < 16" "c div 64 < 4" by (auto simp: less_mult_imp_div_less)
  then show ?case using 4 by simp
qed auto

lemma sextets_less: "list_all (\<lambda>b. b < 256) bs \<Longrightarrow> s \<in> set (sextets bs) \<Longrightarrow> s < 64"
proof (induction bs rule: sextets.induct)
  case (3 a b)
  then have "a div 4 < 64" "b div 16 < 16" by (auto simp: less_mult_imp_div_less)
  then show ?case using 3 by auto
next
  case (4 a b c bs)
  then have "a div 4 < 64" "b div 16 < 16" "c div 64 < 4" by (auto simp: less_mult_imp_div_less)
  then show ?case using 4 by auto
qed (auto simp: less_mult_imp_div_less)

lemma base64_digits:
  assumes "n < 64"
  shows "sextet_of (BASE64 ! n) = n" "BASE64 ! n \<noteq> CHR ''=''" "BASE64 ! n \<noteq> CHR '':''" "BASE64 ! n \<in> set BASE64"
proof -
  have "\<forall>n \<in> set [0..<64]. sextet_of (BASE64 ! n) = n \<and> BASE64 ! n \<noteq> CHR ''='' \<and> BASE64 ! n \<noteq> CHR '':''" by code_simp
  then show "sextet_of (BASE64 ! n) = n" "BASE64 ! n \<noteq> CHR ''=''" "BASE64 ! n \<noteq> CHR '':''" using assms by auto
  show "BASE64 ! n \<in> set BASE64" using assms by (intro nth_mem) (simp add: BASE64_def)
qed

lemma bytes_small: "list_all (\<lambda>b. b < 256) (map of_char s :: nat list)"
  by (simp add: list_all_iff)

lemma from_to_base64: "from_base64 (to_base64 s) = s"
proof -
  let ?ss = "sextets (map of_char s)"
  have small: "n < 64" if "n \<in> set ?ss" for n using sextets_less [OF bytes_small that] .
  have "takeWhile (\<lambda>c. c \<noteq> CHR ''='') (to_base64 s) = map (nth BASE64) ?ss"
    using small base64_digits(2) by (cases "(3 - length s mod 3) mod 3") (auto simp: to_base64_def takeWhile_append)
  moreover have "map sextet_of (map (nth BASE64) ?ss) = ?ss"
    unfolding map_map comp_def using small base64_digits(1) by (intro map_idI) auto
  ultimately show ?thesis
    unfolding from_base64_def using octets_sextets [OF bytes_small, of s] by simp
qed

lemma base64_chars: "c \<in> set (to_base64 s) \<Longrightarrow> (c \<in> set BASE64 \<or> c = CHR ''='') \<and> c \<noteq> CHR '':''"
  using sextets_less [OF bytes_small] base64_digits by (auto simp: to_base64_def split: if_splits)

lemma to_base64_empty: "to_base64 s = [] \<longleftrightarrow> s = []"
  using from_to_base64 [of s] by (auto simp: to_base64_def from_base64_def)

lemma from_utf8_utf8: "from_utf8 (utf8 s) = s"
proof (induction s)
  case (Cons c s)
  have small: "(of_char c :: nat) < 256" by (rule nat_of_char_less_256)
  have step: "from_utf8 (x # utf8 s) = x # from_utf8 (utf8 s)" if "(of_char x :: nat) < 128" for x
    using that by (cases "utf8 s") auto
  show ?case
  proof (cases "(of_char c :: nat) < 128")
    case True
    then show ?thesis using Cons step [of c] by (simp add: utf8_def)
  next
    case False
    let ?n = "of_char c :: nat"
    have n: "?n div 64 = 2 \<or> ?n div 64 = 3" using False small by arith
    have "char_of (((192 + ?n div 64) mod 4) * 64 + (128 + ?n mod 64) mod 64) = c"
    proof -
      have "(192 + q) mod 4 = q" if "q = 2 \<or> q = 3" for q :: nat using that by auto
      then have "(192 + ?n div 64) mod 4 = ?n div 64" using n by blast
      moreover have "(128 + r mod 64) mod 64 = r mod 64" for r :: nat using mod_add_left_eq [of 128 64 "r mod 64"] by simp
      ultimately have "((192 + ?n div 64) mod 4) * 64 + (128 + ?n mod 64) mod 64 = ?n" by simp
      then show ?thesis by simp
    qed
    then show ?thesis using False n Cons by (auto simp: utf8_def Let_def)
  qed
qed (simp add: utf8_def)

subsection \<open>What is put into the envelope\<close>

definition hex_digit :: "nat \<Rightarrow> char" where
  "hex_digit n = ''0123456789abcdef'' ! n"

definition hex_value :: "char \<Rightarrow> nat" where
  "hex_value c = length (takeWhile (\<lambda>d. d \<noteq> ascii_lower c) ''0123456789abcdef'')"

definition quote_char :: "char \<Rightarrow> string" where
  "quote_char c =
    (if c = CHR 0x22 then [CHR 0x5C, CHR 0x22] else if c = CHR 0x5C then [CHR 0x5C, CHR 0x5C]
     else if c = CHR 0x08 then [CHR 0x5C, CHR ''b''] else if c = CHR 0x0C then [CHR 0x5C, CHR ''f'']
     else if c = CHR 0x0A then [CHR 0x5C, CHR ''n''] else if c = CHR 0x0D then [CHR 0x5C, CHR ''r'']
     else if c = CHR 0x09 then [CHR 0x5C, CHR ''t'']
     else if (of_char c :: nat) < 32 then [CHR 0x5C, CHR ''u'', CHR ''0'', CHR ''0'', hex_digit (of_char c div 16), hex_digit (of_char c mod 16)]
     else [c])"

definition JSON_string :: "string \<Rightarrow> string" where
  "JSON_string s = CHR 0x22 # concat (map quote_char s) @ [CHR 0x22]"

definition JSON_detail :: "EncryptedDetail \<Rightarrow> string" where
  "JSON_detail d = CHR 0x7B # JSON_string ''line1'' @ '':'' @ JSON_string (detailLine1 d) @ '','' @ JSON_string ''line2'' @ '':'' @
     (case detailLine2 d of None \<Rightarrow> ''null'' | Some l \<Rightarrow> JSON_string l) @ [CHR 0x7D]"

definition ESCAPES :: "(char \<times> char) list" where
  "ESCAPES = [(CHR 0x22, CHR 0x22), (CHR 0x5C, CHR 0x5C), (CHR ''/'', CHR ''/''), (CHR ''b'', CHR 0x08), (CHR ''f'', CHR 0x0C),
     (CHR ''n'', CHR 0x0A), (CHR ''r'', CHR 0x0D), (CHR ''t'', CHR 0x09)]"

text \<open>Reading a quoted string up to its closing quote; the second part is what follows it.\<close>

fun read_quoted :: "string \<Rightarrow> (string \<times> string) option" where
  "read_quoted [] = None"
| "read_quoted (c # s) =
    (if c = CHR 0x22 then Some ([], s)
     else if c \<noteq> CHR 0x5C then (if (of_char c :: nat) < 32 then None else map_option (map_prod ((#) c) id) (read_quoted s))
     else case s of
       [] \<Rightarrow> None
     | e # s' \<Rightarrow>
         if e = CHR ''u'' then
           (case s' of
              z # z' # h # l # s'' \<Rightarrow>
                if z = CHR ''0'' \<and> z' = CHR ''0'' \<and> is_hex h \<and> is_hex l
                then map_option (map_prod ((#) (char_of (hex_value h * 16 + hex_value l))) id) (read_quoted s'') else None
            | _ \<Rightarrow> None)
         else
           (case map_of ESCAPES e of Some d \<Rightarrow> map_option (map_prod ((#) d) id) (read_quoted s') | None \<Rightarrow> None))"

text \<open>\<^verbatim>\<open>JSON.parse\<close> of a detail. Only what the stores wrote is ever found under the key, so the one form they write is read.\<close>

definition read_detail :: "string \<Rightarrow> EncryptedDetail option" where
  "read_detail s =
    Option.bind (strip_prefix (CHR 0x7B # JSON_string ''line1'' @ '':'' @ [CHR 0x22]) s) (\<lambda>s.
    Option.bind (read_quoted s) (\<lambda>(line1, s).
    Option.bind (strip_prefix ('','' @ JSON_string ''line2'' @ '':'') s) (\<lambda>s.
    if s = ''null'' @ [CHR 0x7D] then Some \<lparr>detailLine1 = line1, detailLine2 = None\<rparr>
    else Option.bind (strip_prefix [CHR 0x22] s) (\<lambda>s.
    Option.bind (read_quoted s) (\<lambda>(line2, s).
    if s = [CHR 0x7D] then Some \<lparr>detailLine1 = line1, detailLine2 = Some line2\<rparr> else None)))))"

definition detail_encryptor :: "sealing \<Rightarrow> unsealing \<Rightarrow> string \<Rightarrow> string \<Rightarrow> FieldEncryptor" where
  "detail_encryptor seal_with open_with key iv =
    \<lparr>encrypt = (\<lambda>d context. encrypt_field seal_with key iv (JSON_detail d) context),
     decrypt = (\<lambda>envelope context. case decrypt_field open_with key envelope context of Inl _ \<Rightarrow> None | Inr text \<Rightarrow> read_detail text)\<rparr>"

lemma of_char_quotes: "\<not> (of_char (CHR 0x22) :: nat) < 32" "\<not> (of_char (CHR 0x5C) :: nat) < 32"
  by simp_all

lemma read_quote_char: "read_quoted (quote_char c @ t) = map_option (map_prod ((#) c) id) (read_quoted t)"
proof (cases "(of_char c :: nat) < 32 \<and> c \<notin> {CHR 0x08, CHR 0x0C, CHR 0x0A, CHR 0x0D, CHR 0x09}")
  case True
  have "\<forall>n \<in> set [0..<16]. is_hex (hex_digit n) \<and> hex_value (hex_digit n) = n" by code_simp
  then have digit: "is_hex (hex_digit n)" "hex_value (hex_digit n) = n" if "n < 16" for n using that by simp_all
  have "of_char c div 16 < (16 :: nat)" "of_char c mod 16 < (16 :: nat)" using True by auto
  then have hex: "is_hex (hex_digit (of_char c div 16))" "is_hex (hex_digit (of_char c mod 16))"
    "hex_value (hex_digit (of_char c div 16)) * 16 + hex_value (hex_digit (of_char c mod 16)) = of_char c"
    using digit by simp_all
  have plain: "c \<noteq> CHR 0x22" "c \<noteq> CHR 0x5C" using True by (metis of_char_quotes)+
  have "quote_char c = [CHR 0x5C, CHR ''u'', CHR ''0'', CHR ''0'', hex_digit (of_char c div 16), hex_digit (of_char c mod 16)]"
    using True plain by (simp add: quote_char_def)
  then show ?thesis using hex by simp
next
  case False
  then consider "c \<in> {CHR 0x22, CHR 0x5C, CHR 0x08, CHR 0x0C, CHR 0x0A, CHR 0x0D, CHR 0x09}"
    | "\<not> (of_char c :: nat) < 32" "c \<notin> {CHR 0x22, CHR 0x5C, CHR 0x08, CHR 0x0C, CHR 0x0A, CHR 0x0D, CHR 0x09}" by blast
  then show ?thesis
  proof cases
    case 1
    then show ?thesis by (elim insertE emptyE) (simp_all add: quote_char_def ESCAPES_def)
  next
    case 2
    then have "quote_char c = [c]" by (simp add: quote_char_def)
    then show ?thesis using 2 by simp
  qed
qed

lemma read_quoted_printed: "read_quoted (concat (map quote_char s) @ CHR 0x22 # rest) = Some (s, rest)"
  by (induction s) (simp_all add: read_quote_char)

lemma strip_prefix_append: "strip_prefix p (p @ s) = Some s"
  by (induction p) auto

lemma read_JSON_detail: "read_detail (JSON_detail d) = Some d"
proof -
  define before where "before = CHR 0x7B # JSON_string ''line1'' @ '':'' @ [CHR 0x22]"
  define between where "between = '','' @ JSON_string ''line2'' @ '':''"
  have printed: "JSON_detail d = before @ concat (map quote_char (detailLine1 d)) @ CHR 0x22 # between @
      (case detailLine2 d of None \<Rightarrow> ''null'' | Some l \<Rightarrow> [CHR 0x22] @ concat (map quote_char l) @ [CHR 0x22]) @ [CHR 0x7D]"
    by (cases "detailLine2 d") (simp_all add: JSON_detail_def JSON_string_def before_def between_def)
  show ?thesis
    unfolding read_detail_def before_def [symmetric] between_def [symmetric] printed
    by (cases "detailLine2 d") (simp_all add: strip_prefix_append read_quoted_printed)
qed

subsection \<open>Recovering a detail\<close>

lemma split_on_none: "c \<notin> set s \<Longrightarrow> split_on c s = [s]"
  by (induction c s rule: split_on.induct) auto

lemma split_on_append: "c \<notin> set s \<Longrightarrow> split_on c (s @ c # t) = s # split_on c t"
  by (induction s) auto

lemma envelope_parts:
  assumes "iv \<noteq> []" "tag \<noteq> []"
  shows "ENVELOPE (''v1:'' @ to_base64 iv @ '':'' @ to_base64 tag @ '':'' @ to_base64 c) = Some (to_base64 iv, to_base64 tag, to_base64 c)"
proof -
  have "split_on CHR '':'' (''v1'' @ CHR '':'' # to_base64 iv @ CHR '':'' # to_base64 tag @ CHR '':'' # to_base64 c)
      = [''v1'', to_base64 iv, to_base64 tag, to_base64 c]"
    using base64_chars by (subst split_on_append, force)+ (subst split_on_none, force, simp)
  then show ?thesis
    using assms base64_chars by (auto simp: ENVELOPE_def to_base64_empty list_all_iff)
qed

lemma field_recovered:
  assumes "gcm_correct seal_with open_with" "iv \<noteq> []"
  shows "decrypt_field open_with key (encrypt_field seal_with key iv plaintext context) context = Inr plaintext"
proof -
  obtain tag c where sealed: "seal_with key iv (utf8 context) (utf8 plaintext) = (tag, c)" by fastforce
  then have "tag \<noteq> []" "open_with key iv (utf8 context) tag c = Some (utf8 plaintext)"
    using assms(1) by (auto simp: gcm_correct_def split: prod.splits)
  then show ?thesis
    using sealed envelope_parts [OF assms(2), of tag c] unfolding encrypt_field_def decrypt_field_def
    by (simp add: from_to_base64 from_utf8_utf8)
qed

lemma utf8_inj: "utf8 s = utf8 t \<Longrightarrow> s = t"
  by (metis from_utf8_utf8)

lemma field_bound:
  assumes "gcm_correct seal_with open_with" "gcm_bound seal_with open_with" "iv \<noteq> []" "other \<noteq> context"
  shows "decrypt_field open_with key (encrypt_field seal_with key iv plaintext context) other = Inl CannotDecrypt"
proof -
  obtain tag c where sealed: "seal_with key iv (utf8 context) (utf8 plaintext) = (tag, c)" by fastforce
  then have "tag \<noteq> []" using assms(1) by (auto simp: gcm_correct_def split: prod.splits)
  moreover have "open_with key iv (utf8 other) tag c = None"
  proof -
    have "utf8 other \<noteq> utf8 context" using assms(4) utf8_inj by blast
    then have "case seal_with key iv (utf8 context) (utf8 plaintext) of (tag, c) \<Rightarrow> open_with key iv (utf8 other) tag c = None"
      using assms(2) [unfolded gcm_bound_def, THEN spec [of _ key], THEN spec [of _ iv], THEN spec [of _ "utf8 context"],
        THEN spec [of _ "utf8 other"], THEN spec [of _ "utf8 plaintext"]] by simp
    then show ?thesis using sealed by simp
  qed
  ultimately show ?thesis
    using sealed envelope_parts [OF assms(3), of tag c] unfolding encrypt_field_def decrypt_field_def
    by (simp add: from_to_base64)
qed

text \<open>
C25: The street lines of an address survive encryption and are bound to the row they belong to. With a cipher whose opening
undoes its sealing, a detail that was encrypted for an id is read back exactly under that id, whatever it contains; the
envelope moved to another row does not open if the cipher binds its context; and text that has not the form of an envelope
is refused before the cipher sees it.\<close>
theorem address_detail_recovered:
  assumes "gcm_correct seal_with open_with" "length iv = IV_BYTES"
  shows "readable (detail_encryptor seal_with open_with key iv)
    \<and> (gcm_bound seal_with open_with \<longrightarrow> (\<forall>d i j. j \<noteq> i \<longrightarrow>
         decrypt (detail_encryptor seal_with open_with key iv) (encrypt (detail_encryptor seal_with open_with key iv) d i) j = None))
    \<and> (\<forall>envelope i. ENVELOPE envelope = None \<longrightarrow> decrypt (detail_encryptor seal_with open_with key iv) envelope i = None)"
proof -
  have iv: "iv \<noteq> []" using assms(2) by (auto simp: IV_BYTES_def)
  show ?thesis
    using field_recovered [OF assms(1) iv] field_bound [OF assms(1) _ iv]
    by (auto simp: readable_def detail_encryptor_def read_JSON_detail) (simp add: decrypt_field_def)
qed

text \<open>A cipher that keeps both promises (and hides nothing): the tag is the context.\<close>

definition open_seal :: sealing where
  "open_seal key iv ctx p = (CHR ''t'' # ctx, p)"

definition open_unseal :: unsealing where
  "open_unseal key iv ctx tag c = (if tag = CHR ''t'' # ctx then Some c else None)"

theorem address_detail_recovered_witness:
  "let e = detail_encryptor open_seal open_unseal (replicate 32 (CHR ''k'')) (replicate 12 (CHR ''i''));
       d = \<lparr>detailLine1 = ''1 High Street'', detailLine2 = None\<rparr> in
   decrypt e (encrypt e d ''ann'') ''ann'' = Some d \<and> decrypt e (encrypt e d ''ann'') ''ben'' = None \<and> decrypt e ''plain'' ''ann'' = None"
proof -
  have laws: "gcm_correct open_seal open_unseal" "gcm_bound open_seal open_unseal"
    by (simp_all add: gcm_correct_def gcm_bound_def open_seal_def open_unseal_def)
  have "ENVELOPE ''plain'' = None" by (simp add: ENVELOPE_def)
  then show ?thesis
    using address_detail_recovered [OF laws(1), of "replicate 12 (CHR ''i'')" "replicate 32 (CHR ''k'')"] laws(2)
    by (simp add: IV_BYTES_def readable_def Let_def)
qed

end
