(* ===== verification/Profiles.thy ===== *)
theory Profiles
  imports Field_Encryption
begin

section \<open>Profiles\<close>

text \<open>
  The profile of a person and the address that belongs to it: the store (\<^verbatim>\<open>apps/api/src/profiles/prisma-profile-store.ts\<close>)
  over the tables \<^verbatim>\<open>profiles\<close> and \<^verbatim>\<open>addresses\<close>, the service with its projections for the owner, for support and for a
  stranger (\<^verbatim>\<open>profiles.service.ts\<close>) and the schema of what may be saved (\<^verbatim>\<open>packages/contracts/src/profiles.ts\<close>,
  \<^verbatim>\<open>address.ts\<close>). The tables extend those of the accounts. Identifiers are \<^verbatim>\<open>uuid\<close> columns: they are compared in
  lower case, and text that is no identifier makes a query fail. Timestamps are instants; only the month a stranger sees is
  printed.
\<close>

subsection \<open>What may be saved\<close>

definition DISPLAY_NAME_MIN_LENGTH :: nat where "DISPLAY_NAME_MIN_LENGTH = 2"

definition DISPLAY_NAME_MAX_LENGTH :: nat where "DISPLAY_NAME_MAX_LENGTH = 50"

definition ADDRESS_LINE_MAX_LENGTH :: nat where "ADDRESS_LINE_MAX_LENGTH = 100"

definition TOWN_MAX_LENGTH :: nat where "TOWN_MAX_LENGTH = 60"

text \<open>The control and format characters of Latin-1.\<close>

definition control_char :: "char \<Rightarrow> bool" where
  "control_char c \<longleftrightarrow> (let n = of_char c :: nat in n < 32 \<or> 127 \<le> n \<and> n < 160 \<or> n = 173)"

definition displayNameSchema :: "string \<Rightarrow> string option" where
  "displayNameSchema raw =
    (let name = trim raw in
     if DISPLAY_NAME_MIN_LENGTH \<le> length name \<and> length name \<le> DISPLAY_NAME_MAX_LENGTH \<and> \<not> list_ex control_char name then Some name else None)"

definition phoneSchema :: "string \<Rightarrow> string option" where
  "phoneSchema raw =
    (if \<not> isValid_phone (trim raw) then None else case parse_phone (trim raw) of Inl _ \<Rightarrow> None | Inr p \<Rightarrow> Some p)"

definition postcodeSchema :: "string \<Rightarrow> string option" where
  "postcodeSchema raw =
    (if \<not> isValid_postcode (trim raw) then None else case parse_postcode (trim raw) of Inl _ \<Rightarrow> None | Inr p \<Rightarrow> Some p)"

definition bounded_text :: "nat \<Rightarrow> nat \<Rightarrow> string \<Rightarrow> string option" where
  "bounded_text least most raw = (if least \<le> length (trim raw) \<and> length (trim raw) \<le> most then Some (trim raw) else None)"

definition postalAddressSchema :: "PostalAddress \<Rightarrow> PostalAddress option" where
  "postalAddressSchema raw =
    Option.bind (bounded_text 1 ADDRESS_LINE_MAX_LENGTH (line1 raw)) (\<lambda>l1.
    Option.bind (case line2 raw of None \<Rightarrow> Some None | Some l \<Rightarrow> map_option Some (bounded_text 0 ADDRESS_LINE_MAX_LENGTH l)) (\<lambda>l2.
    Option.bind (bounded_text 1 TOWN_MAX_LENGTH (town raw)) (\<lambda>t.
    Option.bind (postcodeSchema (postcode raw)) (\<lambda>p. Some \<lparr>line1 = l1, line2 = l2, town = t, postcode = p\<rparr>))))"

record ProfileInput =
  inputDisplayName :: string
  inputPhone :: "string option"
  inputAddress :: "PostalAddress option"
  inputOwnerStatus :: "OwnerStatus option"

definition profileInputSchema :: "ProfileInput \<Rightarrow> ProfileInput option" where
  "profileInputSchema raw =
    Option.bind (displayNameSchema (inputDisplayName raw)) (\<lambda>name.
    Option.bind (case inputPhone raw of None \<Rightarrow> Some None | Some p \<Rightarrow> map_option Some (phoneSchema p)) (\<lambda>phone.
    Option.bind (case inputAddress raw of None \<Rightarrow> Some None | Some a \<Rightarrow> map_option Some (postalAddressSchema a)) (\<lambda>address.
    Some \<lparr>inputDisplayName = name, inputPhone = phone, inputAddress = address, inputOwnerStatus = inputOwnerStatus raw\<rparr>)))"

subsection \<open>The tables\<close>

record ProfileRow =
  prf_id :: string
  prf_userId :: string
  prf_displayName :: string
  prf_phone :: "string option"
  prf_ownerStatus :: "string option"
  prf_updatedAt :: int

record AddressRow =
  adr_userId :: string
  adr_postcode :: string
  adr_outwardCode :: string
  adr_town :: string
  adr_encryptedDetail :: string

record ProfileDb = IdentityDb +
  profile_rows :: "ProfileRow list"
  address_rows :: "AddressRow list"

record ProfileEnv =
  newProfileId :: string
  profileNow :: int
  lostRace :: bool

datatype ProfileError = ProfileConflict | UnknownOwnerStatus string string | AddressUnreadable | PostcodeRefused PostcodeError | NoSuchUser
  | NotAnId | TrailFault IdentityError

type_synonym ('z, 'a) profile_action = "('z ProfileDb_scheme, ProfileError, 'a) action"

definition raising :: "('e \<Rightarrow> 'f) \<Rightarrow> ('s, 'e, 'a) action \<Rightarrow> ('s, 'f, 'a) action" where
  "raising f m s = (case m s of (r, s') \<Rightarrow> (map_sum f id r, s'))"

subsection \<open>The store\<close>

record StoredProfile =
  profileId :: string
  profileUserId :: string
  displayName :: string
  phone :: "string option"
  profileAddress :: "PostalAddress option"
  profileOwnerStatus :: "OwnerStatus option"
  profileUpdatedAt :: int

definition owner_status_text :: "OwnerStatus \<Rightarrow> string" where
  "owner_status_text s = (case s of PrivateOwner \<Rightarrow> ''private_owner'' | ProfessionalTrader \<Rightarrow> ''professional_trader'')"

definition asOwnerStatus :: "string option \<Rightarrow> string \<Rightarrow> ProfileError + OwnerStatus option" where
  "asOwnerStatus text userId =
    (case text of
       None \<Rightarrow> Inr None
     | Some s \<Rightarrow> (case find (\<lambda>x. owner_status_text x = s) [PrivateOwner, ProfessionalTrader] of
           Some status \<Rightarrow> Inr (Some status)
         | None \<Rightarrow> Inl (UnknownOwnerStatus userId s)))"

definition decrypt_address :: "FieldEncryptor \<Rightarrow> string \<Rightarrow> AddressRow \<Rightarrow> ProfileError + PostalAddress" where
  "decrypt_address enc userId row =
    (case decrypt enc (adr_encryptedDetail row) userId of
       None \<Rightarrow> Inl AddressUnreadable
     | Some detail \<Rightarrow> Inr \<lparr>line1 = detailLine1 detail, line2 = detailLine2 detail, town = adr_town row, postcode = adr_postcode row\<rparr>)"

definition toStoredProfile :: "FieldEncryptor \<Rightarrow> ProfileRow \<Rightarrow> AddressRow option \<Rightarrow> ProfileError + StoredProfile" where
  "toStoredProfile enc profile address =
    rbind (case address of None \<Rightarrow> Inr None | Some a \<Rightarrow> rbind (decrypt_address enc (prf_userId profile) a) (\<lambda>x. Inr (Some x))) (\<lambda>detail.
    rbind (asOwnerStatus (prf_ownerStatus profile) (prf_userId profile)) (\<lambda>status.
    Inr \<lparr>profileId = prf_id profile, profileUserId = prf_userId profile, displayName = prf_displayName profile, phone = prf_phone profile,
      profileAddress = detail, profileOwnerStatus = status, profileUpdatedAt = prf_updatedAt profile\<rparr>))"

definition profile_row_of :: "string \<Rightarrow> 'z ProfileDb_scheme \<Rightarrow> ProfileRow option" where
  "profile_row_of i db = find (\<lambda>r. prf_userId r = lower i) (profile_rows db)"

definition address_row_of :: "string \<Rightarrow> 'z ProfileDb_scheme \<Rightarrow> AddressRow option" where
  "address_row_of i db = find (\<lambda>r. adr_userId r = lower i) (address_rows db)"

definition find_profile :: "FieldEncryptor \<Rightarrow> string \<Rightarrow> 'z ProfileDb_scheme \<Rightarrow> ProfileError + StoredProfile option" where
  "find_profile enc i db =
    (if \<not> isUuid i then Inl NotAnId
     else case profile_row_of i db of
       None \<Rightarrow> Inr None
     | Some profile \<Rightarrow> rbind (toStoredProfile enc profile (address_row_of i db)) (\<lambda>p. Inr (Some p)))"

definition findOwnerStatuses :: "string list \<Rightarrow> 'z ProfileDb_scheme \<Rightarrow> ProfileError + (string \<rightharpoonup> OwnerStatus)" where
  "findOwnerStatuses userIds db =
    (if userIds = [] then Inr Map.empty
     else if \<not> list_all isUuid userIds then Inl NotAnId
     else rbind (rmap (\<lambda>r. rbind (asOwnerStatus (prf_ownerStatus r) (prf_userId r)) (\<lambda>s. Inr (prf_userId r, s)))
          (filter (\<lambda>r. prf_userId r \<in> lower ` set userIds) (profile_rows db)))
       (\<lambda>pairs. Inr (map_of (List.map_filter (\<lambda>(u, s). map_option (Pair u) s) pairs))))"

definition profile_written :: "ProfileEnv \<Rightarrow> string \<Rightarrow> ProfileInput \<Rightarrow> ProfileRow option \<Rightarrow> ProfileRow" where
  "profile_written env i changes existing =
    \<lparr>prf_id = (case existing of None \<Rightarrow> newProfileId env | Some r \<Rightarrow> prf_id r), prf_userId = lower i, prf_displayName = inputDisplayName changes,
     prf_phone = inputPhone changes, prf_ownerStatus = map_option owner_status_text (inputOwnerStatus changes), prf_updatedAt = profileNow env\<rparr>"

text \<open>The upsert of a row whose key is the account.\<close>

definition upsert_keyed :: "('r \<Rightarrow> string) \<Rightarrow> 'r \<Rightarrow> 'r list \<Rightarrow> 'r list" where
  "upsert_keyed key row rows =
    (if list_ex (\<lambda>r. key r = key row) rows then map (\<lambda>r. if key r = key row then row else r) rows else rows @ [row])"

definition address_written :: "string \<Rightarrow> PostalAddress \<Rightarrow> string \<Rightarrow> ProfileError + AddressRow" where
  "address_written i a detail =
    (case parse_postcode (postcode a) of
       Inl e \<Rightarrow> Inl (PostcodeRefused e)
     | Inr p \<Rightarrow> (case outwardCode p of
           Inl e \<Rightarrow> Inl (PostcodeRefused e)
         | Inr out \<Rightarrow> Inr \<lparr>adr_userId = lower i, adr_postcode = p, adr_outwardCode = out, adr_town = town a, adr_encryptedDetail = detail\<rparr>))"

definition encrypt_detail :: "FieldEncryptor \<Rightarrow> string \<Rightarrow> PostalAddress \<Rightarrow> string" where
  "encrypt_detail enc userId a = encrypt enc \<lparr>detailLine1 = line1 a, detailLine2 = line2 a\<rparr> userId"

text \<open>The transaction of a save: the profile first, then the address. A new row needs its account.\<close>

definition save_tx :: "FieldEncryptor \<Rightarrow> ProfileEnv \<Rightarrow> string \<Rightarrow> ProfileInput \<Rightarrow> ('z, ProfileRow \<times> AddressRow option) profile_action" where
  "save_tx enc env i changes = atomically (\<lambda>db.
    if \<not> isUuid i then Inl NotAnId
    else if lostRace env then Inl ProfileConflict
    else if profile_row_of i db = None \<and> user_by_id i db = None then Inl NoSuchUser
    else
      let written = profile_written env i changes (profile_row_of i db);
          db1 = db\<lparr>profile_rows := upsert_keyed prf_userId written (profile_rows db)\<rparr> in
      case inputAddress changes of
        None \<Rightarrow> Inr (db1\<lparr>address_rows := filter (\<lambda>r. adr_userId r \<noteq> lower i) (address_rows db)\<rparr>, (written, None))
      | Some a \<Rightarrow> rbind (address_written i a (encrypt_detail enc i a)) (\<lambda>stored.
          Inr (db1\<lparr>address_rows := upsert_keyed adr_userId stored (address_rows db)\<rparr>, (written, Some stored))))"

definition save :: "FieldEncryptor \<Rightarrow> ProfileEnv \<Rightarrow> string \<Rightarrow> ProfileInput \<Rightarrow> ('z, StoredProfile) profile_action" where
  "save enc env i changes = await (save_tx enc env i changes) (\<lambda>(profile, address). pure_step (toStoredProfile enc profile address))"

definition erase_profile :: "string \<Rightarrow> ('z, unit) profile_action" where
  "erase_profile i = atomically (\<lambda>db.
    if \<not> isUuid i then Inl NotAnId
    else Inr (db\<lparr>profile_rows := filter (\<lambda>r. prf_userId r \<noteq> lower i) (profile_rows db),
               address_rows := filter (\<lambda>r. adr_userId r \<noteq> lower i) (address_rows db)\<rparr>, ()))"

subsection \<open>The service\<close>

record AuditableProfile =
  auditableName :: string
  auditablePhone :: "string option"
  auditableAddress :: "PostalAddress option"
  auditableOwnerStatus :: "OwnerStatus option"

definition auditableState :: "StoredProfile \<Rightarrow> AuditableProfile" where
  "auditableState p = \<lparr>auditableName = displayName p, auditablePhone = phone p, auditableAddress = profileAddress p,
     auditableOwnerStatus = profileOwnerStatus p\<rparr>"

record MyProfile =
  myDisplayName :: string
  myPhone :: "string option"
  myAddress :: "PostalAddress option"
  myOwnerStatus :: "OwnerStatus option"
  myUpdatedAt :: int

definition toMyProfile :: "StoredProfile \<Rightarrow> MyProfile" where
  "toMyProfile p = \<lparr>myDisplayName = displayName p, myPhone = phone p, myAddress = profileAddress p, myOwnerStatus = profileOwnerStatus p,
     myUpdatedAt = profileUpdatedAt p\<rparr>"

definition findMine :: "FieldEncryptor \<Rightarrow> string \<Rightarrow> 'z ProfileDb_scheme \<Rightarrow> ProfileError + MyProfile option" where
  "findMine enc i db = rbind (find_profile enc i db) (\<lambda>p. Inr (map_option toMyProfile p))"

definition profile_change :: "Actor \<Rightarrow> AuditAction \<Rightarrow> string \<Rightarrow> StoredProfile option \<Rightarrow> StoredProfile option \<Rightarrow> AuditableProfile RecordChange" where
  "profile_change actor action target before after =
    \<lparr>changeActor = Some actor, changeAction = action, changeTargetType = ''profile'', changeTargetId = target,
     changeBefore = map_option auditableState before, changeAfter = map_option auditableState after, changeReason = None\<rparr>"

definition saveMine ::
  "FieldEncryptor \<Rightarrow> (AuditableProfile \<Rightarrow> string) \<Rightarrow> IdentityEnv \<Rightarrow> ProfileEnv \<Rightarrow> Actor \<Rightarrow> ProfileInput \<Rightarrow> ('z, MyProfile) profile_action" where
  "saveMine enc digest env penv actor input =
    await (\<lambda>db. (find_profile enc (actorUserId actor) db, db)) (\<lambda>before.
    await (save enc penv (actorUserId actor) input) (\<lambda>saved.
    await (raising TrailFault (record_account digest env
        (profile_change actor (if before = None then ProfileCreated else ProfileUpdated) (profileId saved) before (Some saved)))) (\<lambda>_.
    done_with (toMyProfile saved))))"

definition profile_exportFor :: "FieldEncryptor \<Rightarrow> string \<Rightarrow> 'z ProfileDb_scheme \<Rightarrow> ProfileError + MyProfile option" where
  "profile_exportFor enc i db = rbind (find_profile enc i db) (\<lambda>p. Inr (map_option toMyProfile p))"

record AdminProfile =
  adminDisplayName :: string
  adminHasPhone :: bool
  adminAddress :: "(string \<times> string) option"
  adminUpdatedAt :: int

definition outward_of :: "PostalAddress \<Rightarrow> ProfileError + string" where
  "outward_of a = map_sum PostcodeRefused id (outwardCode (postcode a))"

definition adminSummaryFor :: "FieldEncryptor \<Rightarrow> string \<Rightarrow> 'z ProfileDb_scheme \<Rightarrow> ProfileError + AdminProfile option" where
  "adminSummaryFor enc i db =
    rbind (find_profile enc i db) (\<lambda>found.
    case found of
      None \<Rightarrow> Inr None
    | Some p \<Rightarrow>
        rbind (case profileAddress p of None \<Rightarrow> Inr None | Some a \<Rightarrow> rbind (outward_of a) (\<lambda>out. Inr (Some (town a, out)))) (\<lambda>address.
        Inr (Some \<lparr>adminDisplayName = displayName p, adminHasPhone = (phone p \<noteq> None), adminAddress = address, adminUpdatedAt = profileUpdatedAt p\<rparr>)))"

definition profiles_eraseFor ::
  "FieldEncryptor \<Rightarrow> (AuditableProfile \<Rightarrow> string) \<Rightarrow> IdentityEnv \<Rightarrow> Actor \<Rightarrow> ('z, unit) profile_action" where
  "profiles_eraseFor enc digest env actor =
    await (\<lambda>db. (find_profile enc (actorUserId actor) db, db)) (\<lambda>before.
    await (erase_profile (actorUserId actor)) (\<lambda>_.
    case before of
      None \<Rightarrow> done_with ()
    | Some p \<Rightarrow> raising TrailFault (record_account digest env (profile_change actor ProfileErased (profileId p) (Some p) None))))"

definition findOwnerStatus :: "FieldEncryptor \<Rightarrow> string \<Rightarrow> 'z ProfileDb_scheme \<Rightarrow> ProfileError + OwnerStatus option" where
  "findOwnerStatus enc i db = rbind (find_profile enc i db) (\<lambda>p. Inr (Option.bind p profileOwnerStatus))"

text \<open>The proleptic Gregorian calendar: the year and the month of an instant in UTC, with the years counted from March.\<close>

definition civil_month :: "int \<Rightarrow> int \<times> int" where
  "civil_month ms =
    (let z = ms div 86400000 + 719468;
         era = z div 146097;
         doe = z mod 146097;
         yoe = (doe - doe div 1460 + doe div 36524 - doe div 146096) div 365;
         doy = doe - (365 * yoe + yoe div 4 - yoe div 100);
         mp = (5 * doy + 2) div 153;
         m = if mp < 10 then mp + 3 else mp - 9 in
     (yoe + era * 400 + (if m \<le> 2 then 1 else 0), m))"

definition iso_year :: "int \<Rightarrow> string" where
  "iso_year y = (if 0 \<le> y \<and> y \<le> 9999 then padStart 4 (CHR ''0'') (show_nat (nat y))
     else (if y < 0 then CHR ''-'' else CHR ''+'') # padStart 6 (CHR ''0'') (show_nat (nat \<bar>y\<bar>)))"

definition toMonth :: "int \<Rightarrow> string" where
  "toMonth ms = (case civil_month ms of (y, m) \<Rightarrow> take 7 (iso_year y @ ''-'' @ padStart 2 (CHR ''0'') (show_nat (nat m)) @ ''-''))"

record PublicProfile =
  publicId :: string
  publicDisplayName :: string
  publicOutwardCode :: "string option"
  publicTown :: "string option"
  memberSince :: string

definition findPublicProfile :: "FieldEncryptor \<Rightarrow> string \<Rightarrow> 'z ProfileDb_scheme \<Rightarrow> ProfileError + PublicProfile option" where
  "findPublicProfile enc i db =
    (case findActiveById i db of
       None \<Rightarrow> Inr None
     | Some account \<Rightarrow>
         rbind (find_profile enc i db) (\<lambda>found.
         case found of
           None \<Rightarrow> Inr None
         | Some p \<Rightarrow>
             rbind (case profileAddress p of None \<Rightarrow> Inr None | Some a \<Rightarrow> rbind (outward_of a) (\<lambda>out. Inr (Some out))) (\<lambda>outward.
             Inr (Some \<lparr>publicId = accountId account, publicDisplayName = displayName p, publicOutwardCode = outward,
               publicTown = map_option town (profileAddress p), memberSince = toMonth (userCreatedAt account)\<rparr>))))"

subsection \<open>What the tables hold\<close>

definition profile_ok :: "ProfileRow \<Rightarrow> bool" where
  "profile_ok r \<longleftrightarrow> isUuid (prf_id r) \<and> (case prf_ownerStatus r of None \<Rightarrow> True | Some s \<Rightarrow> s \<in> {''private_owner'', ''professional_trader''})"

definition address_ok :: "FieldEncryptor \<Rightarrow> AddressRow \<Rightarrow> bool" where
  "address_ok enc a \<longleftrightarrow> decrypt enc (adr_encryptedDetail a) (adr_userId a) \<noteq> None \<and> parse_postcode (adr_postcode a) = Inr (adr_postcode a)
     \<and> outwardCode (adr_postcode a) = Inr (adr_outwardCode a)"

definition profile_inv :: "FieldEncryptor \<Rightarrow> 'z ProfileDb_scheme \<Rightarrow> bool" where
  "profile_inv enc db \<longleftrightarrow> distinct (map prf_userId (profile_rows db)) \<and> distinct (map adr_userId (address_rows db))
     \<and> list_all profile_ok (profile_rows db) \<and> list_all (address_ok enc) (address_rows db)"

lemma find_upsert:
  "find (\<lambda>r. key r = k) (upsert_keyed key row rows) = (if k = key row then Some row else find (\<lambda>r. key r = k) rows)"
proof -
  have "find (\<lambda>r. key r = k) (map (\<lambda>r. if key r = key row then row else r) rows)
      = (if k = key row then (if list_ex (\<lambda>r. key r = key row) rows then Some row else None) else find (\<lambda>r. key r = k) rows)"
    by (induction rows) auto
  moreover have "find (\<lambda>r. key r = k) rows = None" if "\<not> list_ex (\<lambda>r. key r = k) rows"
    using that by (auto simp: find_None_iff list_ex_iff)
  ultimately show ?thesis by (auto simp: upsert_keyed_def find_append split: option.splits)
qed

lemma upsert_keeps:
  assumes "distinct (map key rows)"
  shows "distinct (map key (upsert_keyed key row rows))"
proof -
  have "map key (map (\<lambda>r. if key r = key row then row else r) rows) = map key rows" by (induction rows) auto
  then have "distinct (map key (map (\<lambda>r. if key r = key row then row else r) rows))" using assms by metis
  then show ?thesis using assms by (auto simp: upsert_keyed_def list_ex_iff simp del: map_map)
qed

lemma set_upsert: "list_all P rows \<Longrightarrow> P row \<Longrightarrow> list_all P (upsert_keyed key row rows)"
  by (auto simp: upsert_keyed_def list_all_iff)

lemma owner_status_roundtrip: "asOwnerStatus (map_option owner_status_text s) u = Inr s"
proof (cases s)
  case (Some x)
  then show ?thesis by (cases x) (simp_all add: asOwnerStatus_def owner_status_text_def)
qed (simp add: asOwnerStatus_def)

lemma status_reads: "profile_ok r \<Longrightarrow> \<exists>s. asOwnerStatus (prf_ownerStatus r) u = Inr s"
  by (auto simp: profile_ok_def asOwnerStatus_def owner_status_text_def split: option.splits)

lemma profile_row_mem: "profile_row_of i db = Some r \<Longrightarrow> r \<in> set (profile_rows db) \<and> prf_userId r = lower i"
  by (auto simp: profile_row_of_def dest: find_Some_mem)

lemma address_row_mem: "address_row_of i db = Some a \<Longrightarrow> a \<in> set (address_rows db) \<and> adr_userId a = lower i"
  by (auto simp: address_row_of_def dest: find_Some_mem)

text \<open>Under the invariant a profile can always be read.\<close>

lemma profile_reads:
  assumes "profile_inv enc db" "isUuid i" "profile_row_of i db = Some r"
  obtains p where "find_profile enc i db = Inr (Some p)" "profileId p = prf_id r" "displayName p = prf_displayName r" "phone p = prf_phone r"
    "profileUpdatedAt p = prf_updatedAt r"
    "map_option (\<lambda>a. (outwardCode (postcode a), town a)) (profileAddress p) = map_option (\<lambda>a. (Inr (adr_outwardCode a), adr_town a)) (address_row_of i db)"
proof -
  have r: "profile_ok r" "prf_userId r = lower i" using assms(1) profile_row_mem [OF assms(3)] by (auto simp: profile_inv_def list_all_iff)
  obtain s where s: "asOwnerStatus (prf_ownerStatus r) (prf_userId r) = Inr s" using status_reads [OF r(1)] by blast
  show thesis
  proof (cases "address_row_of i db")
    case None
    then show ?thesis using that s assms(2,3) by (simp add: find_profile_def toStoredProfile_def)
  next
    case (Some a)
    then have a: "address_ok enc a" "adr_userId a = lower i" using assms(1) address_row_mem [OF Some] by (auto simp: profile_inv_def list_all_iff)
    then obtain d where "decrypt enc (adr_encryptedDetail a) (lower i) = Some d" by (auto simp: address_ok_def)
    then show ?thesis using that s assms(2,3) r(2) a(1) Some
      by (simp add: find_profile_def toStoredProfile_def decrypt_address_def address_ok_def)
  qed
qed

lemma profile_absent: "isUuid i \<Longrightarrow> profile_row_of i db = None \<Longrightarrow> find_profile enc i db = Inr None"
  by (simp add: find_profile_def)

lemma schema_postcode:
  assumes "profileInputSchema raw = Some input" "inputAddress input = Some a"
  obtains out where "parse_postcode (postcode a) = Inr (postcode a)" "outwardCode (postcode a) = Inr out"
proof -
  obtain b where b: "postalAddressSchema b = Some a"
    using assms by (auto simp: profileInputSchema_def bind_eq_Some_conv split: option.splits)
  then obtain q where q: "postcodeSchema q = Some (postcode a)"
    by (auto simp: postalAddressSchema_def bind_eq_Some_conv split: option.splits)
  then have "parse_postcode (trim q) = Inr (postcode a)" by (auto simp: postcodeSchema_def split: if_splits sum.splits)
  then have "parse_postcode (postcode a) = Inr (postcode a)" using parse_postcode_idem_aux by blast
  then show thesis using that outwardCode_parse by blast
qed

subsection \<open>Saving\<close>

definition as_saved :: "int \<Rightarrow> ProfileInput \<Rightarrow> MyProfile" where
  "as_saved now input = \<lparr>myDisplayName = inputDisplayName input, myPhone = inputPhone input, myAddress = inputAddress input,
     myOwnerStatus = inputOwnerStatus input, myUpdatedAt = now\<rparr>"

lemma find_profile_cong:
  "profile_row_of j db' = profile_row_of j db \<Longrightarrow> address_row_of j db' = address_row_of j db \<Longrightarrow> find_profile enc j db' = find_profile enc j db"
  by (simp add: find_profile_def split: option.splits)

lemma written_ok:
  assumes "profile_inv enc db" "isUuid (newProfileId env)"
  shows "profile_ok (profile_written env i input (profile_row_of i db))"
proof -
  have "profile_ok r" if "profile_row_of i db = Some r" for r
    using that assms(1) profile_row_mem by (fastforce simp: profile_inv_def list_all_iff)
  then show ?thesis
    using assms(2) by (auto simp: profile_written_def profile_ok_def owner_status_text_def split: option.splits OwnerStatus.splits)
qed

text \<open>The address part of a save: the row that is left, if any, and the others as they were.\<close>

lemma address_part:
  assumes "readable enc" "profile_inv enc db" "profileInputSchema raw = Some input" "lower i = i"
  obtains stored rows where
    "case inputAddress input of None \<Rightarrow> stored = None \<and> rows = filter (\<lambda>r. adr_userId r \<noteq> i) (address_rows db)
       | Some a \<Rightarrow> (\<exists>row. address_written i a (encrypt_detail enc i a) = Inr row \<and> stored = Some row \<and> rows = upsert_keyed adr_userId row (address_rows db))"
    "find (\<lambda>r. adr_userId r = i) rows = stored" "\<And>k. k \<noteq> i \<Longrightarrow> find (\<lambda>r. adr_userId r = k) rows = find (\<lambda>r. adr_userId r = k) (address_rows db)"
    "distinct (map adr_userId rows)" "list_all (address_ok enc) rows"
    "(case stored of None \<Rightarrow> Inr None | Some x \<Rightarrow> rbind (decrypt_address enc i x) (\<lambda>y. Inr (Some y))) = Inr (inputAddress input)"
proof (cases "inputAddress input")
  case None
  show thesis
    by (rule that [of None "filter (\<lambda>r. adr_userId r \<noteq> i) (address_rows db)"])
      (use None assms(2) in \<open>auto simp: find_None_iff find_filter_key profile_inv_def list_all_iff distinct_map_filter\<close>)
next
  case (Some a)
  obtain out where out: "parse_postcode (postcode a) = Inr (postcode a)" "outwardCode (postcode a) = Inr out"
    using schema_postcode [OF assms(3) Some] by blast
  let ?a = "\<lparr>adr_userId = i, adr_postcode = postcode a, adr_outwardCode = out, adr_town = town a, adr_encryptedDetail = encrypt_detail enc i a\<rparr>"
  have detail: "decrypt enc (encrypt_detail enc i a) i = Some \<lparr>detailLine1 = line1 a, detailLine2 = line2 a\<rparr>"
    using assms(1) by (simp add: encrypt_detail_def readable_def)
  have ok: "address_ok enc ?a" using detail out by (simp add: address_ok_def)
  show thesis
    by (rule that [of "Some ?a" "upsert_keyed adr_userId ?a (address_rows db)"])
      (use Some out assms(2,4) detail ok in \<open>auto simp: address_written_def decrypt_address_def find_upsert profile_inv_def intro: upsert_keeps set_upsert\<close>)
qed

lemma save_run:
  fixes db :: "'z ProfileDb_scheme"
  assumes enc: "readable enc" and inv: "profile_inv enc db" and valid: "profileInputSchema raw = Some input"
    and i: "isUuid i" "lower i = i" "user_by_id i db \<noteq> None" and env: "\<not> lostRace env" "isUuid (newProfileId env)"
  obtains db' :: "'z ProfileDb_scheme" and saved where "save enc env i input db = (Inr saved, db')" "toMyProfile saved = as_saved (profileNow env) input"
    "isUuid (profileId saved)" "find_profile enc i db' = Inr (Some saved)" "profile_inv enc db'"
    "\<And>j. lower j \<noteq> i \<Longrightarrow> find_profile enc j db' = find_profile enc j db"
    "user_rows db' = user_rows db" "trail_rows db' = trail_rows db"
proof -
  let ?w = "profile_written env i input (profile_row_of i db)"
  let ?ps = "upsert_keyed prf_userId ?w (profile_rows db)"
  have w: "profile_ok ?w" by (rule written_ok [OF inv env(2)])
  have w2: "prf_userId ?w = i" using i(2) by (simp add: profile_written_def)
  obtain stored rows where part: "case inputAddress input of None \<Rightarrow> stored = None \<and> rows = filter (\<lambda>r. adr_userId r \<noteq> i) (address_rows db)
       | Some a \<Rightarrow> (\<exists>row. address_written i a (encrypt_detail enc i a) = Inr row \<and> stored = Some row \<and> rows = upsert_keyed adr_userId row (address_rows db))"
    and mine: "find (\<lambda>r. adr_userId r = i) rows = stored"
    and others: "\<And>k. k \<noteq> i \<Longrightarrow> find (\<lambda>r. adr_userId r = k) rows = find (\<lambda>r. adr_userId r = k) (address_rows db)"
    and rows: "distinct (map adr_userId rows)" "list_all (address_ok enc) rows"
    and reads: "(case stored of None \<Rightarrow> Inr None | Some x \<Rightarrow> rbind (decrypt_address enc i x) (\<lambda>y. Inr (Some y))) = Inr (inputAddress input)"
    by (rule address_part [OF enc inv valid i(2)]) blast
  let ?db = "db\<lparr>profile_rows := ?ps, address_rows := rows\<rparr>"
  let ?saved = "\<lparr>profileId = prf_id ?w, profileUserId = i, displayName = inputDisplayName input, phone = inputPhone input,
    profileAddress = inputAddress input, profileOwnerStatus = inputOwnerStatus input, profileUpdatedAt = profileNow env\<rparr>"
  have "asOwnerStatus (prf_ownerStatus ?w) i = Inr (inputOwnerStatus input)" by (simp add: profile_written_def owner_status_roundtrip)
  then have "toStoredProfile enc ?w stored = Inr ?saved"
    unfolding toStoredProfile_def w2 reads by (simp add: profile_written_def)
  then obtain saved where saved: "toStoredProfile enc ?w stored = Inr saved" "toMyProfile saved = as_saved (profileNow env) input" "profileId saved = prf_id ?w"
    by (simp add: toMyProfile_def as_saved_def)
  have "save_tx enc env i input db = (Inr (?w, stored), ?db)"
    using i env(1) part by (auto simp: save_tx_def atomically_def Let_def split: option.splits)
  then have run: "save enc env i input db = (Inr saved, ?db)" using saved(1) by (simp add: save_def await_def pure_step_def)
  have found: "profile_row_of i ?db = Some ?w" "address_row_of i ?db = stored"
    using w2 i(2) mine by (simp_all add: profile_row_of_def address_row_of_def find_upsert)
  then have read: "find_profile enc i ?db = Inr (Some saved)" using i(1) saved(1) by (simp add: find_profile_def)
  have "profile_row_of j ?db = profile_row_of j db" "address_row_of j ?db = address_row_of j db" if "lower j \<noteq> i" for j
    using that w2 others by (simp_all add: profile_row_of_def address_row_of_def find_upsert)
  then have rest: "find_profile enc j ?db = find_profile enc j db" if "lower j \<noteq> i" for j using that by (intro find_profile_cong) blast+
  have "profile_inv enc ?db" using inv w rows by (auto simp: profile_inv_def intro: upsert_keeps set_upsert)
  then show thesis using that [OF run saved(2) _ read _ rest] w saved(3) by (simp add: profile_ok_def)
qed


subsection \<open>What others see\<close>

definition public_part :: "string \<Rightarrow> 'z ProfileDb_scheme \<Rightarrow> (string \<times> string) option \<times> string option \<times> (string \<times> string) option" where
  "public_part i db = (map_option (\<lambda>u. (accountId u, toMonth (userCreatedAt u))) (findActiveById i db), map_option prf_displayName (profile_row_of i db),
     map_option (\<lambda>a. (adr_outwardCode a, adr_town a)) (address_row_of i db))"

definition support_part :: "string \<Rightarrow> 'z ProfileDb_scheme \<Rightarrow> (string \<times> bool \<times> int) option \<times> (string \<times> string) option" where
  "support_part i db = (map_option (\<lambda>r. (prf_displayName r, prf_phone r \<noteq> None, prf_updatedAt r)) (profile_row_of i db),
     map_option (\<lambda>a. (adr_outwardCode a, adr_town a)) (address_row_of i db))"

lemma district_run:
  assumes "map_option (\<lambda>a. (outwardCode (postcode a), town a)) addr = map_option (\<lambda>a. (Inr (adr_outwardCode a), adr_town a)) row"
  shows "(case addr of None \<Rightarrow> Inr None | Some a \<Rightarrow> rbind (outward_of a) (\<lambda>out. Inr (Some out))) = Inr (map_option adr_outwardCode row)"
    "(case addr of None \<Rightarrow> Inr None | Some a \<Rightarrow> rbind (outward_of a) (\<lambda>out. Inr (Some (town a, out)))) = Inr (map_option (\<lambda>a. (adr_town a, adr_outwardCode a)) row)"
    "map_option town addr = map_option adr_town row"
  using assms by (cases addr; cases row; simp add: outward_of_def)+

lemma findActive_uuid: "findActiveById i db = Some u \<Longrightarrow> isUuid i"
  by (auto simp: findActiveById_def findById_def split: option.splits if_splits)

lemma public_value:
  assumes "profile_inv enc db"
  shows "findPublicProfile enc i db = (case public_part i db of
      (Some (u, month), Some name, district) \<Rightarrow> Inr (Some \<lparr>publicId = u, publicDisplayName = name, publicOutwardCode = map_option fst district,
        publicTown = map_option snd district, memberSince = month\<rparr>)
    | _ \<Rightarrow> Inr None)"
proof (cases "findActiveById i db")
  case (Some u)
  note uuid = findActive_uuid [OF Some]
  show ?thesis
  proof (cases "profile_row_of i db")
    case None
    then show ?thesis using Some profile_absent [OF uuid None] by (simp add: findPublicProfile_def public_part_def)
  next
    case row: (Some r)
    obtain p where p: "find_profile enc i db = Inr (Some p)" "displayName p = prf_displayName r"
      and a: "map_option (\<lambda>a. (outwardCode (postcode a), town a)) (profileAddress p) = map_option (\<lambda>a. (Inr (adr_outwardCode a), adr_town a)) (address_row_of i db)"
      by (rule profile_reads [OF assms uuid row]) blast
    show ?thesis
      using Some row p district_run [OF a] by (simp add: findPublicProfile_def public_part_def option.map_comp comp_def)
  qed
qed (simp add: findPublicProfile_def public_part_def)

lemma support_value:
  assumes "profile_inv enc db" "isUuid i"
  shows "adminSummaryFor enc i db = (case support_part i db of
      (Some (name, has, updated), district) \<Rightarrow> Inr (Some \<lparr>adminDisplayName = name, adminHasPhone = has,
        adminAddress = map_option (\<lambda>(out, t). (t, out)) district, adminUpdatedAt = updated\<rparr>)
    | _ \<Rightarrow> Inr None)"
proof (cases "profile_row_of i db")
  case None
  then show ?thesis using profile_absent [OF assms(2) None] by (simp add: adminSummaryFor_def support_part_def)
next
  case (Some r)
  obtain p where p: "find_profile enc i db = Inr (Some p)" "displayName p = prf_displayName r" "phone p = prf_phone r" "profileUpdatedAt p = prf_updatedAt r"
    and a: "map_option (\<lambda>a. (outwardCode (postcode a), town a)) (profileAddress p) = map_option (\<lambda>a. (Inr (adr_outwardCode a), adr_town a)) (address_row_of i db)"
    by (rule profile_reads [OF assms Some]) blast
  show ?thesis
    using Some p district_run [OF a] by (simp add: adminSummaryFor_def support_part_def option.map_comp comp_def)
qed

text \<open>
C13: Neither a stranger nor support learns an address or a number. Two states of the tables, under any two keys, that
agree on whether the account is active, its month, the name, the district and the town give a stranger the same answer,
whatever else they hold (number, street lines, full postcode, e-mail, declaration); support's answer depends only on the
name, on whether there is a number, on the time of the last change, the district and the town. For an account that does
not exist, is deleted or suspended the stranger's answer is that of a person without a profile.\<close>
theorem profile_disclosure:
  assumes "profile_inv enc db" "profile_inv enc' db'"
  shows "(public_part i db = public_part i db' \<longrightarrow> findPublicProfile enc i db = findPublicProfile enc' i db')
    \<and> (isUuid i \<and> support_part i db = support_part i db' \<longrightarrow> adminSummaryFor enc i db = adminSummaryFor enc' i db')
    \<and> ((\<forall>u. findById i db = Some u \<longrightarrow> deletedAt u \<noteq> None \<or> suspendedAt u \<noteq> None) \<longrightarrow> findPublicProfile enc i db = Inr None)"
proof (intro conjI impI)
  assume "public_part i db = public_part i db'"
  then show "findPublicProfile enc i db = findPublicProfile enc' i db'"
    unfolding public_value [OF assms(1)] public_value [OF assms(2)] by simp
next
  assume "isUuid i \<and> support_part i db = support_part i db'"
  then show "adminSummaryFor enc i db = adminSummaryFor enc' i db'"
    using support_value [OF assms(1), of i] support_value [OF assms(2), of i] by simp
next
  assume "\<forall>u. findById i db = Some u \<longrightarrow> deletedAt u \<noteq> None \<or> suspendedAt u \<noteq> None"
  then have "findActiveById i db = None" by (simp add: findActiveById_def split: option.splits)
  then show "findPublicProfile enc i db = Inr None" by (simp add: findPublicProfile_def)
qed

subsection \<open>Examples\<close>

definition framed_option :: "string option \<Rightarrow> string" where
  "framed_option s = (case s of None \<Rightarrow> ''n'' | Some t \<Rightarrow> CHR ''s'' # framed t)"

definition profile_digest :: "AuditableProfile \<Rightarrow> string" where
  "profile_digest p = framed (auditableName p) @ framed_option (auditablePhone p) @ framed_option (map_option owner_status_text (auditableOwnerStatus p)) @
     (case auditableAddress p of None \<Rightarrow> ''n'' | Some a \<Rightarrow> CHR ''s'' # framed (line1 a) @ framed_option (line2 a) @ framed (town a) @ framed (postcode a))"

lemma framed_option_eq: "framed_option s @ t = framed_option s' @ t' \<longleftrightarrow> s = s' \<and> t = t'"
  by (cases s; cases s') (auto simp: framed_option_def framed_eq)

lemma framed_inj: "framed s = framed t \<longleftrightarrow> s = t"
  using framed_eq [of s "[]" t "[]"] by simp

definition address_text :: "PostalAddress option \<Rightarrow> string" where
  "address_text x = (case x of None \<Rightarrow> ''n'' | Some a \<Rightarrow> CHR ''s'' # framed (line1 a) @ framed_option (line2 a) @ framed (town a) @ framed (postcode a))"

lemma address_text_inj: "address_text x = address_text y \<Longrightarrow> x = y"
proof (cases x; cases y)
  fix a b :: PostalAddress
  assume "address_text x = address_text y" and xy: "x = Some a" "y = Some b"
  then have "line1 a = line1 b" "line2 a = line2 b" "town a = town b" "postcode a = postcode b"
    by (simp_all add: address_text_def framed_eq framed_option_eq framed_inj)
  then show "x = y" using xy by simp
qed (simp_all add: address_text_def)

lemma profile_digest_inj: "inj profile_digest"
proof (rule injI)
  fix a b :: AuditableProfile assume eq: "profile_digest a = profile_digest b"
  have "auditableName a = auditableName b" "auditablePhone a = auditablePhone b" "address_text (auditableAddress a) = address_text (auditableAddress b)"
    "map_option owner_status_text (auditableOwnerStatus a) = map_option owner_status_text (auditableOwnerStatus b)"
    using eq unfolding profile_digest_def address_text_def [symmetric] framed_eq framed_option_eq by auto
  moreover have "map_option owner_status_text s = map_option owner_status_text t \<Longrightarrow> s = t" for s t
    by (metis owner_status_roundtrip sum.inject(2))
  ultimately show "a = b" using address_text_inj by simp
qed

definition members :: ProfileDb where
  "members = \<lparr>user_rows = user_rows office, webhook_rows = [], auth_rows = [], approval_rows = [], trail_rows = [], profile_rows = [], address_rows = []\<rparr>"

definition ann_profile :: ProfileInput where
  "ann_profile = \<lparr>inputDisplayName = '' Ann '', inputPhone = Some ''07700 900123'',
     inputAddress = Some \<lparr>line1 = ''1 High Street'', line2 = None, town = ''London'', postcode = ''sw1a 1aa''\<rparr>, inputOwnerStatus = Some PrivateOwner\<rparr>"

definition ann_submission :: ProfileInput where
  "ann_submission = \<lparr>inputDisplayName = ''Ann'', inputPhone = Some ''+447700900123'',
     inputAddress = Some \<lparr>line1 = ''1 High Street'', line2 = None, town = ''London'', postcode = ''SW1A 1AA''\<rparr>, inputOwnerStatus = Some PrivateOwner\<rparr>"

definition members_env :: ProfileEnv where
  "members_env = \<lparr>newProfileId = ''12345678-1234-4234-8234-123456789abc'', profileNow = 1785542400000, lostRace = False\<rparr>"

lemma ann_submitted: "profileInputSchema ann_profile = Some ann_submission"
  by code_simp

lemma ann_known: "isUuid ann" "lower ann = ann" "user_by_id ann members \<noteq> None" "isUuid (newProfileId members_env)" "\<not> lostRace members_env"
  by code_simp+

lemma members_inv: "profile_inv enc members"
  by (simp add: profile_inv_def members_def)


definition ann_rows :: "string option \<Rightarrow> PostalAddress \<Rightarrow> ProfileDb" where
  "ann_rows number a = members\<lparr>profile_rows := [\<lparr>prf_id = ''12345678-1234-4234-8234-123456789abc'', prf_userId = ann, prf_displayName = ''Ann'',
       prf_phone = number, prf_ownerStatus = Some ''private_owner'', prf_updatedAt = 7\<rparr>],
     address_rows := [\<lparr>adr_userId = ann, adr_postcode = postcode a, adr_outwardCode = ''SW1A'', adr_town = ''London'',
       adr_encryptedDetail = encrypt_detail plain_encryptor ann a\<rparr>]\<rparr>"

definition high_street :: PostalAddress where
  "high_street = \<lparr>line1 = ''1 High Street'', line2 = None, town = ''London'', postcode = ''SW1A 1AA''\<rparr>"

definition low_street :: PostalAddress where
  "low_street = \<lparr>line1 = ''9 Low Street'', line2 = Some ''Flat 2'', town = ''London'', postcode = ''SW1A 2BB''\<rparr>"

lemma ann_rows_ok:
  assumes "a \<in> {high_street, low_street}"
  shows "profile_inv plain_encryptor (ann_rows n a)"
proof -
  have "\<forall>a \<in> set [high_street, low_street]. parse_postcode (postcode a) = Inr (postcode a) \<and> outwardCode (postcode a) = Inr ''SW1A''" by code_simp
  then have "parse_postcode (postcode a) = Inr (postcode a)" "outwardCode (postcode a) = Inr ''SW1A''" using assms by auto
  moreover have "isUuid ''12345678-1234-4234-8234-123456789abc''" by code_simp
  ultimately show ?thesis
    using plain_encryptor_readable
    by (simp add: profile_inv_def ann_rows_def profile_ok_def address_ok_def encrypt_detail_def readable_def)
qed

theorem profile_disclosure_witness:
  "findPublicProfile plain_encryptor ann (ann_rows (Some ''+447700900123'') high_street) = findPublicProfile plain_encryptor ann (ann_rows None low_street)
   \<and> findPublicProfile plain_encryptor ann (ann_rows None low_street) = Inr (Some \<lparr>publicId = ann, publicDisplayName = ''Ann'',
        publicOutwardCode = Some ''SW1A'', publicTown = Some ''London'', memberSince = ''1970-01''\<rparr>)"
proof -
  have act: "findActiveById ann (ann_rows n a) = findActiveById ann members" for n a
    by (simp add: findActiveById_def findById_def user_by_id_def ann_rows_def)
  have mem: "map_option (\<lambda>u. (accountId u, toMonth (userCreatedAt u))) (findActiveById ann members) = Some (ann, ''1970-01'')" by code_simp
  have part: "public_part ann (ann_rows n a) = (Some (ann, ''1970-01''), Some ''Ann'', Some (''SW1A'', ''London''))" for n a
    unfolding public_part_def act mem by (simp add: profile_row_of_def address_row_of_def ann_rows_def ann_known(2))
  have "findPublicProfile plain_encryptor ann (ann_rows None low_street) = Inr (Some \<lparr>publicId = ann, publicDisplayName = ''Ann'',
        publicOutwardCode = Some ''SW1A'', publicTown = Some ''London'', memberSince = ''1970-01''\<rparr>)"
    unfolding public_value [OF ann_rows_ok [of low_street None, simplified]] part by simp
  then show ?thesis
    using profile_disclosure [OF ann_rows_ok [of high_street "Some ''+447700900123''", simplified] ann_rows_ok [of low_street None, simplified]] part by metis
qed

end
