(* ===== verification/Platform.thy ===== *)
theory Platform
  imports Listing_Search Profiles
begin

section \<open>The composed platform\<close>

text \<open>
  The modules as \<^verbatim>\<open>apps/api/src/main.ts\<close> composes them: one database with the tables of the accounts, the profiles, the
  listings and the bookings, and the eraser that the identity module is given, which runs those of the three modules that
  hold personal data one after the other. The catalogue's part of the audit trail is in its own column of the state.
\<close>

record Platform = ProfileDb +
  shop :: ListingDb
  hires :: BookingDb

type_synonym 'a platform_run = "(Platform, IdentityError, 'a) action"

definition on_shop :: "'a listing_action \<Rightarrow> 'a platform_run" where
  "on_shop m db = (case m (shop db) of (r, s) \<Rightarrow> (map_sum (\<lambda>_. EraserFailed) id r, db\<lparr>shop := s\<rparr>))"

definition on_hires :: "'a booking_action \<Rightarrow> 'a platform_run" where
  "on_hires m db = (case m (hires db) of (r, s) \<Rightarrow> (map_sum (\<lambda>_. EraserFailed) id r, db\<lparr>hires := s\<rparr>))"

definition erase_everywhere ::
  "FieldEncryptor \<Rightarrow> (AuditableProfile \<Rightarrow> string) \<Rightarrow> ListingDeps \<Rightarrow> IdentityEnv \<Rightarrow> Actor \<Rightarrow> unit platform_run" where
  "erase_everywhere enc digest deps env actor =
    await (raising (\<lambda>_. EraserFailed) (profiles_eraseFor enc digest env actor)) (\<lambda>_.
    await (\<lambda>db. on_shop (listings_eraseFor (hires db) (hires db) deps actor) db) (\<lambda>_.
    await (on_hires (eraseFor (actorUserId actor))) (\<lambda>_. done_with ())))"

subsection \<open>The eraser minds its own tables\<close>

lemma profiles_eraser_tables:
  fixes db :: "'z ProfileDb_scheme"
  assumes "profiles_eraseFor enc digest env actor db = (r, db')"
  shows "user_rows db' = user_rows db \<and> approval_rows db' = approval_rows db \<and> webhook_rows db' = webhook_rows db \<and> auth_rows db' = auth_rows db"
  using assms
  by (auto simp: profiles_eraseFor_def await_def erase_profile_def atomically_def raising_def record_account_def done_with_def
      split: sum.splits option.splits if_splits prod.splits)

lemma erase_everywhere_tables: "minds_own_tables (erase_everywhere enc digest deps env)"
  unfolding minds_own_tables_def
proof (intro allI)
  fix actor and db :: Platform
  obtain r db1 where run: "profiles_eraseFor enc digest env actor db = (r, db1)" by (cases "profiles_eraseFor enc digest env actor db")
  show "user_rows (snd (erase_everywhere enc digest deps env actor db)) = user_rows db
     \<and> approval_rows (snd (erase_everywhere enc digest deps env actor db)) = approval_rows db
     \<and> webhook_rows (snd (erase_everywhere enc digest deps env actor db)) = webhook_rows db
     \<and> auth_rows (snd (erase_everywhere enc digest deps env actor db)) = auth_rows db"
    using profiles_eraser_tables [OF run] run
    by (auto simp: erase_everywhere_def await_def raising_def on_shop_def on_hires_def done_with_def split: sum.splits prod.splits)
qed

subsection \<open>Deleting an account\<close>

lemma profile_erased:
  fixes db :: Platform
  assumes "profile_inv enc db" "isUuid (actorUserId actor)"
  obtains db' where "profiles_eraseFor enc digest env actor db = (Inr (), db')"
    "profile_rows db' = filter (\<lambda>r. prf_userId r \<noteq> lower (actorUserId actor)) (profile_rows db)"
    "address_rows db' = filter (\<lambda>r. adr_userId r \<noteq> lower (actorUserId actor)) (address_rows db)" "shop db' = shop db" "hires db' = hires db"
    "auth_rows db' = auth_rows db" "user_rows db' = user_rows db"
    "map auditAction (trail_rows db') = map auditAction (trail_rows db) @ (if profile_row_of (actorUserId actor) db = None then [] else [ProfileErased])"
proof (cases "profile_row_of (actorUserId actor) db")
  case None
  show thesis
    by (rule that [of "db\<lparr>profile_rows := filter (\<lambda>r. prf_userId r \<noteq> lower (actorUserId actor)) (profile_rows db),
          address_rows := filter (\<lambda>r. adr_userId r \<noteq> lower (actorUserId actor)) (address_rows db)\<rparr>"])
      (use None assms(2) profile_absent [OF assms(2) None] in
        \<open>simp_all add: profiles_eraseFor_def await_def erase_profile_def atomically_def done_with_def\<close>)
next
  case (Some r)
  obtain p where p: "find_profile enc (actorUserId actor) db = Inr (Some p)" "profileId p = prf_id r"
    by (rule profile_reads [OF assms Some]) blast
  have "isUuid (prf_id r)" using assms(1) profile_row_mem [OF Some] by (auto simp: profile_inv_def list_all_iff profile_ok_def)
  then show thesis
    by (intro that [of "db\<lparr>trail_rows := trail_rows db @ [audit_entry digest (newTrailId env) (laterNow env)
            (profile_change actor ProfileErased (lower (prf_id r)) (Some p) None)],
          profile_rows := filter (\<lambda>r. prf_userId r \<noteq> lower (actorUserId actor)) (profile_rows db),
          address_rows := filter (\<lambda>r. adr_userId r \<noteq> lower (actorUserId actor)) (address_rows db)\<rparr>"])
      (use Some assms(2) p in \<open>simp_all add: profiles_eraseFor_def await_def erase_profile_def atomically_def raising_def record_account_def record_change_def
        profile_change_def audit_entry_def\<close>)
qed

lemma quotes_erased: "eraseFor renter bdb = (Inr n, bdb') \<Longrightarrow>
    quote_rows bdb' = filter (\<lambda>q. qt_renterId q \<noteq> renter \<or> \<not> unbooked bdb q) (quote_rows bdb) \<and> booking_rows bdb' = booking_rows bdb"
  by (auto simp: eraseFor_def in_store_def deleteUnbookedForRenter_def atomically_def Let_def)

lemma quotes_erase: "\<exists>n bdb'. eraseFor renter bdb = (Inr n, bdb')"
  by (simp add: eraseFor_def in_store_def deleteUnbookedForRenter_def atomically_def Let_def)

definition forgotten :: "Actor \<Rightarrow> Platform \<Rightarrow> Platform \<Rightarrow> bool" where
  "forgotten actor db db' \<longleftrightarrow>
     profile_rows db' = filter (\<lambda>r. prf_userId r \<noteq> actorUserId actor) (profile_rows db)
     \<and> address_rows db' = filter (\<lambda>r. adr_userId r \<noteq> actorUserId actor) (address_rows db)
     \<and> listing_rows (shop db') = filter (\<lambda>r. l_ownerId r \<noteq> actorUserId actor \<or> is_booked (hires db) (l_id r)) (listing_rows (shop db))
     \<and> location_rows (shop db') = filter (\<lambda>loc. loc_listingId loc \<notin> owned_ids actor (shop db)) (location_rows (shop db))
     \<and> media_rows (shop db') = filter (\<lambda>m. media_listingId m \<notin> owned_ids actor (shop db)) (media_rows (shop db))
     \<and> quote_rows (hires db') = filter (\<lambda>q. qt_renterId q \<noteq> actorUserId actor \<or> \<not> unbooked (hires db) q) (quote_rows (hires db))
     \<and> booking_rows (hires db') = booking_rows (hires db)"

lemma erased_everywhere:
  assumes "profile_inv enc db" "isUuid (actorUserId actor)" "lower (actorUserId actor) = actorUserId actor"
  obtains db' where "erase_everywhere enc digest deps env actor db = (Inr (), db')" "forgotten actor db db'"
    "auth_rows db' = auth_rows db" "user_rows db' = user_rows db"
    "map auditAction (trail_rows db') = map auditAction (trail_rows db) @ (if profile_row_of (actorUserId actor) db = None then [] else [ProfileErased])"
proof -
  obtain db1 where db1: "profiles_eraseFor enc digest env actor db = (Inr (), db1)"
    "profile_rows db1 = filter (\<lambda>r. prf_userId r \<noteq> lower (actorUserId actor)) (profile_rows db)"
    "address_rows db1 = filter (\<lambda>r. adr_userId r \<noteq> lower (actorUserId actor)) (address_rows db)" "shop db1 = shop db" "hires db1 = hires db"
    "auth_rows db1 = auth_rows db" "user_rows db1 = user_rows db"
    "map auditAction (trail_rows db1) = map auditAction (trail_rows db) @ (if profile_row_of (actorUserId actor) db = None then [] else [ProfileErased])"
    by (rule profile_erased [OF assms(1,2)]) blast
  obtain s where s: "listings_eraseFor (hires db) (hires db) deps actor (shop db) = (Inr (), s)"
    "listing_rows s = filter (\<lambda>r. l_ownerId r \<noteq> actorUserId actor \<or> is_booked (hires db) (l_id r)) (listing_rows (shop db))"
    "location_rows s = filter (\<lambda>loc. loc_listingId loc \<notin> owned_ids actor (shop db)) (location_rows (shop db))"
    "media_rows s = filter (\<lambda>m. media_listingId m \<notin> owned_ids actor (shop db)) (media_rows (shop db))"
    using account_erased [of "hires db" deps actor "shop db" "hires db"] by blast
  obtain n h where h: "eraseFor (actorUserId actor) (hires db) = (Inr n, h)" using quotes_erase by blast
  let ?db = "db1\<lparr>shop := s, hires := h\<rparr>"
  have "erase_everywhere enc digest deps env actor db = (Inr (), ?db)"
    using db1(1,4,5) s(1) h by (simp add: erase_everywhere_def await_def raising_def on_shop_def on_hires_def done_with_def)
  moreover have "forgotten actor db ?db"
    using db1(2,3) s(2-4) quotes_erased [OF h] assms(3) by (simp add: forgotten_def)
  ultimately show thesis using that db1(6-8) by simp
qed

lemma filter_map_other: "(\<And>r. key (f r) = key r) \<Longrightarrow> filter (\<lambda>r. key r \<noteq> k) (map (\<lambda>r. if key r = k then f r else r) rows) = filter (\<lambda>r. key r \<noteq> k) rows"
  by (induction rows) auto

subsection \<open>An example\<close>

text \<open>Ann has a profile and the one listing of the shop, which nobody booked.\<close>

definition town_hall :: Platform where
  "town_hall = \<lparr>user_rows = user_rows office, webhook_rows = [], auth_rows = [], approval_rows = [], trail_rows = [],
     profile_rows = profile_rows (ann_rows None high_street), address_rows = address_rows (ann_rows None high_street),
     shop = shop_listings\<lparr>listing_rows := map (\<lambda>r. r\<lparr>l_ownerId := ann\<rparr>) (listing_rows shop_listings)\<rparr>, hires = no_bookings\<rparr>"

end
