(* ===== verification/Rate_Limiting.thy ===== *)
theory Rate_Limiting
  imports Identity
begin

section \<open>Rate limiting\<close>

text \<open>
  The allowance of an account (\<^verbatim>\<open>apps/api/src/rate-limiting\<close>): the policies, the counter over a narrow client and the guard
  of a route. The client is Redis and a parameter: what the counter relies on of its three commands is \<open>counts_like_redis\<close>.
  Instants are milliseconds; the three commands of one request run at one instant.
\<close>

subsection \<open>Policies\<close>

datatype RateLimitTier = ReadTier | WriteTier

datatype StoreFailurePolicy = AllowOnFailure | RefuseOnFailure

record RateLimitPolicy =
  policyTier :: RateLimitTier
  policyLimit :: int
  windowSeconds :: int
  onStoreFailure :: StoreFailurePolicy

definition DEFAULT_LIMITS :: "RateLimitTier \<Rightarrow> int" where
  "DEFAULT_LIMITS tier = (case tier of ReadTier \<Rightarrow> 300 | WriteTier \<Rightarrow> 60)"

definition RATE_LIMIT_WINDOW_SECONDS :: int where "RATE_LIMIT_WINDOW_SECONDS = 60"

datatype PolicyError = NotAWholeNumber RateLimitTier number

definition build_policy :: "(RateLimitTier \<Rightarrow> number option) \<Rightarrow> RateLimitTier \<Rightarrow> PolicyError + RateLimitPolicy" where
  "build_policy overrides tier =
    (let policy = (\<lambda>n. \<lparr>policyTier = tier, policyLimit = n, windowSeconds = RATE_LIMIT_WINDOW_SECONDS, onStoreFailure = AllowOnFailure\<rparr>) in
     case overrides tier of
       None \<Rightarrow> Inr (policy (DEFAULT_LIMITS tier))
     | Some n \<Rightarrow> (case n of
           Finite q \<Rightarrow> if q \<noteq> of_int \<lfloor>q\<rfloor> \<or> q < 1 then Inl (NotAWholeNumber tier n) else Inr (policy \<lfloor>q\<rfloor>)
         | _ \<Rightarrow> Inl (NotAWholeNumber tier n)))"

definition resolvePolicies :: "(RateLimitTier \<Rightarrow> number option) \<Rightarrow> PolicyError + (RateLimitTier \<Rightarrow> RateLimitPolicy)" where
  "resolvePolicies overrides =
    rbind (build_policy overrides ReadTier) (\<lambda>read.
    rbind (build_policy overrides WriteTier) (\<lambda>write.
    Inr (\<lambda>tier. case tier of ReadTier \<Rightarrow> read | WriteTier \<Rightarrow> write)))"

definition tier_name :: "RateLimitTier \<Rightarrow> string" where
  "tier_name tier = (case tier of ReadTier \<Rightarrow> ''read'' | WriteTier \<Rightarrow> ''write'')"

definition accountRateLimitKey :: "RateLimitTier \<Rightarrow> string \<Rightarrow> string" where
  "accountRateLimitKey tier account = ''ratelimit:'' @ tier_name tier @ '':account:'' @ account"

subsection \<open>The counter\<close>

text \<open>The three commands, each at an instant; \<open>Inl ()\<close> is a connection that failed.\<close>

record 's CountingClient =
  client_incr :: "int \<Rightarrow> string \<Rightarrow> ('s, unit, number) action"
  client_expire_nx :: "int \<Rightarrow> string \<Rightarrow> int \<Rightarrow> ('s, unit, number) action"
  client_ttl :: "int \<Rightarrow> string \<Rightarrow> ('s, unit, number) action"

record RateLimitDecision =
  allowed :: bool
  decisionLimit :: int
  remaining :: number
  resetInSeconds :: number

definition number_le :: "number \<Rightarrow> int \<Rightarrow> bool" where
  "number_le n m \<longleftrightarrow> (case n of Finite q \<Rightarrow> q \<le> of_int m | _ \<Rightarrow> False)"

definition consume :: "'s CountingClient \<Rightarrow> int \<Rightarrow> string \<Rightarrow> RateLimitPolicy \<Rightarrow> ('s, unit, RateLimitDecision) action" where
  "consume client now key policy =
    await (client_incr client now key) (\<lambda>count.
    await (client_expire_nx client now key (windowSeconds policy)) (\<lambda>_.
    await (client_ttl client now key) (\<lambda>ttl.
    case count of
      Finite q \<Rightarrow> done_with \<lparr>allowed = number_le count (policyLimit policy), decisionLimit = policyLimit policy,
          remaining = Finite (max 0 (of_int (policyLimit policy) - q)),
          resetInSeconds = (case ttl of Finite t \<Rightarrow> if 0 < t then Finite t else Finite (of_int (windowSeconds policy)) | _ \<Rightarrow> Finite (of_int (windowSeconds policy)))\<rparr>
    | _ \<Rightarrow> throw ())))"

subsection \<open>The guard\<close>

datatype GuardAnswer = LetThrough | TooManyRequests int | Unavailable

definition retryAfterSeconds :: "number \<Rightarrow> int" where
  "retryAfterSeconds reset = (case reset of Finite q \<Rightarrow> max 1 \<lceil>q\<rceil> | _ \<Rightarrow> 1)"

definition rate_limit_canActivate ::
  "'s CountingClient \<Rightarrow> (RateLimitTier \<Rightarrow> RateLimitPolicy) \<Rightarrow> int \<Rightarrow> RateLimitTier option \<Rightarrow> string option \<Rightarrow> 's \<Rightarrow> GuardAnswer \<times> 's" where
  "rate_limit_canActivate client policies now tier account s =
    (case tier of
       None \<Rightarrow> (LetThrough, s)
     | Some t \<Rightarrow> (case account of
           None \<Rightarrow> (LetThrough, s)
         | Some i \<Rightarrow>
             (case consume client now (accountRateLimitKey t i) (policies t) s of
                (Inl _, s') \<Rightarrow> (if onStoreFailure (policies t) = AllowOnFailure then LetThrough else Unavailable, s')
              | (Inr d, s') \<Rightarrow> (if allowed d then LetThrough else TooManyRequests (retryAfterSeconds (resetInSeconds d)), s'))))"

subsection \<open>What the counter relies on\<close>

text \<open>
  A key has a value and perhaps an instant at which it expires; an expired key is as good as absent. \<^verbatim>\<open>INCR\<close> adds one to the
  value of a live key and keeps its expiry, or starts at one without expiry; \<^verbatim>\<open>EXPIRE NX\<close> gives a live key an expiry only if
  it has none; \<^verbatim>\<open>TTL\<close> reads. No command touches another key.
\<close>

type_synonym counter = "(int \<times> int option) option"

definition live :: "int \<Rightarrow> counter \<Rightarrow> counter" where
  "live now v = (case v of Some (c, Some e) \<Rightarrow> if e \<le> now then None else v | _ \<Rightarrow> v)"

definition bumped :: "int \<Rightarrow> counter \<Rightarrow> int \<times> int option" where
  "bumped now v = (case live now v of None \<Rightarrow> (1, None) | Some (c, e) \<Rightarrow> (c + 1, e))"

definition given_expiry :: "int \<Rightarrow> int \<Rightarrow> counter \<Rightarrow> counter" where
  "given_expiry now seconds v = (case live now v of Some (c, None) \<Rightarrow> Some (c, Some (now + 1000 * seconds)) | _ \<Rightarrow> v)"

definition counts_like_redis :: "'s CountingClient \<Rightarrow> ('s \<Rightarrow> string \<Rightarrow> counter) \<Rightarrow> bool" where
  "counts_like_redis client view \<longleftrightarrow> (\<forall>s now k seconds.
     (\<exists>s'. client_incr client now k s = (Inr (Finite (of_int (fst (bumped now (view s k))))), s') \<and> view s' = (view s)(k := Some (bumped now (view s k))))
     \<and> (\<exists>r s'. client_expire_nx client now k seconds s = (Inr r, s') \<and> view s' = (view s)(k := given_expiry now seconds (view s k)))
     \<and> (\<exists>t. client_ttl client now k s = (Inr t, s)))"

subsection \<open>The counter as a fixed window\<close>

definition window_step :: "int \<Rightarrow> int \<Rightarrow> counter \<Rightarrow> int \<times> int" where
  "window_step seconds now v = (case bumped now v of (c, e) \<Rightarrow> (c, case e of None \<Rightarrow> now + 1000 * seconds | Some x \<Rightarrow> x))"

lemma live_bumped: "live now (Some (bumped now v)) = Some (bumped now v)"
  by (auto simp: live_def bumped_def split: option.splits)

lemma expiry_bumped: "given_expiry now seconds (Some (bumped now v)) = Some (map_prod id Some (window_step seconds now v))"
  unfolding given_expiry_def live_bumped window_step_def by (auto split: option.splits prod.splits)

lemma consume_run:
  assumes "counts_like_redis client view"
  obtains d s' where "consume client now k policy s = (Inr d, s')"
    "view s' = (view s)(k := Some (map_prod id Some (window_step (windowSeconds policy) now (view s k))))"
    "allowed d \<longleftrightarrow> fst (window_step (windowSeconds policy) now (view s k)) \<le> policyLimit policy"
proof -
  let ?b = "bumped now (view s k)"
  obtain s1 where s1: "client_incr client now k s = (Inr (Finite (of_int (fst ?b))), s1)" "view s1 = (view s)(k := Some ?b)"
    using assms unfolding counts_like_redis_def by blast
  obtain r s2 where s2: "client_expire_nx client now k (windowSeconds policy) s1 = (Inr r, s2)"
    "view s2 = (view s1)(k := given_expiry now (windowSeconds policy) (view s1 k))"
    using assms unfolding counts_like_redis_def by blast
  obtain t where t: "client_ttl client now k s2 = (Inr t, s2)"
    using assms unfolding counts_like_redis_def by blast
  have "fst (window_step (windowSeconds policy) now (view s k)) = fst ?b" by (simp add: window_step_def split: prod.splits)
  then show thesis
    using that s1 s2 t by (simp add: consume_def await_def done_with_def number_le_def expiry_bumped)
qed

text \<open>How many of the requests at the given instants are admitted.\<close>

fun admitted :: "int \<Rightarrow> int \<Rightarrow> int list \<Rightarrow> counter \<Rightarrow> nat" where
  "admitted seconds limit [] v = 0"
| "admitted seconds limit (t # ts) v =
    (if fst (window_step seconds t v) \<le> limit then 1 else 0) + admitted seconds limit ts (Some (map_prod id Some (window_step seconds t v)))"

lemma admitted_in_window:
  assumes "\<forall>t \<in> set ts. t < e"
  shows "int (admitted seconds limit ts (Some (c, Some e))) \<le> max 0 (limit - c)"
  using assms
proof (induction ts arbitrary: c)
  case (Cons t ts)
  have step: "window_step seconds t (Some (c, Some e)) = (c + 1, e)" using Cons.prems by (simp add: window_step_def bumped_def live_def)
  show ?case using Cons.IH [of "c + 1"] Cons.prems by (auto simp: step)
qed simp

lemma admitted_opening:
  assumes "live t v = None \<or> (\<exists>c. v = Some (c, None) \<and> 0 \<le> c)" "\<forall>u \<in> set ts. u < t + 1000 * seconds" "1 \<le> limit"
  shows "int (admitted seconds limit (t # ts) v) \<le> limit"
proof -
  obtain c where step: "window_step seconds t v = (c, t + 1000 * seconds)" "1 \<le> c"
    using assms(1) by (auto simp: window_step_def bumped_def live_def split: option.splits)
  show ?thesis
    using admitted_in_window [OF assms(2), of seconds limit c] step assms(3) by (auto split: if_splits)
qed

text \<open>In any stretch as long as the window at most two windows are open, so at most twice the limit passes.\<close>

lemma admitted_bound:
  assumes "sorted ts" "\<forall>t \<in> set ts. start \<le> t \<and> t < start + 1000 * seconds" "1 \<le> limit" "\<And>c e. v = Some (c, e) \<Longrightarrow> 0 \<le> c"
  shows "int (admitted seconds limit ts v) \<le> (case v of Some (c, Some e) \<Rightarrow> max 0 (limit - c) | _ \<Rightarrow> 0) + limit"
  using assms
proof (induction ts arbitrary: v)
  case Nil
  then show ?case by (auto split: option.splits)
next
  case (Cons t ts)
  have late: "\<forall>u \<in> set ts. u < t + 1000 * seconds" using Cons.prems(2) by auto
  show ?case
  proof (cases "live t v = None \<or> (\<exists>c. v = Some (c, None) \<and> 0 \<le> c)")
    case True
    then show ?thesis using admitted_opening [OF True late Cons.prems(3)] by (auto split: option.splits)
  next
    case False
    then obtain c e where v: "v = Some (c, Some e)" "t < e"
      using Cons.prems(4) by (auto simp: live_def split: option.splits if_splits)
    have step: "window_step seconds t v = (c + 1, e)" using v by (simp add: window_step_def bumped_def live_def)
    have "int (admitted seconds limit ts (Some (c + 1, Some e))) \<le> max 0 (limit - (c + 1)) + limit"
      using Cons.IH [of "Some (c + 1, Some e)"] Cons.prems v(1) by auto
    then show ?thesis unfolding v(1) using step [unfolded v(1)] by auto
  qed
qed

subsection \<open>What an account gets through\<close>

record LimitedRequest =
  requestAt :: int
  requestTier :: "RateLimitTier option"
  requestAccount :: "string option"

fun serve :: "'s CountingClient \<Rightarrow> (RateLimitTier \<Rightarrow> RateLimitPolicy) \<Rightarrow> LimitedRequest list \<Rightarrow> 's \<Rightarrow> GuardAnswer list \<times> 's" where
  "serve client policies [] s = ([], s)"
| "serve client policies (r # rs) s =
    (case rate_limit_canActivate client policies (requestAt r) (requestTier r) (requestAccount r) s of
       (answer, s') \<Rightarrow> (case serve client policies rs s' of (answers, s'') \<Rightarrow> (answer # answers, s'')))"

definition spends :: "RateLimitTier \<Rightarrow> string \<Rightarrow> LimitedRequest \<Rightarrow> bool" where
  "spends tier account r \<longleftrightarrow> requestTier r = Some tier \<and> requestAccount r = Some account"

definition passed :: "RateLimitTier \<Rightarrow> string \<Rightarrow> LimitedRequest list \<Rightarrow> GuardAnswer list \<Rightarrow> nat" where
  "passed tier account rs answers = length (filter (\<lambda>(r, a). spends tier account r \<and> a = LetThrough) (zip rs answers))"

lemma account_key_inj: "accountRateLimitKey t i = accountRateLimitKey u j \<longleftrightarrow> t = u \<and> i = j"
  by (cases t; cases u) (auto simp: accountRateLimitKey_def tier_name_def)

lemma guard_run:
  assumes "counts_like_redis client view"
  obtains a s' where "rate_limit_canActivate client policies now (Some t) (Some i) s = (a, s')"
    "view s' = (view s)(accountRateLimitKey t i := Some (map_prod id Some (window_step (windowSeconds (policies t)) now (view s (accountRateLimitKey t i)))))"
    "a = LetThrough \<longleftrightarrow> fst (window_step (windowSeconds (policies t)) now (view s (accountRateLimitKey t i))) \<le> policyLimit (policies t)"
    "\<And>n. a = TooManyRequests n \<Longrightarrow> 1 \<le> n" "a \<noteq> Unavailable"
proof -
  obtain d s' where d: "consume client now (accountRateLimitKey t i) (policies t) s = (Inr d, s')"
    "view s' = (view s)(accountRateLimitKey t i := Some (map_prod id Some (window_step (windowSeconds (policies t)) now (view s (accountRateLimitKey t i)))))"
    "allowed d \<longleftrightarrow> fst (window_step (windowSeconds (policies t)) now (view s (accountRateLimitKey t i))) \<le> policyLimit (policies t)"
    by (rule consume_run [OF assms]) blast
  show thesis
  proof (rule that)
    show "rate_limit_canActivate client policies now (Some t) (Some i) s
        = (if allowed d then LetThrough else TooManyRequests (retryAfterSeconds (resetInSeconds d)), s')"
      using d(1) by (simp add: rate_limit_canActivate_def)
  qed (use d(2,3) in \<open>auto simp: retryAfterSeconds_def split: if_splits number.splits\<close>)
qed

lemma guard_other:
  assumes "counts_like_redis client view" "\<not> spends tier account r"
    "rate_limit_canActivate client policies (requestAt r) (requestTier r) (requestAccount r) s = (a, s')"
  shows "view s' (accountRateLimitKey tier account) = view s (accountRateLimitKey tier account)"
proof (cases "requestTier r = None \<or> requestAccount r = None")
  case True
  then show ?thesis using assms(3) by (auto simp: rate_limit_canActivate_def split: option.splits)
next
  case False
  then obtain t i where r: "requestTier r = Some t" "requestAccount r = Some i" by auto
  obtain a' s'' where "rate_limit_canActivate client policies (requestAt r) (Some t) (Some i) s = (a', s'')"
    "view s'' = (view s)(accountRateLimitKey t i := Some (map_prod id Some (window_step (windowSeconds (policies t)) (requestAt r) (view s (accountRateLimitKey t i)))))"
    by (rule guard_run [OF assms(1), of policies "requestAt r" t i s]) blast
  then show ?thesis using assms(2,3) r by (auto simp: spends_def account_key_inj)
qed

lemma passed_admitted:
  assumes "counts_like_redis client view"
  shows "passed tier account rs (fst (serve client policies rs s))
    = admitted (windowSeconds (policies tier)) (policyLimit (policies tier)) (map requestAt (filter (spends tier account) rs)) (view s (accountRateLimitKey tier account))"
proof (induction rs arbitrary: s)
  case Nil
  then show ?case by (simp add: passed_def)
next
  case (Cons r rs)
  obtain a s' where run: "rate_limit_canActivate client policies (requestAt r) (requestTier r) (requestAccount r) s = (a, s')" by fastforce
  have rest: "fst (serve client policies (r # rs) s) = a # fst (serve client policies rs s')"
    using run by (simp split: prod.splits)
  show ?case
  proof (cases "spends tier account r")
    case True
    then have r: "requestTier r = Some tier" "requestAccount r = Some account" by (simp_all add: spends_def)
    obtain a' s'' where g: "rate_limit_canActivate client policies (requestAt r) (Some tier) (Some account) s = (a', s'')"
      "view s'' = (view s)(accountRateLimitKey tier account := Some (map_prod id Some (window_step (windowSeconds (policies tier)) (requestAt r) (view s (accountRateLimitKey tier account)))))"
      "a' = LetThrough \<longleftrightarrow> fst (window_step (windowSeconds (policies tier)) (requestAt r) (view s (accountRateLimitKey tier account))) \<le> policyLimit (policies tier)"
      by (rule guard_run [OF assms, of policies "requestAt r" tier account s]) blast
    then show ?thesis using run r rest True Cons [of s'] by (simp add: passed_def)
  next
    case False
    then show ?thesis using rest guard_other [OF assms False run] Cons [of s'] by (simp add: passed_def)
  qed
qed

lemma resolved_policy:
  assumes "resolvePolicies overrides = Inr policies"
  shows "1 \<le> policyLimit (policies tier)" "windowSeconds (policies tier) = RATE_LIMIT_WINDOW_SECONDS" "onStoreFailure (policies tier) = AllowOnFailure"
proof -
  have built: "build_policy overrides tier = Inr (policies tier)"
    using assms by (cases tier) (auto simp: resolvePolicies_def result_simps)
  obtain n where n: "policies tier = \<lparr>policyTier = tier, policyLimit = n, windowSeconds = RATE_LIMIT_WINDOW_SECONDS, onStoreFailure = AllowOnFailure\<rparr>"
    "n = DEFAULT_LIMITS tier \<or> (\<exists>q. n = \<lfloor>q\<rfloor> \<and> \<not> q < (1 :: rat))"
    using built unfolding build_policy_def Let_def
    by (simp split: option.splits number.splits if_splits) (metis, metis)
  moreover have "1 \<le> DEFAULT_LIMITS tier" by (cases tier) (simp_all add: DEFAULT_LIMITS_def)
  ultimately show "1 \<le> policyLimit (policies tier)" "windowSeconds (policies tier) = RATE_LIMIT_WINDOW_SECONDS" "onStoreFailure (policies tier) = AllowOnFailure"
    by (auto simp: le_floor_iff)
qed

text \<open>The counter an account is left with, and that it expires one window after the last request at the latest.\<close>

definition counter_after :: "int \<Rightarrow> int list \<Rightarrow> counter \<Rightarrow> counter" where
  "counter_after seconds ts v = foldl (\<lambda>v t. Some (map_prod id Some (window_step seconds t v))) v ts"

lemma counter_expires:
  assumes "sorted ts" "ts \<noteq> []" "\<And>c e. v = Some (c, Some e) \<Longrightarrow> e \<le> hd ts + 1000 * seconds"
  obtains c e where "counter_after seconds ts v = Some (c, Some e)" "e \<le> last ts + 1000 * seconds"
  using assms
proof (induction ts arbitrary: v thesis)
  case (Cons t ts)
  obtain c e where step: "window_step seconds t v = (c, e)" "e \<le> t + 1000 * seconds"
  proof (cases "\<exists>c e. v = Some (c, Some e) \<and> t < e")
    case True
    then show thesis using that Cons.prems(4) by (auto simp: window_step_def bumped_def live_def)
  next
    case False
    then have "snd (bumped t v) = None" by (cases v rule: option.exhaust) (auto simp: bumped_def live_def split: option.splits)
    then have "window_step seconds t v = (fst (bumped t v), t + 1000 * seconds)" by (cases "bumped t v") (simp add: window_step_def)
    then show thesis using that by simp
  qed
  show ?case
  proof (cases "ts = []")
    case True
    then show ?thesis using Cons.prems(1) step by (simp add: counter_after_def)
  next
    case False
    have "t \<le> hd ts" using Cons.prems(2) False by (cases ts) auto
    then have "e' \<le> hd ts + 1000 * seconds" if "Some (c, Some e) = Some (c', Some e')" for c' e' using that step(2) by simp
    then obtain c' e' where "counter_after seconds ts (Some (c, Some e)) = Some (c', Some e')" "e' \<le> last ts + 1000 * seconds"
      using Cons.IH [of "Some (c, Some e)"] Cons.prems(2) False by auto
    then show ?thesis using Cons.prems(1) step(1) False by (simp add: counter_after_def)
  qed
qed simp

lemma serve_counter:
  assumes "counts_like_redis client view"
  shows "view (snd (serve client policies rs s)) (accountRateLimitKey tier account)
    = counter_after (windowSeconds (policies tier)) (map requestAt (filter (spends tier account) rs)) (view s (accountRateLimitKey tier account))"
proof (induction rs arbitrary: s)
  case Nil
  then show ?case by (simp add: counter_after_def)
next
  case (Cons r rs)
  obtain a s' where run: "rate_limit_canActivate client policies (requestAt r) (requestTier r) (requestAccount r) s = (a, s')" by fastforce
  have rest: "snd (serve client policies (r # rs) s) = snd (serve client policies rs s')" using run by (simp split: prod.splits)
  show ?case
  proof (cases "spends tier account r")
    case True
    then have r: "requestTier r = Some tier" "requestAccount r = Some account" by (simp_all add: spends_def)
    obtain a' s'' where g: "rate_limit_canActivate client policies (requestAt r) (Some tier) (Some account) s = (a', s'')"
      "view s'' = (view s)(accountRateLimitKey tier account := Some (map_prod id Some (window_step (windowSeconds (policies tier)) (requestAt r) (view s (accountRateLimitKey tier account)))))"
      by (rule guard_run [OF assms, of policies "requestAt r" tier account s]) blast
    then show ?thesis using run r rest True Cons [of s'] by (simp add: counter_after_def)
  next
    case False
    then show ?thesis using rest guard_other [OF assms False run] Cons [of s'] by simp
  qed
qed

lemma refusals_wait:
  assumes "counts_like_redis client view"
  shows "TooManyRequests n \<in> set (fst (serve client policies rs s)) \<Longrightarrow> 1 \<le> n"
proof (induction rs arbitrary: s)
  case (Cons r rs)
  obtain a s' where run: "rate_limit_canActivate client policies (requestAt r) (requestTier r) (requestAccount r) s = (a, s')" by fastforce
  have rest: "fst (serve client policies (r # rs) s) = a # fst (serve client policies rs s')" using run by (simp split: prod.splits)
  have "1 \<le> n" if "a = TooManyRequests n"
    using run that by (auto simp: rate_limit_canActivate_def retryAfterSeconds_def split: option.splits prod.splits sum.splits if_splits number.splits)
  then show ?case using rest Cons by auto
qed simp


definition redis :: "(string \<Rightarrow> counter) CountingClient" where
  "redis = \<lparr>client_incr = (\<lambda>now k s. (Inr (Finite (of_int (fst (bumped now (s k))))), s(k := Some (bumped now (s k))))),
     client_expire_nx = (\<lambda>now k seconds s. (Inr (Finite 1), s(k := given_expiry now seconds (s k)))),
     client_ttl = (\<lambda>now k s. (Inr (Finite (case live now (s k) of None \<Rightarrow> -2 | Some (c, None) \<Rightarrow> -1 | Some (c, Some e) \<Rightarrow> of_int ((e - now + 500) div 1000))), s))\<rparr>"

lemma redis_counts: "counts_like_redis redis (\<lambda>s. s)"
  by (simp add: counts_like_redis_def redis_def)

definition two_writes :: "RateLimitTier \<Rightarrow> number option" where
  "two_writes tier = (if tier = WriteTier then Some (Finite 2) else None)"

definition limits :: "RateLimitTier \<Rightarrow> RateLimitPolicy" where
  "limits tier = \<lparr>policyTier = tier, policyLimit = (if tier = WriteTier then 2 else 300), windowSeconds = 60, onStoreFailure = AllowOnFailure\<rparr>"

definition busy :: "LimitedRequest list" where
  "busy = map (\<lambda>(t, i). \<lparr>requestAt = t, requestTier = Some WriteTier, requestAccount = Some i\<rparr>)
     [(1, ''ann''), (2, ''ann''), (3, ''ben''), (4, ''ann''), (5, ''ann'')]"


end
