(* ===== verification/Feature_Flags.thy ===== *)
theory Feature_Flags
  imports Identity
begin

section \<open>Feature flags\<close>

text \<open>
  The switches an administrator has over parts of the platform (\<^verbatim>\<open>apps/api/src/feature-flags\<close>,
  \<^verbatim>\<open>packages/contracts/src/feature-flags.ts\<close>): the declared vocabulary, the overrides in the database, and the service
  with its cache, one per process. Labels and descriptions are left out. \<open>race\<close> is what other requests of the process
  did while the overrides were read. An error of the database in a switch leaves everything as it was.
\<close>

subsection \<open>The vocabulary and the overrides\<close>

record FeatureFlagDeclaration =
  declaredKey :: string
  defaultEnabled :: bool

definition FEATURE_FLAGS :: "FeatureFlagDeclaration list" where
  "FEATURE_FLAGS = [\<lparr>declaredKey = ''listing.publication'', defaultEnabled = True\<rparr>, \<lparr>declaredKey = ''booking.payment'', defaultEnabled = False\<rparr>]"

definition isFeatureFlagKey :: "string \<Rightarrow> bool" where
  "isFeatureFlagKey key \<longleftrightarrow> key \<in> set (map declaredKey FEATURE_FLAGS)"

definition featureFlagDeclaration :: "string \<Rightarrow> FeatureFlagDeclaration option" where
  "featureFlagDeclaration key = find (\<lambda>flag. declaredKey flag = key) FEATURE_FLAGS"

record FeatureFlagOverride =
  overrideId :: string
  overrideKey :: string
  overrideEnabled :: bool
  overrideChangedById :: string
  overrideChangedAt :: int

text \<open>The rows come ordered by key. The keys are unique, so the order decides nothing below; the one the rows have is kept.\<close>

definition listOverrides :: "FeatureFlagOverride list \<Rightarrow> FeatureFlagOverride list" where
  "listOverrides rows = rows"

definition set_override :: "string \<Rightarrow> int \<Rightarrow> string \<Rightarrow> bool \<Rightarrow> string \<Rightarrow> FeatureFlagOverride list \<Rightarrow> FeatureFlagOverride \<times> FeatureFlagOverride list" where
  "set_override newId now key enabled changedBy rows =
    (case find (\<lambda>r. overrideKey r = key) rows of
       Some r \<Rightarrow>
         let row = r\<lparr>overrideEnabled := enabled, overrideChangedById := changedBy, overrideChangedAt := now\<rparr> in
         (row, map (\<lambda>r. if overrideKey r = key then row else r) rows)
     | None \<Rightarrow>
         let row = \<lparr>overrideId = newId, overrideKey = key, overrideEnabled = enabled, overrideChangedById = changedBy, overrideChangedAt = now\<rparr> in
         (row, rows @ [row]))"

subsection \<open>The service\<close>

definition FLAG_CACHE_TTL_MS :: int where "FLAG_CACHE_TTL_MS = 10000"

type_synonym overrides = "string \<rightharpoonup> bool"

record FlagsState =
  override_rows :: "FeatureFlagOverride list"
  flag_cache :: "(int \<times> overrides) option"
  flag_trail :: "AuditRow list"

definition readThrough :: "FeatureFlagOverride list \<Rightarrow> FeatureFlagOverride list" where
  "readThrough rows = filter (\<lambda>r. isFeatureFlagKey (overrideKey r)) (listOverrides rows)"

definition overrides_of :: "FeatureFlagOverride list \<Rightarrow> overrides" where
  "overrides_of rows = map_of (rev (map (\<lambda>r. (overrideKey r, overrideEnabled r)) (readThrough rows)))"

definition cached_overrides :: "int \<Rightarrow> (int \<times> overrides) option \<Rightarrow> overrides option" where
  "cached_overrides now cache = (case cache of Some (taken, ov) \<Rightarrow> if now - taken < FLAG_CACHE_TTL_MS then Some ov else None | None \<Rightarrow> None)"

definition effective :: "FeatureFlagDeclaration \<Rightarrow> overrides \<Rightarrow> bool" where
  "effective declaration ov = (case ov (declaredKey declaration) of Some b \<Rightarrow> b | None \<Rightarrow> defaultEnabled declaration)"

text \<open>The clock is read when the cache is looked at and again when a snapshot is put into it.\<close>

definition isEnabled :: "(FlagsState \<Rightarrow> FlagsState) \<Rightarrow> bool \<Rightarrow> int \<Rightarrow> int \<Rightarrow> string \<Rightarrow> FlagsState \<Rightarrow> bool \<times> FlagsState" where
  "isEnabled race storeFails now later key st =
    (case featureFlagDeclaration key of
       None \<Rightarrow> (False, st)
     | Some declaration \<Rightarrow>
         (case cached_overrides now (flag_cache st) of
            Some ov \<Rightarrow> (effective declaration ov, st)
          | None \<Rightarrow>
              if storeFails then (defaultEnabled declaration, race st)
              else let ov = overrides_of (override_rows st) in (effective declaration ov, (race st)\<lparr>flag_cache := Some (later, ov)\<rparr>)))"

datatype FlagSource = FromDefault | FromOverride

record AdminFeatureFlag =
  adminFlagKey :: string
  adminFlagEnabled :: bool
  adminFlagDefault :: bool
  adminFlagSource :: FlagSource
  adminFlagChangedAt :: "int option"
  adminFlagChangedById :: "string option"

definition list_flags :: "FeatureFlagOverride list \<Rightarrow> AdminFeatureFlag list" where
  "list_flags rows =
    map (\<lambda>declaration.
      let override = find (\<lambda>r. overrideKey r = declaredKey declaration) (rev (readThrough rows)) in
      \<lparr>adminFlagKey = declaredKey declaration,
       adminFlagEnabled = (case override of Some r \<Rightarrow> overrideEnabled r | None \<Rightarrow> defaultEnabled declaration),
       adminFlagDefault = defaultEnabled declaration, adminFlagSource = (if override = None then FromDefault else FromOverride),
       adminFlagChangedAt = map_option overrideChangedAt override, adminFlagChangedById = map_option overrideChangedById override\<rparr>) FEATURE_FLAGS"

record AuditableFlag =
  auditableKey :: string
  auditableEnabled :: bool
  auditableSource :: FlagSource

definition auditable_flag :: "AdminFeatureFlag \<Rightarrow> AuditableFlag" where
  "auditable_flag flag = \<lparr>auditableKey = adminFlagKey flag, auditableEnabled = adminFlagEnabled flag, auditableSource = adminFlagSource flag\<rparr>"

record FlagEnv =
  newOverrideId :: string
  newFlagTrailId :: string
  flagNow :: int

definition set_flag :: "(AuditableFlag \<Rightarrow> string) \<Rightarrow> FlagEnv \<Rightarrow> Actor \<Rightarrow> string \<Rightarrow> bool \<Rightarrow> string \<Rightarrow> FlagsState \<Rightarrow> AdminFeatureFlag option \<times> FlagsState" where
  "set_flag digest env actor key enabled reason st =
    (if \<not> isFeatureFlagKey key then (None, st)
     else case find (\<lambda>flag. adminFlagKey flag = key) (list_flags (override_rows st)) of
       None \<Rightarrow> (None, st)
     | Some before \<Rightarrow>
         let (row, rows) = set_override (newOverrideId env) (flagNow env) key enabled (actorUserId actor) (override_rows st);
             st1 = st\<lparr>override_rows := rows, flag_cache := None\<rparr> in
         (case find (\<lambda>flag. adminFlagKey flag = key) (list_flags rows) of
            None \<Rightarrow> (None, st1)
          | Some after \<Rightarrow> (Some after, st1\<lparr>flag_trail := record_change digest (newFlagTrailId env) (flagNow env)
              \<lparr>changeActor = Some actor, changeAction = FeatureFlagChanged, changeTargetType = ''feature_flag'', changeTargetId = overrideId row,
               changeBefore = Some (auditable_flag before), changeAfter = Some (auditable_flag after), changeReason = Some reason\<rparr> (flag_trail st)\<rparr>)))"

subsection \<open>One switch\<close>

definition flags_ok :: "FeatureFlagOverride list \<Rightarrow> bool" where
  "flags_ok rows \<longleftrightarrow> distinct (map overrideKey rows)"

lemma map_of_rev_distinct: "distinct (map fst xs) \<Longrightarrow> map_of (rev xs) = map_of xs"
  by (subst map_of_inject_set) (simp_all add: rev_map [symmetric])

lemma overrides_value:
  assumes "flags_ok rows" "isFeatureFlagKey key"
  shows "overrides_of rows key = map_option overrideEnabled (find (\<lambda>r. overrideKey r = key) rows)"
proof -
  let ?rs = "filter (\<lambda>r. isFeatureFlagKey (overrideKey r)) rows"
  have reads: "map_of (map (\<lambda>r. (overrideKey r, overrideEnabled r)) rs) key = map_option overrideEnabled (find (\<lambda>r. overrideKey r = key) rs)" for rs
    by (induction rs) auto
  have same: "find (\<lambda>r. overrideKey r = key) ?rs = find (\<lambda>r. overrideKey r = key) rows"
    using assms(2) by (induction rows) auto
  have "distinct (map fst (map (\<lambda>r. (overrideKey r, overrideEnabled r)) ?rs))"
    using assms(1) by (simp add: flags_ok_def comp_def distinct_map_filter)
  from map_of_rev_distinct [OF this] show ?thesis
    unfolding overrides_of_def readThrough_def listOverrides_def by (simp only: reads same)
qed

lemma switched_value:
  assumes "flags_ok rows" "set_override newId now key enabled changedBy rows = (row, rows')"
  shows "flags_ok rows'" "find (\<lambda>r. overrideKey r = key) rows' = Some row" "overrideEnabled row = enabled"
    "k \<noteq> key \<Longrightarrow> find (\<lambda>r. overrideKey r = k) rows' = find (\<lambda>r. overrideKey r = k) rows"
proof -
  have keys: "map overrideKey (map (\<lambda>r. if overrideKey r = key then x else r) rows) = map overrideKey rows" if "overrideKey x = key" for x
    using that by (induction rows) auto
  have mapped: "find (\<lambda>r. overrideKey r = j) (map (\<lambda>r. if overrideKey r = key then x else r) rows)
      = (if j = key then map_option (\<lambda>_. x) (find (\<lambda>r. overrideKey r = key) rows) else find (\<lambda>r. overrideKey r = j) rows)"
    if "overrideKey x = key" for x j
    using that by (induction rows) auto
  have "flags_ok rows' \<and> find (\<lambda>r. overrideKey r = key) rows' = Some row \<and> overrideEnabled row = enabled
      \<and> (k \<noteq> key \<longrightarrow> find (\<lambda>r. overrideKey r = k) rows' = find (\<lambda>r. overrideKey r = k) rows)"
  proof (cases "find (\<lambda>r. overrideKey r = key) rows")
    case None
    then have "key \<notin> overrideKey ` set rows" by (auto simp: find_None_iff)
    then show ?thesis
      using None assms by (auto simp: set_override_def Let_def flags_ok_def find_append split: option.splits)
  next
    case (Some r)
    let ?row = "r\<lparr>overrideEnabled := enabled, overrideChangedById := changedBy, overrideChangedAt := now\<rparr>"
    have r: "overrideKey ?row = key" using find_Some_mem [OF Some] by simp
    have "row = ?row" "rows' = map (\<lambda>x. if overrideKey x = key then ?row else x) rows" using Some assms(2) by (simp_all add: set_override_def Let_def)
    then show ?thesis using assms(1) keys [OF r] mapped [OF r] Some by (simp add: flags_ok_def del: map_map)
  qed
  then show "flags_ok rows'" "find (\<lambda>r. overrideKey r = key) rows' = Some row" "overrideEnabled row = enabled"
    "k \<noteq> key \<Longrightarrow> find (\<lambda>r. overrideKey r = k) rows' = find (\<lambda>r. overrideKey r = k) rows" by auto
qed

subsection \<open>The switch and the caches\<close>

text \<open>
  The processes side by side. Each has a cache; a read takes the overrides at one moment and puts them into the cache of its
  process at a later one, at most \<open>latency\<close> milliseconds later. \<open>switchedAt\<close> is when the row of a key was last written.
\<close>

record FlagSystem =
  system_rows :: "FeatureFlagOverride list"
  system_caches :: "string \<Rightarrow> (int \<times> overrides) option"
  in_flight :: "(string \<times> int \<times> overrides) list"
  switchedAt :: "string \<Rightarrow> int"
  system_clock :: int

inductive flag_step :: "int \<Rightarrow> FlagSystem \<Rightarrow> FlagSystem \<Rightarrow> bool" for latency where
  time_passes: "system_clock s \<le> t \<Longrightarrow> \<forall>(p, started, ov) \<in> set (in_flight s). t \<le> started + latency \<Longrightarrow> flag_step latency s (s\<lparr>system_clock := t\<rparr>)"
| read_starts: "flag_step latency s (s\<lparr>in_flight := (p, system_clock s, overrides_of (system_rows s)) # in_flight s\<rparr>)"
| read_ends: "(p, started, ov) \<in> set (in_flight s) \<Longrightarrow>
    flag_step latency s (s\<lparr>in_flight := remove1 (p, started, ov) (in_flight s), system_caches := (system_caches s)(p := Some (system_clock s, ov))\<rparr>)"
| switches: "isFeatureFlagKey key \<Longrightarrow> set_override newId (system_clock s) key enabled by_whom (system_rows s) = (row, rows) \<Longrightarrow>
    flag_step latency s (s\<lparr>system_rows := rows, switchedAt := (switchedAt s)(key := system_clock s)\<rparr>)"
| drops: "flag_step latency s (s\<lparr>system_caches := (system_caches s)(p := None)\<rparr>)"

definition flag_inv :: "int \<Rightarrow> FlagSystem \<Rightarrow> bool" where
  "flag_inv latency s \<longleftrightarrow> flags_ok (system_rows s)
     \<and> (\<forall>(p, started, ov) \<in> set (in_flight s). system_clock s \<le> started + latency
          \<and> (\<forall>k. isFeatureFlagKey k \<and> switchedAt s k < started \<longrightarrow> ov k = overrides_of (system_rows s) k))
     \<and> (\<forall>p taken ov. system_caches s p = Some (taken, ov) \<longrightarrow>
          (\<forall>k. isFeatureFlagKey k \<and> switchedAt s k + latency < taken \<longrightarrow> ov k = overrides_of (system_rows s) k))
     \<and> (\<forall>(p, started, ov) \<in> set (in_flight s). started \<le> system_clock s)
     \<and> (\<forall>p taken ov. system_caches s p = Some (taken, ov) \<longrightarrow> taken \<le> system_clock s)"

lemma switch_keeps_others:
  assumes "flags_ok rows" "set_override newId now key enabled who rows = (row, rows')" "k \<noteq> key" "isFeatureFlagKey k"
  shows "overrides_of rows' k = overrides_of rows k"
  using switched_value [OF assms(1,2)] overrides_value [OF _ assms(4)] assms(1,3) by simp

lemma flag_step_inv:
  assumes "flag_step latency s s'" "flag_inv latency s" "0 \<le> latency"
  shows "flag_inv latency s'"
  using assms(1)
proof cases
  case (time_passes t)
  then show ?thesis using assms(2) by (fastforce simp: flag_inv_def)
next
  case (read_starts p)
  then show ?thesis using assms(2,3) by (auto simp: flag_inv_def)
next
  case (read_ends p started ov)
  have gone: "x \<in> set (remove1 (p, started, ov) (in_flight s)) \<Longrightarrow> x \<in> set (in_flight s)" for x by (meson notin_set_remove1)
  have read: "system_clock s \<le> started + latency" "\<And>k. isFeatureFlagKey k \<Longrightarrow> switchedAt s k < started \<Longrightarrow> ov k = overrides_of (system_rows s) k"
    using assms(2) read_ends(2) by (auto simp: flag_inv_def)
  show ?thesis unfolding read_ends(1) flag_inv_def
    using assms(2) read by (auto simp: flag_inv_def dest!: gone)
next
  case (switches key newId enabled by_whom row rows)
  have ok: "flags_ok (system_rows s)" using assms(2) by (simp add: flag_inv_def)
  note other = switch_keeps_others [OF ok switches(3)] and ok' = switched_value(1) [OF ok switches(3)]
  have flight: "started \<le> system_clock s" "system_clock s \<le> started + latency"
    "\<And>k. isFeatureFlagKey k \<Longrightarrow> switchedAt s k < started \<Longrightarrow> ov k = overrides_of (system_rows s) k" if "(p, started, ov) \<in> set (in_flight s)" for p started ov
    using assms(2) that by (auto simp: flag_inv_def)
  have cache: "taken \<le> system_clock s"
    "\<And>k. isFeatureFlagKey k \<Longrightarrow> switchedAt s k + latency < taken \<Longrightarrow> ov k = overrides_of (system_rows s) k" if "system_caches s p = Some (taken, ov)" for p taken ov
    using assms(2) that unfolding flag_inv_def by blast+
  have "ov k = overrides_of rows k" if "(p, started, ov) \<in> set (in_flight s)" "isFeatureFlagKey k" "((switchedAt s)(key := system_clock s)) k < started"
    for p started ov k
    using flight [OF that(1)] that(2,3) other by (cases "k = key") auto
  moreover have "ov k = overrides_of rows k" if "system_caches s p = Some (taken, ov)" "isFeatureFlagKey k" "((switchedAt s)(key := system_clock s)) k + latency < taken"
    for p taken ov k
    using cache [OF that(1)] that(2,3) other assms(3) by (cases "k = key") auto
  ultimately show ?thesis
    unfolding switches(1) flag_inv_def using ok' flight(1,2) cache(1)
    by (intro conjI) (auto simp del: fun_upd_apply)
next
  case (drops p)
  then show ?thesis using assms(2) by (auto simp: flag_inv_def)
qed

lemma flag_steps_inv:
  assumes "(flag_step latency)\<^sup>*\<^sup>* s s'" "flag_inv latency s" "0 \<le> latency"
  shows "flag_inv latency s'"
  using assms by (induction rule: rtranclp_induct) (auto intro: flag_step_inv)

definition seen_by :: "string \<Rightarrow> FlagSystem \<Rightarrow> FlagsState" where
  "seen_by p s = \<lparr>override_rows = system_rows s, flag_cache = system_caches s p, flag_trail = []\<rparr>"

lemma isEnabled_value:
  assumes "featureFlagDeclaration key = Some declaration"
  shows "fst (isEnabled race False now later key st)
    = effective declaration (case cached_overrides now (flag_cache st) of Some ov \<Rightarrow> ov | None \<Rightarrow> overrides_of (override_rows st))"
  using assms by (simp add: isEnabled_def Let_def split: option.splits)

lemma declaration_key: "featureFlagDeclaration key = Some d \<Longrightarrow> declaredKey d = key \<and> isFeatureFlagKey key"
  unfolding featureFlagDeclaration_def isFeatureFlagKey_def using find_Some_mem by fastforce


definition quiet_system :: FlagSystem where
  "quiet_system = \<lparr>system_rows = [], system_caches = (\<lambda>_. None), in_flight = [], switchedAt = (\<lambda>_. 0), system_clock = 0\<rparr>"

definition stopped_row :: FeatureFlagOverride where
  "stopped_row = \<lparr>overrideId = ''f1'', overrideKey = ''listing.publication'', overrideEnabled = False, overrideChangedById = ''ann'', overrideChangedAt = 0\<rparr>"


subsection \<open>The administrator's side\<close>

lemma listed_flag:
  assumes "isFeatureFlagKey key" "flags_ok rows"
  obtains flag where "find (\<lambda>flag. adminFlagKey flag = key) (list_flags rows) = Some flag" "adminFlagKey flag = key"
    "\<And>r. find (\<lambda>r. overrideKey r = key) rows = Some r \<Longrightarrow> adminFlagEnabled flag = overrideEnabled r \<and> adminFlagSource flag = FromOverride"
proof -
  have found: "find (\<lambda>r. overrideKey r = key) (rev (readThrough rows)) = Some r" if "find (\<lambda>r. overrideKey r = key) rows = Some r" for r
  proof (rule find_distinct [of overrideKey])
    show "distinct (map overrideKey (rev (readThrough rows)))"
      using assms(2) by (simp add: flags_ok_def readThrough_def listOverrides_def rev_map [symmetric] distinct_map_filter)
    show "r \<in> set (rev (readThrough rows))" "overrideKey r = key"
      using assms(1) find_Some_mem [OF that] by (auto simp: readThrough_def listOverrides_def)
  qed
  obtain d where d: "featureFlagDeclaration key = Some d" "declaredKey d = key"
    using assms(1) by (auto simp: isFeatureFlagKey_def featureFlagDeclaration_def FEATURE_FLAGS_def)
  have "find (\<lambda>flag. adminFlagKey flag = key) (list_flags rows) = map_option (\<lambda>d. list_flags rows ! (if declaredKey d = ''listing.publication'' then 0 else 1)) (featureFlagDeclaration key)"
    by (simp add: list_flags_def featureFlagDeclaration_def FEATURE_FLAGS_def Let_def)
  then show thesis
    using that d found by (auto simp: list_flags_def featureFlagDeclaration_def FEATURE_FLAGS_def Let_def split: if_splits)
qed

text \<open>A switch writes the row, drops the cache of its process and puts one entry with the reason into the trail.\<close>

lemma switch_recorded:
  assumes "isFeatureFlagKey key" "flags_ok (override_rows st)"
    and "set_override (newOverrideId env) (flagNow env) key enabled (actorUserId actor) (override_rows st) = (row, rows)"
  obtains after entry where "set_flag digest env actor key enabled reason st
      = (Some after, \<lparr>override_rows = rows, flag_cache = None, flag_trail = flag_trail st @ [entry]\<rparr>)"
    "adminFlagKey after = key" "adminFlagEnabled after = enabled" "adminFlagSource after = FromOverride"
    "auditAction entry = FeatureFlagChanged" "auditReason entry = Some reason" "afterHash entry = Some (digest (auditable_flag after))"
proof -
  note row = switched_value [OF assms(2,3)]
  obtain before where before: "find (\<lambda>flag. adminFlagKey flag = key) (list_flags (override_rows st)) = Some before"
    by (rule listed_flag [OF assms(1,2)]) blast
  obtain after where after: "find (\<lambda>flag. adminFlagKey flag = key) (list_flags rows) = Some after" "adminFlagKey after = key"
    "adminFlagEnabled after = enabled" "adminFlagSource after = FromOverride"
    using listed_flag [OF assms(1) row(1)] row(2,3) by metis
  show thesis
    by (rule that [of after "audit_entry digest (newFlagTrailId env) (flagNow env)
          \<lparr>changeActor = Some actor, changeAction = FeatureFlagChanged, changeTargetType = ''feature_flag'', changeTargetId = overrideId row,
           changeBefore = Some (auditable_flag before), changeAfter = Some (auditable_flag after), changeReason = Some reason\<rparr>"])
      (use assms(1,3) before after in \<open>simp_all add: set_flag_def record_change_def audit_entry_def\<close>)
qed

text \<open>
  A read that was under way while the switch was thrown puts its old snapshot into the cache that the switch had dropped, so
  the next answer of the process that threw the switch is the old value.
\<close>

lemma late_read_hides_switch:
  "let st = \<lparr>override_rows = [], flag_cache = None, flag_trail = []\<rparr>;
       switch = (\<lambda>st. snd (set_flag auditableKey \<lparr>newOverrideId = ''f1'', newFlagTrailId = ''t1'', flagNow = 5\<rparr>
         \<lparr>actorUserId = ''ann'', actorIpAddress = None, actorSessionId = None\<rparr> ''listing.publication'' False ''incident'' st));
       st' = snd (isEnabled switch False 0 9 ''listing.publication'' st) in
   map overrideEnabled (override_rows st') = [False] \<and> fst (isEnabled id False 10 11 ''listing.publication'' st') = True"
  by code_simp

end
